(* ===== verification/Prelude.thy ===== *)
theory Prelude
  imports Main "HOL-Library.Char_ord" "HOL-Library.List_Lexorder" "HOL-Library.Sublist"
begin

text \<open>
  Shared vocabulary of the development: Python exceptions as values, the combinators that
  sequence checks the way a Python body does (the first failing statement wins), and generic
  lemmas on association lists and tables of rows.  Results of fallible functions are of type
  \<open>py_error + 'a\<close>; bodies that only check and return nothing are lists of optional errors,
  one per statement, whose first error is the outcome.
\<close>

section \<open>Exceptions\<close>

text \<open>
  The exception classes the program raises or catches, with their message where the program
  reads it.  \<open>Validation_Error\<close> and \<open>Projection_Conflict\<close> etc. are the classes declared in
  \<open>admission/validation.py\<close> and \<open>model.py\<close>; the others are Python's own.
\<close>

text \<open>The faults of the snapshot adapter (\<open>query/faults.py\<close>) and the codes of the query service.\<close>

datatype snapshot_fault =
    Fault_Invalid | Fault_Mismatch | Fault_Expired | Fault_Bound_Exceeded | Fault_Unavailable

datatype query_code =
    INVALID_FILTER | INVALID_CURSOR | NOT_ACCEPTABLE | CURSOR_MISMATCH | CURSOR_EXPIRED
  | QUERY_BOUND_EXCEEDED | METHOD_NOT_ALLOWED | ROUTE_NOT_FOUND | QUERY_INTERNAL
  | QUERY_UNAVAILABLE | NOT_FOUND

datatype py_error =
    Validation_Error string
  | Projection_Conflict string
  | Projection_Precondition_Failed string
  | Otlp_Decode_Error string
  | Value_Error string
  | Json_Decode_Error
  | Type_Error string
  | Attribute_Error string
  | Key_Error string
  | Index_Error
  | Overflow_Error
  | Runtime_Error string
  | Integrity_Error string
  | Database_Error string
  | Snapshot_Error snapshot_fault string
  | Query_Error query_code string

type_synonym 'a result = "py_error + 'a"

section \<open>Sequencing checks\<close>

named_theorems checks \<open>unfolding rules for sequences of checks\<close>

definition require :: "bool \<Rightarrow> py_error \<Rightarrow> py_error option" where
  "require c e = (if c then None else Some e)"

fun first_error :: "py_error option list \<Rightarrow> py_error option" where
  "first_error [] = None"
| "first_error (None # cs) = first_error cs"
| "first_error (Some e # cs) = Some e"

definition check_then :: "py_error option \<Rightarrow> 'a result \<Rightarrow> 'a result" where
  "check_then c k = (case c of None \<Rightarrow> k | Some e \<Rightarrow> Inl e)"

definition bind_result :: "'a result \<Rightarrow> ('a \<Rightarrow> 'b result) \<Rightarrow> 'b result" where
  "bind_result r k = (case r of Inl e \<Rightarrow> Inl e | Inr x \<Rightarrow> k x)"

fun map_results :: "('a \<Rightarrow> 'b result) \<Rightarrow> 'a list \<Rightarrow> 'b list result" where
  "map_results f [] = Inr []"
| "map_results f (x # xs) =
     bind_result (f x) (\<lambda>y. bind_result (map_results f xs) (\<lambda>ys. Inr (y # ys)))"

definition error_of :: "'a result \<Rightarrow> py_error option" where
  "error_of r = (case r of Inl e \<Rightarrow> Some e | Inr _ \<Rightarrow> None)"

lemma require_None_iff [simp]: "require c e = None \<longleftrightarrow> c"
  by (simp add: require_def)

lemma require_Some_iff [simp]: "require c e = Some e' \<longleftrightarrow> \<not> c \<and> e' = e"
  by (auto simp: require_def)

lemma require_simps [simp]: "require True e = None" "require False e = Some e"
  by (simp_all add: require_def)

lemma first_error_None_iff [simp]: "first_error cs = None \<longleftrightarrow> (\<forall>c \<in> set cs. c = None)"
  by (induction cs rule: first_error.induct) auto

lemma first_error_mem: "first_error cs = Some e \<Longrightarrow> Some e \<in> set cs"
  by (induction cs rule: first_error.induct) auto

lemma first_error_Cons:
  "first_error (c # cs) = (case c of None \<Rightarrow> first_error cs | Some e \<Rightarrow> Some e)"
  by (cases c) auto

lemma first_error_append:
  "first_error (xs @ ys) = (case first_error xs of None \<Rightarrow> first_error ys | Some e \<Rightarrow> Some e)"
  by (induction xs rule: first_error.induct) auto

text \<open>Every error of a sequence of checks satisfies what every single check's error satisfies.\<close>

lemma first_error_all:
  assumes "first_error cs = Some e" and "\<And>e. Some e \<in> set cs \<Longrightarrow> P e"
  shows "P e"
  using first_error_mem assms by blast

lemma check_then_Inr_iff [simp]: "check_then c k = Inr x \<longleftrightarrow> c = None \<and> k = Inr x"
  by (simp add: check_then_def split: option.splits)

lemma check_then_Inl_iff: "check_then c k = Inl e \<longleftrightarrow> c = Some e \<or> c = None \<and> k = Inl e"
  by (auto simp: check_then_def split: option.splits)

lemma check_then_None [simp]: "check_then None k = k"
  by (simp add: check_then_def)

lemma check_then_Some [simp]: "check_then (Some e) k = Inl e"
  by (simp add: check_then_def)

lemma bind_result_simps [simp]:
  "bind_result (Inl e) k = Inl e"
  "bind_result (Inr x) k = k x"
  by (simp_all add: bind_result_def)

lemma bind_result_Inr_iff: "bind_result r k = Inr y \<longleftrightarrow> (\<exists>x. r = Inr x \<and> k x = Inr y)"
  by (cases r) auto

lemma bind_result_Inl_iff:
  "bind_result r k = Inl e \<longleftrightarrow> r = Inl e \<or> (\<exists>x. r = Inr x \<and> k x = Inl e)"
  by (cases r) auto

lemma map_results_Inr_length: "map_results f xs = Inr ys \<Longrightarrow> length ys = length xs"
  by (induction xs arbitrary: ys) (auto simp: bind_result_Inr_iff)

lemma map_results_Inr_nth:
  "map_results f xs = Inr ys \<Longrightarrow> i < length xs \<Longrightarrow> f (xs ! i) = Inr (ys ! i)"
proof (induction xs arbitrary: ys i)
  case (Cons x xs)
  then show ?case by (cases i) (auto simp: bind_result_Inr_iff)
qed simp

lemma map_results_Inl: "map_results f xs = Inl e \<Longrightarrow> \<exists>x \<in> set xs. f x = Inl e"
  by (induction xs) (auto simp: bind_result_Inl_iff)

lemma map_results_Inr_set: "map_results f xs = Inr ys \<Longrightarrow> x \<in> set xs \<Longrightarrow> \<exists>y. f x = Inr y"
  by (induction xs arbitrary: ys) (auto simp: bind_result_Inr_iff)

lemma map_results_list_all2: "map_results f xs = Inr ys \<longleftrightarrow> list_all2 (\<lambda>x y. f x = Inr y) xs ys"
  by (induction xs arbitrary: ys) (auto simp: bind_result_Inr_iff list_all2_Cons1)

lemma map_results_hit:
  "map_results f xs = Inr ys \<Longrightarrow> x \<in> set xs \<Longrightarrow> \<exists>y \<in> set ys. f x = Inr y"
  by (induction xs arbitrary: ys) (auto simp: bind_result_Inr_iff)

lemma map_results_origin:
  "map_results f xs = Inr ys \<Longrightarrow> y \<in> set ys \<Longrightarrow> \<exists>x \<in> set xs. f x = Inr y"
  by (induction xs arbitrary: ys) (auto simp: bind_result_Inr_iff)

lemma map_results_cong [fundef_cong]:
  "xs = ys \<Longrightarrow> (\<And>x. x \<in> set ys \<Longrightarrow> f x = g x) \<Longrightarrow> map_results f xs = map_results g ys"
proof (induction ys arbitrary: xs)
  case (Cons y ys)
  then show ?case by (simp add: Cons.IH)
qed simp

lemmas result_iffs = bind_result_Inr_iff bind_result_Inl_iff check_then_Inl_iff

section \<open>Tables of rows\<close>

text \<open>
  A database table is the list of its rows; a primary key is a function of the row.  A
  lookup by primary key is \<open>row_with\<close>, an insertion appends, an update maps, a deletion
  filters.
\<close>

definition row_with :: "('r \<Rightarrow> 'k) \<Rightarrow> 'k \<Rightarrow> 'r list \<Rightarrow> 'r option" where
  "row_with f k rs = List.find (\<lambda>r. f r = k) rs"

definition key_unique :: "('r \<Rightarrow> 'k) \<Rightarrow> 'r list \<Rightarrow> bool" where
  "key_unique f rs \<longleftrightarrow> distinct (map f rs)"

lemma row_with_None_iff: "row_with f k rs = None \<longleftrightarrow> k \<notin> f ` set rs"
  by (auto simp: row_with_def find_None_iff)

lemma row_with_SomeD: "row_with f k rs = Some r \<Longrightarrow> r \<in> set rs \<and> f r = k"
  by (auto simp: row_with_def find_Some_iff)

lemma row_with_key_unique:
  "key_unique f rs \<Longrightarrow> r \<in> set rs \<Longrightarrow> row_with f (f r) rs = Some r"
proof (induction rs)
  case (Cons a rs)
  show ?case
  proof (cases "f a = f r")
    case True
    with Cons.prems have "a = r" by (auto simp: key_unique_def image_iff)
    with True show ?thesis by (simp add: row_with_def)
  next
    case False
    with Cons show ?thesis by (auto simp: key_unique_def row_with_def)
  qed
qed simp

lemma key_unique_append:
  "key_unique f rs \<Longrightarrow> row_with f (f r) rs = None \<Longrightarrow> key_unique f (rs @ [r])"
  by (auto simp: key_unique_def row_with_None_iff)

lemma key_unique_filter [intro]: "key_unique f rs \<Longrightarrow> key_unique f (filter P rs)"
  by (simp add: key_unique_def distinct_map_filter)

lemma key_unique_map [intro]:
  "key_unique f rs \<Longrightarrow> (\<And>r. f (g r) = f r) \<Longrightarrow> key_unique f (map g rs)"
  by (simp add: key_unique_def o_def)

lemma key_unique_Nil [simp]: "key_unique f []"
  by (simp add: key_unique_def)

lemma row_with_append:
  "row_with f k (rs @ ss) =
     (case row_with f k rs of None \<Rightarrow> row_with f k ss | Some r \<Rightarrow> Some r)"
  by (induction rs) (auto simp: row_with_def)

lemma row_with_Nil [simp]: "row_with f k [] = None"
  by (simp add: row_with_def)

lemma row_with_Cons: "row_with f k (r # rs) = (if f r = k then Some r else row_with f k rs)"
  by (simp add: row_with_def)

end
