(* ===== verification/Py_Values.thy ===== *)
theory Py_Values
  imports Prelude
begin

text \<open>
  The Python values that cross the program's functions.  A \<open>str\<close> is represented by its UTF-8
  encoding, a list of bytes (HOL's \<open>char\<close>); a lone surrogate, which has no UTF-8 encoding, by the
  three bytes ED A0..BF xx.  Equality, concatenation, prefixes and the order of code points
  are those of the byte strings; \<open>len\<close> counts code points, that is the bytes that are not
  continuation bytes, and \<open>len(s.encode())\<close> is the length of the list.  A finite float is
  represented by the shortest decimal that reads back to it, which is what \<open>repr\<close> prints: sign,
  integer coefficient, power of ten.  Distinct floats have distinct such decimals and the order
  of floats is the order of their decimals.
\<close>

section \<open>Bytes and strings\<close>

definition ord_of :: "char \<Rightarrow> nat" where
  "ord_of c = of_char c"

definition between :: "char \<Rightarrow> char \<Rightarrow> char \<Rightarrow> bool" where
  "between lo hi c \<longleftrightarrow> ord_of lo \<le> ord_of c \<and> ord_of c \<le> ord_of hi"

definition is_digit :: "char \<Rightarrow> bool" where
  "is_digit c \<longleftrightarrow> 48 \<le> ord_of c \<and> ord_of c \<le> 57"

definition is_lower_hex :: "char \<Rightarrow> bool" where
  "is_lower_hex c \<longleftrightarrow> is_digit c \<or> 97 \<le> ord_of c \<and> ord_of c \<le> 102"

definition is_continuation :: "char \<Rightarrow> bool" where
  "is_continuation c \<longleftrightarrow> 128 \<le> ord_of c \<and> ord_of c < 192"

text \<open>\<open>len\<close> of a string counts its code points.\<close>

fun py_len :: "string \<Rightarrow> nat" where
  "py_len [] = 0"
| "py_len (c # cs) = (if is_continuation c then py_len cs else Suc (py_len cs))"

text \<open>\<open>encode()\<close> raises \<open>UnicodeEncodeError\<close>, a \<open>ValueError\<close>, on a lone surrogate.\<close>

fun has_surrogate :: "string \<Rightarrow> bool" where
  "has_surrogate (b # c # cs) = (ord_of b = 237 \<and> 160 \<le> ord_of c \<or> has_surrogate (c # cs))"
| "has_surrogate _ = False"

definition starts_with :: "string \<Rightarrow> string \<Rightarrow> bool" where
  "starts_with s p = prefix p s"

definition ends_with :: "string \<Rightarrow> string \<Rightarrow> bool" where
  "ends_with s p = suffix p s"

lemma starts_with_code [code]: "starts_with s p \<longleftrightarrow> take (length p) s = p"
  by (metis append_eq_conv_conj append_take_drop_id prefix_def starts_with_def)

lemma ends_with_code [code]:
  "ends_with s p \<longleftrightarrow> length p \<le> length s \<and> drop (length s - length p) s = p"
  by (metis ends_with_def suffix_drop suffix_length_le suffix_take append_eq_append_conv
      append_take_drop_id)

lemma ord_of_less_256 [simp]: "ord_of c < 256"
  by (simp add: ord_of_def)

lemma ord_of_inject [simp]: "ord_of c = ord_of d \<longleftrightarrow> c = d"
  by (simp add: ord_of_def)

lemma py_len_le_length: "py_len s \<le> length s"
  by (induction s) auto

lemma py_len_append [simp]: "py_len (s @ t) = py_len s + py_len t"
  by (induction s) auto

lemma py_len_ascii: "list_all (\<lambda>c. ord_of c < 128) s \<Longrightarrow> py_len s = length s"
  by (induction s) (auto simp: is_continuation_def)

section \<open>Decimal numerals\<close>

definition digit_char :: "nat \<Rightarrow> char" where
  "digit_char n = char_of (48 + n)"

fun nat_str :: "nat \<Rightarrow> string" where
  "nat_str n = (if n < 10 then [digit_char n] else nat_str (n div 10) @ [digit_char (n mod 10)])"

declare nat_str.simps [simp del]

definition int_str :: "int \<Rightarrow> string" where
  "int_str i = (if i < 0 then CHR ''-'' # nat_str (nat (- i)) else nat_str (nat i))"

definition digits_val :: "string \<Rightarrow> nat" where
  "digits_val s = foldl (\<lambda>n c. n * 10 + (ord_of c - 48)) 0 s"

lemma ord_of_digit_char [simp]: "n < 10 \<Longrightarrow> ord_of (digit_char n) = 48 + n"
  by (simp add: ord_of_def digit_char_def)

lemma is_digit_digit_char [simp]: "n < 10 \<Longrightarrow> is_digit (digit_char n)"
  by (simp add: is_digit_def)

lemma digits_val_snoc [simp]: "digits_val (s @ [c]) = digits_val s * 10 + (ord_of c - 48)"
  by (simp add: digits_val_def)

lemma digits_val_nat_str [simp]: "digits_val (nat_str n) = n"
proof (induction n rule: nat_str.induct)
  case (1 n)
  show ?case
  proof (cases "n < 10")
    case True
    then show ?thesis by (subst nat_str.simps) (simp add: digits_val_def)
  next
    case False
    with 1 show ?thesis by (subst nat_str.simps) simp
  qed
qed

lemma nat_str_digits: "list_all is_digit (nat_str n)"
proof (induction n rule: nat_str.induct)
  case (1 n)
  then show ?case
    by (cases "n < 10") (subst nat_str.simps, simp)+
qed

lemma nat_str_nonempty [simp]: "nat_str n \<noteq> []"
  by (subst nat_str.simps) simp

lemma nat_str_inject [simp]: "nat_str m = nat_str n \<longleftrightarrow> m = n"
  by (metis digits_val_nat_str)

lemma nat_str_no_leading_zero: "0 < n \<Longrightarrow> hd (nat_str n) \<noteq> CHR ''0''"
proof (induction n rule: nat_str.induct)
  case (1 n)
  show ?case
  proof (cases "n < 10")
    case True
    have "ord_of CHR ''0'' = 48" by (simp add: ord_of_def)
    with True 1(2) have "ord_of (digit_char n) \<noteq> ord_of CHR ''0''" by simp
    then have "digit_char n \<noteq> CHR ''0''" by (auto simp del: ord_of_inject)
    with True show ?thesis by (subst nat_str.simps) simp
  next
    case False
    with 1 have "hd (nat_str (n div 10)) \<noteq> CHR ''0''" by simp
    with False show ?thesis by (subst nat_str.simps) simp
  qed
qed

lemma not_digit_minus [simp]: "\<not> is_digit CHR ''-''"
  by (simp add: is_digit_def ord_of_def)

lemma nat_str_not_minus: "nat_str m \<noteq> CHR ''-'' # s"
  using nat_str_digits [of m] by auto

lemma int_str_inject [simp]: "int_str i = int_str j \<longleftrightarrow> i = j"
proof -
  have "int_str i = int_str j \<Longrightarrow> i = j"
    by (auto simp: int_str_def nat_str_not_minus nat_str_not_minus [symmetric] split: if_splits)
  then show ?thesis by auto
qed

section \<open>Values\<close>

datatype pyfloat = Float_Nan | Float_Inf bool | Float_Dec bool nat int

datatype pyval =
    VNone
  | VBool bool
  | VInt int
  | VFloat pyfloat
  | VStr string
  | VList "pyval list"
  | VTuple "pyval list"
  | VDict "(string \<times> pyval) list"

type_synonym pydict = "(string \<times> pyval) list"

text \<open>
  A dictionary with string keys is its association list in insertion order, without repeated
  keys.  \<open>d.get(k)\<close> is \<open>dget\<close>; \<open>d[k]\<close> on a key the code has checked for is \<open>item\<close>.
\<close>

definition keys :: "pydict \<Rightarrow> string list" where
  "keys d = map fst d"

definition has_key :: "pydict \<Rightarrow> string \<Rightarrow> bool" where
  "has_key d k \<longleftrightarrow> map_of d k \<noteq> None"

definition dget :: "pydict \<Rightarrow> string \<Rightarrow> pyval" where
  "dget d k = (case map_of d k of None \<Rightarrow> VNone | Some v \<Rightarrow> v)"

definition item :: "pydict \<Rightarrow> string \<Rightarrow> pyval result" where
  "item d k = (case map_of d k of None \<Rightarrow> Inl (Key_Error k) | Some v \<Rightarrow> Inr v)"

fun dset :: "pydict \<Rightarrow> string \<Rightarrow> pyval \<Rightarrow> pydict" where
  "dset [] k v = [(k, v)]"
| "dset ((k', v') # d) k v = (if k' = k then (k, v) # d else (k', v') # dset d k v)"

definition str_such :: "(string \<Rightarrow> bool) \<Rightarrow> pyval \<Rightarrow> bool" where
  "str_such P v = (case v of VStr s \<Rightarrow> P s | _ \<Rightarrow> False)"

definition int_such :: "(int \<Rightarrow> bool) \<Rightarrow> pyval \<Rightarrow> bool" where
  "int_such P v = (case v of VInt i \<Rightarrow> P i | _ \<Rightarrow> False)"

definition the_str :: "pyval \<Rightarrow> string" where
  "the_str v = (case v of VStr s \<Rightarrow> s | _ \<Rightarrow> [])"

definition the_dict :: "pyval \<Rightarrow> pydict" where
  "the_dict v = (case v of VDict d \<Rightarrow> d | _ \<Rightarrow> [])"

definition the_list :: "pyval \<Rightarrow> pyval list" where
  "the_list v = (case v of VList xs \<Rightarrow> xs | _ \<Rightarrow> [])"

definition is_dict :: "pyval \<Rightarrow> bool" where
  "is_dict v = (case v of VDict _ \<Rightarrow> True | _ \<Rightarrow> False)"

definition is_list :: "pyval \<Rightarrow> bool" where
  "is_list v = (case v of VList _ \<Rightarrow> True | _ \<Rightarrow> False)"

lemma dget_Nil [simp]: "dget [] k = VNone"
  by (simp add: dget_def)

lemma dget_Cons [simp]: "dget ((k', v) # d) k = (if k' = k then v else dget d k)"
  by (simp add: dget_def)

lemma has_key_Nil [simp]: "\<not> has_key [] k"
  by (simp add: has_key_def)

lemma has_key_Cons [simp]: "has_key ((k', v) # d) k \<longleftrightarrow> k' = k \<or> has_key d k"
  by (simp add: has_key_def)

lemma has_key_iff: "has_key d k \<longleftrightarrow> k \<in> set (keys d)"
  by (simp add: has_key_def keys_def map_of_eq_None_iff)

lemma keys_Nil [simp]: "keys [] = []"
  by (simp add: keys_def)

lemma keys_Cons [simp]: "keys ((k, v) # d) = k # keys d"
  by (simp add: keys_def)

lemma dget_dset: "dget (dset d k v) k' = (if k' = k then v else dget d k')"
  by (induction d k v rule: dset.induct) auto

lemma keys_dset: "keys (dset d k v) = (if has_key d k then keys d else keys d @ [k])"
  by (induction d k v rule: dset.induct) (auto simp: has_key_iff)

lemma dget_map_of: "map_of d k = Some v \<Longrightarrow> dget d k = v"
  by (simp add: dget_def)

lemma item_Inr_iff: "item d k = Inr v \<longleftrightarrow> map_of d k = Some v"
  by (simp add: item_def split: option.splits)

lemma item_has_key: "has_key d k \<Longrightarrow> item d k = Inr (dget d k)"
  by (auto simp: has_key_def item_def dget_def)

lemma str_such_iff: "str_such P v \<longleftrightarrow> (\<exists>s. v = VStr s \<and> P s)"
  by (simp add: str_such_def split: pyval.splits)

lemma int_such_iff: "int_such P v \<longleftrightarrow> (\<exists>i. v = VInt i \<and> P i)"
  by (simp add: int_such_def split: pyval.splits)

lemma str_such_simps [simp]:
  "str_such P (VStr s) = P s" "\<not> str_such P VNone" "\<not> str_such P (VBool b)"
  "\<not> str_such P (VInt i)" "\<not> str_such P (VFloat f)" "\<not> str_such P (VList l)"
  "\<not> str_such P (VTuple l)" "\<not> str_such P (VDict d)"
  by (simp_all add: str_such_def)

lemma int_such_simps [simp]:
  "int_such P (VInt i) = P i" "\<not> int_such P VNone" "\<not> int_such P (VBool b)"
  "\<not> int_such P (VStr s)" "\<not> int_such P (VFloat f)" "\<not> int_such P (VList l)"
  "\<not> int_such P (VTuple l)" "\<not> int_such P (VDict d)"
  by (simp_all add: int_such_def)

lemma the_str_simp [simp]: "the_str (VStr s) = s"
  by (simp add: the_str_def)

lemma the_dict_simp [simp]: "the_dict (VDict d) = d"
  by (simp add: the_dict_def)

lemma the_list_simp [simp]: "the_list (VList l) = l"
  by (simp add: the_list_def)

lemma is_dict_iff: "is_dict v \<longleftrightarrow> (\<exists>d. v = VDict d)"
  by (simp add: is_dict_def split: pyval.splits)

lemma is_list_iff: "is_list v \<longleftrightarrow> (\<exists>l. v = VList l)"
  by (simp add: is_list_def split: pyval.splits)

section \<open>Numbers, equality, hashing\<close>

text \<open>A finite number as coefficient and power of ten; \<open>True\<close> is 1 and \<open>False\<close> is 0.\<close>

definition number_of :: "pyval \<Rightarrow> (int \<times> int) option" where
  "number_of v = (case v of
       VBool b \<Rightarrow> Some (if b then 1 else 0, 0)
     | VInt i \<Rightarrow> Some (i, 0)
     | VFloat (Float_Dec neg c e) \<Rightarrow> Some (if neg then - int c else int c, e)
     | _ \<Rightarrow> None)"

definition dec_le :: "int \<times> int \<Rightarrow> int \<times> int \<Rightarrow> bool" where
  "dec_le a b = (let m = min (snd a) (snd b)
     in fst a * 10 ^ nat (snd a - m) \<le> fst b * 10 ^ nat (snd b - m))"

definition dec_eq :: "int \<times> int \<Rightarrow> int \<times> int \<Rightarrow> bool" where
  "dec_eq a b \<longleftrightarrow> dec_le a b \<and> dec_le b a"

text \<open>Comparison of numeric values; NaN compares false, infinities by their sign.\<close>

definition num_le :: "pyval \<Rightarrow> pyval \<Rightarrow> bool" where
  "num_le v w = (case (number_of v, number_of w) of
       (Some a, Some b) \<Rightarrow> dec_le a b
     | (None, Some _) \<Rightarrow> v = VFloat (Float_Inf True)
     | (Some _, None) \<Rightarrow> w = VFloat (Float_Inf False)
     | (None, None) \<Rightarrow> v = VFloat (Float_Inf True) \<and> w = VFloat (Float_Inf True)
         \<or> v = VFloat (Float_Inf True) \<and> w = VFloat (Float_Inf False)
         \<or> v = VFloat (Float_Inf False) \<and> w = VFloat (Float_Inf False))"

text \<open>
  A float stands for its shortest decimal, so an int equals a float when it equals that decimal;
  Python compares with the binary value, which differs from 2 to the power 53 on
  (1e23 is not \<open>10 ** 23\<close> there).
\<close>

definition scalar_eq :: "pyval \<Rightarrow> pyval \<Rightarrow> bool" where
  "scalar_eq v w = (case (number_of v, number_of w) of
       (Some a, Some b) \<Rightarrow> dec_eq a b
     | (None, None) \<Rightarrow> v = w \<and> v \<noteq> VFloat Float_Nan
     | _ \<Rightarrow> False)"

text \<open>Python's \<open>==\<close>: a tuple is never equal to a list, dictionaries ignore the insertion order.\<close>

fun py_eq :: "pyval \<Rightarrow> pyval \<Rightarrow> bool" where
  "py_eq (VList xs) (VList ys) = list_all2 py_eq xs ys"
| "py_eq (VTuple xs) (VTuple ys) = list_all2 py_eq xs ys"
| "py_eq (VDict d) (VDict e) =
     (length d = length e \<and>
      list_all (\<lambda>kv. case map_of e (fst kv) of None \<Rightarrow> False | Some w \<Rightarrow> py_eq (snd kv) w) d)"
| "py_eq v w = scalar_eq v w"

fun hashable :: "pyval \<Rightarrow> bool" where
  "hashable (VList _) = False"
| "hashable (VDict _) = False"
| "hashable (VTuple vs) = list_all hashable vs"
| "hashable _ = True"

text \<open>\<open>v in {strings}\<close>: membership hashes \<open>v\<close> first, so a list or dictionary raises.\<close>

definition require_in :: "pyval \<Rightarrow> string list \<Rightarrow> py_error \<Rightarrow> py_error option" where
  "require_in v S e =
     (if hashable v then require (str_such (\<lambda>s. s \<in> set S) v) e
      else Some (Type_Error ''unhashable type''))"

lemma require_in_None_iff [simp]: "require_in v S e = None \<longleftrightarrow> (\<exists>s. v = VStr s \<and> s \<in> set S)"
  by (auto simp: require_in_def str_such_iff)

lemma require_in_hashable:
  "hashable v \<Longrightarrow> require_in v S e = Some e' \<Longrightarrow> e' = e"
  by (simp add: require_in_def)

lemma dec_le_refl [simp]: "dec_le a a"
  by (simp add: dec_le_def)

lemma dec_eq_refl [simp]: "dec_eq a a"
  by (simp add: dec_eq_def)

lemma dec_le_int [simp]: "dec_le (a, 0) (b, 0) \<longleftrightarrow> a \<le> b"
  by (simp add: dec_le_def)

lemma scalar_eq_refl: "v \<noteq> VFloat Float_Nan \<Longrightarrow> scalar_eq v v"
  by (simp add: scalar_eq_def split: option.splits)

lemma scalar_eq_str [simp]: "scalar_eq (VStr s) w \<longleftrightarrow> w = VStr s"
  by (auto simp: scalar_eq_def number_of_def split: pyval.splits pyfloat.splits)

lemma py_eq_str [simp]: "py_eq (VStr s) w \<longleftrightarrow> w = VStr s"
  by (cases w) auto

lemma py_eq_str2 [simp]: "py_eq v (VStr s) \<longleftrightarrow> v = VStr s"
  by (cases v) (auto simp: scalar_eq_def number_of_def split: pyfloat.splits)

text \<open>Well-formed values: no repeated dictionary key at any depth and no NaN.\<close>

fun proper :: "pyval \<Rightarrow> bool" where
  "proper (VList vs) = list_all proper vs"
| "proper (VTuple vs) = list_all proper vs"
| "proper (VDict d) = (distinct (map fst d) \<and> list_all (\<lambda>kv. proper (snd kv)) d)"
| "proper (VFloat f) = (f \<noteq> Float_Nan)"
| "proper _ = True"

lemma py_eq_refl: "proper v \<Longrightarrow> py_eq v v"
proof (induction v rule: proper.induct)
  case (1 vs)
  then show ?case by (simp add: list_all2_same list_all_iff)
next
  case (2 vs)
  then show ?case by (simp add: list_all2_same list_all_iff)
next
  case (3 d)
  then have "map_of d (fst kv) = Some (snd kv)" if "kv \<in> set d" for kv
    using that by (simp add: map_of_is_SomeI)
  with 3 show ?case by (auto simp: list_all_iff)
qed (auto intro: scalar_eq_refl)

end
