(* ===== verification/Regex.thy ===== *)
theory Regex
  imports Py_Values
begin

text \<open>
  The fragment of Python's \<open>re\<close> the program uses: character classes, sequence, alternative,
  star and bounded repetition, always with \<open>fullmatch\<close> on the whole string.  The matcher works
  by derivatives; \<open>fullmatch_iff\<close> shows that it decides the language of the expression.
\<close>

section \<open>Expressions and their language\<close>

datatype re =
    Never
  | Empty
  | Class "(char \<times> char) list"
  | Seq re re
  | Alt re re
  | Star re
  | Rep re nat nat

definition in_class :: "(char \<times> char) list \<Rightarrow> char \<Rightarrow> bool" where
  "in_class cs c = list_ex (\<lambda>r. between (fst r) (snd r) c) cs"

definition lits :: "string \<Rightarrow> re" where
  "lits s = foldr (\<lambda>c r. Seq (Class [(c, c)]) r) s Empty"

fun words :: "re \<Rightarrow> string set" where
  "words Never = {}"
| "words Empty = {[]}"
| "words (Class cs) = {[c] | c. in_class cs c}"
| "words (Seq r s) = {u @ v | u v. u \<in> words r \<and> v \<in> words s}"
| "words (Alt r s) = words r \<union> words s"
| "words (Star r) = {concat ws | ws. set ws \<subseteq> words r}"
| "words (Rep r m n) = {concat ws | ws. set ws \<subseteq> words r \<and> m \<le> length ws \<and> length ws \<le> n}"

section \<open>The matcher\<close>

fun nullable :: "re \<Rightarrow> bool" where
  "nullable Never = False"
| "nullable Empty = True"
| "nullable (Class cs) = False"
| "nullable (Seq r s) = (nullable r \<and> nullable s)"
| "nullable (Alt r s) = (nullable r \<or> nullable s)"
| "nullable (Star r) = True"
| "nullable (Rep r m n) = (m \<le> n \<and> (m = 0 \<or> nullable r))"

fun seq :: "re \<Rightarrow> re \<Rightarrow> re" where
  "seq Never s = Never"
| "seq Empty s = s"
| "seq r s = Seq r s"

fun alt :: "re \<Rightarrow> re \<Rightarrow> re" where
  "alt Never s = s"
| "alt r Never = r"
| "alt r s = Alt r s"

fun deriv :: "char \<Rightarrow> re \<Rightarrow> re" where
  "deriv c Never = Never"
| "deriv c Empty = Never"
| "deriv c (Class cs) = (if in_class cs c then Empty else Never)"
| "deriv c (Seq r s) =
     (if nullable r then alt (seq (deriv c r) s) (deriv c s) else seq (deriv c r) s)"
| "deriv c (Alt r s) = alt (deriv c r) (deriv c s)"
| "deriv c (Star r) = seq (deriv c r) (Star r)"
| "deriv c (Rep r m n) = (if n = 0 then Never else seq (deriv c r) (Rep r (m - 1) (n - 1)))"

fun fullmatch :: "re \<Rightarrow> string \<Rightarrow> bool" where
  "fullmatch r [] = nullable r"
| "fullmatch r (c # s) = fullmatch (deriv c r) s"

section \<open>Correctness of the matcher\<close>

lemma words_seq [simp]: "words (seq r s) = words (Seq r s)"
  by (cases r) auto

lemma words_alt [simp]: "words (alt r s) = words (Alt r s)"
  by (cases r; cases s) auto

lemma concat_empties: "set ws \<subseteq> {[]} \<Longrightarrow> concat ws = []"
  by (induction ws) auto

lemma empty_in_rep_iff:
  "(\<exists>ws. concat ws = [] \<and> set ws \<subseteq> W \<and> m \<le> length ws \<and> length ws \<le> n) \<longleftrightarrow>
     m \<le> n \<and> (m = 0 \<or> [] \<in> W)"
proof
  assume "\<exists>ws. concat ws = [] \<and> set ws \<subseteq> W \<and> m \<le> length ws \<and> length ws \<le> n"
  then obtain ws where ws: "concat ws = []" "set ws \<subseteq> W" "m \<le> length ws" "length ws \<le> n"
    by blast
  then show "m \<le> n \<and> (m = 0 \<or> [] \<in> W)" by (cases ws) auto
next
  assume "m \<le> n \<and> (m = 0 \<or> [] \<in> W)"
  then have "concat (replicate m []) = [] \<and> set (replicate m []) \<subseteq> W \<and>
      m \<le> length (replicate m []) \<and> length (replicate m []) \<le> n"
    by auto
  then show "\<exists>ws. concat ws = [] \<and> set ws \<subseteq> W \<and> m \<le> length ws \<and> length ws \<le> n" by blast
qed

lemma nullable_iff: "nullable r \<longleftrightarrow> [] \<in> words r"
proof (induction r)
  case (Star r)
  show ?case by (auto intro: exI [of _ "[]"])
next
  case (Rep r m n)
  then show ?case
    using empty_in_rep_iff [of "words r" m n] by (auto simp: eq_commute [of "[]"])
qed (auto simp del: concat_eq_Nil_conv)

text \<open>Where a concatenation starts with a byte, its first nonempty factor does.\<close>

lemma concat_Cons_split:
  "concat ws = c # s \<Longrightarrow>
     \<exists>es u vs. ws = es @ (c # u) # vs \<and> concat es = [] \<and> s = u @ concat vs"
proof (induction ws)
  case (Cons w ws)
  show ?case
  proof (cases w)
    case Nil
    with Cons obtain es u vs where "ws = es @ (c # u) # vs" "concat es = []" "s = u @ concat vs"
      by auto
    with Nil have "w # ws = (w # es) @ (c # u) # vs \<and> concat (w # es) = [] \<and> s = u @ concat vs"
      by simp
    then show ?thesis by blast
  next
    case (Cons d u)
    with Cons.prems have "w # ws = [] @ (c # u) # ws \<and> concat [] = [] \<and> s = u @ concat ws"
      by simp
    then show ?thesis by blast
  qed
qed simp

lemma rep_Cons_iff:
  "(\<exists>ws. concat ws = c # s \<and> set ws \<subseteq> W \<and> m \<le> length ws \<and> length ws \<le> n) \<longleftrightarrow>
     n \<noteq> 0 \<and> (\<exists>u ws. s = u @ concat ws \<and> c # u \<in> W \<and> set ws \<subseteq> W \<and>
       m - 1 \<le> length ws \<and> length ws \<le> n - 1)" (is "?L \<longleftrightarrow> ?R")
proof
  assume ?L
  then obtain ws where ws: "concat ws = c # s" "set ws \<subseteq> W" "m \<le> length ws" "length ws \<le> n"
    by blast
  from concat_Cons_split [OF ws(1)] obtain es u vs
    where e: "ws = es @ (c # u) # vs" "concat es = []" "s = u @ concat vs" by blast
  from ws e have "s = u @ concat (es @ vs) \<and> c # u \<in> W \<and> set (es @ vs) \<subseteq> W \<and>
      m - 1 \<le> length (es @ vs) \<and> length (es @ vs) \<le> n - 1 \<and> n \<noteq> 0"
    by auto
  then show ?R by blast
next
  assume ?R
  then obtain u ws where n: "n \<noteq> 0" and ws: "s = u @ concat ws" "c # u \<in> W" "set ws \<subseteq> W"
    "m - 1 \<le> length ws" "length ws \<le> n - 1" by blast
  then have "concat ((c # u) # ws) = c # s \<and> set ((c # u) # ws) \<subseteq> W \<and>
      m \<le> length ((c # u) # ws) \<and> length ((c # u) # ws) \<le> n"
    by auto
  then show ?L by blast
qed

lemma star_Cons_iff:
  "(\<exists>ws. concat ws = c # s \<and> set ws \<subseteq> W) \<longleftrightarrow>
     (\<exists>u ws. s = u @ concat ws \<and> c # u \<in> W \<and> set ws \<subseteq> W)" (is "?L \<longleftrightarrow> ?R")
proof
  assume ?L
  then obtain ws where ws: "concat ws = c # s" "set ws \<subseteq> W" by blast
  from concat_Cons_split [OF ws(1)] obtain es u vs
    where "ws = es @ (c # u) # vs" "concat es = []" "s = u @ concat vs" by blast
  with ws have "s = u @ concat vs \<and> c # u \<in> W \<and> set vs \<subseteq> W" by auto
  then show ?R by blast
next
  assume ?R
  then obtain u ws where "s = u @ concat ws" "c # u \<in> W" "set ws \<subseteq> W" by blast
  then have "concat ((c # u) # ws) = c # s \<and> set ((c # u) # ws) \<subseteq> W" by simp
  then show ?L by blast
qed

lemma words_deriv: "s \<in> words (deriv c r) \<longleftrightarrow> c # s \<in> words r"
proof (induction r arbitrary: s)
  case (Seq r1 r2)
  have "c # s \<in> words (Seq r1 r2) \<longleftrightarrow>
      (\<exists>u v. s = u @ v \<and> c # u \<in> words r1 \<and> v \<in> words r2) \<or> [] \<in> words r1 \<and> c # s \<in> words r2"
    by (auto simp: Cons_eq_append_conv)
  with Seq show ?case by (auto simp: nullable_iff)
next
  case (Star r)
  have "c # s \<in> words (Star r) \<longleftrightarrow>
      (\<exists>u ws. s = u @ concat ws \<and> c # u \<in> words r \<and> set ws \<subseteq> words r)"
    using star_Cons_iff [of c s "words r"] by (auto simp: eq_commute)
  also have "\<dots> \<longleftrightarrow> s \<in> words (deriv c (Star r))"
    by (auto simp: Star.IH)
  finally show ?case ..
next
  case (Rep r m n)
  have "c # s \<in> words (Rep r m n) \<longleftrightarrow>
      n \<noteq> 0 \<and> (\<exists>u ws. s = u @ concat ws \<and> c # u \<in> words r \<and> set ws \<subseteq> words r \<and>
       m - 1 \<le> length ws \<and> length ws \<le> n - 1)"
    unfolding words.simps mem_Collect_eq rep_Cons_iff [of c s "words r" m n, symmetric]
    by (simp only: eq_commute [of "c # s"])
  also have "\<dots> \<longleftrightarrow> s \<in> words (deriv c (Rep r m n))"
  proof (cases "n = 0")
    case False
    then have "s \<in> words (deriv c (Rep r m n)) \<longleftrightarrow>
        (\<exists>u v. s = u @ v \<and> c # u \<in> words r \<and> v \<in> words (Rep r (m - 1) (n - 1)))"
      by (simp add: Rep.IH del: words.simps(7))
    with False show ?thesis by (simp only: words.simps(7) mem_Collect_eq) blast
  qed simp
  finally show ?case ..
qed auto

theorem fullmatch_iff: "fullmatch r s \<longleftrightarrow> s \<in> words r"
  by (induction s arbitrary: r) (simp_all add: nullable_iff words_deriv)

text \<open>A bounded repetition of one class only bounds the length and constrains each byte.\<close>

lemma words_class_list: "set ws \<subseteq> words (Class cs) \<Longrightarrow>
   length (concat ws) = length ws \<and> list_all (in_class cs) (concat ws)"
  by (induction ws) auto

lemma rep_class_words:
  "s \<in> words (Rep (Class cs) m n) \<longleftrightarrow> m \<le> length s \<and> length s \<le> n \<and> list_all (in_class cs) s"
proof
  assume "s \<in> words (Rep (Class cs) m n)"
  then obtain ws where "s = concat ws" "set ws \<subseteq> words (Class cs)" "m \<le> length ws" "length ws \<le> n"
    by auto
  with words_class_list show "m \<le> length s \<and> length s \<le> n \<and> list_all (in_class cs) s" by metis
next
  assume s: "m \<le> length s \<and> length s \<le> n \<and> list_all (in_class cs) s"
  let ?ws = "map (\<lambda>c. [c]) s"
  from s have "s = concat ?ws \<and> set ?ws \<subseteq> words (Class cs) \<and> m \<le> length ?ws \<and> length ?ws \<le> n"
    by (auto simp: list_all_iff)
  then show "s \<in> words (Rep (Class cs) m n)" unfolding words.simps by blast
qed

lemma fullmatch_rep_class:
  "fullmatch (Rep (Class cs) m n) s \<longleftrightarrow>
     m \<le> length s \<and> length s \<le> n \<and> list_all (in_class cs) s"
  by (simp only: fullmatch_iff rep_class_words)

lemma fullmatch_head_rep:
  "fullmatch (Seq (Class as) (Rep (Class cs) m n)) s \<longleftrightarrow>
     (\<exists>c t. s = c # t \<and> in_class as c \<and> m \<le> length t \<and> length t \<le> n \<and> list_all (in_class cs) t)"
proof -
  have "s \<in> words (Seq (Class as) (Rep (Class cs) m n)) \<longleftrightarrow>
      (\<exists>c t. s = c # t \<and> in_class as c \<and> t \<in> words (Rep (Class cs) m n))"
    by (simp only: words.simps(3,4) mem_Collect_eq) (metis append_Cons append_Nil)
  then show ?thesis by (simp only: fullmatch_iff rep_class_words)
qed

lemma star_class_words:
  "s \<in> words (Star (Class cs)) \<longleftrightarrow> list_all (in_class cs) s"
proof
  assume "s \<in> words (Star (Class cs))"
  then show "list_all (in_class cs) s" using words_class_list by auto
next
  assume s: "list_all (in_class cs) s"
  have "s = concat (map (\<lambda>c. [c]) s) \<and> set (map (\<lambda>c. [c]) s) \<subseteq> words (Class cs)"
    using s by (auto simp: list_all_iff)
  then show "s \<in> words (Star (Class cs))" unfolding words.simps by blast
qed

lemma in_class_single [simp]: "in_class [(c, c)] d \<longleftrightarrow> d = c"
  by (auto simp: in_class_def between_def simp flip: ord_of_inject)

lemma lits_words [simp]: "words (lits p) = {p}"
  by (induction p) (auto simp: lits_def)

end
