(* ===== verification/Sha256.thy ===== *)
theory Sha256
  imports Py_Values "HOL-Library.Word"
begin

unbundle bit_operations_syntax

text \<open>
  \<open>hashlib.sha256(...).hexdigest()\<close>, computed: padding, message schedule and the 64 rounds on
  32-bit words.  The development uses that a digest is always 64 lowercase hexadecimal digits
  (\<open>sha256_hex_wf\<close>).
\<close>

type_synonym w32 = "32 word"

text \<open>
  The constants are the first 32 bits of the fractional parts of the cube roots of the first 64
  primes (the last is 311), and of the square roots of the first eight.
\<close>

definition small_primes :: "nat list" where
  "small_primes = filter (\<lambda>p. list_all (\<lambda>d. p mod d \<noteq> 0) [2..<p]) [2..<312]"

text \<open>The largest number of at most \<open>b\<close> bits above \<open>r\<close> whose \<open>k\<close>-th power is at most \<open>n\<close>.\<close>

fun root_bits :: "nat \<Rightarrow> nat \<Rightarrow> nat \<Rightarrow> nat \<Rightarrow> nat" where
  "root_bits k n 0 r = r"
| "root_bits k n (Suc b) r =
     (let r' = r + 2 ^ b in root_bits k n b (if r' ^ k \<le> n then r' else r))"

definition root_fraction :: "nat \<Rightarrow> nat \<Rightarrow> w32" where
  "root_fraction k p = of_nat (root_bits k (p * 2 ^ (32 * k)) 40 0)"

definition round_constants :: "w32 list" where
  "round_constants = map (root_fraction 3) small_primes"

definition initial_hash :: "w32 list" where
  "initial_hash = map (root_fraction 2) (take 8 small_primes)"

definition rotr :: "nat \<Rightarrow> w32 \<Rightarrow> w32" where
  "rotr n x = drop_bit n x OR push_bit (32 - n) x"

definition big_endian_word :: "char list \<Rightarrow> w32" where
  "big_endian_word bs = foldl (\<lambda>n b. n * 256 + of_char b) 0 bs"

fun chunks :: "nat \<Rightarrow> 'a list \<Rightarrow> 'a list list" where
  "chunks n xs = (if n = 0 \<or> xs = [] then [] else take n xs # chunks n (drop n xs))"

declare chunks.simps [simp del]

definition length_bytes :: "nat \<Rightarrow> string" where
  "length_bytes bits = map (\<lambda>i. char_of (bits div 256 ^ (7 - i) mod 256)) [0..<8]"

definition padded :: "string \<Rightarrow> string" where
  "padded m = m @ [char_of (128 :: nat)]
     @ replicate ((119 - length m mod 64) mod 64) (char_of (0 :: nat))
     @ length_bytes (8 * length m)"

text \<open>The schedule is extended by one word from its last sixteen, newest first.\<close>

fun extend_schedule :: "nat \<Rightarrow> w32 list \<Rightarrow> w32 list" where
  "extend_schedule 0 ws = ws"
| "extend_schedule (Suc n) ws =
     (let w15 = ws ! 14; w2 = ws ! 1;
          s0 = rotr 7 w15 XOR rotr 18 w15 XOR drop_bit 3 w15;
          s1 = rotr 17 w2 XOR rotr 19 w2 XOR drop_bit 10 w2
      in extend_schedule n ((ws ! 15 + s0 + ws ! 6 + s1) # ws))"

definition schedule :: "string \<Rightarrow> w32 list" where
  "schedule block = rev (extend_schedule 48 (rev (map big_endian_word (chunks 4 block))))"

fun sha_round :: "w32 list \<Rightarrow> w32 \<times> w32 \<Rightarrow> w32 list" where
  "sha_round [a, b, c, d, e, f, g, h] (k, w) =
     (let t1 = h + (rotr 6 e XOR rotr 11 e XOR rotr 25 e) + ((e AND f) XOR (NOT e AND g)) + k + w;
          t2 = (rotr 2 a XOR rotr 13 a XOR rotr 22 a) + ((a AND b) XOR (a AND c) XOR (b AND c))
      in [t1 + t2, a, b, c, d + t1, e, f, g])"
| "sha_round s kw = s"

definition compress :: "w32 list \<Rightarrow> string \<Rightarrow> w32 list" where
  "compress h block = map2 (+) h (foldl sha_round h (zip round_constants (schedule block)))"

definition sha256_words :: "string \<Rightarrow> w32 list" where
  "sha256_words m = foldl compress initial_hash (chunks 64 (padded m))"

definition hex_digit :: "nat \<Rightarrow> char" where
  "hex_digit n = (if n < 10 then char_of (48 + n) else char_of (87 + n))"

definition word_hex :: "w32 \<Rightarrow> string" where
  "word_hex w = map (\<lambda>i. hex_digit (unat w div 16 ^ (7 - i) mod 16)) [0..<8]"

definition sha256_hex :: "string \<Rightarrow> string" where
  "sha256_hex m = concat (map word_hex (sha256_words m))"

section \<open>Shape of a digest\<close>

lemma length_sha_round: "length s = 8 \<Longrightarrow> length (sha_round s kw) = 8"
  by (cases "(s, kw)" rule: sha_round.cases) (auto simp: Let_def)

lemma length_foldl_sha_round: "length s = 8 \<Longrightarrow> length (foldl sha_round s kws) = 8"
  by (induction kws arbitrary: s) (auto simp: length_sha_round)

lemma length_compress: "length h = 8 \<Longrightarrow> length (compress h b) = 8"
  by (simp add: compress_def length_foldl_sha_round)

lemma first_primes: "take 8 small_primes = [2, 3, 5, 7, 11, 13, 17, 19]"
proof -
  have upt: "[2..<312] = [2..<20] @ [20..<312 :: nat]" using upt_add_eq_append [of 2 20 292] by simp
  have "filter (\<lambda>p. list_all (\<lambda>d. p mod d \<noteq> 0) [2..<p]) [2..<20 :: nat] =
      [2, 3, 5, 7, 11, 13, 17, 19]"
    by (simp add: upt_rec_numeral)
  then show ?thesis by (simp add: small_primes_def upt del: upt_rec_numeral)
qed

lemma length_initial_hash: "length initial_hash = 8"
  by (simp only: initial_hash_def first_primes length_map) simp

lemma length_sha256_words: "length (sha256_words m) = 8"
proof -
  have "length (foldl compress h bs) = 8" if "length h = 8" for h bs
    using that by (induction bs arbitrary: h) (auto simp: length_compress)
  then show ?thesis by (simp add: sha256_words_def length_initial_hash)
qed

lemma is_lower_hex_hex_digit: "n < 16 \<Longrightarrow> is_lower_hex (hex_digit n)"
  by (simp add: hex_digit_def is_lower_hex_def is_digit_def ord_of_def)

lemma word_hex_wf: "length (word_hex w) = 8 \<and> list_all is_lower_hex (word_hex w)"
  by (simp add: word_hex_def list_all_iff is_lower_hex_hex_digit)

lemma concat_word_hex_wf:
  "length (concat (map word_hex ws)) = 8 * length ws \<and>
   list_all is_lower_hex (concat (map word_hex ws))"
  by (induction ws) (use word_hex_wf in auto)

lemma sha256_hex_wf: "length (sha256_hex m) = 64 \<and> list_all is_lower_hex (sha256_hex m)"
  using concat_word_hex_wf [of "sha256_words m"] length_sha256_words [of m]
  by (simp add: sha256_hex_def)

lemma length_sha256_hex [simp]: "length (sha256_hex m) = 64"
  using sha256_hex_wf by blast


end
