(* ===== verification/Profile.thy ===== *)
theory Profile
  imports Regex Sha256
begin

text \<open>
  The constant tables of the observation profile (\<open>admission/validation.py\<close>, module level):
  record fields, attribute types, enumerations, the allowed and required attributes of every
  event, and the regular expressions.  A Python set of names is the list of its members; a
  table from names is a function to \<open>option\<close>, with \<open>None\<close> for an absent key.
\<close>

section \<open>Profile and scope pins\<close>

definition PROFILE_VERSION :: string where
  "PROFILE_VERSION = ''1.0.0''"

definition TASK_PROFILE_VERSION :: string where
  "TASK_PROFILE_VERSION = ''2.0.0''"

definition SCOPE :: pydict where
  "SCOPE = [(''name'', VStr ''io.agentops.dsh.observation''), (''version'', VStr ''1.0.0''),
     (''schema_url'', VStr ''https://opentelemetry.io/schemas/1.41.0'')]"

definition TASK_SCOPE :: pydict where
  "TASK_SCOPE = dset SCOPE ''version'' (VStr TASK_PROFILE_VERSION)"

definition RESOURCE_FIELDS :: "string list" where
  "RESOURCE_FIELDS = [''service.name'', ''service.version'']"

section \<open>Attribute and event tables\<close>

definition EVENT_NAMES :: "string list" where
  "EVENT_NAMES = [
    ''delivery.summary'', ''review.finding'', ''review.summary'', ''test.summary'',
    ''implementation.summary'', ''system_design.summary'', ''role.lineage'', ''intervention'',
    ''usage'', ''sampling.decision'']"

definition STANDARD_STRING_FIELDS :: "string list" where
  "STANDARD_STRING_FIELDS = [
    ''gen_ai.operation.name'', ''gen_ai.agent.id'', ''gen_ai.agent.name'', ''gen_ai.agent.version'',
    ''gen_ai.provider.name'', ''gen_ai.request.model'', ''gen_ai.response.model'',
    ''gen_ai.tool.name'', ''gen_ai.tool.type'', ''gen_ai.tool.call.id'', ''error.type'']"

definition STANDARD_INTEGER_FIELDS :: "string list" where
  "STANDARD_INTEGER_FIELDS = [
    ''gen_ai.usage.input_tokens'', ''gen_ai.usage.output_tokens'']"

definition INTEGER_FIELDS :: "string list" where
  "INTEGER_FIELDS = [
    ''agentops.review.total'', ''agentops.review.observed.count'', ''agentops.observed.loop.count'',
    ''agentops.observed.intervention.count'', ''agentops.usage.value'', ''agentops.test.passed'',
    ''agentops.test.failed'', ''agentops.test.skipped'', ''agentops.coverage.covered'',
    ''agentops.coverage.total'', ''agentops.fresh_reader.finding.count'',
    ''agentops.verification.check.passed'', ''agentops.verification.check.failed'']"

definition NUMBER_FIELDS :: "string list" where
  "NUMBER_FIELDS = [
    ''agentops.sampling.probability'', ''agentops.delivery.elapsed_time_ms'',
    ''agentops.test.duration.seconds'']"

definition COMMON_STRING_FIELDS :: "string list" where
  "COMMON_STRING_FIELDS = [
    ''agentops.delivery.id'', ''agentops.task.id'', ''agentops.workflow.id'',
    ''agentops.workflow.version'', ''agentops.implementation.id'', ''agentops.runtime.id'',
    ''agentops.manifest.digest'', ''agentops.workflow.family'', ''agentops.event.id'',
    ''agentops.delivery.outcome'', ''agentops.summary.state'', ''agentops.review.id'',
    ''agentops.review.lens'', ''agentops.review.scope'', ''agentops.review.severity'',
    ''agentops.finding.id'', ''agentops.finding.status'', ''agentops.source.review.id'',
    ''agentops.fix.id'', ''agentops.fix.finding.id'', ''agentops.recheck.id'',
    ''agentops.recheck.review.id'', ''agentops.recheck.finding.id'', ''agentops.recheck.fix.id'',
    ''agentops.iteration.id'', ''agentops.artifact.id'', ''agentops.artifact.digest'',
    ''agentops.role.id'', ''agentops.role.lineage.id'', ''agentops.parent.role.id'',
    ''agentops.writer.role.id'', ''agentops.reviewer.role.id'', ''agentops.recheck.role.id'',
    ''agentops.writer.invocation.id'', ''agentops.reviewer.invocation.id'',
    ''agentops.recheck.invocation.id'', ''agentops.intervention.kind'', ''agentops.usage.kind'',
    ''agentops.usage.unit'', ''agentops.usage.source'', ''agentops.usage.source.id'',
    ''agentops.sampling.decision'', ''agentops.family.schema'', ''agentops.finding.summary'',
    ''agentops.finding.scope.id'', ''agentops.finding.target.kind'', ''agentops.finding.target.id'',
    ''agentops.finding.target.artifact.id'', ''agentops.delivery.stage.reached'',
    ''agentops.model.id'', ''agentops.task.display_name'', ''agentops.delivery.manifest_projection'',
    ''agentops.delivery.manifest_projection_digest'']"

definition FAMILY_STRING_FIELDS :: "string list" where
  "FAMILY_STRING_FIELDS = [
    ''agentops.coverage.dimension'', ''agentops.coverage.scope'', ''agentops.coverage.tool.id'',
    ''agentops.coverage.format'', ''agentops.fresh_reader.result'', ''agentops.verification.id'',
    ''agentops.verification.result'']"

definition ENUMS :: "(string \<times> string list) list" where
  "ENUMS = [
    (''agentops.delivery.outcome'', [
      ''COMPLETED'', ''INCOMPLETE'', ''FAILED'', ''CANCELLED'', ''START_FAILED'']),
    (''agentops.summary.state'', [
      ''FINAL'', ''LOWER_BOUND'', ''NOT_APPLICABLE'', ''UNAVAILABLE'']),
    (''agentops.review.lens'', [
      ''GOAL_BLACKBOX'', ''IMPLEMENTATION_WHITEBOX'', ''ARCHITECTURE'', ''PROBLEM_SOLUTION'',
      ''QUALITY_ACCEPTANCE'', ''FRESH_READER'']),
    (''agentops.review.severity'', [
      ''BLOCKING'', ''MAJOR'', ''MINOR'']),
    (''agentops.finding.status'', [
      ''OPEN'', ''CLOSED_FIXED'', ''CLOSED_NOT_VALID'', ''ACCEPTED_MINOR'']),
    (''agentops.intervention.kind'', [
      ''USER_REDIRECT'']),
    (''agentops.usage.kind'', [
      ''native_credit'', ''request'', ''premium_request'', ''provider_native'', ''money'']),
    (''agentops.usage.source'', [
      ''runtime'', ''provider'']),
    (''agentops.sampling.decision'', [
      ''RECORD_AND_SAMPLE'', ''DROP'']),
    (''agentops.finding.target.kind'', [
      ''ARTIFACT'', ''SECTION'', ''COMPONENT'', ''REQUIREMENT'']),
    (''agentops.coverage.dimension'', [
      ''line'', ''branch'', ''function'']),
    (''agentops.fresh_reader.result'', [
      ''PASS'', ''FINDINGS_REPORTED'']),
    (''agentops.verification.result'', [
      ''PASS'', ''FAIL'', ''INCONCLUSIVE'', ''KNOWN_RED_NO_DELTA''])]"

definition allowed_task_binding :: "string list" where
  "allowed_task_binding = [
    ''agentops.delivery.id'', ''agentops.task.id'', ''agentops.manifest.digest'',
    ''agentops.workflow.family'', ''agentops.event.id'', ''agentops.task.display_name'',
    ''agentops.family.schema'', ''agentops.delivery.manifest_projection'',
    ''agentops.delivery.manifest_projection_digest'']"

definition required_task_binding :: "string list" where
  "required_task_binding = [
    ''agentops.delivery.id'', ''agentops.task.id'', ''agentops.manifest.digest'',
    ''agentops.workflow.family'', ''agentops.event.id'', ''agentops.family.schema'',
    ''agentops.delivery.manifest_projection'', ''agentops.delivery.manifest_projection_digest'']"

definition allowed_delivery_summary :: "string list" where
  "allowed_delivery_summary = [
    ''agentops.workflow.family'', ''agentops.event.id'', ''agentops.delivery.outcome'',
    ''agentops.summary.state'', ''agentops.role.id'', ''agentops.family.schema'',
    ''agentops.delivery.elapsed_time_ms'', ''agentops.delivery.stage.reached'']"

definition required_delivery_summary :: "string list" where
  "required_delivery_summary = [
    ''agentops.workflow.family'', ''agentops.event.id'', ''agentops.delivery.outcome'',
    ''agentops.summary.state'', ''agentops.family.schema'']"

definition allowed_review_finding :: "string list" where
  "allowed_review_finding = [
    ''agentops.workflow.family'', ''agentops.event.id'', ''agentops.review.id'',
    ''agentops.review.lens'', ''agentops.review.scope'', ''agentops.review.severity'',
    ''agentops.finding.id'', ''agentops.finding.status'', ''agentops.source.review.id'',
    ''agentops.fix.id'', ''agentops.fix.finding.id'', ''agentops.recheck.id'',
    ''agentops.recheck.review.id'', ''agentops.recheck.finding.id'', ''agentops.recheck.fix.id'',
    ''agentops.iteration.id'', ''agentops.artifact.id'', ''agentops.artifact.digest'',
    ''agentops.writer.role.id'', ''agentops.reviewer.role.id'', ''agentops.recheck.role.id'',
    ''agentops.writer.invocation.id'', ''agentops.reviewer.invocation.id'',
    ''agentops.recheck.invocation.id'', ''agentops.family.schema'', ''agentops.finding.summary'',
    ''agentops.finding.scope.id'', ''agentops.finding.target.kind'', ''agentops.finding.target.id'',
    ''agentops.finding.target.artifact.id'']"

definition required_review_finding :: "string list" where
  "required_review_finding = [
    ''agentops.workflow.family'', ''agentops.event.id'', ''agentops.review.id'',
    ''agentops.review.lens'', ''agentops.review.scope'', ''agentops.review.severity'',
    ''agentops.finding.id'', ''agentops.finding.status'', ''agentops.source.review.id'',
    ''agentops.artifact.id'', ''agentops.artifact.digest'', ''agentops.writer.role.id'',
    ''agentops.reviewer.role.id'', ''agentops.writer.invocation.id'',
    ''agentops.reviewer.invocation.id'', ''agentops.family.schema'', ''agentops.finding.summary'',
    ''agentops.finding.scope.id'', ''agentops.finding.target.kind'', ''agentops.finding.target.id'']"

definition allowed_review_summary :: "string list" where
  "allowed_review_summary = [
    ''agentops.workflow.family'', ''agentops.event.id'', ''agentops.summary.state'',
    ''agentops.review.id'', ''agentops.review.lens'', ''agentops.review.scope'',
    ''agentops.review.total'', ''agentops.review.observed.count'', ''agentops.recheck.id'',
    ''agentops.recheck.review.id'', ''agentops.recheck.finding.id'', ''agentops.recheck.fix.id'',
    ''agentops.iteration.id'', ''agentops.artifact.id'', ''agentops.artifact.digest'',
    ''agentops.writer.role.id'', ''agentops.reviewer.role.id'', ''agentops.recheck.role.id'',
    ''agentops.writer.invocation.id'', ''agentops.reviewer.invocation.id'',
    ''agentops.recheck.invocation.id'', ''agentops.family.schema'', ''agentops.fresh_reader.result'',
    ''agentops.fresh_reader.finding.count'']"

definition required_review_summary :: "string list" where
  "required_review_summary = [
    ''agentops.workflow.family'', ''agentops.event.id'', ''agentops.summary.state'',
    ''agentops.review.id'', ''agentops.review.lens'', ''agentops.review.scope'',
    ''agentops.artifact.id'', ''agentops.artifact.digest'', ''agentops.writer.role.id'',
    ''agentops.reviewer.role.id'', ''agentops.writer.invocation.id'',
    ''agentops.reviewer.invocation.id'', ''agentops.family.schema'']"

definition allowed_test_summary :: "string list" where
  "allowed_test_summary = [
    ''agentops.workflow.family'', ''agentops.event.id'', ''agentops.summary.state'',
    ''agentops.artifact.id'', ''agentops.artifact.digest'', ''agentops.role.id'',
    ''agentops.family.schema'', ''agentops.test.passed'', ''agentops.test.failed'',
    ''agentops.test.skipped'', ''agentops.test.duration.seconds'']"

definition required_test_summary :: "string list" where
  "required_test_summary = [
    ''agentops.workflow.family'', ''agentops.event.id'', ''agentops.summary.state'',
    ''agentops.artifact.id'', ''agentops.artifact.digest'', ''agentops.family.schema'',
    ''agentops.test.passed'', ''agentops.test.failed'', ''agentops.test.skipped'']"

definition allowed_implementation_summary :: "string list" where
  "allowed_implementation_summary = [
    ''agentops.workflow.family'', ''agentops.event.id'', ''agentops.summary.state'',
    ''agentops.artifact.id'', ''agentops.artifact.digest'', ''agentops.role.id'',
    ''agentops.observed.loop.count'', ''agentops.observed.intervention.count'',
    ''agentops.family.schema'', ''agentops.coverage.dimension'', ''agentops.coverage.covered'',
    ''agentops.coverage.total'', ''agentops.coverage.scope'', ''agentops.coverage.tool.id'',
    ''agentops.coverage.format'']"

definition required_implementation_summary :: "string list" where
  "required_implementation_summary = [
    ''agentops.workflow.family'', ''agentops.event.id'', ''agentops.summary.state'',
    ''agentops.artifact.id'', ''agentops.artifact.digest'', ''agentops.family.schema'',
    ''agentops.coverage.dimension'', ''agentops.coverage.covered'', ''agentops.coverage.total'',
    ''agentops.coverage.scope'', ''agentops.coverage.tool.id'', ''agentops.coverage.format'']"

definition allowed_system_design_summary :: "string list" where
  "allowed_system_design_summary = [
    ''agentops.workflow.family'', ''agentops.event.id'', ''agentops.summary.state'',
    ''agentops.artifact.id'', ''agentops.artifact.digest'', ''agentops.role.id'',
    ''agentops.observed.loop.count'', ''agentops.observed.intervention.count'',
    ''agentops.family.schema'', ''agentops.verification.id'', ''agentops.verification.result'',
    ''agentops.verification.check.passed'', ''agentops.verification.check.failed'']"

definition required_system_design_summary :: "string list" where
  "required_system_design_summary = [
    ''agentops.workflow.family'', ''agentops.event.id'', ''agentops.summary.state'',
    ''agentops.artifact.id'', ''agentops.artifact.digest'', ''agentops.family.schema'',
    ''agentops.verification.id'', ''agentops.verification.result'',
    ''agentops.verification.check.passed'', ''agentops.verification.check.failed'']"

definition allowed_role_lineage :: "string list" where
  "allowed_role_lineage = [
    ''agentops.workflow.family'', ''agentops.event.id'', ''agentops.role.id'',
    ''agentops.role.lineage.id'', ''agentops.parent.role.id'', ''agentops.family.schema'']"

definition required_role_lineage :: "string list" where
  "required_role_lineage = [
    ''agentops.workflow.family'', ''agentops.event.id'', ''agentops.role.id'',
    ''agentops.role.lineage.id'', ''agentops.family.schema'']"

definition allowed_intervention :: "string list" where
  "allowed_intervention = [
    ''agentops.workflow.family'', ''agentops.event.id'', ''agentops.role.id'',
    ''agentops.intervention.kind'', ''agentops.family.schema'']"

definition required_intervention :: "string list" where
  "required_intervention = [
    ''agentops.workflow.family'', ''agentops.event.id'', ''agentops.intervention.kind'',
    ''agentops.family.schema'']"

definition allowed_usage :: "string list" where
  "allowed_usage = [
    ''agentops.workflow.family'', ''agentops.event.id'', ''agentops.summary.state'',
    ''agentops.role.id'', ''agentops.usage.kind'', ''agentops.usage.unit'', ''agentops.usage.source'',
    ''agentops.usage.source.id'', ''agentops.usage.value'', ''agentops.family.schema'']"

definition required_usage :: "string list" where
  "required_usage = [
    ''agentops.workflow.family'', ''agentops.event.id'', ''agentops.summary.state'',
    ''agentops.usage.kind'', ''agentops.usage.unit'', ''agentops.usage.source'',
    ''agentops.usage.source.id'', ''agentops.usage.value'', ''agentops.family.schema'']"

definition allowed_sampling_decision :: "string list" where
  "allowed_sampling_decision = [
    ''agentops.event.id'', ''agentops.sampling.decision'', ''agentops.sampling.probability'']"

definition required_sampling_decision :: "string list" where
  "required_sampling_decision = [
    ''agentops.event.id'', ''agentops.sampling.decision'', ''agentops.sampling.probability'']"

definition EVENT_RULES :: "string \<Rightarrow> (string list \<times> string list) option" where
  "EVENT_RULES e =
     (if e = ''task.binding'' then Some (allowed_task_binding, required_task_binding)
      else if e = ''delivery.summary'' then Some (allowed_delivery_summary, required_delivery_summary)
      else if e = ''review.finding'' then Some (allowed_review_finding, required_review_finding)
      else if e = ''review.summary'' then Some (allowed_review_summary, required_review_summary)
      else if e = ''test.summary'' then Some (allowed_test_summary, required_test_summary)
      else if e = ''implementation.summary'' then Some (allowed_implementation_summary, required_implementation_summary)
      else if e = ''system_design.summary'' then Some (allowed_system_design_summary, required_system_design_summary)
      else if e = ''role.lineage'' then Some (allowed_role_lineage, required_role_lineage)
      else if e = ''intervention'' then Some (allowed_intervention, required_intervention)
      else if e = ''usage'' then Some (allowed_usage, required_usage)
      else if e = ''sampling.decision'' then Some (allowed_sampling_decision, required_sampling_decision) else None)"

definition SPAN_ALLOWED :: "string list" where
  "SPAN_ALLOWED = [
    ''agentops.delivery.id'', ''agentops.task.id'', ''agentops.workflow.id'',
    ''agentops.workflow.version'', ''agentops.implementation.id'', ''agentops.runtime.id'',
    ''agentops.manifest.digest'', ''agentops.workflow.family'', ''agentops.role.id'',
    ''agentops.model.id'']"

definition RECORD_KEYS :: "string list" where
  "RECORD_KEYS = [
    ''profile_version'', ''record_type'', ''event_name'', ''span_name'', ''trace_id'', ''span_id'',
    ''span_kind'', ''start_time_unix_nano'', ''end_time_unix_nano'', ''parent_span_id'',
    ''trace_state'', ''span_flags'', ''span_links'', ''span_status'', ''resource'', ''scope'',
    ''attributes'']"

section \<open>Attribute types\<close>

datatype field_type = TString | TInteger | TNumber

definition STANDARD_TYPES :: "string \<Rightarrow> field_type option" where
  "STANDARD_TYPES name =
     (if name \<in> set STANDARD_STRING_FIELDS then Some TString
      else if name \<in> set STANDARD_INTEGER_FIELDS then Some TInteger
      else None)"

definition FIELD_TYPES :: "string \<Rightarrow> field_type option" where
  "FIELD_TYPES name =
     (if name \<in> set NUMBER_FIELDS then Some TNumber
      else if name \<in> set INTEGER_FIELDS then Some TInteger
      else if name \<in> set COMMON_STRING_FIELDS \<or> name \<in> set FAMILY_STRING_FIELDS then Some TString
      else None)"

section \<open>Regular expressions\<close>

definition alnum :: "(char \<times> char) list" where
  "alnum = [(CHR ''A'', CHR ''Z''), (CHR ''a'', CHR ''z''), (CHR ''0'', CHR ''9'')]"

definition ident_class :: "(char \<times> char) list" where
  "ident_class = alnum @ [(CHR ''.'', CHR ''.''), (CHR ''_'', CHR ''_''), (CHR '':'', CHR '':''),
     (CHR ''/'', CHR ''/''), (CHR ''@'', CHR ''@''), (CHR ''-'', CHR ''-'')]"

definition hex_class :: "(char \<times> char) list" where
  "hex_class = [(CHR ''a'', CHR ''f''), (CHR ''0'', CHR ''9'')]"

definition digit_class :: "(char \<times> char) list" where
  "digit_class = [(CHR ''0'', CHR ''9'')]"

definition IDENTIFIER :: re where
  "IDENTIFIER = Seq (Class alnum) (Rep (Class ident_class) 0 127)"

definition DIGEST :: re where
  "DIGEST = Rep (Class hex_class) 64 64"

definition TRACE_ID :: re where
  "TRACE_ID = Rep (Class hex_class) 32 32"

definition SPAN_ID :: re where
  "SPAN_ID = Rep (Class hex_class) 16 16"

definition NANOSECONDS :: re where
  "NANOSECONDS = Alt (lits ''0'')
     (Seq (Class [(CHR ''1'', CHR ''9'')]) (Rep (Class digit_class) 0 19))"

definition PREFIXED_DIGEST :: re where
  "PREFIXED_DIGEST = Seq (lits ''sha256:'') (Rep (Class hex_class) 64 64)"

definition PACKAGE_NAME :: re where
  "PACKAGE_NAME = Seq (Class [(CHR ''a'', CHR ''z'')])
     (Star (Class [(CHR ''a'', CHR ''z''), (CHR ''0'', CHR ''9''), (CHR ''-'', CHR ''-'')]))"

definition version_number :: re where
  "version_number = Alt (lits ''0'') (Seq (Class [(CHR ''1'', CHR ''9'')]) (Star (Class digit_class)))"

definition VERSION :: re where
  "VERSION = Seq version_number (Seq (lits ''.'') (Seq version_number (Seq (lits ''.'') version_number)))"

definition provider_label :: re where
  "provider_label =
     (let cs = Class [(CHR ''0'', CHR ''9''), (CHR ''A'', CHR ''Z''), (CHR ''a'', CHR ''z''),
                      (CHR ''-'', CHR ''-'')]
      in Seq cs (Star cs))"

definition dotted_labels :: re where
  "dotted_labels = Seq provider_label (Star (Seq (lits ''.'') provider_label))"

definition PROVIDER_VERSION :: re where
  "PROVIDER_VERSION = Seq VERSION
     (Seq (Alt Empty (Seq (lits ''-'') dotted_labels)) (Alt Empty (Seq (lits ''+'') dotted_labels)))"

text \<open>The expressions \<open>_validate_event\<close> writes inline.\<close>

definition TASK_ID :: re where
  "TASK_ID = Seq (Class alnum) (Star (Class ident_class))"

definition CURRENCY :: re where
  "CURRENCY = Rep (Class [(CHR ''A'', CHR ''Z'')]) 3 3"

definition REVIEW_SCOPE :: re where
  "REVIEW_SCOPE = Alt (Seq (lits ''GOAL:'') (Seq (Class alnum) (Rep (Class ident_class) 0 122)))
     (Alt (lits ''WHOLE_SCOPE'') (lits ''SYSTEM_DESIGN''))"

section \<open>What the expressions accept\<close>

lemma in_hex_class: "in_class hex_class c \<longleftrightarrow> is_lower_hex c"
  by (auto simp: in_class_def hex_class_def between_def is_lower_hex_def is_digit_def ord_of_def)

lemma in_digit_class: "in_class digit_class c \<longleftrightarrow> is_digit c"
  by (auto simp: in_class_def digit_class_def between_def is_digit_def ord_of_def)

definition hex_text :: "nat \<Rightarrow> string \<Rightarrow> bool" where
  "hex_text n s \<longleftrightarrow> length s = n \<and> list_all is_lower_hex s"

lemma fullmatch_hex: "fullmatch (Rep (Class hex_class) n n) s \<longleftrightarrow> hex_text n s"
  unfolding fullmatch_rep_class hex_text_def in_hex_class by auto

lemma fullmatch_ids [simp]:
  "fullmatch DIGEST = hex_text 64"
  "fullmatch TRACE_ID = hex_text 32"
  "fullmatch SPAN_ID = hex_text 16"
  by (simp_all add: DIGEST_def TRACE_ID_def SPAN_ID_def fullmatch_hex fun_eq_iff)

lemma hex_text_sha256 [simp]: "hex_text 64 (sha256_hex m)"
  using sha256_hex_wf by (simp add: hex_text_def)

end
