(* ===== verification/Attributes.thy ===== *)
theory Attributes
  imports Profile
begin

text \<open>
  The envelope and the attributes of a record (\<open>_validate_envelope\<close>, \<open>_validate_attributes\<close> of
  \<open>admission/validation.py\<close>).  A body of checks is the list of its statements; its outcome is
  the first error.  A loop over a dictionary is a check per entry in insertion order.
\<close>

section \<open>Sets of keys\<close>

definition keys_within :: "pydict \<Rightarrow> string list \<Rightarrow> bool" where
  "keys_within d S \<longleftrightarrow> list_all (\<lambda>k. k \<in> set S) (keys d)"

definition has_all :: "string list \<Rightarrow> pydict \<Rightarrow> bool" where
  "has_all S d \<longleftrightarrow> list_all (has_key d) S"

definition has_none :: "string list \<Rightarrow> pydict \<Rightarrow> bool" where
  "has_none S d \<longleftrightarrow> list_all (\<lambda>k. \<not> has_key d k) S"

definition keys_are :: "pydict \<Rightarrow> string list \<Rightarrow> bool" where
  "keys_are d S \<longleftrightarrow> keys_within d S \<and> has_all S d"

definition least_string :: "string list \<Rightarrow> string" where
  "least_string S = hd (sort S)"

text \<open>\<open>re.fullmatch(r, v)\<close> raises on a value that is not a string.\<close>

definition require_match :: "re \<Rightarrow> pyval \<Rightarrow> py_error \<Rightarrow> py_error option" where
  "require_match r v e = (case v of
       VStr s \<Rightarrow> require (fullmatch r s) e
     | _ \<Rightarrow> Some (Type_Error ''expected string or bytes-like object''))"

abbreviation matches :: "re \<Rightarrow> pyval \<Rightarrow> bool" where
  "matches r v \<equiv> str_such (fullmatch r) v"

abbreviation verr :: "string \<Rightarrow> py_error" where
  "verr msg \<equiv> Validation_Error msg"

section \<open>The envelope\<close>

definition validate_envelope :: "pydict \<Rightarrow> py_error option" where
  "validate_envelope r =
     (let profile_version = dget r ''profile_version''; resource = dget r ''resource'' in
      first_error
        ([require (keys_within r RECORD_KEYS) (verr ''unknown record field''),
          require_in profile_version [PROFILE_VERSION, TASK_PROFILE_VERSION]
            (verr ''unsupported profile version''),
          require (is_dict resource \<and> keys_are (the_dict resource) RESOURCE_FIELDS)
            (verr ''invalid Resource shape'')] @
         map (\<lambda>kv. require (str_such (\<lambda>s. 1 \<le> py_len s \<and> py_len s \<le> 128) (snd kv))
                     (verr ''invalid Resource value'')) (the_dict resource) @
         [require (py_eq (dget r ''scope'')
             (VDict (if profile_version = VStr TASK_PROFILE_VERSION then TASK_SCOPE else SCOPE)))
            (verr ''invalid Scope/profile pin''),
          require (is_dict (dget r ''attributes'')) (verr ''attributes must be an object'')]))"

section \<open>Attributes\<close>

text \<open>\<open>str.strip\<close> removes white space, which includes code points beyond ASCII.\<close>

definition space_points :: "string list" where
  "space_points = map (\<lambda>n. [char_of n]) [9, 10, 11, 12, 13, 28, 29, 30, 31, 32 :: nat] @
     [[CHR 0xC2, CHR 0x85], [CHR 0xC2, CHR 0xA0], [CHR 0xE1, CHR 0x9A, CHR 0x80]] @
     map (\<lambda>n. [CHR 0xE2, CHR 0x80, char_of n])
       [128, 129, 130, 131, 132, 133, 134, 135, 136, 137, 138, 168, 169, 175 :: nat] @
     [[CHR 0xE2, CHR 0x81, CHR 0x9F], [CHR 0xE3, CHR 0x80, CHR 0x80]]"

fun strip_front :: "string list \<Rightarrow> nat \<Rightarrow> string \<Rightarrow> string" where
  "strip_front ps 0 s = s"
| "strip_front ps (Suc n) s = (case List.find (\<lambda>p. starts_with s p) ps of
       None \<Rightarrow> s | Some p \<Rightarrow> strip_front ps n (drop (length p) s))"

definition py_strip :: "string \<Rightarrow> string" where
  "py_strip s = (let t = strip_front space_points (length s) s in
     rev (strip_front (map rev space_points) (length t) (rev t)))"

text \<open>\<open>math.isfinite\<close> converts an integer to a float, which overflows from 2^1024 - 2^970.\<close>

definition is_number :: "pyval \<Rightarrow> bool" where
  "is_number v = (case v of VInt _ \<Rightarrow> True | VFloat _ \<Rightarrow> True | _ \<Rightarrow> False)"

definition require_finite :: "pyval \<Rightarrow> py_error \<Rightarrow> py_error option" where
  "require_finite v e = (case v of
       VInt i \<Rightarrow> if \<bar>i\<bar> < 2 ^ 1024 - 2 ^ 970 then None else Some Overflow_Error
     | VFloat (Float_Dec _ _ _) \<Rightarrow> None
     | VFloat _ \<Rightarrow> Some e
     | _ \<Rightarrow> Some (Type_Error ''must be real number''))"

definition string_maximum :: "string \<Rightarrow> nat" where
  "string_maximum name =
     (if name = ''agentops.delivery.manifest_projection'' then 65536
      else if name = ''agentops.finding.summary'' then 512
      else if name = ''agentops.task.display_name'' then 160
      else 128)"

definition string_checks :: "string \<Rightarrow> pyval \<Rightarrow> py_error option list" where
  "string_checks name v =
     (let s = the_str v; encoded = (name = ''agentops.delivery.manifest_projection'') in
      [require (str_such (\<lambda>_. True) v) (verr (''wrong type for '' @ name)),
       require (0 < py_len s) (verr (''empty '' @ name)),
       (if encoded then require (\<not> has_surrogate s) (Value_Error ''surrogates not allowed'')
        else None),
       require ((if encoded then length s else py_len s) \<le> string_maximum name)
         (verr (''over-limit '' @ name)),
       (if name = ''agentops.task.display_name''
        then require (py_strip s = s) (verr ''invalid task display name'') else None)])"

definition type_checks :: "field_type \<Rightarrow> string \<Rightarrow> pyval \<Rightarrow> py_error option list" where
  "type_checks t name v = (case t of
       TString \<Rightarrow> string_checks name v
     | TInteger \<Rightarrow>
         [require (int_such (\<lambda>_. True) v) (verr (''wrong type for '' @ name)),
          require (int_such (\<lambda>i. 0 \<le> i) v) (verr (''negative '' @ name))]
     | TNumber \<Rightarrow>
         [require (is_number v) (verr (''wrong type for '' @ name)),
          require_finite v (verr (''non-finite '' @ name))])"

definition field_type_of :: "string \<Rightarrow> field_type option" where
  "field_type_of name = (case FIELD_TYPES name of Some t \<Rightarrow> Some t | None \<Rightarrow> STANDARD_TYPES name)"

definition digest_names :: "string list" where
  "digest_names = [''agentops.manifest.digest'', ''agentops.artifact.digest'',
     ''agentops.delivery.manifest_projection_digest'']"

definition attribute_checks :: "string \<Rightarrow> pyval \<Rightarrow> py_error option list" where
  "attribute_checks name v = (case field_type_of name of
       None \<Rightarrow>
         [Some (verr ((if starts_with name ''agentops.'' then ''unknown agentops field ''
                       else ''unknown standard field '') @ name))]
     | Some t \<Rightarrow>
         type_checks t name v @
         [(case map_of ENUMS name of
             None \<Rightarrow> None
           | Some S \<Rightarrow> require_in v S (verr (''invalid enum for '' @ name))),
          (if name = ''agentops.workflow.family''
           then require (matches IDENTIFIER v) (verr ''invalid Workflow family'') else None),
          (if name = ''agentops.family.schema''
           then require (str_such (\<lambda>s. ends_with s ''@1'' \<and>
                           fullmatch IDENTIFIER (take (length s - 2) s)) v)
                  (verr ''invalid Workflow family schema'') else None),
          (if name \<in> set digest_names
           then require (matches DIGEST v) (verr (''invalid digest '' @ name)) else None)])"

definition validate_attributes :: "pydict \<Rightarrow> py_error option" where
  "validate_attributes a = first_error (concat (map (\<lambda>(n, v). attribute_checks n v) a))"

section \<open>Properties of accepted attributes\<close>

lemma keys_within_iff: "keys_within d S \<longleftrightarrow> set (keys d) \<subseteq> set S"
  by (auto simp: keys_within_def list_all_iff)

lemma has_all_iff: "has_all S d \<longleftrightarrow> set S \<subseteq> set (keys d)"
  by (auto simp: has_all_def list_all_iff has_key_iff)

lemma has_none_iff: "has_none S d \<longleftrightarrow> set S \<inter> set (keys d) = {}"
  by (auto simp: has_none_def list_all_iff has_key_iff)

lemma keys_are_iff: "keys_are d S \<longleftrightarrow> set (keys d) = set S"
  by (auto simp: keys_are_def keys_within_iff has_all_iff)

lemma has_all_key: "has_all S d \<Longrightarrow> k \<in> set S \<Longrightarrow> has_key d k"
  by (auto simp: has_all_iff has_key_iff)

lemma has_all_Cons [simp]: "has_all (k # S) d \<longleftrightarrow> has_key d k \<and> has_all S d"
  by (simp add: has_all_def)

lemma has_all_Nil [simp]: "has_all [] d"
  by (simp add: has_all_def)

lemma keys_within_Nil [simp]: "keys_within [] S"
  by (simp add: keys_within_def)

lemma keys_within_Cons [simp]: "keys_within ((k, v) # d) S \<longleftrightarrow> k \<in> set S \<and> keys_within d S"
  by (simp add: keys_within_def)

lemma require_match_None [simp]: "require_match r v e = None \<longleftrightarrow> matches r v"
  by (simp add: require_match_def split: pyval.splits)

lemma has_key_member: "has_key d k \<Longrightarrow> (k, dget d k) \<in> set d"
  by (auto simp: has_key_def dget_def map_of_SomeD)

lemma dget_absent: "\<not> has_key d k \<Longrightarrow> dget d k = VNone"
  by (simp add: has_key_def dget_def)

lemma validate_attributes_None:
  "validate_attributes a = None \<longleftrightarrow>
     (\<forall>(n, v) \<in> set a. \<forall>c \<in> set (attribute_checks n v). c = None)"
  by (auto simp: validate_attributes_def)

text \<open>An accepted attribute, read by its declared type.\<close>

definition attribute_ok :: "string \<Rightarrow> pyval \<Rightarrow> bool" where
  "attribute_ok name v = (case field_type_of name of
       None \<Rightarrow> False
     | Some TString \<Rightarrow> (\<exists>s. v = VStr s \<and> 0 < py_len s \<and>
         (if name = ''agentops.delivery.manifest_projection'' then length s else py_len s)
           \<le> string_maximum name)
     | Some TInteger \<Rightarrow> (\<exists>i \<ge> 0. v = VInt i)
     | Some TNumber \<Rightarrow> (\<exists>i. v = VInt i) \<or> (\<exists>neg c e. v = VFloat (Float_Dec neg c e)))"

lemma attribute_checks_ok:
  assumes "\<forall>c \<in> set (attribute_checks name v). c = None"
  shows "attribute_ok name v"
proof (cases "field_type_of name")
  case None
  with assms show ?thesis by (simp add: attribute_checks_def)
next
  case (Some t)
  with assms have "\<forall>c \<in> set (type_checks t name v). c = None" by (simp add: attribute_checks_def)
  with Some show ?thesis
    by (cases t) (auto simp: attribute_ok_def type_checks_def string_checks_def Let_def
        str_such_iff int_such_iff is_number_def require_finite_def
        split: pyval.splits pyfloat.splits if_splits)
qed

lemma attribute_checks_enum:
  assumes "\<forall>c \<in> set (attribute_checks name v). c = None" and "map_of ENUMS name = Some S"
  shows "\<exists>s \<in> set S. v = VStr s"
  using assms by (auto simp: attribute_checks_def split: option.splits)

lemma attribute_checks_digest:
  assumes "\<forall>c \<in> set (attribute_checks name v). c = None" and "name \<in> set digest_names"
  shows "\<exists>s. v = VStr s \<and> hex_text 64 s"
  using assms by (auto simp: attribute_checks_def str_such_iff split: option.splits)

lemma valid_attribute:
  assumes "validate_attributes a = None" and "has_key a n"
  shows "\<forall>c \<in> set (attribute_checks n (dget a n)). c = None"
  using assms has_key_member [of a n] by (auto simp: validate_attributes_None)

lemmas valid_attribute_ok = attribute_checks_ok [OF valid_attribute]
lemmas valid_attribute_enum = attribute_checks_enum [OF valid_attribute]
lemmas valid_attribute_digest = attribute_checks_digest [OF valid_attribute]

lemma valid_string:
  assumes "validate_attributes a = None" "has_key a n" "field_type_of n = Some TString"
  shows "\<exists>s. dget a n = VStr s \<and> 0 < py_len s"
  using valid_attribute_ok [OF assms(1,2)] assms(3) by (auto simp: attribute_ok_def)

end
