(* ===== verification/Canonical.thy ===== *)
theory Canonical
  imports Sha256
begin

text \<open>
  Canonical JSON and record digests (\<open>admission/validation.py\<close>, \<open>canonical_bytes\<close>,
  \<open>_canonical_number\<close>, \<open>_canonical_text\<close>, \<open>canonical_digest\<close>), and \<open>json.dumps\<close> with compact
  separators, which the storage layer uses for its keys (\<open>storage/postgresql.py\<close>, \<open>_key_json\<close>).
  The number printer is proved equal to the ECMAScript \<open>Number::toString\<close> rules that canonical
  JSON prescribes; the key printer is proved injective.
\<close>

section \<open>repr of a finite float\<close>

text \<open>
  The digits \<open>d1...dk\<close> of the coefficient and the position of the decimal point, so that the
  value is \<open>0.d1...dk * 10 ^ point\<close>.  \<open>repr\<close> uses positional notation for \<open>-4 < point \<le> 16\<close>
  and otherwise an exponent of at least two digits.
\<close>

definition point_of :: "nat \<Rightarrow> int \<Rightarrow> int" where
  "point_of c e = int (length (nat_str c)) + e"

definition zeros :: "nat \<Rightarrow> string" where
  "zeros n = replicate n CHR ''0''"

definition positional :: "string \<Rightarrow> int \<Rightarrow> string" where
  "positional ds p =
     (if p \<le> 0 then ''0.'' @ zeros (nat (- p)) @ ds
      else if int (length ds) \<le> p then ds @ zeros (nat p - length ds)
      else take (nat p) ds @ ''.'' @ drop (nat p) ds)"

definition mantissa_text :: "string \<Rightarrow> string" where
  "mantissa_text ds = (if length ds = 1 then ds else take 1 ds @ ''.'' @ drop 1 ds)"

definition exponent_text2 :: "int \<Rightarrow> string" where
  "exponent_text2 x = (if x < 0 then ''-'' else ''+'')
     @ (if \<bar>x\<bar> < 10 then ''0'' else []) @ nat_str (nat \<bar>x\<bar>)"

definition float_repr :: "bool \<Rightarrow> nat \<Rightarrow> int \<Rightarrow> string" where
  "float_repr neg c e =
     (let ds = nat_str c; p = point_of c e
      in (if neg then ''-'' else []) @
         (if c = 0 then ''0.0''
          else if -4 < p \<and> p \<le> 16
          then positional ds p @ (if int (length ds) \<le> p then ''.0'' else [])
          else mantissa_text ds @ ''e'' @ exponent_text2 (p - 1)))"

section \<open>\<open>_canonical_number\<close>\<close>

definition remove_suffix :: "string \<Rightarrow> string \<Rightarrow> string" where
  "remove_suffix s p = (if ends_with s p then take (length s - length p) s else s)"

definition before :: "char \<Rightarrow> string \<Rightarrow> string" where
  "before c s = takeWhile (\<lambda>x. x \<noteq> c) s"

definition after :: "char \<Rightarrow> string \<Rightarrow> string" where
  "after c s = drop 1 (dropWhile (\<lambda>x. x \<noteq> c) s)"

text \<open>\<open>int()\<close> of a signed decimal text, as the exponent of a \<open>repr\<close> is.\<close>

definition signed_val :: "string \<Rightarrow> int" where
  "signed_val s = (case s of
       [] \<Rightarrow> 0
     | c # cs \<Rightarrow> if c = CHR ''-'' then - int (digits_val cs)
                else if c = CHR ''+'' then int (digits_val cs) else int (digits_val s))"

text \<open>\<open>format(Decimal(text), "f")\<close>: the digits of the mantissa shifted by the exponent.\<close>

definition decimal_format :: "string \<Rightarrow> string" where
  "decimal_format s =
     (let sign = (if starts_with s ''-'' then ''-'' else []);
          body = drop (length sign) s;
          mantissa = before CHR ''e'' body;
          ds = before CHR ''.'' mantissa @ after CHR ''.'' mantissa;
          p = int (length (before CHR ''.'' mantissa)) + signed_val (after CHR ''e'' body)
      in sign @ positional ds p)"

definition canonical_number :: "pyfloat \<Rightarrow> string result" where
  "canonical_number f = (case f of
       Float_Dec neg c e \<Rightarrow>
         if c = 0 then Inr ''0''
         else
           (let encoded = float_repr neg c e in
            if dec_le (1, -6) (int c, e) \<and> \<not> dec_le (1, 21) (int c, e) then
              (if CHR ''e'' \<in> set encoded then Inr (decimal_format encoded)
               else Inr (remove_suffix encoded ''.0''))
            else if CHR ''e'' \<notin> set encoded then Inr (remove_suffix encoded ''.0'')
            else
              (let mantissa = remove_suffix (before CHR ''e'' encoded) ''.0'';
                   x = signed_val (after CHR ''e'' encoded)
               in Inr (mantissa @ ''e'' @ (if 0 \<le> x then ''+'' @ int_str x else int_str x))))
     | _ \<Rightarrow> Inl (Value_Error ''canonical JSON prohibits non-finite numbers''))"

section \<open>JSON strings\<close>

text \<open>\<open>json.dumps(s, ensure_ascii=False)\<close>: quotes, backslashes and control bytes are escaped.\<close>

definition escape_byte :: "char \<Rightarrow> string" where
  "escape_byte c =
     (if c = CHR 0x22 then [CHR 0x5C, CHR 0x22]
      else if c = CHR 0x5C then [CHR 0x5C, CHR 0x5C]
      else if c = CHR 0x0A then [CHR 0x5C, CHR ''n'']
      else if c = CHR 0x0D then [CHR 0x5C, CHR ''r'']
      else if c = CHR 0x09 then [CHR 0x5C, CHR ''t'']
      else if c = CHR 0x0C then [CHR 0x5C, CHR ''f'']
      else if c = CHR 0x08 then [CHR 0x5C, CHR ''b'']
      else if ord_of c < 32 then
        [CHR 0x5C, CHR ''u'', CHR ''0'', CHR ''0'', hex_digit (ord_of c div 16), hex_digit (ord_of c mod 16)]
      else [c])"

definition json_string :: "string \<Rightarrow> string" where
  "json_string s = CHR 0x22 # concat (map escape_byte s) @ [CHR 0x22]"

fun join :: "string list \<Rightarrow> string" where
  "join [] = []"
| "join [t] = t"
| "join (t # ts) = t @ '','' @ join ts"

section \<open>\<open>_canonical_text\<close>, \<open>canonical_bytes\<close>, \<open>canonical_digest\<close>\<close>

text \<open>\<open>str\<close> of an integer of more than 4300 digits raises, by Python's conversion limit.\<close>

definition int_text :: "int \<Rightarrow> string result" where
  "int_text i =
     (if 4300 < length (nat_str (nat \<bar>i\<bar>))
      then Inl (Value_Error ''Exceeds the limit for integer string conversion'')
      else Inr (int_str i))"

fun canonical_text :: "pyval \<Rightarrow> string result" where
  "canonical_text VNone = Inr ''null''"
| "canonical_text (VBool b) = Inr (if b then ''true'' else ''false'')"
| "canonical_text (VInt i) = int_text i"
| "canonical_text (VFloat f) = canonical_number f"
| "canonical_text (VStr s) = Inr (json_string s)"
| "canonical_text (VList vs) =
     bind_result (map_results canonical_text vs) (\<lambda>ts. Inr (''['' @ join ts @ '']''))"
| "canonical_text (VTuple vs) =
     bind_result (map_results canonical_text vs) (\<lambda>ts. Inr (''['' @ join ts @ '']''))"
| "canonical_text (VDict d) =
     bind_result
       (map_results (\<lambda>kv. bind_result (canonical_text (snd kv))
                          (\<lambda>t. Inr (json_string (fst kv) @ '':'' @ t)))
          (sort_key fst d))
       (\<lambda>ts. Inr (''{'' @ join ts @ ''}''))"

definition canonical_bytes :: "pyval \<Rightarrow> string result" where
  "canonical_bytes v = bind_result (canonical_text v) (\<lambda>t.
     if has_surrogate t then Inl (Value_Error ''surrogates not allowed'') else Inr t)"

definition canonical_digest :: "pyval \<Rightarrow> string result" where
  "canonical_digest v = bind_result (canonical_bytes v) (\<lambda>b. Inr (sha256_hex b))"

section \<open>\<open>json.dumps\<close> with compact separators\<close>

fun json_dumps :: "pyval \<Rightarrow> string" where
  "json_dumps VNone = ''null''"
| "json_dumps (VBool b) = (if b then ''true'' else ''false'')"
| "json_dumps (VInt i) = int_str i"
| "json_dumps (VFloat Float_Nan) = ''NaN''"
| "json_dumps (VFloat (Float_Inf neg)) = (if neg then ''-Infinity'' else ''Infinity'')"
| "json_dumps (VFloat (Float_Dec neg c e)) = float_repr neg c e"
| "json_dumps (VStr s) = json_string s"
| "json_dumps (VList vs) = ''['' @ join (map json_dumps vs) @ '']''"
| "json_dumps (VTuple vs) = ''['' @ join (map json_dumps vs) @ '']''"
| "json_dumps (VDict d) =
     ''{'' @ join (map (\<lambda>kv. json_string (fst kv) @ '':'' @ json_dumps (snd kv)) d) @ ''}''"

definition key_json :: "pyval list \<Rightarrow> string" where
  "key_json key = json_dumps (VTuple key)"

section \<open>The number printer follows Number::toString\<close>

text \<open>The rules of ECMAScript for a finite number with shortest digits \<open>ds\<close> and point \<open>n\<close>.\<close>

definition es_number :: "bool \<Rightarrow> nat \<Rightarrow> int \<Rightarrow> string" where
  "es_number neg c e =
     (if c = 0 then ''0''
      else
        (let ds = nat_str c; k = int (length ds); n = point_of c e
         in (if neg then ''-'' else []) @
            (if k \<le> n \<and> n \<le> 21 then ds @ zeros (nat (n - k))
             else if 0 < n \<and> n \<le> 21 then take (nat n) ds @ ''.'' @ drop (nat n) ds
             else if -6 < n \<and> n \<le> 0 then ''0.'' @ zeros (nat (- n)) @ ds
             else (if k = 1 then ds else take 1 ds @ ''.'' @ drop 1 ds) @ ''e''
               @ (if 0 \<le> n - 1 then ''+'' else ''-'') @ nat_str (nat \<bar>n - 1\<bar>))))"

lemma nat_str_bounds: "0 < n \<Longrightarrow> 10 ^ (length (nat_str n) - 1) \<le> n \<and> n < 10 ^ length (nat_str n)"
proof (induction n rule: nat_str.induct)
  case (1 n)
  show ?case
  proof (cases "n < 10")
    case True
    with 1(2) show ?thesis by (subst (1 2) nat_str.simps) simp
  next
    case False
    let ?l = "length (nat_str (n div 10))"
    from False have l: "length (nat_str n) = Suc ?l" by (subst nat_str.simps) simp
    from False 1 have "10 ^ (?l - 1) \<le> n div 10 \<and> n div 10 < 10 ^ ?l" by simp
    moreover have "0 < ?l" by simp
    moreover have "n = 10 * (n div 10) + n mod 10" "n mod 10 < 10" by simp_all
    moreover have "(10 :: nat) ^ ?l = 10 * 10 ^ (?l - 1)"
      using \<open>0 < ?l\<close> by (metis Suc_diff_1 power_Suc)
    ultimately have "10 ^ ?l \<le> n \<and> n < 10 * 10 ^ ?l" by linarith
    with l show ?thesis by simp
  qed
qed

lemma power_le_nat_str: "0 < c \<Longrightarrow> 10 ^ m \<le> c \<longleftrightarrow> m < length (nat_str c)"
proof -
  assume c: "0 < c"
  note b = nat_str_bounds [OF c]
  show ?thesis
  proof
    assume "10 ^ m \<le> c"
    with b have "(10 :: nat) ^ m < 10 ^ length (nat_str c)" by linarith
    then show "m < length (nat_str c)" by (simp add: power_less_imp_less_exp)
  next
    assume "m < length (nat_str c)"
    then have "(10 :: nat) ^ m \<le> 10 ^ (length (nat_str c) - 1)"
      by (intro power_increasing) auto
    with b show "10 ^ m \<le> c" by linarith
  qed
qed

lemma dec_le_power_iff: "0 < c \<Longrightarrow> dec_le (1, m) (int c, e) \<longleftrightarrow> m < point_of c e"
proof (cases "m \<le> e")
  case True
  assume c: "0 < c"
  have "0 < length (nat_str c)" by simp
  then have "m < point_of c e" unfolding point_of_def using True by linarith
  moreover have "1 * 1 \<le> int c * 10 ^ nat (e - m)"
    using c by (intro mult_mono) auto
  ultimately show ?thesis using True by (simp add: dec_le_def)
next
  case False
  assume c: "0 < c"
  from False have "dec_le (1, m) (int c, e) \<longleftrightarrow> 10 ^ nat (m - e) \<le> int c"
    by (simp add: dec_le_def)
  also have "\<dots> \<longleftrightarrow> 10 ^ nat (m - e) \<le> c"
    by (metis of_nat_le_iff of_nat_numeral of_nat_power)
  also have "\<dots> \<longleftrightarrow> m < point_of c e"
    using False by (simp add: power_le_nat_str [OF c] point_of_def) linarith
  finally show ?thesis .
qed

lemma ord_of_marks [simp]:
  "ord_of CHR ''e'' = 101" "ord_of CHR ''.'' = 46" "ord_of CHR ''-'' = 45" "ord_of CHR ''+'' = 43"
  "ord_of CHR ''0'' = 48" "ord_of CHR '','' = 44"
  by (simp_all add: ord_of_def)

lemma not_digit_marks [simp]: "\<not> is_digit CHR ''e''" "\<not> is_digit CHR ''.''" "\<not> is_digit CHR ''+''"
  by (simp_all add: is_digit_def)

lemma is_digit_0 [simp]: "is_digit CHR ''0''"
  by (simp add: is_digit_def)

lemma digits_notin: "list_all is_digit ds \<Longrightarrow> \<not> is_digit c \<Longrightarrow> c \<notin> set ds"
  by (auto simp: list_all_iff)

lemma digit_char_neq_0: "n < 10 \<Longrightarrow> n \<noteq> 0 \<Longrightarrow> digit_char n \<noteq> CHR ''0''"
  by (metis add.right_neutral add_left_cancel ord_of_digit_char ord_of_marks(5))

lemma last_nat_str: "c mod 10 \<noteq> 0 \<Longrightarrow> last (nat_str c) \<noteq> CHR ''0''"
  using digit_char_neq_0 [of "c mod 10"] by (subst nat_str.simps) auto

lemma digits_val_Cons0 [simp]: "digits_val (CHR ''0'' # s) = digits_val s"
  by (simp add: digits_val_def)

lemma signed_val_exponent [simp]: "signed_val (exponent_text2 x) = x"
  by (simp add: signed_val_def exponent_text2_def)

lemma before_append: "c \<notin> set s \<Longrightarrow> before c (s @ c # t) = s"
  by (simp add: before_def takeWhile_append)

lemma before_none: "c \<notin> set s \<Longrightarrow> before c s = s"
  by (simp add: before_def takeWhile_eq_all_conv) metis

lemma after_append: "c \<notin> set s \<Longrightarrow> after c (s @ c # t) = t"
  by (simp add: after_def dropWhile_append)

lemma after_none: "c \<notin> set s \<Longrightarrow> after c s = []"
  by (induction s) (auto simp: after_def)

lemma remove_suffix_append [simp]: "remove_suffix (s @ p) p = s"
  by (simp add: remove_suffix_def ends_with_def suffix_def)

lemma remove_suffix_last: "s \<noteq> [] \<Longrightarrow> last s \<noteq> CHR ''0'' \<Longrightarrow> remove_suffix s ''.0'' = s"
  by (auto simp: remove_suffix_def ends_with_def suffix_def)

text \<open>Digit strings of shortest decimals: digits only, not empty, no trailing zero.\<close>

definition shortest :: "string \<Rightarrow> bool" where
  "shortest ds \<longleftrightarrow> list_all is_digit ds \<and> ds \<noteq> [] \<and> last ds \<noteq> CHR ''0''"

lemma shortest_nat_str: "c mod 10 \<noteq> 0 \<Longrightarrow> shortest (nat_str c)"
  by (simp add: shortest_def last_nat_str nat_str_digits)

lemma shortest_notin:
  "shortest ds \<Longrightarrow> CHR ''e'' \<notin> set ds \<and> CHR ''.'' \<notin> set ds \<and> CHR ''-'' \<notin> set ds"
  by (simp add: shortest_def digits_notin)

lemma shortest_part_notin:
  "shortest ds \<Longrightarrow> CHR ''.'' \<notin> set (take i ds) \<and> CHR ''e'' \<notin> set (take i ds) \<and>
     CHR ''.'' \<notin> set (drop i ds) \<and> CHR ''e'' \<notin> set (drop i ds)"
  using shortest_notin by (meson in_set_takeD in_set_dropD)

lemma e_notin_positional: "shortest ds \<Longrightarrow> CHR ''e'' \<notin> set (positional ds p)"
  using shortest_notin [of ds] shortest_part_notin [of ds "nat p"]
  by (simp add: positional_def zeros_def)

lemma e_notin_mantissa: "shortest ds \<Longrightarrow> CHR ''e'' \<notin> set (mantissa_text ds)"
  using shortest_notin [of ds] shortest_part_notin [of ds 1]
  by (simp add: mantissa_text_def)

lemma last_positional:
  "shortest ds \<Longrightarrow> p < int (length ds) \<Longrightarrow> last (positional ds p) \<noteq> CHR ''0''"
  by (auto simp: positional_def shortest_def)

lemma positional_ne: "shortest ds \<Longrightarrow> positional ds p \<noteq> []"
  by (auto simp: positional_def shortest_def)

lemma mantissa_hd:
  "shortest ds \<Longrightarrow> mantissa_text ds \<noteq> [] \<and> hd (mantissa_text ds) \<noteq> CHR ''-''"
  using shortest_notin [of ds] by (cases ds) (auto simp: mantissa_text_def shortest_def)

lemma mantissa_no_suffix:
  assumes "shortest ds"
  shows "remove_suffix (sign @ mantissa_text ds) ''.0'' = sign @ mantissa_text ds"
proof -
  from assms obtain d s where ds: "ds = d # s" by (cases ds) (auto simp: shortest_def)
  with assms have "last (mantissa_text ds) \<noteq> CHR ''0''"
    by (auto simp: mantissa_text_def shortest_def)
  with mantissa_hd [OF assms] show ?thesis by (auto intro!: remove_suffix_last)
qed

lemma mantissa_parts:
  assumes "shortest ds"
  shows "before CHR ''.'' (mantissa_text ds) = take 1 ds"
    and "after CHR ''.'' (mantissa_text ds) = drop 1 ds"
proof -
  note d = shortest_notin [OF assms] shortest_part_notin [OF assms, of 1]
  have "mantissa_text ds = (if length ds = 1 then ds else take 1 ds @ CHR ''.'' # drop 1 ds)"
    by (simp add: mantissa_text_def)
  with d show "before CHR ''.'' (mantissa_text ds) = take 1 ds"
    and "after CHR ''.'' (mantissa_text ds) = drop 1 ds"
    by (auto simp: before_append before_none after_append after_none
        simp del: take_append One_nat_def split: if_splits)
qed

lemma decimal_format_exponent:
  assumes "shortest ds"
  shows "decimal_format ((if neg then ''-'' else []) @ mantissa_text ds @ ''e'' @ exponent_text2 x) =
     (if neg then ''-'' else []) @ positional ds (x + 1)"
proof -
  let ?m = "mantissa_text ds"
  let ?b = "?m @ CHR ''e'' # exponent_text2 x"
  have sw: "starts_with ((if neg then ''-'' else []) @ ?b) ''-'' \<longleftrightarrow> neg"
    using mantissa_hd [OF assms] by (cases ?m) (auto simp: starts_with_def)
  have be: "before CHR ''e'' ?b = ?m" "after CHR ''e'' ?b = exponent_text2 x"
    using e_notin_mantissa [OF assms] by (simp_all add: before_append after_append)
  have len: "length (take 1 ds) = 1" using assms by (cases ds) (auto simp: shortest_def)
  have body: "drop (length (if neg then ''-'' else [])) ((if neg then ''-'' else []) @ ?b) = ?b"
    by simp
  have ds: "take 1 ds @ drop 1 ds = ds" by (rule append_take_drop_id)
  have "decimal_format ((if neg then ''-'' else []) @ ?b) =
      (if neg then ''-'' else []) @ positional (take 1 ds @ drop 1 ds)
        (int (length (take 1 ds)) + x)"
    unfolding decimal_format_def Let_def sw body be mantissa_parts [OF assms] signed_val_exponent ..
  then show ?thesis unfolding ds len by (simp add: add.commute)
qed

lemma canonical_number_cases:
  fixes c :: nat
  assumes c: "c mod 10 \<noteq> 0" and n: "n = point_of c e"
  shows "canonical_number (Float_Dec neg c e) = Inr ((if neg then ''-'' else []) @
     (if -6 < n \<and> n \<le> 21 then positional (nat_str c) n
      else mantissa_text (nat_str c) @ ''e'' @ (if 0 \<le> n - 1 then ''+'' else ''-'')
        @ nat_str (nat \<bar>n - 1\<bar>)))"
proof -
  let ?s = "if neg then ''-'' else []" and ?ds = "nat_str c"
  from c have c0: "0 < c" by (cases c) auto
  note ds = shortest_nat_str [OF c]
  have range: "dec_le (1, -6) (int c, e) \<and> \<not> dec_le (1, 21) (int c, e) \<longleftrightarrow> -6 < n \<and> n \<le> 21"
    using c0 by (auto simp: dec_le_power_iff n)
  consider (fixed) "-4 < n" "n \<le> 16" | (format) "\<not> (-4 < n \<and> n \<le> 16)" "-6 < n" "n \<le> 21"
    | (exponent) "\<not> (-6 < n \<and> n \<le> 21)" by linarith
  then show ?thesis
  proof cases
    case fixed
    let ?t = "if int (length ?ds) \<le> n then ''.0'' else []"
    have r: "float_repr neg c e = (?s @ positional ?ds n) @ ?t"
      using fixed c0 by (simp add: float_repr_def Let_def n [symmetric])
    have e: "CHR ''e'' \<notin> set ((?s @ positional ?ds n) @ ?t)"
      using e_notin_positional [OF ds] by simp
    have "remove_suffix ((?s @ positional ?ds n) @ ?t) ''.0'' = ?s @ positional ?ds n"
    proof (cases "int (length ?ds) \<le> n")
      case False
      with last_positional [OF ds] positional_ne [OF ds] show ?thesis
        by (auto intro!: remove_suffix_last)
    qed (simp del: append_assoc)
    with fixed c0 range e show ?thesis
      by (simp add: canonical_number_def Let_def r del: append_assoc)
  next
    case format
    then have "float_repr neg c e = ?s @ mantissa_text ?ds @ ''e'' @ exponent_text2 (n - 1)"
      using c0 by (auto simp: float_repr_def Let_def n [symmetric])
    with format c0 range decimal_format_exponent [OF ds, of neg "n - 1"] show ?thesis
      by (simp add: canonical_number_def Let_def)
  next
    case exponent
    then have r: "float_repr neg c e = (?s @ mantissa_text ?ds) @ CHR ''e'' # exponent_text2 (n - 1)"
      using c0 by (auto simp: float_repr_def Let_def n [symmetric])
    have nm: "CHR ''e'' \<notin> set (?s @ mantissa_text ?ds)" using e_notin_mantissa [OF ds] by simp
    from exponent c0 range show ?thesis
      unfolding canonical_number_def r before_append [OF nm] after_append [OF nm] Let_def
        signed_val_exponent mantissa_no_suffix [OF ds] pyfloat.case
      by (auto simp: int_str_def)
  qed
qed

text \<open>
  For every finite float (coefficient without trailing zero, as a shortest decimal has) the
  printed number is the one of the ECMAScript rules.
\<close>

lemma canonical_number_es:
  assumes "c = 0 \<or> c mod 10 \<noteq> 0"
  shows "canonical_number (Float_Dec neg c e) = Inr (es_number neg c e)"
proof (cases "c = 0")
  case True
  then show ?thesis by (simp add: canonical_number_def es_number_def)
next
  case False
  let ?ds = "nat_str c" and ?n = "point_of c e"
  from False assms have c: "c mod 10 \<noteq> 0" by simp
  have "0 < length ?ds" by simp
  then have pos: "0 < ?n" if "int (length ?ds) \<le> ?n" using that by linarith
  have "positional ?ds ?n =
      (if int (length ?ds) \<le> ?n then ?ds @ zeros (nat (?n - int (length ?ds)))
       else if 0 < ?n then take (nat ?n) ?ds @ ''.'' @ drop (nat ?n) ?ds
       else ''0.'' @ zeros (nat (- ?n)) @ ?ds)"
    using pos by (auto simp: positional_def nat_diff_distrib)
  moreover have "mantissa_text ?ds =
      (if int (length ?ds) = 1 then ?ds else take 1 ?ds @ ''.'' @ drop 1 ?ds)"
    by (auto simp: mantissa_text_def)
  ultimately show ?thesis
    using False pos unfolding canonical_number_cases [OF c refl] es_number_def Let_def
    by (auto simp del: take_append)
qed

section \<open>Keys of the storage layer print injectively\<close>

text \<open>Reading one escaped byte back; the inverse of \<open>escape_byte\<close> on the front of a text.\<close>

definition hex_val :: "char \<Rightarrow> nat" where
  "hex_val c = (if ord_of c < 58 then ord_of c - 48 else ord_of c - 87)"

definition unescape :: "string \<Rightarrow> (char \<times> string) option" where
  "unescape u = (case u of
       [] \<Rightarrow> None
     | c # r \<Rightarrow>
         if c \<noteq> CHR 0x5C then Some (c, r)
         else (case r of
             [] \<Rightarrow> None
           | x # r' \<Rightarrow>
               if x = CHR ''u'' then (case r' of
                   a # b # p # q # r'' \<Rightarrow> Some (char_of (16 * hex_val p + hex_val q), r'')
                 | _ \<Rightarrow> None)
               else Some (if x = CHR ''n'' then CHR 0x0A else if x = CHR ''r'' then CHR 0x0D
                 else if x = CHR ''t'' then CHR 0x09 else if x = CHR ''f'' then CHR 0x0C
                 else if x = CHR ''b'' then CHR 0x08 else x, r')))"

lemma hex_val_hex_digit [simp]: "n < 16 \<Longrightarrow> hex_val (hex_digit n) = n"
  by (auto simp: hex_val_def hex_digit_def ord_of_def)

lemma unescape_escape: "unescape (escape_byte c @ u) = Some (c, u)"
proof -
  have "char_of (16 * (ord_of c div 16) + ord_of c mod 16) = c"
    by (simp add: ord_of_def)
  moreover have "ord_of c div 16 < 16" using ord_of_less_256 [of c] by linarith
  ultimately show ?thesis
    by (simp add: unescape_def escape_byte_def)
qed

lemma escape_byte_append_eq: "escape_byte c @ u = escape_byte d @ v \<Longrightarrow> c = d \<and> u = v"
  by (metis unescape_escape option.inject prod.inject)

lemma escape_byte_ne: "escape_byte c \<noteq> [] \<and> hd (escape_byte c) \<noteq> CHR 0x22"
  by (simp add: escape_byte_def)

lemma escape_not_quote: "escape_byte c @ u \<noteq> CHR 0x22 # v"
  using escape_byte_ne [of c] by (cases "escape_byte c") auto

lemma escaped_append_eq:
  "concat (map escape_byte s) @ CHR 0x22 # u = concat (map escape_byte s') @ CHR 0x22 # u' \<Longrightarrow>
     s = s' \<and> u = u'"
proof (induction s arbitrary: s')
  case Nil
  then show ?case by (cases s') (auto simp: escape_not_quote [symmetric])
next
  case (Cons c s)
  from Cons.prems obtain d t where s': "s' = d # t"
    by (cases s') (auto simp: escape_not_quote)
  with Cons.prems have "escape_byte c @ (concat (map escape_byte s) @ CHR 0x22 # u) =
      escape_byte d @ (concat (map escape_byte t) @ CHR 0x22 # u')"
    by simp
  from escape_byte_append_eq [OF this]
  have "c = d \<and> concat (map escape_byte s) @ CHR 0x22 # u = concat (map escape_byte t) @ CHR 0x22 # u'" .
  with Cons.IH s' show ?case by blast
qed

lemma json_string_append_eq: "json_string s @ u = json_string s' @ u' \<Longrightarrow> s = s' \<and> u = u'"
  using escaped_append_eq [of s u s' u'] by (simp add: json_string_def)

definition key_scalar :: "pyval \<Rightarrow> bool" where
  "key_scalar v \<longleftrightarrow> v = VNone \<or> (\<exists>s. v = VStr s)"

lemma key_scalar_simps [simp]: "key_scalar VNone" "key_scalar (VStr s)"
  by (simp_all add: key_scalar_def)

lemma key_scalar_append_eq:
  assumes "key_scalar v" "key_scalar w" "json_dumps v @ u = json_dumps w @ u'"
  shows "v = w \<and> u = u'"
proof (cases v)
  case (VStr s)
  with assms obtain s' where "w = VStr s'" by (auto simp: key_scalar_def json_string_def)
  with VStr assms(3) json_string_append_eq [of s u s' u'] show ?thesis by simp
next
  case VNone
  with assms have "w = VNone" by (auto simp: key_scalar_def json_string_def)
  with VNone assms(3) show ?thesis by simp
qed (use assms(1) in \<open>auto simp: key_scalar_def\<close>)

lemma key_scalar_not_bracket: "key_scalar v \<Longrightarrow> json_dumps v @ u \<noteq> CHR '']'' # u'"
  by (auto simp: key_scalar_def json_string_def)

lemma join_append_eq:
  assumes "list_all key_scalar vs" "list_all key_scalar ws"
    and "join (map json_dumps vs) @ '']'' = join (map json_dumps ws) @ '']''"
  shows "vs = ws"
  using assms
proof (induction vs arbitrary: ws)
  case Nil
  show ?case
  proof (cases ws)
    case (Cons w ws')
    with Nil key_scalar_not_bracket [of w] show ?thesis
      by (cases ws') (simp_all, metis+)
  qed simp
next
  case (Cons v vs)
  obtain w ws' where ws: "ws = w # ws'"
  proof (cases ws)
    case Nil
    with Cons.prems key_scalar_not_bracket [of v] have False
      by (cases vs) (simp_all, metis+)
    then show ?thesis ..
  qed blast
  have "v = w \<and> (case vs of [] \<Rightarrow> '']'' | _ \<Rightarrow> '','' @ join (map json_dumps vs) @ '']'') =
        (case ws' of [] \<Rightarrow> '']'' | _ \<Rightarrow> '','' @ join (map json_dumps ws') @ '']'')"
    using Cons.prems ws by (intro key_scalar_append_eq) (auto split: list.splits)
  then show ?case using Cons.IH [of ws'] Cons.prems ws
    by (auto split: list.splits)
qed

lemma key_json_inject:
  "list_all key_scalar k \<Longrightarrow> list_all key_scalar l \<Longrightarrow> key_json k = key_json l \<longleftrightarrow> k = l"
  using join_append_eq by (auto simp: key_json_def)

end
