(* ===== verification/Json_Loads.thy ===== *)
theory Json_Loads
  imports Canonical
begin

text \<open>
  \<open>json.loads\<close> of the standard library, as \<open>_parse_closed_manifest_projection\<close> calls it: a
  recursive-descent scanner over the UTF-8 bytes with an \<open>object_pairs_hook\<close>.  The scanner is
  given fuel, \<open>None\<close> means that it ran out; \<open>parse_fuel\<close> shows that one unit per byte and one
  more is always enough, so \<open>json_loads\<close> never runs out.  Python's recursion limit is not modelled.
\<close>

section \<open>Reading a decimal as a binary64 float\<close>

text \<open>
  \<open>float(text)\<close> rounds the exact decimal to 53 bits, ties to even, and the value is represented
  by the shortest decimal that rounds back to it.  A positive double is \<open>m * 2 ^ q\<close>.
\<close>

fun bit_length :: "nat \<Rightarrow> int" where
  "bit_length n = (if n = 0 then 0 else 1 + bit_length (n div 2))"

declare bit_length.simps [simp del]

definition scaled :: "nat \<Rightarrow> nat \<Rightarrow> int \<Rightarrow> nat \<times> nat" where
  "scaled b n e = (if 0 \<le> e then (n * b ^ nat e, 1) else (n, b ^ nat (- e)))"

definition round_half_even :: "nat \<Rightarrow> nat \<Rightarrow> nat" where
  "round_half_even num den =
     (let q = num div den; r = num mod den
      in if 2 * r < den \<or> 2 * r = den \<and> even q then q else q + 1)"

definition to_double :: "nat \<Rightarrow> int \<Rightarrow> nat \<times> int" where
  "to_double c e =
     (let (num, den) = scaled 10 c e;
          l = bit_length num - bit_length den;
          (n', d') = scaled 2 num (- l);
          b = (if den * d' \<le> n' then l else l - 1);
          q = max (b - 52) (- 1074);
          (n2, d2) = scaled 2 num (- q)
      in (round_half_even n2 (den * d2), q))"

definition floor_scaled :: "nat \<Rightarrow> int \<Rightarrow> int \<Rightarrow> nat" where
  "floor_scaled m q t =
     (let (n1, d1) = scaled 2 m q; (n2, d2) = scaled 10 n1 t in n2 div (d1 * d2))"

text \<open>Equality of \<open>m * 2 ^ q\<close> and \<open>m' * 2 ^ q'\<close>, for the carry of the rounding.\<close>

definition same_double :: "nat \<times> int \<Rightarrow> nat \<times> int \<Rightarrow> bool" where
  "same_double a b =
     (let t = min (snd a) (snd b)
      in fst a * 2 ^ nat (snd a - t) = fst b * 2 ^ nat (snd b - t))"

fun strip_zeros :: "nat \<Rightarrow> int \<Rightarrow> nat \<times> int" where
  "strip_zeros c e = (if c = 0 \<or> c mod 10 \<noteq> 0 then (c, e) else strip_zeros (c div 10) (e + 1))"

declare strip_zeros.simps [simp del]

definition shortest_decimal :: "nat \<Rightarrow> int \<Rightarrow> nat \<times> int" where
  "shortest_decimal m q =
     (let p = int (length (nat_str (floor_scaled m q 400))) - 400;
          back = (\<lambda>x k. same_double (to_double x (p - k)) (m, q));
          closer = (\<lambda>x k. let (n1, d1) = scaled 2 m q; (n2, d2) = scaled 10 n1 (k - p)
                          in 2 * n2 \<le> (2 * x + 1) * (d1 * d2));
          ok = (\<lambda>k. let x = floor_scaled m q (k - p) in back x k \<or> back (x + 1) k);
          k = (case List.find ok [1..17] of None \<Rightarrow> 17 | Some k \<Rightarrow> k);
          x = floor_scaled m q (k - p)
      in strip_zeros (if back x k \<and> (closer x k \<or> \<not> back (x + 1) k) then x else x + 1) (p - k))"

definition float_of_decimal :: "bool \<Rightarrow> nat \<Rightarrow> int \<Rightarrow> pyfloat" where
  "float_of_decimal neg c e =
     (if c = 0 then Float_Dec neg 0 0
      else
        (let (m, q) = to_double c e
         in if m = 0 then Float_Dec neg 0 0
            else if 1024 < bit_length m + q then Float_Inf neg
            else (let (c', e') = shortest_decimal m q in Float_Dec neg c' e')))"

lemma strip_zeros_wf: "fst (strip_zeros c e) = 0 \<or> fst (strip_zeros c e) mod 10 \<noteq> 0"
  by (induction c e rule: strip_zeros.induct) (subst (1 2) strip_zeros.simps, auto)

lemma shortest_decimal_strip: "\<exists>a b. shortest_decimal m q = strip_zeros a b"
  unfolding shortest_decimal_def Let_def by blast

lemma shortest_decimal_wf:
  "shortest_decimal m q = (c, e) \<Longrightarrow> c = 0 \<or> c mod 10 \<noteq> 0"
  using strip_zeros_wf shortest_decimal_strip by (metis fst_conv)

text \<open>Every finite float that is read is in shortest form, as the number printer expects.\<close>

lemma float_of_decimal_wf:
  "float_of_decimal neg c e = Float_Dec s c' e' \<Longrightarrow> c' = 0 \<or> c' mod 10 \<noteq> 0"
  using shortest_decimal_wf
  by (auto simp: float_of_decimal_def Let_def split: if_splits prod.splits)

section \<open>Strings\<close>

definition hex_value :: "char \<Rightarrow> nat option" where
  "hex_value c =
     (if is_digit c then Some (ord_of c - 48)
      else if 97 \<le> ord_of c \<and> ord_of c \<le> 102 then Some (ord_of c - 87)
      else if 65 \<le> ord_of c \<and> ord_of c \<le> 70 then Some (ord_of c - 55)
      else None)"

definition hex4 :: "char \<Rightarrow> char \<Rightarrow> char \<Rightarrow> char \<Rightarrow> nat option" where
  "hex4 a b c d = (case (hex_value a, hex_value b, hex_value c, hex_value d) of
       (Some w, Some x, Some y, Some z) \<Rightarrow> Some (4096 * w + 256 * x + 16 * y + z)
     | _ \<Rightarrow> None)"

text \<open>The UTF-8 bytes of a code point; surrogates take their three-byte pattern.\<close>

definition utf8 :: "nat \<Rightarrow> string" where
  "utf8 n =
     (if n < 128 then [char_of n]
      else if n < 2048 then [char_of (192 + n div 64), char_of (128 + n mod 64)]
      else if n < 65536 then
        [char_of (224 + n div 4096), char_of (128 + n div 64 mod 64), char_of (128 + n mod 64)]
      else [char_of (240 + n div 262144), char_of (128 + n div 4096 mod 64),
            char_of (128 + n div 64 mod 64), char_of (128 + n mod 64)])"

definition high_surrogate :: "nat \<Rightarrow> bool" where
  "high_surrogate n \<longleftrightarrow> 55296 \<le> n \<and> n < 56320"

definition low_surrogate :: "nat \<Rightarrow> bool" where
  "low_surrogate n \<longleftrightarrow> 56320 \<le> n \<and> n < 57344"

definition simple_escape :: "char \<Rightarrow> char option" where
  "simple_escape c =
     (if c = CHR 0x22 \<or> c = CHR 0x5C \<or> c = CHR ''/'' then Some c
      else if c = CHR ''b'' then Some (CHR 0x08) else if c = CHR ''f'' then Some (CHR 0x0C)
      else if c = CHR ''n'' then Some (CHR 0x0A) else if c = CHR ''r'' then Some (CHR 0x0D)
      else if c = CHR ''t'' then Some (CHR 0x09) else None)"

text \<open>The code unit after \<open>\\u\<close>: four hexadecimal digits and the rest.\<close>

definition code_unit :: "string \<Rightarrow> (nat \<times> string) option" where
  "code_unit s = (case s of
       a # b # c # d # r \<Rightarrow> map_option (\<lambda>n. (n, r)) (hex4 a b c d)
     | _ \<Rightarrow> None)"

text \<open>A low surrogate escaped right after a high one.\<close>

definition low_follows :: "string \<Rightarrow> (nat \<times> string) option" where
  "low_follows s = (case s of
       a # u # r \<Rightarrow>
         if a = CHR 0x5C \<and> u = CHR ''u'' then
           (case code_unit r of
              Some (n, r') \<Rightarrow> if low_surrogate n then Some (n, r') else None
            | None \<Rightarrow> None)
         else None
     | _ \<Rightarrow> None)"

lemma code_unit_length: "code_unit s = Some (n, r) \<Longrightarrow> length r < length s"
  by (auto simp: code_unit_def split: list.splits)

lemma low_follows_length: "low_follows s = Some (n, r) \<Longrightarrow> length r < length s"
  by (auto simp: low_follows_def dest!: code_unit_length split: list.splits if_splits option.splits)

function scan_string :: "string \<Rightarrow> (string \<times> string) result" where
  "scan_string [] = Inl Json_Decode_Error"
| "scan_string (c # s) =
     (if c = CHR 0x22 then Inr ([], s)
      else if c = CHR 0x5C then
        (case s of
           [] \<Rightarrow> Inl Json_Decode_Error
         | x # r \<Rightarrow>
             if x = CHR ''u'' then
               (case code_unit r of
                  None \<Rightarrow> Inl Json_Decode_Error
                | Some (n, r') \<Rightarrow>
                    (case (if high_surrogate n then low_follows r' else None) of
                       Some (m, r'') \<Rightarrow> bind_result (scan_string r'') (\<lambda>(t, z).
                         Inr (utf8 (65536 + (n - 55296) * 1024 + (m - 56320)) @ t, z))
                     | None \<Rightarrow> bind_result (scan_string r') (\<lambda>(t, z). Inr (utf8 n @ t, z))))
             else
               (case simple_escape x of
                  None \<Rightarrow> Inl Json_Decode_Error
                | Some y \<Rightarrow> bind_result (scan_string r) (\<lambda>(t, z). Inr (y # t, z))))
      else if ord_of c < 32 then Inl Json_Decode_Error
      else bind_result (scan_string s) (\<lambda>(t, z). Inr (c # t, z)))"
  by pat_completeness auto
termination
  by (relation "measure length")
    (auto dest!: code_unit_length low_follows_length split: if_splits)

section \<open>Numbers\<close>

definition span_digits :: "string \<Rightarrow> string \<times> string" where
  "span_digits s = (takeWhile is_digit s, dropWhile is_digit s)"

text \<open>The integer part: a single zero or digits without a leading zero.\<close>

definition scan_int :: "string \<Rightarrow> (string \<times> string) option" where
  "scan_int s = (case s of
       [] \<Rightarrow> None
     | c # r \<Rightarrow> if c = CHR ''0'' then Some ([c], r)
                else if is_digit c then Some (span_digits s) else None)"

definition scan_frac :: "string \<Rightarrow> (string \<times> string) option" where
  "scan_frac s = (case s of
       c # d # r \<Rightarrow> if c = CHR ''.'' \<and> is_digit d then Some (span_digits (d # r)) else None
     | _ \<Rightarrow> None)"

definition scan_exp :: "string \<Rightarrow> (int \<times> string) option" where
  "scan_exp s = (case s of
       c # d # r \<Rightarrow>
         if c = CHR ''e'' \<or> c = CHR ''E'' then
           (let signed = (d = CHR ''+'' \<or> d = CHR ''-''); t = (if signed then r else d # r);
                (ds, z) = span_digits t
            in if ds = [] then None
               else Some (if d = CHR ''-'' then - int (digits_val ds) else int (digits_val ds), z))
         else None
     | _ \<Rightarrow> None)"

definition scan_number :: "string \<Rightarrow> (pyval \<times> string) result" where
  "scan_number s =
     (let neg = starts_with s ''-''; body = (if neg then drop 1 s else s)
      in case scan_int body of
           None \<Rightarrow> Inl Json_Decode_Error
         | Some (ds, r) \<Rightarrow>
             (let (fs, r1) = (case scan_frac r of None \<Rightarrow> ([], r) | Some (f, z) \<Rightarrow> (f, z));
                  (x, r2) = (case scan_exp r1 of None \<Rightarrow> (0, r1) | Some (i, z) \<Rightarrow> (i, z))
              in if scan_frac r = None \<and> scan_exp r1 = None then
                   (if 4300 < length ds
                    then Inl (Value_Error ''Exceeds the limit for integer string conversion'')
                    else Inr (VInt (if neg then - int (digits_val ds) else int (digits_val ds)), r))
                 else Inr (VFloat (float_of_decimal neg (digits_val (ds @ fs)) (x - int (length fs))), r2)))"

section \<open>Values\<close>

type_synonym pairs_hook = "(string \<times> pyval) list \<Rightarrow> pyval result"

definition is_space :: "char \<Rightarrow> bool" where
  "is_space c \<longleftrightarrow> c = CHR '' '' \<or> c = CHR 0x09 \<or> c = CHR 0x0A \<or> c = CHR 0x0D"

definition skip_ws :: "string \<Rightarrow> string" where
  "skip_ws s = dropWhile is_space s"

definition bind_parse :: "'a result option \<Rightarrow> ('a \<Rightarrow> 'b result option) \<Rightarrow> 'b result option" where
  "bind_parse p k = (case p of None \<Rightarrow> None | Some (Inl e) \<Rightarrow> Some (Inl e) | Some (Inr x) \<Rightarrow> k x)"

text \<open>Literals and numbers: what does not open a string, an object or an array.\<close>

definition scan_atom :: "string \<Rightarrow> (pyval \<times> string) result" where
  "scan_atom s =
     (if starts_with s ''null'' then Inr (VNone, drop 4 s)
      else if starts_with s ''true'' then Inr (VBool True, drop 4 s)
      else if starts_with s ''false'' then Inr (VBool False, drop 5 s)
      else if starts_with s ''NaN'' then Inr (VFloat Float_Nan, drop 3 s)
      else if starts_with s ''Infinity'' then Inr (VFloat (Float_Inf False), drop 8 s)
      else if starts_with s ''-Infinity'' then Inr (VFloat (Float_Inf True), drop 9 s)
      else scan_number s)"

fun parse_value :: "pairs_hook \<Rightarrow> nat \<Rightarrow> string \<Rightarrow> (pyval \<times> string) result option"
  and parse_members :: "pairs_hook \<Rightarrow> nat \<Rightarrow> pydict \<Rightarrow> string \<Rightarrow> (pyval \<times> string) result option"
  and parse_elements :: "pairs_hook \<Rightarrow> nat \<Rightarrow> pyval list \<Rightarrow> string \<Rightarrow> (pyval \<times> string) result option"
where
  "parse_value h 0 s = None"
| "parse_value h (Suc n) s = (case s of
       [] \<Rightarrow> Some (Inl Json_Decode_Error)
     | c # r \<Rightarrow>
         if c = CHR 0x22 then
           Some (bind_result (scan_string r) (\<lambda>(t, z). Inr (VStr t, z)))
         else if c = CHR ''{'' then
           (let r' = skip_ws r in
            if starts_with r' ''}'' then Some (bind_result (h []) (\<lambda>v. Inr (v, drop 1 r')))
            else parse_members h n [] r')
         else if c = CHR ''['' then
           (let r' = skip_ws r in
            if starts_with r' '']'' then Some (Inr (VList [], drop 1 r'))
            else parse_elements h n [] r')
         else Some (scan_atom s))"
| "parse_members h 0 acc s = None"
| "parse_members h (Suc n) acc s = (case s of
       [] \<Rightarrow> Some (Inl Json_Decode_Error)
     | c # r \<Rightarrow>
         if c \<noteq> CHR 0x22 then Some (Inl Json_Decode_Error)
         else bind_parse (Some (scan_string r)) (\<lambda>(k, r1).
           (let r2 = skip_ws r1 in
            if \<not> starts_with r2 '':'' then Some (Inl Json_Decode_Error)
            else bind_parse (parse_value h n (skip_ws (drop 1 r2))) (\<lambda>(v, r3).
              (let r4 = skip_ws r3; acc' = acc @ [(k, v)] in
               if starts_with r4 ''}'' then
                 Some (bind_result (h acc') (\<lambda>v. Inr (v, drop 1 r4)))
               else if starts_with r4 '','' then parse_members h n acc' (skip_ws (drop 1 r4))
               else Some (Inl Json_Decode_Error))))))"
| "parse_elements h 0 acc s = None"
| "parse_elements h (Suc n) acc s =
     bind_parse (parse_value h n s) (\<lambda>(v, r1).
       (let r2 = skip_ws r1; acc' = acc @ [v] in
        if starts_with r2 '']'' then Some (Inr (VList acc', drop 1 r2))
        else if starts_with r2 '','' then parse_elements h n acc' (skip_ws (drop 1 r2))
        else Some (Inl Json_Decode_Error)))"

definition json_loads_fuel :: "pairs_hook \<Rightarrow> nat \<Rightarrow> string \<Rightarrow> pyval result option" where
  "json_loads_fuel h n s =
     bind_parse (parse_value h n (skip_ws s)) (\<lambda>(v, r).
       if skip_ws r = [] then Some (Inr v) else Some (Inl Json_Decode_Error))"

definition json_loads :: "pairs_hook \<Rightarrow> string \<Rightarrow> pyval result" where
  "json_loads h s = (case json_loads_fuel h (2 * length s + 2) s of
       None \<Rightarrow> Inl Json_Decode_Error | Some r \<Rightarrow> r)"

section \<open>The fuel is always enough\<close>

lemma bind_parse_simps [simp]:
  "bind_parse None k = None" "bind_parse (Some (Inl e)) k = Some (Inl e)"
  "bind_parse (Some (Inr x)) k = k x"
  by (simp_all add: bind_parse_def)

lemma bind_parse_Inr_iff:
  "bind_parse p k = Some (Inr y) \<longleftrightarrow> (\<exists>x. p = Some (Inr x) \<and> k x = Some (Inr y))"
  by (auto simp: bind_parse_def split: option.splits sum.splits)

lemma bind_parse_not_None:
  "p \<noteq> None \<Longrightarrow> (\<And>x. p = Some (Inr x) \<Longrightarrow> k x \<noteq> None) \<Longrightarrow> bind_parse p k \<noteq> None"
  by (auto simp: bind_parse_def split: option.splits sum.splits)

lemma skip_ws_length: "length (skip_ws s) \<le> length s"
  by (simp add: skip_ws_def length_dropWhile_le)

lemma starts_with_length: "starts_with s p \<Longrightarrow> length p \<le> length s"
  by (simp add: starts_with_def prefix_length_le)

lemma bind_scan_rest:
  "bind_result (scan_string s') (\<lambda>(t, z). Inr (f t, z)) = Inr (t, r) \<Longrightarrow>
     \<exists>t'. scan_string s' = Inr (t', r)"
  by (auto simp: bind_result_Inr_iff)

text \<open>After one byte the scan ends or goes on in a part of the rest.\<close>

lemma scan_string_step:
  assumes "scan_string (c # s) = Inr (t, r)"
  shows "r = s \<or> (\<exists>s' t'. length s' \<le> length s \<and> scan_string s' = Inr (t', r))"
proof -
  consider (close) "c = CHR 0x22" | (escape) "c = CHR 0x5C" | (plain) "c \<noteq> CHR 0x22" "c \<noteq> CHR 0x5C"
    by blast
  then show ?thesis
  proof cases
    case close
    with assms show ?thesis by simp
  next
    case escape
    with assms obtain x q where s: "s = x # q" by (cases s) auto
    show ?thesis
    proof (cases "x = CHR ''u''")
      case True
      with assms escape s obtain n q' where u: "code_unit q = Some (n, q')"
        by (auto split: option.splits)
      then have q': "length q' < length q" by (rule code_unit_length)
      show ?thesis
      proof (cases "if high_surrogate n then low_follows q' else None")
        case None
        with assms escape s True u have "\<exists>t'. scan_string q' = Inr (t', r)"
          by (intro bind_scan_rest) simp
        with q' s show ?thesis by (metis length_Cons less_imp_le_nat le_SucI)
      next
        case (Some p)
        then obtain m q'' where p: "p = (m, q'')" "low_follows q' = Some (m, q'')"
          by (cases p) (auto split: if_splits)
        with assms escape s True u Some have "\<exists>t'. scan_string q'' = Inr (t', r)"
          by (intro bind_scan_rest) simp
        moreover have "length q'' \<le> length s"
          using low_follows_length [OF p(2)] q' s by simp
        ultimately show ?thesis by blast
      qed
    next
      case False
      with assms escape s obtain y where "simple_escape x = Some y" by (auto split: option.splits)
      with assms escape s False have "\<exists>t'. scan_string q = Inr (t', r)"
        by (intro bind_scan_rest) simp
      with s show ?thesis by (metis length_Cons le_SucI order_refl)
    qed
  next
    case plain
    with assms have "\<exists>t'. scan_string s = Inr (t', r)"
      by (intro bind_scan_rest) (simp split: if_splits)
    then show ?thesis by blast
  qed
qed

lemma scan_string_length: "scan_string s = Inr (t, r) \<Longrightarrow> length r < length s"
proof (induction s arbitrary: t rule: measure_induct_rule [of length])
  case (less s)
  then obtain c s' where s: "s = c # s'" by (cases s) auto
  from scan_string_step [OF less.prems [unfolded s]] show ?case
  proof
    assume "\<exists>q t'. length q \<le> length s' \<and> scan_string q = Inr (t', r)"
    then obtain q t' where q: "length q \<le> length s'" "scan_string q = Inr (t', r)" by blast
    with s have "length r < length q" by (intro less.IH) auto
    with q s show ?thesis by simp
  qed (simp add: s)
qed

lemma span_digits_length: "span_digits s = (ds, r) \<Longrightarrow> length r \<le> length s"
  by (auto simp: span_digits_def length_dropWhile_le)

lemma scan_int_length: "scan_int s = Some (ds, r) \<Longrightarrow> length r < length s"
  by (auto simp: scan_int_def span_digits_def less_Suc_eq_le length_dropWhile_le
      split: list.splits if_splits)

lemma scan_frac_length: "scan_frac s = Some (ds, r) \<Longrightarrow> length r \<le> length s"
  by (auto simp: scan_frac_def dest!: span_digits_length split: list.splits if_splits)

lemma scan_exp_length: "scan_exp s = Some (x, r) \<Longrightarrow> length r \<le> length s"
  by (auto simp: scan_exp_def Let_def dest!: span_digits_length
      split: list.splits if_splits prod.splits)

lemma scan_number_length: "scan_number s = Inr (v, r) \<Longrightarrow> length r < length s"
  by (auto simp: scan_number_def Let_def dest!: scan_int_length scan_frac_length scan_exp_length
      split: option.splits if_splits) linarith+

lemma scan_atom_length: "scan_atom s = Inr (v, r) \<Longrightarrow> length r < length s"
  by (auto simp: scan_atom_def dest!: starts_with_length scan_number_length split: if_splits)

lemma parse_lengths:
  "(\<forall>s v r. parse_value h n s = Some (Inr (v, r)) \<longrightarrow> length r < length s) \<and>
   (\<forall>acc s v r. parse_members h n acc s = Some (Inr (v, r)) \<longrightarrow> length r < length s) \<and>
   (\<forall>vs s v r. parse_elements h n vs s = Some (Inr (v, r)) \<longrightarrow> length r < length s)"
proof (induction n)
  case (Suc n)
  then have pval: "parse_value h n s = Some (Inr (v, r)) \<Longrightarrow> length r < length s"
    and members: "parse_members h n acc s = Some (Inr (v, r)) \<Longrightarrow> length r < length s"
    and elements: "parse_elements h n vs s = Some (Inr (v, r)) \<Longrightarrow> length r < length s"
    for acc vs s v r by blast+
  have ws: "length (skip_ws s) \<le> length s" "length (skip_ws (drop 1 s)) \<le> length s - 1" for s
    using skip_ws_length [of s] skip_ws_length [of "drop 1 s"] by simp_all
  have v: "length r < length s" if "parse_value h (Suc n) s = Some (Inr (v, r))" for s v r
  proof (cases s)
    case (Cons c s')
    with that ws [of s'] show ?thesis
      by (auto simp: Let_def bind_result_Inr_iff
          dest!: scan_string_length scan_atom_length members elements split: if_splits)
  qed (use that in simp)
  have m: "length r < length s" if "parse_members h (Suc n) acc s = Some (Inr (v, r))" for acc s v r
  proof -
    from that obtain c s' k r1 w r3 where s: "s = c # s'" "scan_string s' = Inr (k, r1)"
      and pv: "parse_value h n (skip_ws (drop 1 (skip_ws r1))) = Some (Inr (w, r3))"
      and rest: "length r < length (skip_ws r3) \<or> r = drop 1 (skip_ws r3) \<or>
        length r < length (skip_ws (drop 1 (skip_ws r3)))"
      by (auto simp: Let_def bind_parse_Inr_iff bind_result_Inr_iff
          dest!: members split: list.splits if_splits)
    have "length (skip_ws r3) < length s" and "length (skip_ws (drop 1 (skip_ws r3))) < length s"
      using scan_string_length [OF s(2)] pval [OF pv] ws [of r1] ws [of r3] ws [of "skip_ws r1"]
        ws [of "skip_ws r3"] s(1) by simp_all
    with rest show ?thesis by auto
  qed
  have e: "length r < length s" if "parse_elements h (Suc n) vs s = Some (Inr (v, r))" for vs s v r
  proof -
    from that obtain w r1 where pv: "parse_value h n s = Some (Inr (w, r1))"
      and rest: "r = drop 1 (skip_ws r1) \<or> length r < length (skip_ws (drop 1 (skip_ws r1)))"
      by (auto simp: Let_def bind_parse_Inr_iff dest!: elements split: if_splits)
    from pval [OF pv] ws [of r1] ws [of "skip_ws r1"] rest show ?thesis by auto
  qed
  from v m e show ?case by blast
qed simp

lemma parse_value_length: "parse_value h n s = Some (Inr (v, r)) \<Longrightarrow> length r < length s"
  using parse_lengths by blast

lemma parse_fuel:
  "(\<forall>s. 2 * length s + 1 \<le> n \<longrightarrow> parse_value h n s \<noteq> None) \<and>
   (\<forall>acc s. 2 * length s + 1 \<le> n \<longrightarrow> parse_members h n acc s \<noteq> None) \<and>
   (\<forall>vs s. 2 * length s + 2 \<le> n \<longrightarrow> parse_elements h n vs s \<noteq> None)"
proof (induction n)
  case (Suc n)
  then have pval: "2 * length s + 1 \<le> n \<Longrightarrow> parse_value h n s \<noteq> None"
    and members: "2 * length s + 1 \<le> n \<Longrightarrow> parse_members h n acc s \<noteq> None"
    and elements: "2 * length s + 2 \<le> n \<Longrightarrow> parse_elements h n vs s \<noteq> None"
    for acc vs s by blast+
  have ws: "length (skip_ws s) \<le> length s" "length (skip_ws (drop 1 s)) \<le> length s - 1" for s
    using skip_ws_length [of s] skip_ws_length [of "drop 1 s"] by simp_all
  have v: "parse_value h (Suc n) s \<noteq> None" if "2 * length s + 1 \<le> Suc n" for s
  proof (cases s)
    case (Cons c s')
    with that ws [of s'] have "parse_members h n [] (skip_ws s') \<noteq> None"
      and "parse_elements h n [] (skip_ws s') \<noteq> None"
      by (intro members elements; simp)+
    with Cons show ?thesis by (simp add: Let_def)
  qed simp
  have m: "parse_members h (Suc n) acc s \<noteq> None" if n: "2 * length s + 1 \<le> Suc n" for acc s
  proof (cases s)
    case (Cons c s')
    have step: "parse_members h n acc' (skip_ws (drop 1 (skip_ws r3))) \<noteq> None"
        "parse_value h n (skip_ws (drop 1 (skip_ws r1))) \<noteq> None"
      if "scan_string s' = Inr (k, r1)"
        "parse_value h n (skip_ws (drop 1 (skip_ws r1))) = Some (Inr (w, r3)) \<or> r3 = r1" for acc' k r1 r3 w
    proof -
      have r1: "length (skip_ws (drop 1 (skip_ws r1))) < length s" "length r1 < length s"
        using scan_string_length [OF that(1)] ws [of r1] ws [of "skip_ws r1"] Cons by simp_all
      with that(2) have "length r3 < length s" by (auto dest!: parse_value_length)
      then have "length (skip_ws (drop 1 (skip_ws r3))) < length s"
        using ws [of r3] ws [of "skip_ws r3"] by simp
      with r1 n show "parse_members h n acc' (skip_ws (drop 1 (skip_ws r3))) \<noteq> None"
        and "parse_value h n (skip_ws (drop 1 (skip_ws r1))) \<noteq> None"
        by (intro members pval; simp)+
    qed
    have cont: "bind_parse (parse_value h n (skip_ws (drop 1 (skip_ws r1)))) (\<lambda>(v, r3).
        (let r4 = skip_ws r3; acc' = acc @ [(k, v)] in
         if starts_with r4 ''}'' then Some (bind_result (h acc') (\<lambda>v. Inr (v, drop 1 r4)))
         else if starts_with r4 '','' then parse_members h n acc' (skip_ws (drop 1 r4))
         else Some (Inl Json_Decode_Error))) \<noteq> None"
      if "scan_string s' = Inr (k, r1)" for k r1
    proof (rule bind_parse_not_None)
      show "parse_value h n (skip_ws (drop 1 (skip_ws r1))) \<noteq> None"
        using step(2) [OF that] by blast
      show "(case x of (v, r3) \<Rightarrow>
          let r4 = skip_ws r3; acc' = acc @ [(k, v)] in
          if starts_with r4 ''}'' then Some (bind_result (h acc') (\<lambda>v. Inr (v, drop 1 r4)))
          else if starts_with r4 '','' then parse_members h n acc' (skip_ws (drop 1 r4))
          else Some (Inl Json_Decode_Error)) \<noteq> None"
        if "parse_value h n (skip_ws (drop 1 (skip_ws r1))) = Some (Inr x)" for x
        using step(1) [OF \<open>scan_string s' = Inr (k, r1)\<close>, of "fst x" "snd x"] that
        by (cases x) (simp add: Let_def del: not_None_eq)
    qed
    show ?thesis
    proof (cases "scan_string s'")
      case (Inr kr)
      obtain k r1 where "kr = (k, r1)" by (cases kr)
      with Inr cont [of k r1] Cons show ?thesis by (simp add: Let_def del: not_None_eq)
    qed (simp add: Cons)
  qed simp
  have e: "parse_elements h (Suc n) vs s \<noteq> None" if n: "2 * length s + 2 \<le> Suc n" for vs s
  proof -
    have "parse_elements h n vs' (skip_ws (drop 1 (skip_ws r1))) \<noteq> None"
      if "parse_value h n s = Some (Inr (w, r1))" for vs' w r1
      using parse_value_length [OF that] ws [of r1] ws [of "skip_ws r1"] n
      by (intro elements) simp
    note rest = this
    have "parse_value h n s \<noteq> None" using n by (intro pval) simp
    then obtain y where y: "parse_value h n s = Some y" by blast
    show ?thesis
    proof (cases y)
      case (Inr vr)
      obtain v r where "vr = (v, r)" by (cases vr)
      with y Inr rest [of v r "vs @ [v]"] show ?thesis by (simp add: Let_def del: not_None_eq)
    qed (simp add: y)
  qed
  from v m e show ?case by blast
qed simp

lemma json_loads_fuel_enough: "2 * length s + 1 \<le> n \<Longrightarrow> json_loads_fuel h n s \<noteq> None"
proof -
  assume n: "2 * length s + 1 \<le> n"
  have "2 * length (skip_ws s) + 1 \<le> n" using skip_ws_length [of s] n by linarith
  then have "parse_value h n (skip_ws s) \<noteq> None" using parse_fuel by blast
  then show ?thesis unfolding json_loads_fuel_def by (intro bind_parse_not_None) auto
qed

end
