(* ===== verification/Manifest.thy ===== *)
theory Manifest
  imports Attributes Canonical Json_Loads
begin

text \<open>
  The closed Manifest projection carried by a task binding
  (\<open>_parse_closed_manifest_projection\<close> of \<open>admission/validation.py\<close>): the JSON text is parsed,
  must be its own canonical form and hash to the declared digest, names the Delivery of the
  record, and lists the Roles in strict order of their identity, the map of which hashes to
  \<open>resolved_map_digest\<close>.
\<close>

section \<open>Parsing\<close>

definition closed_object :: "pyval \<Rightarrow> string list \<Rightarrow> string \<Rightarrow> pydict result" where
  "closed_object v ks msg =
     (if is_dict v \<and> keys_are (the_dict v) ks then Inr (the_dict v) else Inl (verr msg))"

fun reject_duplicates_from :: "pydict \<Rightarrow> pydict \<Rightarrow> pyval result" where
  "reject_duplicates_from acc [] = Inr (VDict acc)"
| "reject_duplicates_from acc ((k, v) # ps) =
     (if has_key acc k then Inl (verr ''duplicate Manifest projection member'')
      else reject_duplicates_from (acc @ [(k, v)]) ps)"

definition reject_duplicates :: pairs_hook where
  "reject_duplicates ps = reject_duplicates_from [] ps"

text \<open>
  \<open>except (json.JSONDecodeError, UnicodeError)\<close>: a \<open>ValueError\<close> of another class, and the
  \<open>ValidationError\<close> of the hook, pass.
\<close>

definition parse_projection :: "string \<Rightarrow> pyval result" where
  "parse_projection encoded = (case json_loads reject_duplicates encoded of
       Inl Json_Decode_Error \<Rightarrow> Inl (verr ''invalid Manifest projection JSON'')
     | r \<Rightarrow> r)"

section \<open>Workflow and repository bindings\<close>

definition projection_keys :: "string list" where
  "projection_keys = [''schema_version'', ''delivery_id'', ''task_id'', ''manifest_digest'',
     ''workflow'', ''repository_model_bindings'', ''roles'']"

definition workflow_keys :: "string list" where
  "workflow_keys = [''package_name'', ''exact_package_version'', ''package_digest'',
     ''workflow_id'', ''workflow_version'', ''snapshot_id'', ''snapshot_digest'']"

definition workflow_checks :: "pydict \<Rightarrow> py_error option list" where
  "workflow_checks w =
     [require (matches PACKAGE_NAME (dget w ''package_name'')) (verr ''invalid Manifest Package name'')]
     @ map (\<lambda>n. require (matches VERSION (dget w n)) (verr ''invalid Manifest version''))
         [''exact_package_version'', ''workflow_version'']
     @ map (\<lambda>n. require (matches PREFIXED_DIGEST (dget w n)) (verr ''invalid Manifest digest''))
         [''package_digest'', ''snapshot_digest'']
     @ map (\<lambda>n. require (matches IDENTIFIER (dget w n)) (verr ''invalid Manifest identity''))
         [''workflow_id'', ''snapshot_id'']"

definition repository_keys :: "pyval \<Rightarrow> string list" where
  "repository_keys state =
     (if state = VStr ''ABSENT'' then [''document_state'', ''resolved_map_digest'']
      else [''document_state'', ''document_digest'', ''resolved_map_digest''])"

definition parse_repository :: "pyval \<Rightarrow> pydict result" where
  "parse_repository v =
     (if \<not> is_dict v then Inl (verr ''invalid repository binding shape'')
      else
        (let state = dget (the_dict v) ''document_state'' in
         bind_result (closed_object v (repository_keys state) ''invalid repository binding shape'')
           (\<lambda>r. check_then (first_error
              (require_in state [''ABSENT'', ''PRESENT''] (verr ''invalid repository document state'')
               # map (\<lambda>n. require (matches PREFIXED_DIGEST (dget r n))
                            (verr ''invalid repository binding digest''))
                   (if state = VStr ''ABSENT'' then [''resolved_map_digest'']
                    else [''document_digest'', ''resolved_map_digest''])))
              (Inr r))))"

section \<open>Roles\<close>

definition role_keys :: "string list" where
  "role_keys = [''role_id'', ''role_prompt_identity'', ''role_prompt_digest'',
     ''agent_provider_id'', ''agent_provider_version'', ''agent_provider_adapter_key'',
     ''agent_provider_descriptor_digest'', ''required_capabilities'', ''model_provider_id'',
     ''model_id'', ''resolution_source'']"

definition role_identity_names :: "string list" where
  "role_identity_names = [''role_id'', ''role_prompt_identity'', ''agent_provider_id'',
     ''agent_provider_adapter_key'', ''model_provider_id'', ''model_id'']"

text \<open>\<open>capabilities == sorted(set(capabilities))\<close>: strictly increasing strings.\<close>

definition capabilities_ok :: "pyval \<Rightarrow> bool" where
  "capabilities_ok v \<longleftrightarrow> is_list v \<and> the_list v \<noteq> [] \<and>
     list_all (matches IDENTIFIER) (the_list v) \<and>
     (let cs = map the_str (the_list v) in cs = sort (remdups cs))"

definition role_checks :: "pydict \<Rightarrow> py_error option list" where
  "role_checks role =
     map (\<lambda>n. require (matches IDENTIFIER (dget role n)) (verr ''invalid Manifest Role identity''))
       role_identity_names @
     [require (matches PREFIXED_DIGEST (dget role ''role_prompt_digest''))
        (verr ''invalid Role prompt digest''),
      require (matches PROVIDER_VERSION (dget role ''agent_provider_version''))
        (verr ''invalid Agent Provider version''),
      require (matches PREFIXED_DIGEST (dget role ''agent_provider_descriptor_digest''))
        (verr ''invalid Agent Provider descriptor digest''),
      require (capabilities_ok (dget role ''required_capabilities''))
        (verr ''invalid required capability collection''),
      require_in (dget role ''resolution_source'') [''REPOSITORY'', ''EXECUTION_DEFAULT'']
        (verr ''invalid Role resolution source'')]"

definition resolved_role :: "pydict \<Rightarrow> pyval" where
  "resolved_role role = VDict (map (\<lambda>(k, n). (k, dget role n))
     [(''roleId'', ''role_id''), (''rolePromptIdentity'', ''role_prompt_identity''),
      (''rolePromptDigest'', ''role_prompt_digest''), (''agentProviderId'', ''agent_provider_id''),
      (''agentProviderVersion'', ''agent_provider_version''),
      (''agentProviderAdapterKey'', ''agent_provider_adapter_key''),
      (''agentProviderDescriptorDigest'', ''agent_provider_descriptor_digest''),
      (''requiredCapabilities'', ''required_capabilities''),
      (''modelProviderId'', ''model_provider_id''), (''modelId'', ''model_id''),
      (''resolutionSource'', ''resolution_source'')])"

text \<open>The loop over the Roles, with the identity of the previous one.\<close>

fun resolve_roles :: "string option \<Rightarrow> pyval list \<Rightarrow> pyval list result" where
  "resolve_roles prev [] = Inr []"
| "resolve_roles prev (v # vs) =
     bind_result (closed_object v role_keys ''invalid Manifest Role shape'') (\<lambda>role.
       (let role_id = the_str (dget role ''role_id'') in
        check_then (first_error (role_checks role @
            [require (case prev of None \<Rightarrow> True | Some p \<Rightarrow> p < role_id)
               (verr ''Manifest Roles are not uniquely sorted'')]))
          (bind_result (resolve_roles (Some role_id) vs) (\<lambda>rs. Inr (resolved_role role # rs)))))"

section \<open>The projection\<close>

definition parse_closed_manifest_projection :: "pydict \<Rightarrow> pydict result" where
  "parse_closed_manifest_projection a =
     (let encoded = the_str (dget a ''agentops.delivery.manifest_projection'') in
      bind_result (parse_projection encoded) (\<lambda>v.
      bind_result (canonical_bytes v) (\<lambda>b.
      check_then (first_error
        [require (b = encoded) (verr ''Manifest projection is not canonical''),
         require (py_eq (VStr (sha256_hex encoded))
                    (dget a ''agentops.delivery.manifest_projection_digest''))
           (verr ''Manifest projection digest mismatch'')])
      (bind_result (closed_object v projection_keys ''invalid Manifest projection shape'') (\<lambda>p.
      check_then (first_error
        (require (dget p ''schema_version'' = VStr ''execution.delivery-manifest-projection@1.0.0'')
           (verr ''invalid Manifest projection schema'')
         # map (\<lambda>(pn, an). require (py_eq (dget p pn) (dget a an))
                   (verr ''Manifest projection identity mismatch''))
             [(''delivery_id'', ''agentops.delivery.id''), (''task_id'', ''agentops.task.id''),
              (''manifest_digest'', ''agentops.manifest.digest'')]))
      (bind_result (closed_object (dget p ''workflow'') workflow_keys
                      ''invalid Manifest Workflow shape'') (\<lambda>w.
      check_then (first_error (workflow_checks w))
      (bind_result (parse_repository (dget p ''repository_model_bindings'')) (\<lambda>repository.
      check_then (require (is_list (dget p ''roles'') \<and> length (the_list (dget p ''roles'')) \<le> 128)
                    (verr ''invalid Manifest Role collection''))
      (bind_result (resolve_roles None (the_list (dget p ''roles''))) (\<lambda>resolved.
      bind_result (canonical_digest (VList resolved)) (\<lambda>digest.
      check_then (require (dget repository ''resolved_map_digest'' = VStr (''sha256:'' @ digest))
                    (verr ''resolved Role map digest mismatch''))
      (Inr p)))))))))))))"

section \<open>What an accepted projection guarantees\<close>

lemma closed_object_Inr [simp]:
  "closed_object v ks msg = Inr d \<longleftrightarrow> v = VDict d \<and> keys_are d ks"
  by (auto simp: closed_object_def is_dict_iff)

lemma parse_projection_Inr [simp]:
  "parse_projection s = Inr v \<longleftrightarrow> json_loads reject_duplicates s = Inr v"
  by (simp add: parse_projection_def split: sum.splits py_error.splits)

text \<open>An object member never occurs twice, whatever the depth at which the object stands.\<close>

lemma reject_duplicates_from_Inr:
  "reject_duplicates_from acc ps = Inr v \<Longrightarrow> distinct (map fst acc) \<Longrightarrow>
     v = VDict (acc @ ps) \<and> distinct (map fst (acc @ ps))"
proof (induction acc ps rule: reject_duplicates_from.induct)
  case (2 acc k v ps)
  then show ?case
    by (auto simp: has_key_iff keys_def split: if_splits)
qed simp

lemma reject_duplicates_Inr:
  "reject_duplicates ps = Inr v \<Longrightarrow> v = VDict ps \<and> distinct (map fst ps)"
  unfolding reject_duplicates_def using reject_duplicates_from_Inr [of "[]" ps v] by simp

fun strictly_sorted :: "'a::order list \<Rightarrow> bool" where
  "strictly_sorted (x # y # zs) = (x < y \<and> strictly_sorted (y # zs))"
| "strictly_sorted _ = True"

definition role_ids :: "pyval list \<Rightarrow> string list" where
  "role_ids vs = map (\<lambda>v. the_str (dget (the_dict v) ''role_id'')) vs"

lemma resolve_roles_sorted:
  "resolve_roles prev vs = Inr rs \<Longrightarrow>
     strictly_sorted ((case prev of None \<Rightarrow> [] | Some p \<Rightarrow> [p]) @ role_ids vs)"
proof (induction prev vs arbitrary: rs rule: resolve_roles.induct)
  case (2 prev v vs)
  from 2(2) obtain role where role: "v = VDict role" "keys_are role role_keys"
    and prev: "case prev of None \<Rightarrow> True | Some p \<Rightarrow> p < the_str (dget role ''role_id'')"
    and rest: "\<exists>rs'. resolve_roles (Some (the_str (dget role ''role_id''))) vs = Inr rs'"
    by (auto simp: bind_result_Inr_iff Let_def)
  from rest obtain rs' where "resolve_roles (Some (the_str (dget role ''role_id''))) vs = Inr rs'" ..
  from 2(1) [OF refl this] have "strictly_sorted (the_str (dget role ''role_id'') # role_ids vs)"
    by simp
  with prev role(1) show ?case by (auto simp: role_ids_def split: option.splits)
qed (simp add: role_ids_def split: option.splits)

lemma resolve_roles_length: "resolve_roles prev vs = Inr rs \<Longrightarrow> length rs = length vs"
  by (induction prev vs arbitrary: rs rule: resolve_roles.induct)
    (auto simp: bind_result_Inr_iff Let_def)

text \<open>
  The facts an accepted projection gives to its readers: it is the parse of the attribute, whose
  text is canonical and hashes to the declared digest, and it names the same Delivery, Task and
  Manifest as the record.
\<close>

lemma manifest_projection_accepted:
  assumes "parse_closed_manifest_projection a = Inr p"
  shows "json_loads reject_duplicates (the_str (dget a ''agentops.delivery.manifest_projection''))
           = Inr (VDict p)"
    and "canonical_bytes (VDict p) = Inr (the_str (dget a ''agentops.delivery.manifest_projection''))"
    and "dget a ''agentops.delivery.manifest_projection_digest'' =
           VStr (sha256_hex (the_str (dget a ''agentops.delivery.manifest_projection'')))"
    and "keys_are p projection_keys"
    and "py_eq (dget p ''delivery_id'') (dget a ''agentops.delivery.id'')"
    and "py_eq (dget p ''task_id'') (dget a ''agentops.task.id'')"
    and "py_eq (dget p ''manifest_digest'') (dget a ''agentops.manifest.digest'')"
  using assms
  unfolding parse_closed_manifest_projection_def Let_def bind_result_Inr_iff check_then_Inr_iff
  by auto

lemma manifest_roles_accepted:
  assumes "parse_closed_manifest_projection a = Inr p"
  shows "\<exists>vs rs. dget p ''roles'' = VList vs \<and> length vs \<le> 128 \<and> resolve_roles None vs = Inr rs"
    and "\<exists>w. dget p ''workflow'' = VDict w \<and> keys_are w workflow_keys \<and>
             first_error (workflow_checks w) = None"
  using assms
  unfolding parse_closed_manifest_projection_def Let_def bind_result_Inr_iff check_then_Inr_iff
  by (auto simp: is_list_iff)

end
