(* ===== verification/Event_Rules.thy ===== *)
theory Event_Rules
  imports Manifest
begin

text \<open>
  The rules of an event record (\<open>_validate_event\<close> and \<open>_validate_finding\<close> of
  \<open>admission/validation.py\<close>): the closed attribute set of each event, the task binding with its
  Manifest projection, the composition of findings with fixes and rechecks, and the numeric
  constraints.
\<close>

section \<open>Findings\<close>

definition recheck_only :: "string list" where
  "recheck_only = [''agentops.recheck.review.id'', ''agentops.recheck.finding.id'',
     ''agentops.recheck.fix.id'', ''agentops.recheck.role.id'', ''agentops.recheck.invocation.id'']"

definition finding_checks :: "pydict \<Rightarrow> py_error option list" where
  "finding_checks a =
     (let kind = dget a ''agentops.finding.target.kind'';
          containing = has_key a ''agentops.finding.target.artifact.id'';
          fix_edge = has_key a ''agentops.fix.id'';
          recheck = has_key a ''agentops.recheck.id'' in
      [require ((kind = VStr ''SECTION'') = containing
                \<or> kind = VStr ''COMPONENT'' \<or> kind = VStr ''REQUIREMENT'')
         (verr ''invalid containing Artifact applicability''),
       (if kind = VStr ''ARTIFACT''
        then require (\<not> containing) (verr ''ARTIFACT target prohibits containing Artifact'')
        else None),
       require (\<not> (fix_edge \<and> recheck))
         (verr ''Fix and Recheck compositions are mutually exclusive''),
       (if fix_edge then
          require (py_eq (dget a ''agentops.fix.finding.id'') (dget a ''agentops.finding.id''))
            (verr ''incomplete or mismatched fix edge'')
        else require (\<not> has_key a ''agentops.fix.finding.id'') (verr ''incomplete Fix composition''))] @
      (if recheck then
         [require (py_eq (dget a ''agentops.recheck.finding.id'') (dget a ''agentops.finding.id''))
            (verr ''mismatched recheck endpoints''),
          require (py_eq (dget a ''agentops.recheck.review.id'') (dget a ''agentops.source.review.id''))
            (verr ''mismatched recheck endpoints'')]
       else [require (has_none recheck_only a) (verr ''incomplete Recheck composition'')]) @
      (if \<not> fix_edge \<and> \<not> recheck then
         [require (py_eq (dget a ''agentops.source.review.id'') (dget a ''agentops.review.id''))
            (verr ''ordinary Finding source/current Review mismatch'')]
       else []))"

section \<open>Task bindings\<close>

definition task_binding_id :: "string \<Rightarrow> string" where
  "task_binding_id delivery_id = ''task-binding-'' @ take 24 (sha256_hex delivery_id)"

text \<open>\<open>encode\<close> raises on a lone surrogate before the digest is taken.\<close>

definition task_binding_check :: "pydict \<Rightarrow> py_error option" where
  "task_binding_check a =
     (let delivery_id = the_str (dget a ''agentops.delivery.id'');
          family = dget a ''agentops.workflow.family'' in
      case first_error
        [require_match TASK_ID (dget a ''agentops.task.id'') (verr ''task id is invalid''),
         require (\<not> has_surrogate delivery_id) (Value_Error ''surrogates not allowed''),
         require (py_eq (dget a ''agentops.event.id'') (VStr (task_binding_id delivery_id)))
           (verr ''unstable task binding id'')]
      of Some e \<Rightarrow> Some e
       | None \<Rightarrow>
         (case parse_closed_manifest_projection a of
            Inl e \<Rightarrow> Some e
          | Inr projection \<Rightarrow>
              require (py_eq family (dget (the_dict (dget projection ''workflow'')) ''workflow_id'') \<and>
                       py_eq (dget a ''agentops.family.schema'') (VStr (the_str family @ ''@1'')))
                (verr ''Manifest Workflow family mismatch'')))"

section \<open>Events\<close>

definition event_span_fields :: "string list" where
  "event_span_fields = [''span_name'', ''span_kind'', ''start_time_unix_nano'',
     ''end_time_unix_nano'', ''parent_span_id'', ''trace_state'', ''span_flags'', ''span_links'',
     ''span_status'']"

definition is_task_profile :: "pydict \<Rightarrow> bool" where
  "is_task_profile r \<longleftrightarrow> dget r ''profile_version'' = VStr TASK_PROFILE_VERSION"

definition event_envelope_checks :: "pydict \<Rightarrow> pydict \<Rightarrow> py_error option list" where
  "event_envelope_checks r a =
     [require_in (dget r ''event_name'')
        (if is_task_profile r then EVENT_NAMES @ [''task.binding''] else EVENT_NAMES)
        (verr ''unknown EventName''),
      require (has_none event_span_fields r) (verr ''Span field prohibited on Event''),
      (if has_key r ''trace_id'' then require (matches TRACE_ID (dget r ''trace_id''))
         (verr ''invalid Event trace_id'') else None),
      (if has_key r ''span_id'' then require (matches SPAN_ID (dget r ''span_id''))
         (verr ''invalid Event span_id'') else None),
      require (list_all (\<lambda>k. starts_with k ''agentops.'') (keys a))
        (verr ''standard Span attribute on Event'')]"

definition closed_set_checks :: "pydict \<Rightarrow> pydict \<Rightarrow> py_error option list" where
  "closed_set_checks r a =
     (let event_name = the_str (dget r ''event_name'') in
      case EVENT_RULES event_name of
        None \<Rightarrow> [Some (Key_Error event_name)]
      | Some (allowed0, required0) \<Rightarrow>
          (let direct = (if is_task_profile r then [''agentops.delivery.id''] else []);
               allowed = allowed0 @ direct; required = required0 @ direct;
               disallowed = filter (\<lambda>k. k \<notin> set allowed) (keys a) in
           [require (has_all direct a) (verr ''Profile 2 requires direct Delivery ID''),
            (if disallowed \<noteq> []
             then Some (verr (least_string disallowed @ '' prohibited on '' @ event_name)) else None),
            require (has_all required a)
              (verr (''incomplete closed field set for '' @ event_name))]))"

definition family_checks :: "string \<Rightarrow> pydict \<Rightarrow> py_error option list" where
  "family_checks event_name a =
     [(if event_name \<noteq> ''sampling.decision'' then
         require (str_such (\<lambda>f. py_eq (dget a ''agentops.family.schema'') (VStr (f @ ''@1'')))
                    (dget a ''agentops.workflow.family''))
           (verr ''family/schema mismatch'')
       else None),
      (if event_name = ''usage'' \<and> dget a ''agentops.usage.kind'' = VStr ''money'' then
         require_match CURRENCY (dget a ''agentops.usage.unit'')
           (verr ''money usage unit must be ISO-4217 currency'')
       else None),
      (if has_key a ''agentops.review.scope'' then
         require_match REVIEW_SCOPE (dget a ''agentops.review.scope'')
           (verr ''invalid objective review scope'')
       else None),
      (if has_key a ''agentops.delivery.elapsed_time_ms'' then
         require (num_le (VInt 0) (dget a ''agentops.delivery.elapsed_time_ms''))
           (verr ''invalid Delivery elapsed time'')
       else None)]"

definition recheck_required :: "string list" where
  "recheck_required = [''agentops.recheck.review.id'', ''agentops.iteration.id'',
     ''agentops.recheck.role.id'', ''agentops.recheck.invocation.id'']"

definition fresh_reader_fields :: "string list" where
  "fresh_reader_fields = [''agentops.fresh_reader.result'', ''agentops.fresh_reader.finding.count'']"

definition review_checks :: "string \<Rightarrow> pydict \<Rightarrow> py_error option list" where
  "review_checks event_name a =
     [(if event_name = ''review.finding'' \<or> event_name = ''review.summary'' then
         (if has_key a ''agentops.recheck.id''
          then require (has_all recheck_required a) (verr ''incomplete recheck'')
          else require (\<not> has_key a ''agentops.iteration.id'') (verr ''C27 prohibited outside recheck''))
       else None),
      (if event_name = ''review.summary'' then
         (if dget a ''agentops.review.lens'' = VStr ''FRESH_READER''
          then require (has_all fresh_reader_fields a) (verr ''incomplete Fresh Reader summary'')
          else require (has_none fresh_reader_fields a)
                 (verr ''Fresh Reader field outside Fresh Reader summary''))
       else None)]"

definition numeric_checks :: "string \<Rightarrow> pydict \<Rightarrow> py_error option list" where
  "numeric_checks event_name a =
     (let probability = dget a ''agentops.sampling.probability'' in
      [(if event_name = ''implementation.summary'' then
          require (num_le (dget a ''agentops.coverage.covered'') (dget a ''agentops.coverage.total''))
            (verr ''covered exceeds total'')
        else None),
       (if probability \<noteq> VNone then
          require (num_le (VInt 0) probability \<and> num_le probability (VInt 1))
            (verr ''sampling probability outside [0,1]'')
        else None)])"

definition validate_event :: "pydict \<Rightarrow> pydict \<Rightarrow> py_error option" where
  "validate_event r a =
     (let event_name = the_str (dget r ''event_name'') in
      case first_error (event_envelope_checks r a @ closed_set_checks r a) of
        Some e \<Rightarrow> Some e
      | None \<Rightarrow> first_error
          ([(if event_name = ''task.binding'' then task_binding_check a else None)]
           @ family_checks event_name a
           @ (if event_name = ''review.finding'' then finding_checks a else [])
           @ review_checks event_name a
           @ numeric_checks event_name a))"

end
