(* ===== verification/Span_Rules.thy ===== *)
theory Span_Rules
  imports Attributes
begin

text \<open>
  The rules of a Span record (\<open>_validate_span\<close> of \<open>admission/validation.py\<close>): the shape of its
  fields, its links, and which attributes the kind of Span requires and permits.
\<close>

section \<open>Checks of single fields\<close>

definition uint32 :: "pyval \<Rightarrow> bool" where
  "uint32 v = int_such (\<lambda>i. 0 \<le> i \<and> i \<le> 0xFFFFFFFF) v"

definition when_key :: "pydict \<Rightarrow> string \<Rightarrow> (pyval \<Rightarrow> bool) \<Rightarrow> py_error \<Rightarrow> py_error option" where
  "when_key d k P e = (if has_key d k then require (P (dget d k)) e else None)"

definition short_text :: "nat \<Rightarrow> pyval \<Rightarrow> bool" where
  "short_text n v = str_such (\<lambda>s. py_len s \<le> n) v"

definition span_required :: "string list" where
  "span_required = [''span_name'', ''trace_id'', ''span_id'', ''span_kind'',
     ''start_time_unix_nano'', ''end_time_unix_nano'', ''span_flags'', ''span_links'',
     ''span_status'']"

definition link_checks :: "pyval \<Rightarrow> py_error option list" where
  "link_checks v =
     (let l = the_dict v in
      [require (is_dict v \<and> has_all [''trace_id'', ''span_id''] l \<and>
                keys_within l [''trace_id'', ''span_id'', ''trace_state'', ''flags''])
         (verr ''invalid Span link shape''),
       require (matches TRACE_ID (dget l ''trace_id'') \<and> matches SPAN_ID (dget l ''span_id''))
         (verr ''invalid Span link identity''),
       when_key l ''trace_state'' (short_text 512) (verr ''invalid Span link trace_state''),
       when_key l ''flags'' uint32 (verr ''invalid Span link flags'')])"

definition span_field_checks :: "pydict \<Rightarrow> py_error option list" where
  "span_field_checks r =
     [require (has_all span_required r) (verr ''incomplete Span shape''),
      require (\<not> has_key r ''event_name'') (verr ''event_name prohibited on Span''),
      require (str_such (\<lambda>s. 1 \<le> py_len s \<and> py_len s \<le> 128) (dget r ''span_name''))
        (verr ''invalid span_name''),
      require (matches TRACE_ID (dget r ''trace_id'')) (verr ''invalid trace_id''),
      require (matches SPAN_ID (dget r ''span_id'')) (verr ''invalid span_id''),
      when_key r ''parent_span_id'' (matches SPAN_ID) (verr ''invalid parent_span_id''),
      require_in (dget r ''span_kind'') [''INTERNAL'', ''CLIENT''] (verr ''invalid Span kind''),
      require_in (dget r ''span_status'') [''UNSET'', ''OK'', ''ERROR''] (verr ''invalid Span status''),
      require (matches NANOSECONDS (dget r ''start_time_unix_nano''))
        (verr ''invalid start_time_unix_nano''),
      require (matches NANOSECONDS (dget r ''end_time_unix_nano''))
        (verr ''invalid end_time_unix_nano''),
      require (digits_val (the_str (dget r ''start_time_unix_nano''))
               \<le> digits_val (the_str (dget r ''end_time_unix_nano'')))
        (verr ''Span end precedes start''),
      require (uint32 (dget r ''span_flags'')) (verr ''invalid Span flags''),
      when_key r ''trace_state'' (short_text 512) (verr ''invalid trace_state''),
      require (is_list (dget r ''span_links'') \<and> length (the_list (dget r ''span_links'')) \<le> 128)
        (verr ''invalid Span links'')]"

section \<open>Attributes of a Span\<close>

definition root_fields :: "string list" where
  "root_fields = [''agentops.delivery.id'', ''agentops.workflow.id'', ''agentops.workflow.version'',
     ''agentops.implementation.id'', ''agentops.runtime.id'', ''agentops.manifest.digest'',
     ''agentops.workflow.family'']"

definition root_only :: "bool \<Rightarrow> string list" where
  "root_only task_profile = filter (\<lambda>k. k \<noteq> ''agentops.runtime.id'' \<and>
     (task_profile \<longrightarrow> k \<noteq> ''agentops.delivery.id'')) root_fields"

definition agentops_names :: "pydict \<Rightarrow> string list" where
  "agentops_names a = filter (\<lambda>k. starts_with k ''agentops.'') (keys a)"

definition standard_names :: "pydict \<Rightarrow> string list" where
  "standard_names a = filter (\<lambda>k. \<not> starts_with k ''agentops.'') (keys a)"

definition model_call_standard :: "string list" where
  "model_call_standard = [''gen_ai.operation.name'', ''gen_ai.provider.name'',
     ''gen_ai.request.model'', ''gen_ai.response.model'', ''gen_ai.usage.input_tokens'',
     ''gen_ai.usage.output_tokens'', ''error.type'']"

definition permitted_standard :: "pyval \<Rightarrow> string list" where
  "permitted_standard operation =
     (if operation = VStr ''invoke_agent'' then
        [''gen_ai.operation.name'', ''gen_ai.agent.id'', ''gen_ai.agent.name'',
         ''gen_ai.agent.version'', ''error.type'']
      else if operation = VStr ''chat'' then model_call_standard
      else if operation = VStr ''generate_content'' then model_call_standard
      else if operation = VStr ''execute_tool'' then
        [''gen_ai.operation.name'', ''gen_ai.tool.name'', ''gen_ai.tool.type'',
         ''gen_ai.tool.call.id'', ''error.type'']
      else [''error.type''])"

text \<open>
  An operation name, when present, is a string by then, so \<open>operation in {...}\<close> cannot raise.
\<close>

definition is_model_call :: "pyval \<Rightarrow> bool" where
  "is_model_call operation \<longleftrightarrow> operation = VStr ''chat'' \<or> operation = VStr ''generate_content''"

definition operation_checks :: "pydict \<Rightarrow> pydict \<Rightarrow> py_error option list" where
  "operation_checks r a =
     (let operation = dget a ''gen_ai.operation.name''; kind = dget r ''span_kind'' in
      (if operation = VStr ''invoke_agent'' then
         [require (has_key a ''gen_ai.agent.id'') (verr ''incomplete Agent Span''),
          require (kind = VStr ''INTERNAL'') (verr ''Agent Span must use INTERNAL kind'')]
       else []) @
      (if is_model_call operation then
         [require (has_all [''gen_ai.provider.name'', ''gen_ai.request.model''] a)
            (verr ''incomplete model Span''),
          require (kind = VStr ''CLIENT'') (verr ''model Span must use CLIENT kind'')]
       else []) @
      (if operation = VStr ''execute_tool'' then
         [require (has_all [''gen_ai.tool.name'', ''gen_ai.tool.type'', ''gen_ai.tool.call.id''] a)
            (verr ''incomplete tool Span''),
          require (kind = VStr ''INTERNAL'') (verr ''tool Span must use INTERNAL kind'')]
       else []) @
      [require (list_all (\<lambda>k. k \<in> set (permitted_standard operation)) (standard_names a))
         (verr ''standard field prohibited for Span operation'')] @
      (if has_key a ''agentops.model.id'' then
         [require (is_model_call operation) (verr ''model identity outside model-call Span''),
          require (has_all [''agentops.model.id'', ''agentops.role.id'', ''agentops.runtime.id'',
              ''gen_ai.provider.name''] a) (verr ''incomplete model attribution tuple'')]
       else []))"

definition span_attribute_checks :: "pydict \<Rightarrow> pydict \<Rightarrow> py_error option list" where
  "span_attribute_checks r a =
     (let disallowed = filter (\<lambda>k. k \<notin> set SPAN_ALLOWED) (agentops_names a);
          task_profile = (dget r ''profile_version'' = VStr TASK_PROFILE_VERSION) in
      [(if disallowed \<noteq> [] then Some (verr (least_string disallowed @ '' prohibited on Span''))
        else None),
       (if task_profile then require (has_key a ''agentops.delivery.id'')
          (verr ''Profile 2 requires direct Delivery ID'') else None)] @
      (if starts_with (the_str (dget r ''span_name'')) ''invoke_workflow'' then
         [require (has_all root_fields a) (verr ''incomplete Delivery root''),
          require (dget r ''span_kind'' = VStr ''INTERNAL'')
            (verr ''Delivery root must use INTERNAL Span kind'')]
       else
         [require (has_none (root_only task_profile) a)
            (verr ''Delivery-root field outside Delivery root Span'')]))"

definition validate_span :: "pydict \<Rightarrow> pydict \<Rightarrow> py_error option" where
  "validate_span r a = first_error
     (span_field_checks r
      @ concat (map link_checks (the_list (dget r ''span_links'')))
      @ span_attribute_checks r a
      @ operation_checks r a)"

section \<open>What an accepted Span guarantees\<close>

lemma when_key_None [simp]: "when_key d k P e = None \<longleftrightarrow> (has_key d k \<longrightarrow> P (dget d k))"
  by (simp add: when_key_def)

lemma validate_span_None:
  "validate_span r a = None \<longleftrightarrow>
     (\<forall>c \<in> set (span_field_checks r). c = None) \<and>
     (\<forall>l \<in> set (the_list (dget r ''span_links'')). \<forall>c \<in> set (link_checks l). c = None) \<and>
     (\<forall>c \<in> set (span_attribute_checks r a). c = None) \<and>
     (\<forall>c \<in> set (operation_checks r a). c = None)"
  by (auto simp: validate_span_def)

lemma span_fields_None:
  assumes "\<forall>c \<in> set (span_field_checks r). c = None"
  shows "has_all span_required r \<and>
    str_such (\<lambda>s. 1 \<le> py_len s \<and> py_len s \<le> 128) (dget r ''span_name'') \<and>
    str_such (hex_text 32) (dget r ''trace_id'') \<and> str_such (hex_text 16) (dget r ''span_id'') \<and>
    (has_key r ''parent_span_id'' \<longrightarrow> str_such (hex_text 16) (dget r ''parent_span_id'')) \<and>
    matches NANOSECONDS (dget r ''start_time_unix_nano'') \<and>
    matches NANOSECONDS (dget r ''end_time_unix_nano'') \<and>
    digits_val (the_str (dget r ''start_time_unix_nano''))
      \<le> digits_val (the_str (dget r ''end_time_unix_nano'')) \<and>
    is_list (dget r ''span_links'') \<and> length (the_list (dget r ''span_links'')) \<le> 128"
  using assms by (simp add: span_field_checks_def)

lemma span_fields_accepted:
  assumes "\<forall>c \<in> set (span_field_checks r). c = None"
  shows "has_all span_required r"
    and "\<exists>t. dget r ''trace_id'' = VStr t \<and> hex_text 32 t"
    and "\<exists>s. dget r ''span_id'' = VStr s \<and> hex_text 16 s"
    and "\<exists>n. dget r ''span_name'' = VStr n \<and> 1 \<le> py_len n \<and> py_len n \<le> 128"
    and "\<exists>s e. dget r ''start_time_unix_nano'' = VStr s \<and> dget r ''end_time_unix_nano'' = VStr e \<and>
           digits_val s \<le> digits_val e"
    and "has_key r ''parent_span_id'' \<Longrightarrow> \<exists>p. dget r ''parent_span_id'' = VStr p \<and> hex_text 16 p"
    and "\<exists>ls. dget r ''span_links'' = VList ls \<and> length ls \<le> 128"
  using span_fields_None [OF assms] by (auto simp only: str_such_iff is_list_iff the_str_simp the_list_simp pyval.inject) blast+

lemma link_accepted:
  assumes "\<forall>c \<in> set (link_checks v). c = None"
  shows "\<exists>l t s. v = VDict l \<and> dget l ''trace_id'' = VStr t \<and> hex_text 32 t \<and>
           dget l ''span_id'' = VStr s \<and> hex_text 16 s"
  using assms by (auto simp: link_checks_def Let_def str_such_iff is_dict_iff)

lemma root_span_accepted:
  assumes "\<forall>c \<in> set (span_attribute_checks r a). c = None"
    and "starts_with (the_str (dget r ''span_name'')) ''invoke_workflow''"
  shows "has_all root_fields a" and "dget r ''span_kind'' = VStr ''INTERNAL''"
  using assms by (auto simp: span_attribute_checks_def Let_def)

lemma task_span_accepted:
  assumes "\<forall>c \<in> set (span_attribute_checks r a). c = None"
    and "dget r ''profile_version'' = VStr TASK_PROFILE_VERSION"
  shows "has_key a ''agentops.delivery.id''"
  using assms by (auto simp: span_attribute_checks_def Let_def)

lemma model_span_accepted:
  assumes "\<forall>c \<in> set (operation_checks r a). c = None" and "has_key a ''agentops.model.id''"
  shows "has_all [''agentops.model.id'', ''agentops.role.id'', ''agentops.runtime.id'',
           ''gen_ai.provider.name'', ''gen_ai.request.model''] a"
    and "dget r ''span_kind'' = VStr ''CLIENT''"
proof -
  from assms have call: "is_model_call (dget a ''gen_ai.operation.name'')"
    by (simp add: operation_checks_def Let_def ball_Un)
  with assms show "has_all [''agentops.model.id'', ''agentops.role.id'', ''agentops.runtime.id'',
      ''gen_ai.provider.name'', ''gen_ai.request.model''] a"
    by (simp add: operation_checks_def Let_def ball_Un)
  from assms call show "dget r ''span_kind'' = VStr ''CLIENT''"
    by (simp add: operation_checks_def Let_def ball_Un)
qed

end
