(* ===== verification/Validation.thy ===== *)
theory Validation
  imports Event_Rules Span_Rules
begin

text \<open>
  \<open>validate_record\<close> of \<open>admission/validation.py\<close> and the validated record of \<open>model.py\<close>.
\<close>

record validated_record =
  logical :: pydict
  profile_version :: string
  identity :: "string list"
  digest :: string
  attributes :: pydict
  record_type :: string
  event_name :: "string option"

definition validated :: "pydict \<Rightarrow> string list \<Rightarrow> string option \<Rightarrow> validated_record result" where
  "validated r ident event =
     bind_result (canonical_digest (VDict r)) (\<lambda>d.
       Inr \<lparr>logical = r, profile_version = the_str (dget r ''profile_version''), identity = ident,
            digest = d, attributes = the_dict (dget r ''attributes''),
            record_type = the_str (dget r ''record_type''), event_name = event\<rparr>)"

definition validate_record :: "pyval \<Rightarrow> validated_record result" where
  "validate_record v =
     (let r = the_dict v; a = the_dict (dget r ''attributes''); kind = dget r ''record_type'' in
      check_then (require (is_dict v) (verr ''record must be an object''))
     (check_then (validate_envelope r)
     (check_then (validate_attributes a)
     (if kind = VStr ''span'' then
        check_then (validate_span r a)
          (validated r [''span'', the_str (dget r ''trace_id''), the_str (dget r ''span_id'')] None)
      else if kind = VStr ''event'' then
        check_then (validate_event r a)
          (validated r [''event'', the_str (dget a ''agentops.event.id'')]
             (Some (the_str (dget r ''event_name''))))
      else Inl (verr ''invalid record_type'')))))"

section \<open>What a validated record carries\<close>

lemma canonical_digest_hex: "canonical_digest v = Inr d \<Longrightarrow> hex_text 64 d"
  by (auto simp: canonical_digest_def bind_result_Inr_iff)

lemma validated_Inr:
  "validated r ident event = Inr rec \<longleftrightarrow> (\<exists>d. canonical_digest (VDict r) = Inr d \<and>
     rec = \<lparr>logical = r, profile_version = the_str (dget r ''profile_version''), identity = ident,
            digest = d, attributes = the_dict (dget r ''attributes''),
            record_type = the_str (dget r ''record_type''), event_name = event\<rparr>)"
  by (auto simp: validated_def bind_result_Inr_iff)

text \<open>The two kinds of validated records, with every check they passed.\<close>

definition passed_common :: "pydict \<Rightarrow> validated_record \<Rightarrow> bool" where
  "passed_common r rec \<longleftrightarrow> logical rec = r \<and> attributes rec = the_dict (dget r ''attributes'') \<and>
     profile_version rec = the_str (dget r ''profile_version'') \<and>
     canonical_digest (VDict r) = Inr (digest rec) \<and>
     validate_envelope r = None \<and> validate_attributes (attributes rec) = None"

definition is_span_record :: "pydict \<Rightarrow> validated_record \<Rightarrow> bool" where
  "is_span_record r rec \<longleftrightarrow> passed_common r rec \<and> record_type rec = ''span'' \<and> event_name rec = None \<and>
     validate_span r (attributes rec) = None \<and>
     identity rec = [''span'', the_str (dget r ''trace_id''), the_str (dget r ''span_id'')]"

definition is_event_record :: "pydict \<Rightarrow> validated_record \<Rightarrow> bool" where
  "is_event_record r rec \<longleftrightarrow> passed_common r rec \<and> record_type rec = ''event'' \<and>
     event_name rec = Some (the_str (dget r ''event_name'')) \<and>
     validate_event r (attributes rec) = None \<and>
     identity rec = [''event'', the_str (dget (attributes rec) ''agentops.event.id'')]"

lemma validated_cases:
  assumes "validate_record v = Inr rec"
  obtains r where "v = VDict r" "is_span_record r rec" | r where "v = VDict r" "is_event_record r rec"
proof -
  from assms obtain r where v: "v = VDict r" by (auto simp: validate_record_def Let_def is_dict_iff)
  show ?thesis
  proof (cases "dget r ''record_type'' = VStr ''span''")
    case True
    with assms v have "is_span_record r rec"
      by (auto simp: validate_record_def Let_def validated_Inr is_span_record_def passed_common_def)
    with v show ?thesis by (rule that(1))
  next
    case False
    with assms v have "is_event_record r rec"
      by (auto simp: validate_record_def Let_def validated_Inr is_event_record_def passed_common_def
          split: if_splits)
    with v show ?thesis by (rule that(2))
  qed
qed

lemma event_closed_set:
  assumes "is_event_record r rec"
  shows "\<exists>event allowed required. dget r ''event_name'' = VStr event \<and> event_name rec = Some event \<and>
    EVENT_RULES event = Some (allowed, required) \<and> has_all required (attributes rec) \<and>
    (is_task_profile r \<longrightarrow> has_key (attributes rec) ''agentops.delivery.id'') \<and>
    event \<in> set (if is_task_profile r then EVENT_NAMES @ [''task.binding''] else EVENT_NAMES)"
proof -
  let ?a = "attributes rec"
  from assms have "first_error (event_envelope_checks r ?a @ closed_set_checks r ?a) = None"
    by (auto simp: is_event_record_def validate_event_def Let_def split: option.splits)
  then have env: "\<forall>c \<in> set (event_envelope_checks r ?a). c = None"
    and closed: "\<forall>c \<in> set (closed_set_checks r ?a). c = None" by auto
  from env obtain event where event: "dget r ''event_name'' = VStr event"
    "event \<in> set (if is_task_profile r then EVENT_NAMES @ [''task.binding''] else EVENT_NAMES)"
    unfolding event_envelope_checks_def list.set(2) ball_simps require_in_None_iff by blast
  from closed event(1) obtain allowed required where rules: "EVENT_RULES event = Some (allowed, required)"
    by (auto simp: closed_set_checks_def Let_def split: option.splits)
  from closed event(1) rules have "has_all required ?a"
    "is_task_profile r \<longrightarrow> has_key ?a ''agentops.delivery.id''"
    by (auto simp: closed_set_checks_def Let_def has_all_def split: if_splits)
  with event rules assms show ?thesis by (auto simp: is_event_record_def)
qed

lemma event_later_checks:
  assumes "is_event_record r rec" "dget r ''event_name'' = VStr event"
  shows "event = ''task.binding'' \<Longrightarrow> task_binding_check (attributes rec) = None"
    and "event = ''review.finding'' \<Longrightarrow> \<forall>c \<in> set (finding_checks (attributes rec)). c = None"
    and "\<forall>c \<in> set (family_checks event (attributes rec)). c = None"
    and "\<forall>c \<in> set (review_checks event (attributes rec)). c = None"
    and "\<forall>c \<in> set (numeric_checks event (attributes rec)). c = None"
  using assms by (auto simp: is_event_record_def validate_event_def Let_def split: option.splits)

lemma profile_version_cases:
  assumes "passed_common r rec"
  shows "profile_version rec = ''1.0.0'' \<or> profile_version rec = ''2.0.0''"
    and "is_task_profile r \<longleftrightarrow> profile_version rec = ''2.0.0''"
proof -
  from assms have "require_in (dget r ''profile_version'') [PROFILE_VERSION, TASK_PROFILE_VERSION]
      (verr ''unsupported profile version'') = None"
    by (simp add: passed_common_def validate_envelope_def Let_def)
  then obtain s where "dget r ''profile_version'' = VStr s" "s = ''1.0.0'' \<or> s = ''2.0.0''"
    by (auto simp: PROFILE_VERSION_def TASK_PROFILE_VERSION_def)
  with assms show "profile_version rec = ''1.0.0'' \<or> profile_version rec = ''2.0.0''"
    "is_task_profile r \<longleftrightarrow> profile_version rec = ''2.0.0''"
    by (auto simp: passed_common_def is_task_profile_def TASK_PROFILE_VERSION_def)
qed

end
