(* ===== verification/Projection.thy ===== *)
theory Projection
  imports Validation
begin

text \<open>
  The projection of a validated record into first-write effects (\<open>projection/effects.py\<close>, with
  \<open>ProjectionEffect\<close> of \<open>model.py\<close>, whose \<open>operation\<close> has the single value
  \<open>first_write\<close> and is left out).  A subscript \<open>a[name]\<close> raises \<open>KeyError\<close> when the name is
  absent: every function first lists the names it subscripts, in the order of the code.
\<close>

section \<open>Effects\<close>

record effect =
  effect_kind :: string
  effect_key :: "pyval list"
  effect_payload :: pydict

definition effect :: "string \<Rightarrow> pyval list \<Rightarrow> pydict \<Rightarrow> effect" where
  "effect k key p = \<lparr>effect_kind = k, effect_key = key, effect_payload = p\<rparr>"

definition need :: "string list \<Rightarrow> pydict \<Rightarrow> py_error option" where
  "need names d = first_error (map (\<lambda>n. require (has_key d n) (Key_Error n)) names)"

fun truthy :: "pyval \<Rightarrow> bool" where
  "truthy VNone = False"
| "truthy (VBool b) = b"
| "truthy (VInt i) = (i \<noteq> 0)"
| "truthy (VFloat (Float_Dec neg c e)) = (c \<noteq> 0)"
| "truthy (VFloat f) = True"
| "truthy (VStr s) = (s \<noteq> [])"
| "truthy (VList vs) = (vs \<noteq> [])"
| "truthy (VTuple vs) = (vs \<noteq> [])"
| "truthy (VDict d) = (d \<noteq> [])"

text \<open>A dictionary display \<open>{target: a[name], ...}\<close>.\<close>

definition pick :: "pydict \<Rightarrow> (string \<times> string) list \<Rightarrow> pydict" where
  "pick a ps = map (\<lambda>(t, n). (t, dget a n)) ps"

definition pick_same :: "pydict \<Rightarrow> string list \<Rightarrow> pydict" where
  "pick_same a ns = map (\<lambda>n. (n, dget a n)) ns"

section \<open>Spans\<close>

definition root_effects :: "validated_record \<Rightarrow> effect list" where
  "root_effects rec =
     (let a = attributes rec; family = the_str (dget a ''agentops.workflow.family'') in
      if starts_with (the_str (dget (logical rec) ''span_name'')) ''invoke_workflow'' then
        [effect ''delivery_root_binding'' [dget (logical rec) ''trace_id'']
           [(''delivery_id'', dget a ''agentops.delivery.id''),
            (''runtime_id'', dget a ''agentops.runtime.id''),
            (''manifest_digest'', dget a ''agentops.manifest.digest''),
            (''family_schema'', VStr (family @ ''@1'')),
            (''workflow_family'', VStr family)]]
      else [])"

definition model_effects :: "validated_record \<Rightarrow> effect list" where
  "model_effects rec =
     (let a = attributes rec; r = logical rec in
      if has_key a ''agentops.model.id'' then
        [effect ''require_delivery_root_binding'' [dget r ''trace_id'']
           [(''runtime_id'', dget a ''agentops.runtime.id'')],
         effect ''model_attribution''
           [dget a ''gen_ai.provider.name'', dget a ''agentops.model.id'',
            dget a ''agentops.role.id'', dget a ''agentops.runtime.id'',
            dget r ''trace_id'', dget r ''span_id'']
           [(''request_model'', dget a ''gen_ai.request.model'')]]
      else [])"

definition trace_node :: "validated_record \<Rightarrow> effect" where
  "trace_node rec =
     (let r = logical rec in
      effect ''trace_node'' [dget r ''trace_id'', dget r ''span_id'']
        (pick_same r [''span_name'', ''span_kind'', ''start_time_unix_nano'',
           ''end_time_unix_nano'', ''span_status'', ''span_flags'', ''trace_state''] @
         [(''attributes'', VDict (attributes rec))]))"

definition parent_effects :: "pydict \<Rightarrow> effect list" where
  "parent_effects r =
     (if truthy (dget r ''parent_span_id'') then
        [effect ''trace_parent_edge''
           [dget r ''trace_id'', dget r ''span_id'', dget r ''parent_span_id''] []]
      else [])"

definition link_effect :: "pydict \<Rightarrow> pydict \<Rightarrow> effect" where
  "link_effect r l = effect ''trace_link''
     [dget r ''trace_id'', dget r ''span_id'', dget l ''trace_id'', dget l ''span_id''] l"

definition span_links :: "pydict \<Rightarrow> pydict list" where
  "span_links r = map the_dict (the_list (dget r ''span_links''))"

definition span_need :: "validated_record \<Rightarrow> py_error option" where
  "span_need rec =
     (let r = logical rec; a = attributes rec in
      first_error
        ([need [''span_name''] r,
          (if starts_with (the_str (dget r ''span_name'')) ''invoke_workflow''
           then first_error
             [need [''agentops.workflow.family''] a, need [''trace_id''] r,
              need [''agentops.delivery.id'', ''agentops.runtime.id'', ''agentops.manifest.digest''] a]
           else None),
          (if has_key a ''agentops.model.id''
           then first_error
             [need [''trace_id''] r,
              need [''agentops.runtime.id'', ''gen_ai.provider.name'', ''agentops.model.id'',
                ''agentops.role.id''] a,
              need [''trace_id'', ''span_id''] r, need [''gen_ai.request.model''] a]
           else None),
          need [''trace_id'', ''span_id'', ''span_name'', ''span_kind'', ''start_time_unix_nano'',
            ''end_time_unix_nano'', ''span_status'', ''span_flags'', ''span_links''] r] @
         map (need [''trace_id'', ''span_id'']) (span_links r)))"

definition project_span :: "validated_record \<Rightarrow> effect list result" where
  "project_span rec = check_then (span_need rec)
     (Inr (root_effects rec @ model_effects rec @ [trace_node rec]
           @ parent_effects (logical rec)
           @ map (link_effect (logical rec)) (span_links (logical rec))))"

section \<open>Findings\<close>

definition invariant_names :: "string list" where
  "invariant_names = [''agentops.review.lens'', ''agentops.review.scope'',
     ''agentops.review.severity'', ''agentops.source.review.id'', ''agentops.family.schema'',
     ''agentops.finding.summary'']"

definition origin_names :: "string list" where
  "origin_names = [''agentops.artifact.id'', ''agentops.artifact.digest'',
     ''agentops.writer.role.id'', ''agentops.writer.invocation.id'',
     ''agentops.reviewer.role.id'', ''agentops.reviewer.invocation.id'']"

definition participants :: "(string \<times> string) list" where
  "participants =
     [(''writer_role_id'', ''agentops.writer.role.id''),
      (''writer_invocation_id'', ''agentops.writer.invocation.id''),
      (''reviewer_role_id'', ''agentops.reviewer.role.id''),
      (''reviewer_invocation_id'', ''agentops.reviewer.invocation.id'')]"

definition assertion_key :: "pydict \<Rightarrow> pyval list" where
  "assertion_key a = [dget a ''agentops.finding.id'', dget a ''agentops.finding.scope.id'']"

definition target_key :: "pydict \<Rightarrow> pyval list" where
  "target_key a = assertion_key a @ [dget a ''agentops.finding.target.kind'',
     dget a ''agentops.finding.target.id'', dget a ''agentops.finding.target.artifact.id'']"

definition is_lifecycle :: "pydict \<Rightarrow> bool" where
  "is_lifecycle a \<longleftrightarrow> has_key a ''agentops.fix.id'' \<or> has_key a ''agentops.recheck.id''"

definition guard_effects :: "pydict \<Rightarrow> effect list" where
  "guard_effects a =
     [effect ''finding_scope_guard'' [dget a ''agentops.finding.id'']
        [(''scope_id'', dget a ''agentops.finding.scope.id'')],
      effect ''finding_target_guard'' (assertion_key a @ [dget a ''agentops.finding.target.id''])
        [(''kind'', dget a ''agentops.finding.target.kind''),
         (''containing_artifact_id'', dget a ''agentops.finding.target.artifact.id'')]]"

definition assertion_effects :: "pydict \<Rightarrow> effect list" where
  "assertion_effects a =
     (if is_lifecycle a then
        [effect ''require_finding_assertion'' (assertion_key a) (pick_same a invariant_names),
         effect ''require_finding_target'' (target_key a) []]
      else
        [effect ''finding_assertion'' (assertion_key a)
           (pick_same a (invariant_names @ origin_names)),
         effect ''finding_target'' (target_key a) []])"

definition status_effect :: "pydict \<Rightarrow> effect" where
  "status_effect a = effect ''finding_status'' (assertion_key a @ [dget a ''agentops.review.id''])
     ((''status'', dget a ''agentops.finding.status'') # pick a participants)"

definition fix_effects :: "pydict \<Rightarrow> effect list" where
  "fix_effects a =
     (if has_key a ''agentops.fix.id'' then
        [effect ''finding_fix'' (target_key a @ [dget a ''agentops.fix.id''])
           (pick a ([(''finding_id'', ''agentops.fix.finding.id''),
                     (''review_id'', ''agentops.review.id'')] @ participants))]
      else [])"

definition recheck_effects :: "pydict \<Rightarrow> effect list" where
  "recheck_effects a =
     (if has_key a ''agentops.recheck.id'' then
        (if has_key a ''agentops.recheck.fix.id'' then
           [effect ''require_finding_fix'' (target_key a @ [dget a ''agentops.recheck.fix.id'']) []]
         else []) @
        [effect ''finding_recheck'' (target_key a @ [dget a ''agentops.recheck.id''])
           (pick a ([(''review_id'', ''agentops.review.id''),
                     (''prior_review_id'', ''agentops.recheck.review.id''),
                     (''finding_id'', ''agentops.recheck.finding.id''),
                     (''fix_id'', ''agentops.recheck.fix.id''),
                     (''iteration_id'', ''agentops.iteration.id'')] @ participants @
                    [(''recheck_role_id'', ''agentops.recheck.role.id''),
                     (''recheck_invocation_id'', ''agentops.recheck.invocation.id'')]))]
      else [])"

definition finding_need :: "pydict \<Rightarrow> py_error option" where
  "finding_need a = first_error
     [need [''agentops.finding.id'', ''agentops.finding.scope.id'', ''agentops.finding.target.kind'',
        ''agentops.finding.target.id''] a,
      need (if is_lifecycle a then invariant_names else invariant_names @ origin_names) a,
      need (''agentops.review.id'' # ''agentops.finding.status'' # map snd participants) a,
      (if has_key a ''agentops.fix.id'' then need [''agentops.fix.finding.id''] a else None),
      (if has_key a ''agentops.recheck.id'' then
         need [''agentops.recheck.review.id'', ''agentops.recheck.finding.id'',
           ''agentops.iteration.id'', ''agentops.recheck.role.id'',
           ''agentops.recheck.invocation.id''] a else None)]"

definition project_finding :: "validated_record \<Rightarrow> effect list result" where
  "project_finding rec =
     (let a = attributes rec in
      check_then (finding_need a)
        (Inr (guard_effects a @ assertion_effects a @ [status_effect a] @ fix_effects a
              @ recheck_effects a)))"

section \<open>Task bindings, lineages and contributions\<close>

definition project_task_binding :: "validated_record \<Rightarrow> effect list result" where
  "project_task_binding rec =
     (let a = attributes rec; task = dget a ''agentops.task.id'';
          delivery = dget a ''agentops.delivery.id''; manifest = dget a ''agentops.manifest.digest'';
          display = dget a ''agentops.task.display_name'' in
      check_then (need [''agentops.task.id'', ''agentops.delivery.id'', ''agentops.manifest.digest'',
          ''agentops.delivery.manifest_projection'',
          ''agentops.delivery.manifest_projection_digest''] a)
        (Inr ([effect ''task_declaration'' [task] [],
               effect ''delivery_task_membership'' [task, delivery] [(''manifest_digest'', manifest)],
               effect ''delivery_task_guard'' [delivery]
                 [(''task_id'', task), (''manifest_digest'', manifest)]] @
              (if display \<noteq> VNone
               then [effect ''task_display_name'' [task] [(''display_name'', display)]] else []) @
              [effect ''delivery_manifest'' [manifest]
                 [(''canonical_projection'', dget a ''agentops.delivery.manifest_projection''),
                  (''projection_digest'', dget a ''agentops.delivery.manifest_projection_digest'')]])))"

definition lineage_names :: "validated_record \<Rightarrow> string list" where
  "lineage_names rec =
     (if profile_version rec = ''2.0.0'' then [''agentops.delivery.id''] else []) @
     [''agentops.family.schema'', ''agentops.role.id'']"

definition project_lineage :: "validated_record \<Rightarrow> effect list result" where
  "project_lineage rec =
     check_then (need (lineage_names rec) (attributes rec))
       (Inr [effect ''role_lineage'' (map (dget (attributes rec)) (lineage_names rec))
               (attributes rec)])"

definition event_value :: "validated_record \<Rightarrow> pyval" where
  "event_value rec = (case event_name rec of None \<Rightarrow> VNone | Some e \<Rightarrow> VStr e)"

definition compatibility_coordinates :: "validated_record \<Rightarrow> pyval list" where
  "compatibility_coordinates rec =
     (let a = attributes rec; event = event_name rec in
      [dget a ''agentops.family.schema'', event_value rec, dget a ''agentops.summary.state''] @
      map (dget a)
        (if event = Some ''usage'' then
           [''agentops.usage.kind'', ''agentops.usage.unit'', ''agentops.usage.source'',
            ''agentops.usage.source.id'']
         else if event = Some ''implementation.summary'' then
           [''agentops.coverage.dimension'', ''agentops.coverage.scope'',
            ''agentops.coverage.tool.id'', ''agentops.coverage.format'']
         else if event = Some ''test.summary'' then
           [''agentops.artifact.id'', ''agentops.artifact.digest'']
         else if event = Some ''review.summary'' then
           [''agentops.review.lens'', ''agentops.review.scope'']
         else []))"

definition aggregate_eligible :: "validated_record \<Rightarrow> bool" where
  "aggregate_eligible rec \<longleftrightarrow>
     str_such (\<lambda>s. s = ''FINAL'' \<or> s = ''LOWER_BOUND'')
       (dget (attributes rec) ''agentops.summary.state'') \<and>
     list_all (\<lambda>v. v \<noteq> VNone) (compatibility_coordinates rec)"

definition project_contribution :: "validated_record \<Rightarrow> effect list result" where
  "project_contribution rec =
     check_then (need [''agentops.event.id''] (attributes rec))
       (Inr [effect ''factual_contribution''
               [event_value rec, dget (attributes rec) ''agentops.event.id'']
               [(''attributes'', VDict (attributes rec)),
                (''compatibility_key'', VTuple (compatibility_coordinates rec)),
                (''aggregate_eligible'', VBool (aggregate_eligible rec))]])"

section \<open>Event context and dispatch\<close>

definition public_fact_kinds :: "string list" where
  "public_fact_kinds = [''factual_contribution'', ''finding_assertion'', ''finding_target'',
     ''finding_status'', ''finding_fix'', ''finding_recheck'', ''role_lineage'']"

definition with_context :: "pyval \<Rightarrow> pyval \<Rightarrow> effect \<Rightarrow> effect" where
  "with_context t s e =
     (if effect_kind e \<in> set public_fact_kinds then
        e\<lparr>effect_payload := dset (effect_payload e) ''_otel_context''
            (VDict [(''trace_id'', t), (''span_id'', s)])\<rparr>
      else e)"

definition bind_event_context :: "validated_record \<Rightarrow> effect list \<Rightarrow> effect list" where
  "bind_event_context rec es =
     (let t = dget (logical rec) ''trace_id''; s = dget (logical rec) ''span_id'' in
      if str_such (\<lambda>_. True) t \<and> str_such (\<lambda>_. True) s then map (with_context t s) es else es)"

definition project :: "validated_record \<Rightarrow> effect list result" where
  "project rec =
     (if record_type rec = ''span'' then project_span rec
      else if event_name rec = Some ''task.binding'' then project_task_binding rec
      else bind_result
        (if event_name rec = Some ''review.finding'' then project_finding rec
         else if event_name rec = Some ''role.lineage'' then project_lineage rec
         else project_contribution rec)
        (\<lambda>es. Inr (bind_event_context rec es)))"

end
