(* ===== verification/Storage.thy ===== *)
theory Storage
  imports Projection
begin

text \<open>
  The PostgreSQL storage of admitted records (\<open>storage/postgresql.py\<close>, with the tables of
  \<open>migrations/versions\<close>).  A table is the list of its rows; instants are integers, counted in
  microseconds; a transaction works on its own copy of the database, which replaces the
  database when the transaction commits and is dropped when an exception leaves it.
  \<open>CURRENT_TIMESTAMP\<close> is the start of the transaction.
\<close>

section \<open>Tables\<close>

type_synonym instant = int
type_synonym source = "string \<times> string"

record accepted_row =
  ar_identity :: source
  ar_digest :: string
  ar_profile :: string
  ar_family :: pyval
  ar_logical :: pyval
  ar_at :: instant

record effect_row =
  pe_kind :: string
  pe_key :: string
  pe_payload :: pyval
  pe_source :: source
  pe_at :: instant

record member_row =
  dm_delivery :: string
  dm_identity :: source

record anchor_row =
  ta_delivery :: string
  ta_identity :: source
  ta_at :: instant

record fence_row =
  rf_delivery :: string
  rf_at :: instant
  rf_policy :: string

record marker_row =
  em_class :: string
  em_kind :: string
  em_key :: string
  em_source :: source
  em_recorded_at :: instant
  em_compatibility :: pyval
  em_policy :: string
  em_expires_at :: instant
  em_expired_at :: instant
  em_batch :: string

record db =
  accepted :: "accepted_row list"
  effects :: "effect_row list"
  members :: "member_row list"
  anchors :: "anchor_row list"
  fences :: "fence_row list"
  markers :: "marker_row list"

definition empty_db :: db where
  "empty_db = \<lparr>accepted = [], effects = [], members = [], anchors = [], fences = [], markers = []\<rparr>"

definition pe_id :: "effect_row \<Rightarrow> string \<times> string" where
  "pe_id r = (pe_kind r, pe_key r)"

section \<open>What PostgreSQL does to values\<close>

text \<open>
  A \<open>text\<close> parameter must not contain a NUL byte, a \<open>jsonb\<close> value no NUL character in any of
  its strings.  \<open>jsonb\<close> knows no tuples: they come back as lists.
\<close>

definition has_nul :: "string \<Rightarrow> bool" where
  "has_nul s = list_ex (\<lambda>c. ord_of c = 0) s"

definition text_param :: "string \<Rightarrow> py_error option" where
  "text_param s = require (\<not> has_nul s) (Database_Error ''text fields cannot contain NUL bytes'')"

fun nul_free :: "pyval \<Rightarrow> bool" where
  "nul_free (VStr s) = (\<not> has_nul s)"
| "nul_free (VList vs) = list_all nul_free vs"
| "nul_free (VTuple vs) = list_all nul_free vs"
| "nul_free (VDict d) = list_all (\<lambda>kv. \<not> has_nul (fst kv) \<and> nul_free (snd kv)) d"
| "nul_free v = True"

fun jsonb_of :: "pyval \<Rightarrow> pyval" where
  "jsonb_of (VList vs) = VList (map jsonb_of vs)"
| "jsonb_of (VTuple vs) = VList (map jsonb_of vs)"
| "jsonb_of (VDict d) = VDict (map (\<lambda>kv. (fst kv, jsonb_of (snd kv))) d)"
| "jsonb_of v = v"

definition to_jsonb :: "pyval \<Rightarrow> pyval result" where
  "to_jsonb v =
     (if nul_free v then Inr (jsonb_of v) else Inl (Database_Error ''unsupported Unicode escape''))"

section \<open>The transaction\<close>

datatype disposition = ACCEPTED | DUPLICATE | CONFLICT | REJECTED

record txn =
  txn_db :: db
  txn_now :: instant
  txn_source :: "source option"

definition begin_txn :: "instant \<Rightarrow> db \<Rightarrow> txn" where
  "begin_txn now db = \<lparr>txn_db = db, txn_now = now, txn_source = None\<rparr>"

definition is_fenced :: "string \<Rightarrow> db \<Rightarrow> bool" where
  "is_fenced d db \<longleftrightarrow> row_with rf_delivery d (fences db) \<noteq> None"

definition record_source :: "validated_record \<Rightarrow> source" where
  "record_source rec = (hd (identity rec), key_json (map VStr (identity rec)))"

definition accepted_row_of :: "validated_record \<Rightarrow> instant \<Rightarrow> accepted_row result" where
  "accepted_row_of rec now =
     bind_result (to_jsonb (VDict (logical rec))) (\<lambda>j. Inr
       \<lparr>ar_identity = record_source rec, ar_digest = digest rec, ar_profile = profile_version rec,
        ar_family = dget (attributes rec) ''agentops.family.schema'', ar_logical = j, ar_at = now\<rparr>)"

text \<open>The table's check constraints.\<close>

definition accepted_constraints :: "accepted_row \<Rightarrow> py_error option" where
  "accepted_constraints r =
     require (fst (ar_identity r) \<in> set [''event'', ''span''] \<and> hex_text 64 (ar_digest r))
       (Integrity_Error ''accepted_records'')"

definition record_delivery :: "validated_record \<Rightarrow> string option" where
  "record_delivery rec =
     (if profile_version rec = ''2.0.0''
      then Some (the_str (dget (attributes rec) ''agentops.delivery.id'')) else None)"

definition retirement_check :: "validated_record \<Rightarrow> db \<Rightarrow> py_error option" where
  "retirement_check rec db = (case record_delivery rec of
       None \<Rightarrow> None
     | Some d \<Rightarrow> first_error
         [require (has_key (attributes rec) ''agentops.delivery.id'')
            (Key_Error ''agentops.delivery.id''),
          text_param d,
          require (\<not> is_fenced d db) (Projection_Precondition_Failed ''Delivery was physically retired''),
          (if event_name rec = Some ''task.binding''
           then text_param (the_str (dget (attributes rec) ''agentops.task.id'')) else None)])"

definition add_membership :: "string \<Rightarrow> source \<Rightarrow> db \<Rightarrow> db result" where
  "add_membership d src db =
     (if row_with dm_identity src (members db) \<noteq> None
      then Inl (Integrity_Error ''delivery_record_memberships'')
      else Inr (db\<lparr>members := members db @ [\<lparr>dm_delivery = d, dm_identity = src\<rparr>]\<rparr>))"

definition add_anchor :: "string \<Rightarrow> source \<Rightarrow> instant \<Rightarrow> db \<Rightarrow> db result" where
  "add_anchor d src now db =
     (if row_with ta_delivery d (anchors db) \<noteq> None
      then Inl (Projection_Conflict ''Delivery terminal anchor first-write conflict'')
      else Inr (db\<lparr>anchors := anchors db @ [\<lparr>ta_delivery = d, ta_identity = src, ta_at = now\<rparr>]\<rparr>))"

definition claim_new :: "validated_record \<Rightarrow> accepted_row \<Rightarrow> txn \<Rightarrow> (disposition \<times> txn) result" where
  "claim_new rec row tx =
     (let src = ar_identity row; db = txn_db tx;
          db1 = db\<lparr>accepted := accepted db @ [row]\<rparr> in
      bind_result
        (case record_delivery rec of
           None \<Rightarrow> Inr db1
         | Some d \<Rightarrow> bind_result (add_membership d src db1) (\<lambda>db2.
             if event_name rec = Some ''delivery.summary''
             then add_anchor d src (ar_at row) db2 else Inr db2))
        (\<lambda>db3. Inr (ACCEPTED, tx\<lparr>txn_db := db3, txn_source := Some src\<rparr>)))"

definition claim_identity :: "validated_record \<Rightarrow> txn \<Rightarrow> (disposition \<times> txn) result" where
  "claim_identity rec tx =
     check_then (retirement_check rec (txn_db tx))
     (bind_result (accepted_row_of rec (txn_now tx)) (\<lambda>row.
      check_then (accepted_constraints row)
        (case row_with ar_identity (ar_identity row) (accepted (txn_db tx)) of
           None \<Rightarrow> claim_new rec row tx
         | Some old \<Rightarrow>
             Inr (if ar_digest old = digest rec then DUPLICATE else CONFLICT, tx))))"

section \<open>Effects\<close>

definition require_effect :: "effect \<Rightarrow> txn \<Rightarrow> txn result" where
  "require_effect e tx =
     (let kind = drop 8 (effect_kind e) in
      case row_with pe_id (kind, key_json (effect_key e)) (effects (txn_db tx)) of
        None \<Rightarrow> Inl (Projection_Precondition_Failed
                  (effect_kind e @ '' selected an unaccepted projection identity''))
      | Some row \<Rightarrow>
          if list_all (\<lambda>(n, v). py_eq (dget (the_dict (pe_payload row)) n) v) (effect_payload e)
          then Inr tx
          else Inl (Projection_Precondition_Failed (effect_kind e @ '' binding mismatch'')))"

definition first_write :: "effect \<Rightarrow> txn \<Rightarrow> txn result" where
  "first_write e tx = (case txn_source tx of
       None \<Rightarrow> Inl (Runtime_Error ''projection attempted before accepted identity claim'')
     | Some src \<Rightarrow>
         (let db = txn_db tx; key = key_json (effect_key e) in
          bind_result (to_jsonb (VDict (effect_payload e))) (\<lambda>payload.
            case row_with pe_id (effect_kind e, key) (effects db) of
              None \<Rightarrow>
                if row_with ar_identity src (accepted db) = None
                then Inl (Integrity_Error ''projection_effects'')
                else Inr (tx\<lparr>txn_db := db\<lparr>effects := effects db @
                       [\<lparr>pe_kind = effect_kind e, pe_key = key, pe_payload = payload,
                         pe_source = src, pe_at = txn_now tx\<rparr>]\<rparr>\<rparr>)
            | Some row \<Rightarrow>
                if py_eq (pe_payload row) (VDict (effect_payload e)) then Inr tx
                else Inl (Projection_Conflict (effect_kind e @ '' first-write conflict'')))))"

definition apply_effect :: "effect \<Rightarrow> txn \<Rightarrow> txn result" where
  "apply_effect e tx =
     (if starts_with (effect_kind e) ''require_'' then require_effect e tx else first_write e tx)"

fun apply_effects :: "effect list \<Rightarrow> txn \<Rightarrow> txn result" where
  "apply_effects [] tx = Inr tx"
| "apply_effects (e # es) tx = bind_result (apply_effect e tx) (apply_effects es)"

section \<open>Reading effects back\<close>

record stored_effect =
  se_kind :: string
  se_key :: "pyval list"
  se_payload :: pyval
  se_source :: source
  se_at :: instant

definition dict_hook :: pairs_hook where
  "dict_hook ps = Inr (VDict (foldl (\<lambda>d (k, v). dset d k v) [] ps))"

definition stored_effect_of :: "effect_row \<Rightarrow> stored_effect result" where
  "stored_effect_of r =
     bind_result (json_loads dict_hook (pe_key r)) (\<lambda>v. Inr
       \<lparr>se_kind = pe_kind r, se_key = the_list v, se_payload = pe_payload r,
        se_source = pe_source r, se_at = pe_at r\<rparr>)"

text \<open>
  \<open>ORDER BY effect_key\<close> and \<open>effect_key > after\<close> use the collation of the database, a
  parameter: the sort key \<open>coll\<close> of a string.
\<close>

definition scan_effects ::
  "(string \<Rightarrow> 'k::linorder) \<Rightarrow> string \<Rightarrow> pyval list option \<Rightarrow> int \<Rightarrow> db \<Rightarrow> stored_effect list result" where
  "scan_effects coll kind after_key limit db =
     (if \<not> (1 \<le> limit \<and> limit \<le> 1000)
      then Inl (Value_Error ''read-model page limit must be in [1,1000]'')
      else map_results stored_effect_of (take (nat limit) (sort_key (\<lambda>r. coll (pe_key r))
        (filter (\<lambda>r. pe_kind r = kind \<and>
             (case after_key of None \<Rightarrow> True | Some k \<Rightarrow> coll (key_json k) < coll (pe_key r)))
           (effects db)))))"

section \<open>The invariant of the store\<close>

definition em_id :: "marker_row \<Rightarrow> string \<times> string \<times> string" where
  "em_id r = (em_class r, em_kind r, em_key r)"

definition keys_ok :: "db \<Rightarrow> bool" where
  "keys_ok db \<longleftrightarrow> key_unique ar_identity (accepted db) \<and> key_unique pe_id (effects db) \<and>
     key_unique dm_identity (members db) \<and> key_unique ta_delivery (anchors db) \<and>
     key_unique rf_delivery (fences db) \<and> key_unique em_id (markers db)"

definition references_ok :: "db \<Rightarrow> bool" where
  "references_ok db \<longleftrightarrow>
     pe_source ` set (effects db) \<subseteq> ar_identity ` set (accepted db) \<and>
     dm_identity ` set (members db) \<subseteq> ar_identity ` set (accepted db) \<and>
     (\<lambda>t. (ta_delivery t, ta_identity t)) ` set (anchors db)
       \<subseteq> (\<lambda>m. (dm_delivery m, dm_identity m)) ` set (members db)"

definition fences_ok :: "db \<Rightarrow> bool" where
  "fences_ok db \<longleftrightarrow> dm_delivery ` set (members db) \<inter> rf_delivery ` set (fences db) = {}"

definition store_ok :: "db \<Rightarrow> bool" where
  "store_ok db \<longleftrightarrow> keys_ok db \<and> references_ok db \<and> fences_ok db"

text \<open>The digest under which an identity was accepted.\<close>

definition accepted_digest :: "db \<Rightarrow> source \<Rightarrow> string option" where
  "accepted_digest db src = map_option ar_digest (row_with ar_identity src (accepted db))"

lemmas store_defs = store_ok_def keys_ok_def references_ok_def fences_ok_def

lemma empty_db_ok [simp]: "store_ok empty_db"
  by (simp add: store_defs empty_db_def)

lemma begin_txn_simps [simp]:
  "txn_db (begin_txn now db) = db" "txn_now (begin_txn now db) = now"
  "txn_source (begin_txn now db) = None"
  by (simp_all add: begin_txn_def)

lemma is_fenced_iff: "is_fenced d db \<longleftrightarrow> d \<in> rf_delivery ` set (fences db)"
  by (simp add: is_fenced_def row_with_None_iff)

lemma record_source_inject:
  assumes "identity r \<noteq> []" "identity s \<noteq> []" "record_source r = record_source s"
  shows "identity r = identity s"
proof -
  have "list_all key_scalar (map VStr (identity r))" "list_all key_scalar (map VStr (identity s))"
    by (simp_all add: list_all_iff)
  with assms(3) key_json_inject show ?thesis
    by (metis record_source_def prod.inject inj_map_eq_map injI pyval.inject(4))
qed

lemma add_membership_ok:
  assumes "add_membership d src db = Inr db'"
  shows "db' = db\<lparr>members := members db @ [\<lparr>dm_delivery = d, dm_identity = src\<rparr>]\<rparr>"
    and "row_with dm_identity src (members db) = None"
  using assms by (simp_all add: add_membership_def split: if_splits)

lemma add_anchor_ok:
  assumes "add_anchor d src now db = Inr db'"
  shows "db' = db\<lparr>anchors := anchors db @ [\<lparr>ta_delivery = d, ta_identity = src, ta_at = now\<rparr>]\<rparr>"
    and "row_with ta_delivery d (anchors db) = None"
  using assms by (simp_all add: add_anchor_def split: if_splits)

lemma accepted_row_of_ok:
  assumes "accepted_row_of rec now = Inr row"
  shows "ar_identity row = record_source rec" "ar_digest row = digest rec"
    "ar_profile row = profile_version rec" "ar_at row = now"
  using assms by (auto simp: accepted_row_of_def bind_result_Inr_iff)

text \<open>The two ways in which claiming an identity succeeds.\<close>

lemma claim_identity_Inr:
  assumes "claim_identity rec tx = Inr (disp, tx')"
  shows "\<exists>row. accepted_row_of rec (txn_now tx) = Inr row \<and> ar_identity row = record_source rec \<and>
    ar_digest row = digest rec \<and> ar_at row = txn_now tx \<and>
    retirement_check rec (txn_db tx) = None \<and>
    (case row_with ar_identity (record_source rec) (accepted (txn_db tx)) of
       None \<Rightarrow> claim_new rec row tx = Inr (disp, tx')
     | Some old \<Rightarrow> tx' = tx \<and> disp = (if ar_digest old = digest rec then DUPLICATE else CONFLICT))"
proof -
  from assms obtain row where row: "accepted_row_of rec (txn_now tx) = Inr row"
    and ret: "retirement_check rec (txn_db tx) = None"
    and rest: "(case row_with ar_identity (ar_identity row) (accepted (txn_db tx)) of
           None \<Rightarrow> claim_new rec row tx
         | Some old \<Rightarrow>
             Inr (if ar_digest old = digest rec then DUPLICATE else CONFLICT, tx)) = Inr (disp, tx')"
    unfolding claim_identity_def check_then_Inr_iff bind_result_Inr_iff by blast
  from row ret rest accepted_row_of_ok [OF row] show ?thesis
    by (cases "row_with ar_identity (record_source rec) (accepted (txn_db tx))") simp_all
qed

lemma claim_new_accepts: "claim_new rec row tx = Inr (disp, tx') \<Longrightarrow> disp = ACCEPTED"
  by (auto simp: claim_new_def Let_def bind_result_Inr_iff)

lemma claim_known:
  assumes "claim_identity rec tx = Inr (disp, tx')" and "disp \<noteq> ACCEPTED"
  shows "tx' = tx \<and> (\<exists>d. accepted_digest (txn_db tx) (record_source rec) = Some d \<and>
           disp = (if d = digest rec then DUPLICATE else CONFLICT))"
proof (cases "row_with ar_identity (record_source rec) (accepted (txn_db tx))")
  case None
  with claim_identity_Inr [OF assms(1)] obtain row where "claim_new rec row tx = Inr (disp, tx')"
    by auto
  from claim_new_accepts [OF this] assms(2) show ?thesis by simp
next
  case (Some old)
  with claim_identity_Inr [OF assms(1)] show ?thesis by (auto simp: accepted_digest_def)
qed

text \<open>What an accepted claim has written, table by table.\<close>

lemma claim_new_Inr:
  assumes "claim_new rec row tx = Inr (disp, tx')"
  shows "\<exists>ms as. tx' = tx\<lparr>txn_db := (txn_db tx)\<lparr>accepted := accepted (txn_db tx) @ [row],
        members := members (txn_db tx) @ ms, anchors := anchors (txn_db tx) @ as\<rparr>,
      txn_source := Some (ar_identity row)\<rparr> \<and>
    (case record_delivery rec of
       None \<Rightarrow> ms = [] \<and> as = []
     | Some d \<Rightarrow> ms = [\<lparr>dm_delivery = d, dm_identity = ar_identity row\<rparr>] \<and>
         row_with dm_identity (ar_identity row) (members (txn_db tx)) = None \<and>
         (as = [] \<or> as = [\<lparr>ta_delivery = d, ta_identity = ar_identity row, ta_at = ar_at row\<rparr>] \<and>
            row_with ta_delivery d (anchors (txn_db tx)) = None))"
proof (cases "record_delivery rec")
  case None
  with assms have "tx' = tx\<lparr>txn_db := (txn_db tx)\<lparr>accepted := accepted (txn_db tx) @ [row],
      members := members (txn_db tx) @ [], anchors := anchors (txn_db tx) @ []\<rparr>,
      txn_source := Some (ar_identity row)\<rparr>" by (simp add: claim_new_def Let_def)
  with None show ?thesis by (intro exI conjI) simp_all
next
  case (Some d)
  let ?m = "\<lparr>dm_delivery = d, dm_identity = ar_identity row\<rparr>"
  let ?t = "\<lparr>ta_delivery = d, ta_identity = ar_identity row, ta_at = ar_at row\<rparr>"
  from assms Some have new: "row_with dm_identity (ar_identity row) (members (txn_db tx)) = None"
    by (auto simp: claim_new_def Let_def add_membership_def split: if_splits)
  show ?thesis
  proof (cases "event_name rec = Some ''delivery.summary''")
    case True
    with assms Some new have "row_with ta_delivery d (anchors (txn_db tx)) = None \<and>
      tx' = tx\<lparr>txn_db := (txn_db tx)\<lparr>accepted := accepted (txn_db tx) @ [row],
        members := members (txn_db tx) @ [?m], anchors := anchors (txn_db tx) @ [?t]\<rparr>,
        txn_source := Some (ar_identity row)\<rparr>"
      by (simp add: claim_new_def Let_def add_membership_def add_anchor_def split: if_splits)
    with Some new show ?thesis by (intro exI [of _ "[?m]"] exI [of _ "[?t]"]) simp
  next
    case False
    with assms Some new have "tx' = tx\<lparr>txn_db := (txn_db tx)\<lparr>accepted := accepted (txn_db tx) @ [row],
        members := members (txn_db tx) @ [?m], anchors := anchors (txn_db tx) @ []\<rparr>,
        txn_source := Some (ar_identity row)\<rparr>"
      by (simp add: claim_new_def Let_def add_membership_def)
    with Some new show ?thesis by (intro exI [of _ "[?m]"] exI [of _ "[]"]) simp
  qed
qed

lemma claim_accepted:
  assumes "claim_identity rec tx = Inr (ACCEPTED, tx')"
  shows "\<exists>row. claim_new rec row tx = Inr (ACCEPTED, tx') \<and> ar_identity row = record_source rec \<and>
    ar_digest row = digest rec \<and> ar_at row = txn_now tx \<and>
    row_with ar_identity (record_source rec) (accepted (txn_db tx)) = None \<and>
    retirement_check rec (txn_db tx) = None"
proof (cases "row_with ar_identity (record_source rec) (accepted (txn_db tx))")
  case None
  with claim_identity_Inr [OF assms] show ?thesis by auto
next
  case (Some old)
  with claim_identity_Inr [OF assms] show ?thesis by (auto split: if_splits)
qed

section \<open>Claims and effects keep the invariant\<close>

lemma retirement_check_fence:
  "retirement_check rec db = None \<Longrightarrow> record_delivery rec = Some d \<Longrightarrow> \<not> is_fenced d db"
  by (simp add: retirement_check_def)

lemma key_unique_snoc:
  "key_unique f rs \<Longrightarrow> f r \<notin> f ` set rs \<Longrightarrow> key_unique f (rs @ [r])"
  by (simp add: key_unique_append row_with_None_iff)

lemma claim_ok:
  assumes "store_ok (txn_db tx)" and "claim_identity rec tx = Inr (ACCEPTED, tx')"
  shows "store_ok (txn_db tx') \<and> txn_source tx' = Some (record_source rec) \<and>
    accepted_digest (txn_db tx') = (accepted_digest (txn_db tx))(record_source rec \<mapsto> digest rec) \<and>
    accepted_digest (txn_db tx) (record_source rec) = None \<and>
    fences (txn_db tx') = fences (txn_db tx) \<and> effects (txn_db tx') = effects (txn_db tx) \<and>
    markers (txn_db tx') = markers (txn_db tx)"
proof -
  let ?db = "txn_db tx" and ?src = "record_source rec"
  from claim_accepted [OF assms(2)] obtain row where
    new: "claim_new rec row tx = Inr (ACCEPTED, tx')" and id: "ar_identity row = ?src"
    and dig: "ar_digest row = digest rec"
    and fresh: "row_with ar_identity ?src (accepted ?db) = None"
    and ret: "retirement_check rec ?db = None" by blast
  from claim_new_Inr [OF new] obtain ms as where
    tx': "tx' = tx\<lparr>txn_db := ?db\<lparr>accepted := accepted ?db @ [row],
        members := members ?db @ ms, anchors := anchors ?db @ as\<rparr>, txn_source := Some ?src\<rparr>"
    and cases: "case record_delivery rec of
       None \<Rightarrow> ms = [] \<and> as = []
     | Some d \<Rightarrow> ms = [\<lparr>dm_delivery = d, dm_identity = ?src\<rparr>] \<and>
         row_with dm_identity ?src (members ?db) = None \<and>
         (as = [] \<or> as = [\<lparr>ta_delivery = d, ta_identity = ?src, ta_at = ar_at row\<rparr>] \<and>
            row_with ta_delivery d (anchors ?db) = None)"
    unfolding id by blast
  have lookup: "accepted_digest (txn_db tx') = (accepted_digest ?db)(?src \<mapsto> digest rec)"
    using fresh id dig
    by (auto simp: tx' accepted_digest_def row_with_append row_with_Cons fun_eq_iff split: option.splits)
  have ids: "ar_identity ` set (accepted ?db @ [row]) = insert ?src (ar_identity ` set (accepted ?db))"
    using id by simp
  have keys: "key_unique ar_identity (accepted ?db @ [row])"
    using assms(1) fresh id by (auto simp: store_defs intro!: key_unique_append)
  have "store_ok (txn_db tx')"
  proof (cases "record_delivery rec")
    case None
    with cases assms(1) keys ids show ?thesis by (auto simp: store_defs tx')
  next
    case (Some d)
    have "d \<notin> rf_delivery ` set (fences ?db)"
      using retirement_check_fence [OF ret Some] by (simp add: is_fenced_iff)
    with Some cases assms(1) keys ids show ?thesis
      by (auto simp: store_defs tx' row_with_None_iff intro!: key_unique_snoc)
  qed
  with lookup fresh show ?thesis by (simp add: tx' accepted_digest_def)
qed

lemma first_write_ok:
  assumes "first_write e tx = Inr tx'"
  shows "(\<exists>row. row_with pe_id (effect_kind e, key_json (effect_key e)) (effects (txn_db tx)) = Some row \<and>
       py_eq (pe_payload row) (VDict (effect_payload e)) \<and> tx' = tx)
   \<or> (\<exists>r. tx' = tx\<lparr>txn_db := (txn_db tx)\<lparr>effects := effects (txn_db tx) @ [r]\<rparr>\<rparr> \<and>
       pe_id r = (effect_kind e, key_json (effect_key e)) \<and>
       pe_payload r = jsonb_of (VDict (effect_payload e)) \<and>
       txn_source tx = Some (pe_source r) \<and> pe_at r = txn_now tx \<and>
       pe_source r \<in> ar_identity ` set (accepted (txn_db tx)) \<and>
       row_with pe_id (pe_id r) (effects (txn_db tx)) = None)"
proof -
  from assms obtain src where src: "txn_source tx = Some src"
    by (auto simp: first_write_def split: option.splits)
  with assms have nul: "nul_free (VDict (effect_payload e))"
    by (auto simp: first_write_def Let_def bind_result_Inr_iff to_jsonb_def split: if_splits)
  show ?thesis
  proof (cases "row_with pe_id (effect_kind e, key_json (effect_key e)) (effects (txn_db tx))")
    case None
    with assms src nul have in_acc: "src \<in> ar_identity ` set (accepted (txn_db tx))"
      by (auto simp: first_write_def Let_def to_jsonb_def row_with_None_iff split: if_splits)
    let ?r = "\<lparr>pe_kind = effect_kind e, pe_key = key_json (effect_key e),
          pe_payload = jsonb_of (VDict (effect_payload e)), pe_source = src, pe_at = txn_now tx\<rparr>"
    from assms src nul None have
      "tx' = tx\<lparr>txn_db := (txn_db tx)\<lparr>effects := effects (txn_db tx) @ [?r]\<rparr>\<rparr>"
      by (auto simp: first_write_def Let_def to_jsonb_def split: if_splits)
    with None src in_acc show ?thesis by (intro disjI2 exI [of _ ?r]) (simp add: pe_id_def)
  next
    case (Some row)
    with assms src nul show ?thesis
      by (simp add: first_write_def Let_def to_jsonb_def split: if_splits)
  qed
qed

lemma require_effect_same: "require_effect e tx = Inr tx' \<Longrightarrow> tx' = tx"
  by (simp add: require_effect_def Let_def split: option.splits if_splits)

lemma append_effect_ok:
  assumes "store_ok db" "pe_source r \<in> ar_identity ` set (accepted db)"
    and "row_with pe_id (pe_id r) (effects db) = None"
  shows "store_ok (db\<lparr>effects := effects db @ [r]\<rparr>)"
  using assms key_unique_append [of pe_id "effects db" r] by (simp add: store_defs)

text \<open>
  Applying effects only appends effect rows of new keys whose source is the record of the
  transaction: nothing written before changes.
\<close>

definition extends :: "txn \<Rightarrow> txn \<Rightarrow> bool" where
  "extends tx tx' \<longleftrightarrow> (\<exists>new.
     tx' = tx\<lparr>txn_db := (txn_db tx)\<lparr>effects := effects (txn_db tx) @ new\<rparr>\<rparr> \<and>
     (\<forall>r \<in> set new. txn_source tx = Some (pe_source r) \<and> pe_at r = txn_now tx))"

lemma extends_refl [simp]: "extends tx tx"
  unfolding extends_def by (intro exI [of _ "[]"]) simp

lemma extends_snoc:
  assumes "tx' = tx\<lparr>txn_db := (txn_db tx)\<lparr>effects := effects (txn_db tx) @ [r]\<rparr>\<rparr>"
    and "txn_source tx = Some (pe_source r)" "pe_at r = txn_now tx"
  shows "extends tx tx'"
  unfolding extends_def using assms by (intro exI [of _ "[r]"]) simp

lemma extends_trans: "extends tx tx1 \<Longrightarrow> extends tx1 tx2 \<Longrightarrow> extends tx tx2"
  unfolding extends_def
proof (elim exE conjE)
  fix n1 n2
  assume "tx1 = tx\<lparr>txn_db := (txn_db tx)\<lparr>effects := effects (txn_db tx) @ n1\<rparr>\<rparr>"
    and "tx2 = tx1\<lparr>txn_db := (txn_db tx1)\<lparr>effects := effects (txn_db tx1) @ n2\<rparr>\<rparr>"
    and "\<forall>r \<in> set n1. txn_source tx = Some (pe_source r) \<and> pe_at r = txn_now tx"
    and "\<forall>r \<in> set n2. txn_source tx1 = Some (pe_source r) \<and> pe_at r = txn_now tx1"
  then show "\<exists>new. tx2 = tx\<lparr>txn_db := (txn_db tx)\<lparr>effects := effects (txn_db tx) @ new\<rparr>\<rparr> \<and>
     (\<forall>r \<in> set new. txn_source tx = Some (pe_source r) \<and> pe_at r = txn_now tx)"
    by (intro exI [of _ "n1 @ n2"]) auto
qed

lemma extends_tables:
  assumes "extends tx tx'"
  shows "accepted (txn_db tx') = accepted (txn_db tx)" "members (txn_db tx') = members (txn_db tx)"
    "anchors (txn_db tx') = anchors (txn_db tx)" "fences (txn_db tx') = fences (txn_db tx)"
    "markers (txn_db tx') = markers (txn_db tx)" "txn_source tx' = txn_source tx"
    "txn_now tx' = txn_now tx" "set (effects (txn_db tx)) \<subseteq> set (effects (txn_db tx'))"
    "\<And>r. r \<in> set (effects (txn_db tx')) \<Longrightarrow>
       r \<in> set (effects (txn_db tx)) \<or> txn_source tx = Some (pe_source r) \<and> pe_at r = txn_now tx"
  using assms by (auto simp: extends_def)

lemma apply_effect_ok:
  assumes "store_ok (txn_db tx)" and "apply_effect e tx = Inr tx'"
  shows "store_ok (txn_db tx') \<and> extends tx tx'"
proof (cases "starts_with (effect_kind e) ''require_''")
  case True
  with assms show ?thesis by (auto simp: apply_effect_def dest: require_effect_same)
next
  case False
  with assms(2) have "first_write e tx = Inr tx'" by (simp add: apply_effect_def)
  from first_write_ok [OF this] consider "tx' = tx"
    | r where "tx' = tx\<lparr>txn_db := (txn_db tx)\<lparr>effects := effects (txn_db tx) @ [r]\<rparr>\<rparr>"
      "txn_source tx = Some (pe_source r)" "pe_at r = txn_now tx"
      "pe_source r \<in> ar_identity ` set (accepted (txn_db tx))"
      "row_with pe_id (pe_id r) (effects (txn_db tx)) = None"
    by (auto simp: pe_id_def)
  then show ?thesis
  proof cases
    case 1
    with assms(1) show ?thesis by simp
  next
    case 2
    with extends_snoc [OF 2(1-3)] append_effect_ok [OF assms(1) 2(4,5)] show ?thesis by simp
  qed
qed

lemma apply_effects_ok:
  assumes "store_ok (txn_db tx)" and "apply_effects es tx = Inr tx'"
  shows "store_ok (txn_db tx') \<and> extends tx tx'"
  using assms
proof (induction es tx rule: apply_effects.induct)
  case (2 e es tx)
  then obtain tx1 where one: "apply_effect e tx = Inr tx1" and rest: "apply_effects es tx1 = Inr tx'"
    by (auto simp: bind_result_Inr_iff)
  with "2.IH" [OF _ rest] apply_effect_ok [OF "2.prems"(1) one] show ?case
    by (auto intro: extends_trans)
qed simp

lemma apply_effects_digests:
  assumes "extends tx tx'"
  shows "accepted_digest (txn_db tx') = accepted_digest (txn_db tx)"
  by (simp add: accepted_digest_def extends_tables [OF assms] fun_eq_iff)

text \<open>What a list of applied effects has established, effect by effect.\<close>

definition established :: "source option \<Rightarrow> effect \<Rightarrow> effect_row list \<Rightarrow> bool" where
  "established src e rows \<longleftrightarrow>
     (if starts_with (effect_kind e) ''require_'' then
        (\<exists>row \<in> set rows. pe_id row = (drop 8 (effect_kind e), key_json (effect_key e)) \<and>
           (\<forall>(n, v) \<in> set (effect_payload e). py_eq (dget (the_dict (pe_payload row)) n) v))
      else
        (\<exists>row \<in> set rows. pe_id row = (effect_kind e, key_json (effect_key e)) \<and>
           (py_eq (pe_payload row) (VDict (effect_payload e)) \<or>
            pe_payload row = jsonb_of (VDict (effect_payload e)) \<and> src = Some (pe_source row))))"

lemma established_mono:
  "established src e rows \<Longrightarrow> set rows \<subseteq> set rows' \<Longrightarrow> established src e rows'"
  unfolding established_def by (auto split: if_splits)

lemma apply_effect_established:
  assumes "apply_effect e tx = Inr tx'"
  shows "established (txn_source tx) e (effects (txn_db tx'))"
proof (cases "starts_with (effect_kind e) ''require_''")
  case True
  with assms have req: "require_effect e tx = Inr tx'" by (simp add: apply_effect_def)
  then obtain row where
    "row_with pe_id (drop 8 (effect_kind e), key_json (effect_key e)) (effects (txn_db tx)) = Some row"
    "list_all (\<lambda>(n, v). py_eq (dget (the_dict (pe_payload row)) n) v) (effect_payload e)"
    by (auto simp: require_effect_def Let_def split: option.splits if_splits)
  with True require_effect_same [OF req] show ?thesis
    by (auto simp: established_def list_all_iff dest: row_with_SomeD)
next
  case False
  with assms have "first_write e tx = Inr tx'" by (simp add: apply_effect_def)
  from first_write_ok [OF this] False show ?thesis
    by (auto simp: established_def dest: row_with_SomeD)
qed

lemma apply_effects_established:
  assumes "store_ok (txn_db tx)" "apply_effects es tx = Inr tx'" "e \<in> set es"
  shows "established (txn_source tx) e (effects (txn_db tx'))"
  using assms
proof (induction es tx rule: apply_effects.induct)
  case (2 f es tx)
  then obtain tx1 where one: "apply_effect f tx = Inr tx1" and rest: "apply_effects es tx1 = Inr tx'"
    by (auto simp: bind_result_Inr_iff)
  from apply_effect_ok [OF "2.prems"(1) one] have ok: "store_ok (txn_db tx1)" "extends tx tx1"
    by auto
  from apply_effects_ok [OF ok(1) rest] have ext: "extends tx1 tx'" by simp
  show ?case
  proof (cases "e = f")
    case True
    with apply_effect_established [OF one] extends_tables(8) [OF ext] show ?thesis
      by (auto intro: established_mono)
  next
    case False
    with "2.prems"(3) "2.IH" [OF ok(1) rest] extends_tables(6) [OF ok(2)] show ?thesis by simp
  qed
qed simp

end
