(* ===== verification/Read_Model.thy ===== *)
theory Read_Model
  imports Profile Canonical Json_Loads
begin

text \<open>
  The read-model contracts of \<open>storage/read_model.py\<close>: retention policies, expiry owners and
  records with their closed shapes, the byte encoding that names a batch, and the batches and
  results of expiry and Delivery deletion.  An instant is the number of microseconds since the
  epoch in UTC (the code requires time-zone-aware values and normalises them to UTC); a duration
  is a number of microseconds.
\<close>

section \<open>Durations and policies\<close>

definition seconds :: "int \<Rightarrow> int" where
  "seconds n = n * 1000000"

definition days :: "int \<Rightarrow> int" where
  "days n = n * 86400000000"

definition whole_days :: "int \<Rightarrow> bool" where
  "whole_days ttl \<longleftrightarrow> ttl mod days 1 = 0"

definition bounded_ttl :: "int option \<Rightarrow> string \<Rightarrow> int \<Rightarrow> int \<Rightarrow> bool \<Rightarrow> py_error option" where
  "bounded_ttl ttl name minimum maximum never_allowed = (case ttl of
       None \<Rightarrow> require never_allowed (Value_Error (name @ '' cannot be NEVER''))
     | Some t \<Rightarrow> require (whole_days t \<and> minimum \<le> t \<and> t \<le> maximum)
         (Value_Error (name @ '' is outside its whole-day range'')))"

definition batch_and_interval :: "int \<Rightarrow> int \<Rightarrow> py_error option list" where
  "batch_and_interval batch_size interval =
     [require (1 \<le> batch_size \<and> batch_size \<le> 1000) (Value_Error ''batch_size must be in [1,1000]''),
      require (interval mod seconds 1 = 0 \<and> seconds 10 \<le> interval \<and> interval \<le> seconds 3600)
        (Value_Error ''interval must be whole seconds in [10,3600]'')]"

record retention_policy =
  rp_raw_debug_ttl :: int
  rp_trace_detail_ttl :: "int option"
  rp_factual_projection_ttl :: "int option"
  rp_batch_size :: int
  rp_interval :: int

definition check_retention_policy :: "retention_policy \<Rightarrow> py_error option" where
  "check_retention_policy p = first_error
     ([bounded_ttl (Some (rp_raw_debug_ttl p)) ''raw_debug_ttl'' 0 (days 1) False,
       bounded_ttl (rp_trace_detail_ttl p) ''trace_detail_ttl'' (days 1) (days 365) True,
       bounded_ttl (rp_factual_projection_ttl p) ''factual_projection_ttl'' (days 30) (days 3650) True]
      @ batch_and_interval (rp_batch_size p) (rp_interval p))"

record delivery_policy =
  raw_debug_ttl :: int
  delivery_ttl :: "int option"
  batch_size :: int
  interval :: int

definition DELIVERY_RETENTION_POLICY_REVISION :: string where
  "DELIVERY_RETENTION_POLICY_REVISION = ''2.0.0''"

definition default_policy :: delivery_policy where
  "default_policy = \<lparr>raw_debug_ttl = 0, delivery_ttl = Some (days 30), batch_size = 500,
     interval = seconds 60\<rparr>"

definition check_delivery_policy :: "delivery_policy \<Rightarrow> py_error option" where
  "check_delivery_policy p = first_error
     ([bounded_ttl (Some (raw_debug_ttl p)) ''raw_debug_ttl'' 0 (days 1) False,
       bounded_ttl (delivery_ttl p) ''delivery_ttl'' (days 1) (days 3650) True]
      @ batch_and_interval (batch_size p) (interval p))"

section \<open>Truth states\<close>

datatype completeness = FINAL | LOWER_BOUND | NOT_APPLICABLE | C_UNAVAILABLE
datatype availability = AVAILABLE | UNAVAILABLE
datatype expiry_state = ACTIVE | EXPIRED

record truth_state =
  ts_completeness :: "completeness option"
  ts_availability :: availability
  ts_expiry :: expiry_state
  ts_expires_at :: "int option"

definition check_truth_state :: "truth_state \<Rightarrow> py_error option" where
  "check_truth_state t =
     (if ts_expiry t = EXPIRED then first_error
        [require (ts_availability t = UNAVAILABLE) (Value_Error ''expired detail must be unavailable''),
         require (ts_expires_at t \<noteq> None) (Value_Error ''expired detail requires its expiry instant'')]
      else require (ts_availability t =
             (if ts_completeness t = Some C_UNAVAILABLE then UNAVAILABLE else AVAILABLE))
           (Value_Error ''active availability must preserve recorded completeness''))"

section \<open>Owners\<close>

datatype resource_class = RAW_DEBUG | ACCEPTED_PROVENANCE | TRACE_DETAIL | FACTUAL_PROJECTION

fun class_value :: "resource_class \<Rightarrow> string" where
  "class_value RAW_DEBUG = ''RAW_DEBUG''"
| "class_value ACCEPTED_PROVENANCE = ''ACCEPTED_PROVENANCE''"
| "class_value TRACE_DETAIL = ''TRACE_DETAIL''"
| "class_value FACTUAL_PROJECTION = ''FACTUAL_PROJECTION''"

definition TRACE_RESOURCE_KINDS :: "string list" where
  "TRACE_RESOURCE_KINDS = [''NODE'', ''PARENT_EDGE'', ''LINK'']"

definition FACTUAL_RESOURCE_KINDS :: "string list" where
  "FACTUAL_RESOURCE_KINDS = [''EVENT_CONTRIBUTION'', ''FINDING_ASSERTION'', ''FINDING_TARGET'',
     ''FINDING_STATUS'', ''FINDING_FIX'', ''FINDING_RECHECK'', ''ROLE_LINEAGE'',
     ''DELIVERY_ROOT_BINDING'', ''MODEL_ATTRIBUTION'']"

record expiry_owner =
  resource_kind :: string
  owner_key :: "pyval list"

definition interoperable :: "int \<Rightarrow> bool" where
  "interoperable i \<longleftrightarrow> - 9007199254740991 \<le> i \<and> i \<le> 9007199254740991"

fun is_scalar :: "pyval \<Rightarrow> bool" where
  "is_scalar VNone = True"
| "is_scalar (VStr s) = True"
| "is_scalar (VBool b) = True"
| "is_scalar (VInt i) = interoperable i"
| "is_scalar (VFloat (Float_Dec neg c e)) = True"
| "is_scalar v = False"

definition owner_value_checks :: "pyval \<Rightarrow> py_error option list" where
  "owner_value_checks v =
     [require (is_scalar v) (Value_Error ''owner key values must be scalars''),
      (case v of
         VStr s \<Rightarrow> first_error
           [require (\<not> has_surrogate s) (Value_Error ''surrogates not allowed''),
            require (1 \<le> length s \<and> length s \<le> 256)
              (Value_Error ''owner key strings must contain 1 through 256 UTF-8 bytes'')]
       | VInt i \<Rightarrow> require (interoperable i) (Value_Error ''owner key integers must be interoperable'')
       | VFloat f \<Rightarrow> require (is_scalar v) (Value_Error ''owner key numbers must be finite'')
       | _ \<Rightarrow> None)]"

definition validate_owner_key :: "pyval list \<Rightarrow> py_error option" where
  "validate_owner_key key = first_error
     (require (1 \<le> length key \<and> length key \<le> 16)
        (Value_Error ''owner key must contain 1 through 16 scalars'')
      # concat (map owner_value_checks key))"

definition make_owner :: "string \<Rightarrow> pyval list \<Rightarrow> expiry_owner result" where
  "make_owner kind key = check_then (first_error
     [require (kind \<noteq> []) (Value_Error ''expiry resource_kind must be nonempty''),
      validate_owner_key key])
     (Inr \<lparr>resource_kind = kind, owner_key = key\<rparr>)"

definition kinds_of :: "resource_class \<Rightarrow> string list" where
  "kinds_of c = (case c of
       RAW_DEBUG \<Rightarrow> [''RAW_DEBUG'']
     | TRACE_DETAIL \<Rightarrow> TRACE_RESOURCE_KINDS
     | FACTUAL_PROJECTION \<Rightarrow> FACTUAL_RESOURCE_KINDS
     | ACCEPTED_PROVENANCE \<Rightarrow> [])"

definition is_hex :: "nat \<Rightarrow> pyval \<Rightarrow> bool" where
  "is_hex n v = str_such (\<lambda>s. length s = n \<and> list_all is_lower_hex s) v"

definition nonempty_str :: "pyval \<Rightarrow> bool" where
  "nonempty_str v = str_such (\<lambda>s. s \<noteq> []) v"

definition optional_str :: "pyval \<Rightarrow> bool" where
  "optional_str v \<longleftrightarrow> v = VNone \<or> nonempty_str v"

text \<open>A key of the given length whose positions satisfy the given predicates.\<close>

definition shape :: "(pyval \<Rightarrow> bool) list \<Rightarrow> pyval list \<Rightarrow> bool" where
  "shape ps key \<longleftrightarrow> list_all2 (\<lambda>p v. p v) ps key"

definition raw_key_shape :: "pyval list \<Rightarrow> bool" where
  "raw_key_shape key \<longleftrightarrow> shape [\<lambda>v. v = VStr ''event'', nonempty_str] key \<or>
     shape [\<lambda>v. v = VStr ''span'', is_hex 32, is_hex 16] key"

definition trace_key_shape :: "string \<Rightarrow> pyval list \<Rightarrow> bool" where
  "trace_key_shape kind key \<longleftrightarrow>
     (if kind = ''NODE'' then shape [is_hex 32, is_hex 16] key
      else if kind = ''PARENT_EDGE'' then shape [is_hex 32, is_hex 16, is_hex 16] key
      else if kind = ''LINK'' then shape [is_hex 32, is_hex 16, is_hex 32, is_hex 16] key
      else False)"

definition factual_key_shape :: "string \<Rightarrow> pyval list \<Rightarrow> bool" where
  "factual_key_shape kind key \<longleftrightarrow>
     (let s = nonempty_str in
      if kind = ''EVENT_CONTRIBUTION'' then shape [s, s] key
      else if kind = ''FINDING_ASSERTION'' then shape [s, s] key
      else if kind = ''FINDING_STATUS'' then shape [s, s, s] key
      else if kind = ''ROLE_LINEAGE'' then shape [s, s] key
      else if kind = ''FINDING_TARGET'' then shape [s, s, s, s, optional_str] key
      else if kind = ''FINDING_FIX'' \<or> kind = ''FINDING_RECHECK''
        then shape [s, s, s, s, optional_str, s] key
      else if kind = ''DELIVERY_ROOT_BINDING'' then shape [is_hex 32] key
      else if kind = ''MODEL_ATTRIBUTION'' then shape [s, s, s, s, is_hex 32, is_hex 16] key
      else False)"

definition owner_key_valid :: "resource_class \<Rightarrow> string \<Rightarrow> pyval list \<Rightarrow> bool" where
  "owner_key_valid c kind key = (case c of
       RAW_DEBUG \<Rightarrow> raw_key_shape key
     | TRACE_DETAIL \<Rightarrow> trace_key_shape kind key
     | FACTUAL_PROJECTION \<Rightarrow> factual_key_shape kind key
     | ACCEPTED_PROVENANCE \<Rightarrow> False)"

definition validate_expiry_owner :: "resource_class \<Rightarrow> expiry_owner \<Rightarrow> py_error option" where
  "validate_expiry_owner c owner = first_error
     [require (resource_kind owner \<in> set (kinds_of c))
        (Value_Error ''resource kind is not valid for its expiry class''),
      require (owner_key_valid c (resource_kind owner) (owner_key owner))
        (Value_Error ''owner key does not match its closed resource kind shape'')]"

section \<open>Expiry records\<close>

record expiry_record =
  er_class :: resource_class
  er_owner_key :: "pyval list"
  er_source :: "string \<times> string"
  er_resource_kind :: string
  er_recorded_at :: int
  er_compatibility :: "(string \<times> pyval) list"
  er_policy_revision :: string
  er_expires_at :: int
  er_expired_at :: int

definition dimension_orders :: "(string \<times> string list) list" where
  "dimension_orders =
     [(''usage'', [''C42'', ''C43'', ''C44'', ''C45'']),
      (''implementation.summary'', [''I05'', ''I08'', ''I09'', ''I10'']),
      (''test.summary'', [''C28'', ''C29'']),
      (''review.summary'', [''C13'', ''C14''])]"

definition traced_kinds :: "string list" where
  "traced_kinds = [''EVENT_CONTRIBUTION'', ''FINDING_ASSERTION'', ''FINDING_TARGET'',
     ''FINDING_STATUS'', ''FINDING_FIX'', ''FINDING_RECHECK'', ''ROLE_LINEAGE'']"

definition allowed_suffix :: "string \<Rightarrow> pyval \<Rightarrow> string list" where
  "allowed_suffix kind event =
     (if kind = ''EVENT_CONTRIBUTION'' then
        (case event of
           VStr e \<Rightarrow> (case map_of dimension_orders e of None \<Rightarrow> [] | Some ks \<Rightarrow> ks)
         | _ \<Rightarrow> [])
      else if kind = ''FINDING_ASSERTION'' then [''C13'', ''C14'']
      else if kind = ''MODEL_ATTRIBUTION'' then [''gen_ai.provider.name'', ''C57'', ''C30'', ''C06'']
      else if kind = ''DELIVERY_ROOT_BINDING'' then [''delivery_id'']
      else []) @
     (if kind \<in> set traced_kinds then [''trace_id''] else [])"

fun index_of :: "string list \<Rightarrow> string \<Rightarrow> nat option" where
  "index_of [] k = None"
| "index_of (x # xs) k = (if x = k then Some 0 else map_option Suc (index_of xs k))"

definition in_allowed_order :: "string list \<Rightarrow> string list \<Rightarrow> bool" where
  "in_allowed_order allowed extra =
     (let positions = List.map_filter (index_of allowed) extra in
      length positions = length extra \<and> sorted positions)"

definition validate_compatibility :: "expiry_record \<Rightarrow> py_error option" where
  "validate_compatibility r =
     (let pairs = er_compatibility r; ks = map fst pairs in
      if er_class r = RAW_DEBUG \<or> er_class r = TRACE_DETAIL
      then require (pairs = []) (Value_Error ''Raw and Trace expiry compatibility must be empty'')
      else first_error
        ([require (3 \<le> length pairs \<and> length pairs \<le> 8 \<and>
             take 3 ks = [''family_schema'', ''event_name'', ''completeness''])
            (Value_Error ''factual expiry compatibility requires its three base pairs''),
          require (distinct ks) (Value_Error ''expiry compatibility pair keys must be unique''),
          require (in_allowed_order
              (allowed_suffix (er_resource_kind r) (snd (pairs ! 1))) (drop 3 ks))
            (Value_Error ''expiry compatibility dimensions are unknown or out of order'')] @
         map (\<lambda>(k, v). require (k \<noteq> [] \<and> is_scalar v)
                (Value_Error ''expiry compatibility pairs must contain bounded scalars'')) pairs))"

definition check_expiry_record :: "expiry_record \<Rightarrow> py_error option" where
  "check_expiry_record r = first_error
     [validate_owner_key (er_owner_key r),
      error_of (make_owner (er_resource_kind r) (er_owner_key r)),
      validate_expiry_owner (er_class r)
        \<lparr>resource_kind = er_resource_kind r, owner_key = er_owner_key r\<rparr>,
      require (er_resource_kind r \<noteq> [] \<and> er_policy_revision r \<noteq> [])
        (Value_Error ''expiry marker coordinates must be nonempty''),
      validate_compatibility r]"

section \<open>The encoding of batches\<close>

definition newline :: string where
  "newline = [CHR 0x0A]"

text \<open>\<open>struct.pack('>d', value).hex()\<close>.\<close>

definition double_bits :: "bool \<Rightarrow> nat \<Rightarrow> int \<Rightarrow> nat" where
  "double_bits neg c e =
     (let (m0, q0) = to_double c e;
          (m, q) = (if m0 = 2 ^ 53 then (2 ^ 52, q0 + 1) else (m0, q0)) in
      (if neg then 2 ^ 63 else 0) +
      (if m < 2 ^ 52 then m else nat (q + 1075) * 2 ^ 52 + (m - 2 ^ 52)))"

definition hex16 :: "nat \<Rightarrow> string" where
  "hex16 n = map (\<lambda>i. hex_digit (n div 16 ^ (15 - i) mod 16)) [0..<16]"

fun float_bits :: "pyfloat \<Rightarrow> nat" where
  "float_bits (Float_Dec neg c e) = (if c = 0 then (if neg then 2 ^ 63 else 0) else double_bits neg c e)"
| "float_bits (Float_Inf neg) = (if neg then 0xFFF0000000000000 else 0x7FF0000000000000)"
| "float_bits Float_Nan = 0x7FF8000000000000"

definition encode_str :: "string \<Rightarrow> string" where
  "encode_str s = ''s'' @ nat_str (length s) @ '':'' @ s @ newline"

fun encode_scalar :: "pyval \<Rightarrow> string" where
  "encode_scalar (VBool b) = (if b then ''b1'' else ''b0'') @ newline"
| "encode_scalar (VInt i) = ''i'' @ int_str i @ newline"
| "encode_scalar (VFloat f) = ''f'' @ hex16 (float_bits f) @ newline"
| "encode_scalar (VStr s) = encode_str s"
| "encode_scalar v = ''n'' @ newline"

definition array_header :: "nat \<Rightarrow> string" where
  "array_header n = ''a'' @ nat_str n @ newline"

definition encode_array :: "pyval list \<Rightarrow> string" where
  "encode_array vs = array_header (length vs) @ concat (map encode_scalar vs)"

definition canonical_member :: "expiry_owner \<Rightarrow> string" where
  "canonical_member m =
     array_header 2 @ encode_str (resource_kind m) @ encode_array (owner_key m)"

section \<open>ISO 8601 text of an instant\<close>

definition pad :: "nat \<Rightarrow> int \<Rightarrow> string" where
  "pad w n = (let t = nat_str (nat n) in replicate (w - length t) (CHR ''0'') @ t)"

definition civil_of_days :: "int \<Rightarrow> int \<times> int \<times> int" where
  "civil_of_days z0 =
     (let z = z0 + 719468; era = z div 146097; doe = z mod 146097;
          yoe = (doe - doe div 1460 + doe div 36524 - doe div 146096) div 365;
          doy = doe - (365 * yoe + yoe div 4 - yoe div 100);
          mp = (5 * doy + 2) div 153; d = doy - (153 * mp + 2) div 5 + 1;
          m = (if mp < 10 then mp + 3 else mp - 9)
      in (yoe + era * 400 + (if m \<le> 2 then 1 else 0), m, d))"

definition iso_utc :: "int \<Rightarrow> string" where
  "iso_utc t =
     (let (y, m, d) = civil_of_days (t div days 1); us = t mod days 1; s = us div 1000000 in
      pad 4 y @ ''-'' @ pad 2 m @ ''-'' @ pad 2 d @ ''T'' @
      pad 2 (s div 3600) @ '':'' @ pad 2 (s div 60 mod 60) @ '':'' @ pad 2 (s mod 60) @ ''.'' @
      pad 6 (us mod 1000000) @ ''Z'')"

section \<open>Batches\<close>

definition canonical_batch_bytes ::
  "resource_class \<Rightarrow> string \<Rightarrow> string \<Rightarrow> int \<Rightarrow> expiry_owner list \<Rightarrow> string" where
  "canonical_batch_bytes c policy cutoff_text ttl members =
     ''evidence-expiry-batch-v1'' @ newline @ encode_str (class_value c) @ encode_str policy @
     encode_str cutoff_text @ encode_scalar (VInt ttl) @ array_header (length members) @
     concat (map canonical_member members)"

record expiry_batch =
  eb_identity :: string
  eb_class :: resource_class
  eb_policy :: string
  eb_cutoff :: int
  eb_ttl_seconds :: int
  eb_members :: "expiry_owner list"

fun adjacent_distinct :: "'a list \<Rightarrow> bool" where
  "adjacent_distinct (x # y # zs) = (x \<noteq> y \<and> adjacent_distinct (y # zs))"
| "adjacent_distinct _ = True"

definition create_expiry_batch ::
  "resource_class \<Rightarrow> string \<Rightarrow> int \<Rightarrow> int \<Rightarrow> expiry_owner list \<Rightarrow> expiry_batch result" where
  "create_expiry_batch c policy cutoff ttl members =
     (let ordered = sort_key canonical_member members in
      check_then (first_error
        ([require (c \<noteq> ACCEPTED_PROVENANCE) (Value_Error ''accepted provenance cannot expire''),
          require (policy \<noteq> []) (Value_Error ''policy_revision must be nonempty''),
          require (0 \<le> ttl) (Value_Error ''ttl_seconds must be a nonnegative integer''),
          require (length members \<le> 1000) (Value_Error ''expiry batch cannot exceed 1000 members'')]
         @ map (validate_expiry_owner c) members @
         [require (adjacent_distinct (map canonical_member ordered))
            (Value_Error ''expiry batch members must be unique'')]))
      (Inr \<lparr>eb_identity = sha256_hex (canonical_batch_bytes c policy (iso_utc cutoff) ttl ordered),
            eb_class = c, eb_policy = policy, eb_cutoff = cutoff, eb_ttl_seconds = ttl,
            eb_members = ordered\<rparr>))"

record deletion_batch =
  db_identity :: string
  db_policy :: string
  db_cutoff :: int
  db_ttl_seconds :: int
  db_delivery_ids :: "string list"

definition deletion_batch_bytes :: "string \<Rightarrow> string \<Rightarrow> int \<Rightarrow> string list \<Rightarrow> string" where
  "deletion_batch_bytes policy cutoff_text ttl ids =
     ''evidence-delivery-deletion-batch-v1'' @ newline @ encode_str policy @
     encode_str cutoff_text @ encode_scalar (VInt ttl) @ encode_array (map VStr ids)"

definition create_deletion_batch ::
  "string \<Rightarrow> int \<Rightarrow> int \<Rightarrow> string list \<Rightarrow> deletion_batch result" where
  "create_deletion_batch policy cutoff ttl ids =
     (let ordered = sort ids in
      check_then (first_error
        [require (policy \<noteq> []) (Value_Error ''policy_revision must be nonempty''),
         require (0 \<le> ttl) (Value_Error ''ttl_seconds must be a nonnegative integer''),
         require (length ids \<le> 1000)
           (Value_Error ''Delivery deletion batch cannot exceed 1000 members''),
         require (list_all (\<lambda>d. d \<noteq> []) ids) (Value_Error ''delivery_id must be nonempty''),
         require (adjacent_distinct ordered)
           (Value_Error ''Delivery deletion batch members must be unique'')])
      (Inr \<lparr>db_identity = sha256_hex (deletion_batch_bytes policy (iso_utc cutoff) ttl ordered),
            db_policy = policy, db_cutoff = cutoff, db_ttl_seconds = ttl,
            db_delivery_ids = ordered\<rparr>))"

section \<open>Results\<close>

record count_result =
  cr_identity :: string
  cr_selected :: int
  cr_done :: int
  cr_already :: int

text \<open>\<open>ExpiryResult\<close> and \<open>DeliveryDeletionResult\<close> check the same counts.\<close>

definition make_count_result :: "string \<Rightarrow> int \<Rightarrow> int \<Rightarrow> int \<Rightarrow> count_result result" where
  "make_count_result ident selected finished already = check_then (first_error
     [require (hex_text 64 ident) (Value_Error ''batch_identity must be lower-case SHA-256 hex''),
      require (0 \<le> min selected (min finished already)) (Value_Error ''counts must be nonnegative''),
      require (finished + already = selected)
        (Value_Error ''result must exactly partition selected resources'')])
     (Inr \<lparr>cr_identity = ident, cr_selected = selected, cr_done = finished, cr_already = already\<rparr>)"

section \<open>Snapshot pages and trace summaries\<close>

definition page_revisions :: "(string \<times> string) list" where
  "page_revisions = [(''0.1.0'', ''1.0.0''), (''1.0.0'', ''2.0.0'')]"

definition check_snapshot_page :: "string \<Rightarrow> string \<Rightarrow> string \<Rightarrow> py_error option" where
  "check_snapshot_page contract_revision read_model_revision snapshot_id = first_error
     [require ((contract_revision, read_model_revision) \<in> set page_revisions)
        (Value_Error ''snapshot Contract/read-model revision mismatch''),
      require (snapshot_id \<noteq> []) (Value_Error ''snapshot_id must be nonempty'')]"

definition check_trace_summary :: "string \<Rightarrow> py_error option" where
  "check_trace_summary trace_id =
     require (hex_text 32 trace_id) (Value_Error ''trace_id must be 32 lower-case hex'')"

section \<open>The encoding is injective\<close>

text \<open>
  Every piece of the encoding delimits itself: what follows it cannot be taken for a part of it.
\<close>

lemma nat_str_append_eq:
  assumes "nat_str m @ c # u = nat_str n @ d # v" "\<not> is_digit c" "\<not> is_digit d"
  shows "m = n \<and> c = d \<and> u = v"
proof -
  have take: "takeWhile is_digit (nat_str k @ b # w) = nat_str k"
    "dropWhile is_digit (nat_str k @ b # w) = b # w" if "\<not> is_digit b" for k b w
    using nat_str_digits [of k] that
    by (simp_all add: takeWhile_append2 dropWhile_append2 list_all_iff)
  from assms(1) take [OF assms(2)] take [OF assms(3)] show ?thesis
    by (metis list.inject nat_str_inject)
qed

lemma int_str_append_eq:
  assumes "int_str i @ c # u = int_str j @ c # v" "\<not> is_digit c"
  shows "i = j \<and> u = v"
proof -
  have digit: "nat_str n @ w \<noteq> CHR ''-'' # x" for n w x
    using nat_str_digits [of n] by (cases "nat_str n") auto
  have digit': "CHR ''-'' # x \<noteq> nat_str n @ w" for n w x
    using digit [of n w x] by metis
  have nats: "nat_str m @ c # u = nat_str n @ c # v \<Longrightarrow> m = n \<and> u = v" for m n
    using nat_str_append_eq [OF _ assms(2) assms(2)] by blast
  show ?thesis
  proof (cases "i < 0")
    case True
    with assms(1) digit' have "j < 0" by (auto simp: int_str_def split: if_splits)
    with True assms(1) nats [of "nat (- i)" "nat (- j)"] show ?thesis
      by (auto simp: int_str_def)
  next
    case False
    with assms(1) digit have "\<not> j < 0" by (auto simp: int_str_def split: if_splits)
    with False assms(1) nats [of "nat i" "nat j"] show ?thesis
      by (auto simp: int_str_def)
  qed
qed

lemma not_digit_delimiters [simp]: "\<not> is_digit CHR '':''" "\<not> is_digit CHR 0x0A"
  by (simp_all add: is_digit_def ord_of_def)

lemma encode_str_append_eq:
  assumes "encode_str s @ u = encode_str t @ v"
  shows "s = t \<and> u = v"
proof -
  from assms have "nat_str (length s) @ CHR '':'' # (s @ newline @ u) =
      nat_str (length t) @ CHR '':'' # (t @ newline @ v)"
    by (simp add: encode_str_def)
  from nat_str_append_eq [OF this] have "length s = length t" "s @ newline @ u = t @ newline @ v"
    by simp_all
  then show ?thesis by simp
qed

lemma array_header_append_eq: "array_header m @ u = array_header n @ v \<Longrightarrow> m = n \<and> u = v"
  using nat_str_append_eq [of m "CHR 0x0A" u n "CHR 0x0A" v] by (simp add: array_header_def newline_def)

definition exact_scalar :: "pyval \<Rightarrow> bool" where
  "exact_scalar v = (case v of VNone \<Rightarrow> True | VBool _ \<Rightarrow> True | VInt _ \<Rightarrow> True | VStr _ \<Rightarrow> True | _ \<Rightarrow> False)"

lemma encode_scalar_append_eq:
  assumes "exact_scalar v" "exact_scalar w" "encode_scalar v @ x = encode_scalar w @ y"
  shows "v = w \<and> x = y"
proof (cases v)
  case VNone
  with assms(2,3) show ?thesis
    by (cases w) (simp_all add: exact_scalar_def encode_str_def newline_def split: if_splits)
next
  case (VBool b)
  with assms(2,3) show ?thesis
    by (cases w) (simp_all add: exact_scalar_def encode_str_def newline_def split: if_splits)
next
  case (VInt i)
  with assms(2,3) obtain j where w: "w = VInt j"
    by (cases w) (simp_all add: exact_scalar_def encode_str_def newline_def split: if_splits)
  with VInt assms(3) have "int_str i @ CHR 0x0A # x = int_str j @ CHR 0x0A # y"
    by (simp add: newline_def)
  from int_str_append_eq [OF this] w VInt show ?thesis by simp
next
  case (VStr s)
  with assms(2,3) obtain t where w: "w = VStr t"
    by (cases w) (simp_all add: exact_scalar_def encode_str_def newline_def split: if_splits)
  with VStr assms(3) encode_str_append_eq [of s x t y] show ?thesis by simp
qed (use assms(1) in \<open>simp_all add: exact_scalar_def\<close>)

lemma encode_scalars_append_eq:
  assumes "length vs = length ws" "list_all exact_scalar vs" "list_all exact_scalar ws"
    and "concat (map encode_scalar vs) @ x = concat (map encode_scalar ws) @ y"
  shows "vs = ws \<and> x = y"
  using assms
proof (induction vs ws rule: list_induct2)
  case (Cons v vs w ws)
  then have "encode_scalar v @ (concat (map encode_scalar vs) @ x) =
      encode_scalar w @ (concat (map encode_scalar ws) @ y)"
    by simp
  from encode_scalar_append_eq [OF _ _ this] Cons show ?case by simp
qed simp

lemma encode_array_append_eq:
  assumes "list_all exact_scalar vs" "list_all exact_scalar ws"
    and "encode_array vs @ x = encode_array ws @ y"
  shows "vs = ws \<and> x = y"
proof -
  from assms(3) have "array_header (length vs) @ (concat (map encode_scalar vs) @ x) =
      array_header (length ws) @ (concat (map encode_scalar ws) @ y)" by (simp add: encode_array_def)
  from array_header_append_eq [OF this] have eqs: "length vs = length ws"
    "concat (map encode_scalar vs) @ x = concat (map encode_scalar ws) @ y" by simp_all
  from encode_scalars_append_eq [OF eqs(1) assms(1,2) eqs(2)] show ?thesis .
qed

lemma canonical_member_append_eq:
  assumes "list_all exact_scalar (owner_key m)" "list_all exact_scalar (owner_key n)"
    and "canonical_member m @ x = canonical_member n @ y"
  shows "m = n \<and> x = y"
proof -
  from assms(3) have "encode_str (resource_kind m) @ (encode_array (owner_key m) @ x) =
      encode_str (resource_kind n) @ (encode_array (owner_key n) @ y)"
    by (simp add: canonical_member_def)
  from encode_str_append_eq [OF this] have kind: "resource_kind m = resource_kind n"
    and rest: "encode_array (owner_key m) @ x = encode_array (owner_key n) @ y" by simp_all
  from encode_array_append_eq [OF assms(1,2) rest] kind show ?thesis by simp
qed

lemma canonical_members_append_eq:
  assumes "length ms = length ns" "list_all (\<lambda>m. list_all exact_scalar (owner_key m)) ms"
    and "list_all (\<lambda>m. list_all exact_scalar (owner_key m)) ns"
    and "concat (map canonical_member ms) = concat (map canonical_member ns)"
  shows "ms = ns"
  using assms
proof (induction ms ns rule: list_induct2)
  case (Cons m ms n ns)
  then have "canonical_member m @ concat (map canonical_member ms) =
      canonical_member n @ concat (map canonical_member ns)" by simp
  from canonical_member_append_eq [OF _ _ this] Cons show ?case by simp
qed simp

text \<open>Owner keys of the closed shapes contain strings and nulls only.\<close>

lemma shape_exact:
  assumes "shape ps key" "\<forall>p \<in> set ps. \<forall>v. p v \<longrightarrow> exact_scalar v"
  shows "list_all exact_scalar key"
  using assms unfolding shape_def by (induction ps key rule: list_all2_induct) auto

lemma shape_preds_exact:
  "nonempty_str v \<longrightarrow> exact_scalar v" "optional_str v \<longrightarrow> exact_scalar v"
  "is_hex n v \<longrightarrow> exact_scalar v" "exact_scalar (VStr s)"
  by (auto simp: nonempty_str_def optional_str_def is_hex_def str_such_iff exact_scalar_def)

lemma raw_key_exact: "raw_key_shape key \<Longrightarrow> list_all exact_scalar key"
  unfolding raw_key_shape_def
  by (elim disjE; erule shape_exact) (simp_all add: shape_preds_exact)

lemma trace_key_exact: "trace_key_shape kind key \<Longrightarrow> list_all exact_scalar key"
  unfolding trace_key_shape_def
  by (simp only: split: if_split_asm; (erule shape_exact)?; simp add: shape_preds_exact)

lemma factual_key_exact: "factual_key_shape kind key \<Longrightarrow> list_all exact_scalar key"
  unfolding factual_key_shape_def Let_def
  by (simp only: split: if_split_asm; (erule shape_exact)?; simp add: shape_preds_exact)

lemma valid_key_exact: "owner_key_valid c kind key \<Longrightarrow> list_all exact_scalar key"
  by (cases c) (simp_all add: owner_key_valid_def raw_key_exact trace_key_exact factual_key_exact)

lemma batch_members_valid:
  assumes "create_expiry_batch c policy cutoff ttl members = Inr b"
  shows "eb_members b = sort_key canonical_member members"
    and "\<forall>m \<in> set (eb_members b). owner_key_valid c (resource_kind m) (owner_key m) \<and>
           resource_kind m \<in> set (kinds_of c)"
    and "length (eb_members b) \<le> 1000" and "c \<noteq> ACCEPTED_PROVENANCE"
    and "adjacent_distinct (map canonical_member (eb_members b))"
    and "hex_text 64 (eb_identity b)" "eb_class b = c" "eb_policy b = policy" "eb_cutoff b = cutoff"
    "eb_ttl_seconds b = ttl"
    "eb_identity b = sha256_hex (canonical_batch_bytes c policy (iso_utc cutoff) ttl (eb_members b))"
  using assms by (auto simp: create_expiry_batch_def Let_def validate_expiry_owner_def)

end
