(* ===== verification/Json_Round_Trip.thy ===== *)
theory Json_Round_Trip
  imports Manifest
begin

text \<open>
  Reading back what the program prints.  For every value without floats the canonical text
  parses to the value itself, with dictionaries in key order and tuples as lists; the stored
  JSON text of an effect or identity key parses to the key.
\<close>

section \<open>Strings\<close>

lemma hex_value_digit:
  assumes "n < 16"
  shows "hex_value (hex_digit n) = Some n"
proof (cases "n < 10")
  case True
  then show ?thesis by (simp add: hex_value_def hex_digit_def is_digit_def ord_of_def)
next
  case False
  with assms show ?thesis by (simp add: hex_value_def hex_digit_def is_digit_def ord_of_def)
qed

lemma control_unit:
  assumes "ord_of c < 32"
  shows "code_unit (CHR ''0'' # CHR ''0'' # hex_digit (ord_of c div 16) # hex_digit (ord_of c mod 16) # r)
           = Some (ord_of c, r)"
proof -
  have "hex_value CHR ''0'' = Some 0" by (simp add: hex_value_def is_digit_def ord_of_def)
  moreover have "ord_of c div 16 < 16" using assms by simp
  ultimately show ?thesis by (simp add: code_unit_def hex4_def hex_value_digit)
qed

lemma scan_escaped_byte:
  "scan_string (escape_byte c @ r) = bind_result (scan_string r) (\<lambda>(t, z). Inr (c # t, z))"
proof -
  consider "c \<in> set [CHR 0x22, CHR 0x5C, CHR 0x0A, CHR 0x0D, CHR 0x09, CHR 0x0C, CHR 0x08]"
    | (control) "c \<notin> set [CHR 0x22, CHR 0x5C, CHR 0x0A, CHR 0x0D, CHR 0x09, CHR 0x0C, CHR 0x08]" "ord_of c < 32"
    | (plain) "c \<noteq> CHR 0x22" "c \<noteq> CHR 0x5C" "\<not> ord_of c < 32" "escape_byte c = [c]"
    by (cases "c \<in> set [CHR 0x22, CHR 0x5C, CHR 0x0A, CHR 0x0D, CHR 0x09, CHR 0x0C, CHR 0x08]";
        cases "ord_of c < 32") (auto simp: escape_byte_def)
  then show ?thesis
  proof cases
    case 1
    then show ?thesis by (auto simp: escape_byte_def simple_escape_def)
  next
    case control
    then have "escape_byte c = [CHR 0x5C, CHR ''u'', CHR ''0'', CHR ''0'',
        hex_digit (ord_of c div 16), hex_digit (ord_of c mod 16)]"
      by (simp add: escape_byte_def)
    moreover have "utf8 (ord_of c) = [c]" "\<not> high_surrogate (ord_of c)"
      using control(2) by (simp_all add: utf8_def high_surrogate_def ord_of_def)
    ultimately show ?thesis using control(2) by (simp add: control_unit)
  next
    case plain
    then show ?thesis by simp
  qed
qed

lemma scan_json_string: "scan_string (concat (map escape_byte s) @ CHR 0x22 # r) = Inr (s, r)"
  by (induction s) (simp_all add: scan_escaped_byte)

section \<open>Numbers\<close>

text \<open>What may follow a number without becoming a part of it.\<close>

definition ends_number :: "string \<Rightarrow> bool" where
  "ends_number r \<longleftrightarrow> r = [] \<or> hd r \<in> set [CHR '','', CHR '']'', CHR ''}'', CHR 0x0A]"

lemma ends_number_digit: "ends_number r \<Longrightarrow> takeWhile is_digit r = [] \<and> dropWhile is_digit r = r"
  by (cases r) (auto simp: ends_number_def is_digit_def ord_of_def)

lemma ends_number_frac: "ends_number r \<Longrightarrow> scan_frac r = None \<and> scan_exp r = None"
  by (auto simp: ends_number_def scan_frac_def scan_exp_def split: list.splits)

lemma span_nat_str: "ends_number r \<Longrightarrow> span_digits (nat_str n @ r) = (nat_str n, r)"
  using ends_number_digit [of r] nat_str_digits [of n]
  by (simp add: span_digits_def list_all_iff takeWhile_append2 dropWhile_append2)

lemma nat_str_Cons: "\<exists>c t. nat_str n = c # t \<and> is_digit c \<and> (c = CHR ''0'' \<longrightarrow> n = 0)"
proof -
  obtain c t where ct: "nat_str n = c # t" by (cases "nat_str n") auto
  moreover have "is_digit c" using nat_str_digits [of n] ct by simp
  moreover have "c = CHR ''0'' \<longrightarrow> n = 0" using nat_str_no_leading_zero [of n] ct by fastforce
  ultimately show ?thesis by blast
qed

lemma nat_str_0: "nat_str 0 = ''0''"
proof -
  have "ord_of (digit_char 0) = ord_of CHR ''0''" by (simp add: ord_of_def digit_char_def)
  then have "digit_char 0 = CHR ''0''" by (simp only: ord_of_inject)
  then show ?thesis by (subst nat_str.simps) simp
qed

lemma scan_int_nat_str: "ends_number r \<Longrightarrow> scan_int (nat_str n @ r) = Some (nat_str n, r)"
  using nat_str_Cons [of n] span_nat_str [of r n]
  by (cases "n = 0") (auto simp: scan_int_def nat_str_0)

lemma scan_int_str:
  assumes "ends_number r" "length (nat_str (nat \<bar>i\<bar>)) \<le> 4300"
  shows "scan_number (int_str i @ r) = Inr (VInt i, r)"
proof (cases "i < 0")
  case True
  with assms scan_int_nat_str [OF assms(1), of "nat (- i)"] ends_number_frac [OF assms(1)]
  show ?thesis by (simp add: scan_number_def int_str_def starts_with_def Let_def)
next
  case False
  obtain c t where ct: "nat_str (nat i) = c # t" "is_digit c" using nat_str_Cons [of "nat i"] by blast
  then have "c \<noteq> CHR ''-''" by auto
  with False ct(1) have "\<not> starts_with (nat_str (nat i) @ r) ''-''" by (simp add: starts_with_def)
  with False assms scan_int_nat_str [OF assms(1), of "nat i"] ends_number_frac [OF assms(1)]
  show ?thesis by (simp add: scan_number_def int_str_def Let_def)
qed

section \<open>Values\<close>

fun float_free :: "pyval \<Rightarrow> bool" where
  "float_free (VFloat f) = False"
| "float_free (VList vs) = list_all float_free vs"
| "float_free (VTuple vs) = list_all float_free vs"
| "float_free (VDict d) = (distinct (map fst d) \<and> list_all (\<lambda>kv. float_free (snd kv)) d)"
| "float_free v = True"

text \<open>The value a canonical text denotes: keys in order, tuples as lists.\<close>

fun normal :: "pyval \<Rightarrow> pyval" where
  "normal (VList vs) = VList (map normal vs)"
| "normal (VTuple vs) = VList (map normal vs)"
| "normal (VDict d) = VDict (map (\<lambda>kv. (fst kv, normal (snd kv))) (sort_key fst d))"
| "normal v = v"

definition keeps_distinct :: "pairs_hook \<Rightarrow> bool" where
  "keeps_distinct h \<longleftrightarrow> (\<forall>ps. distinct (map fst ps) \<longrightarrow> h ps = Inr (VDict ps))"

lemma reject_duplicates_keeps: "keeps_distinct reject_duplicates"
proof -
  have "distinct (map fst (acc @ ps)) \<Longrightarrow> reject_duplicates_from acc ps = Inr (VDict (acc @ ps))" for acc ps
    by (induction acc ps rule: reject_duplicates_from.induct) (auto simp: has_key_iff keys_def)
  from this [of "[]"] show ?thesis by (simp add: keeps_distinct_def reject_duplicates_def)
qed

text \<open>How a text begins decides how it is read.\<close>

definition starts_value :: "string \<Rightarrow> bool" where
  "starts_value t \<longleftrightarrow> t \<noteq> [] \<and> \<not> is_space (hd t) \<and> hd t \<noteq> CHR '']'' \<and> hd t \<noteq> CHR ''}''"

lemma int_str_starts: "starts_value (int_str i)"
proof -
  have "starts_value (nat_str n)" for n
    using nat_str_Cons [of n] by (auto simp: starts_value_def is_space_def is_digit_def ord_of_def)
  then show ?thesis by (simp add: int_str_def) (simp add: starts_value_def is_space_def)
qed

lemma canonical_text_starts:
  assumes "canonical_text v = Inr t" "float_free v"
  shows "starts_value t"
proof (cases v)
  case (VInt i)
  with assms(1) have "t = int_str i" by (simp add: int_text_def split: if_splits)
  with int_str_starts show ?thesis by simp
qed (use assms in \<open>auto simp: starts_value_def is_space_def json_string_def bind_result_Inr_iff
    split: if_splits\<close>)

lemma starts_value_skip: "starts_value t \<Longrightarrow> skip_ws (t @ r) = t @ r"
  by (cases t) (auto simp: starts_value_def skip_ws_def)

lemma starts_value_opens:
  "starts_value t \<Longrightarrow> \<not> starts_with (t @ r) '']'' \<and> \<not> starts_with (t @ r) ''}''"
  by (cases t) (auto simp: starts_value_def starts_with_def)

lemma scan_atom_int:
  assumes "ends_number r" "int_text i = Inr t"
  shows "scan_atom (t @ r) = Inr (VInt i, r)"
    and "hd t \<noteq> CHR 0x22 \<and> hd t \<noteq> CHR ''{'' \<and> hd t \<noteq> CHR ''[''"
proof -
  from assms(2) have t: "t = int_str i" and len: "length (nat_str (nat \<bar>i\<bar>)) \<le> 4300"
    by (auto simp: int_text_def split: if_splits)
  obtain c u where cu: "nat_str (nat \<bar>i\<bar>) = c # u" "is_digit c" using nat_str_Cons by blast
  have letters: "c \<noteq> CHR ''n''" "c \<noteq> CHR ''t''" "c \<noteq> CHR ''f''" "c \<noteq> CHR ''N''" "c \<noteq> CHR ''I''"
    "c \<noteq> CHR 0x22" "c \<noteq> CHR ''{''" "c \<noteq> CHR ''[''" "CHR ''-'' \<noteq> c"
    using cu(2) by (auto simp: is_digit_def ord_of_def)
  have head: "int_str i = c # u \<or> int_str i = CHR ''-'' # c # u"
    using cu(1) by (auto simp: int_str_def)
  then have "scan_atom (int_str i @ r) = scan_number (int_str i @ r)"
  proof
    assume "int_str i = c # u"
    with letters show ?thesis by (simp add: scan_atom_def starts_with_def)
  next
    assume "int_str i = CHR ''-'' # c # u"
    with letters show ?thesis by (simp add: scan_atom_def starts_with_def)
  qed
  with scan_int_str [OF assms(1) len] t show "scan_atom (t @ r) = Inr (VInt i, r)" by simp
  from head letters t show "hd t \<noteq> CHR 0x22 \<and> hd t \<noteq> CHR ''{'' \<and> hd t \<noteq> CHR ''[''" by auto
qed

abbreviation member_text :: "string \<times> string \<Rightarrow> string" where
  "member_text kt \<equiv> json_string (fst kt) @ '':'' @ snd kt"

definition reads_back :: "pairs_hook \<Rightarrow> string \<Rightarrow> pyval \<Rightarrow> bool" where
  "reads_back h t v \<longleftrightarrow> (\<forall>n r. 2 * length t \<le> n \<longrightarrow> ends_number r \<longrightarrow>
     parse_value h n (t @ r) = Some (Inr (v, r)))"

lemma starts_with_Cons1: "starts_with (c # s) [d] \<longleftrightarrow> c = d"
  by (auto simp: starts_with_def)

lemma elements_read_back:
  assumes "ts \<noteq> []" "list_all2 (reads_back h) ts ws" "list_all starts_value ts"
    and "2 * length (join ts) + 1 \<le> n"
  shows "parse_elements h n acc (join ts @ CHR '']'' # r) = Some (Inr (VList (acc @ ws), r))"
  using assms
proof (induction ts arbitrary: ws n acc)
  case (Cons t ts)
  from Cons.prems(2) obtain w ws' where ws: "ws = w # ws'" and w: "reads_back h t w"
    and ws': "list_all2 (reads_back h) ts ws'" by (cases ws) auto
  from Cons.prems(4) obtain m where m: "n = Suc m" by (cases n) auto
  show ?case
  proof (cases "ts = []")
    case True
    with ws' have "ws' = []" by simp
    moreover have "parse_value h m (t @ CHR '']'' # r) = Some (Inr (w, CHR '']'' # r))"
      using w Cons.prems(4) m True by (simp add: reads_back_def ends_number_def)
    ultimately show ?thesis using True ws m
      by (simp add: skip_ws_def is_space_def starts_with_Cons1 Let_def)
  next
    case False
    then obtain u us where ts: "ts = u # us" by (cases ts) auto
    let ?rest = "join ts @ CHR '']'' # r"
    have j: "join (t # ts) = t @ '','' @ join ts" using ts by simp
    have "parse_value h m (t @ CHR '','' # ?rest) = Some (Inr (w, CHR '','' # ?rest))"
      using w Cons.prems(4) m j by (simp add: reads_back_def ends_number_def)
    moreover have "starts_value (join ts)"
      using Cons.prems(3) ts by (cases us) (auto simp: starts_value_def)
    then have "skip_ws ?rest = ?rest" by (rule starts_value_skip)
    moreover have "parse_elements h m (acc @ [w]) ?rest = Some (Inr (VList ((acc @ [w]) @ ws'), r))"
      using Cons.prems(3,4) m j False by (intro Cons.IH ws') auto
    ultimately show ?thesis using ws m j
      by (simp add: skip_ws_def is_space_def starts_with_Cons1 Let_def)
  qed
qed simp

lemma members_read_back:
  assumes "kts \<noteq> []" "list_all2 (\<lambda>kt kw. fst kt = fst kw \<and> reads_back h (snd kt) (snd kw)) kts kws"
    and "list_all (\<lambda>kt. starts_value (snd kt)) kts" "keeps_distinct h"
    and "distinct (map fst (acc @ kws))" "2 * length (join (map member_text kts)) + 1 \<le> n"
  shows "parse_members h n acc (join (map member_text kts) @ CHR ''}'' # r) =
           Some (Inr (VDict (acc @ kws), r))"
  using assms
proof (induction kts arbitrary: kws n acc)
  case (Cons kt kts)
  obtain k t where kt: "kt = (k, t)" by force
  from Cons.prems(2) kt obtain w kws' where kws: "kws = (k, w) # kws'" and w: "reads_back h t w"
    and kws': "list_all2 (\<lambda>kt kw. fst kt = fst kw \<and> reads_back h (snd kt) (snd kw)) kts kws'"
    by (cases kws) auto
  from Cons.prems(6) obtain m where m: "n = Suc m" by (cases n) auto
  have t: "starts_value t" using Cons.prems(3) kt by simp
  show ?case
  proof (cases "kts = []")
    case True
    with kws' have "kws' = []" by simp
    moreover have "parse_value h m (t @ CHR ''}'' # r) = Some (Inr (w, CHR ''}'' # r))"
      using w Cons.prems(6) m True kt by (simp add: reads_back_def ends_number_def)
    moreover have "h (acc @ [(k, w)]) = Inr (VDict (acc @ [(k, w)]))"
      using Cons.prems(4,5) kws \<open>kws' = []\<close> by (simp add: keeps_distinct_def)
    ultimately show ?thesis using True kws m kt t starts_value_skip [OF t]
      by (simp add: json_string_def scan_json_string skip_ws_def [of "CHR '':'' # _"]
          skip_ws_def [of "CHR ''}'' # _"] is_space_def starts_with_Cons1 Let_def)
  next
    case False
    then obtain u us where kts: "kts = u # us" by (cases kts) auto
    let ?rest = "join (map member_text kts) @ CHR ''}'' # r"
    have j: "join (map member_text (kt # kts)) = member_text kt @ '','' @ join (map member_text kts)"
      using kts by simp
    have "parse_value h m (t @ CHR '','' # ?rest) = Some (Inr (w, CHR '','' # ?rest))"
      using w Cons.prems(6) m j kt by (simp add: reads_back_def ends_number_def)
    moreover have "starts_value (join (map member_text kts))"
      using kts by (cases us) (auto simp: starts_value_def json_string_def is_space_def)
    then have "skip_ws ?rest = ?rest" by (rule starts_value_skip)
    moreover have "parse_members h m (acc @ [(k, w)]) ?rest =
        Some (Inr (VDict ((acc @ [(k, w)]) @ kws'), r))"
      using Cons.prems m j False kws by (intro Cons.IH kws') auto
    ultimately show ?thesis using kws m j kt starts_value_skip [OF t]
      by (simp add: json_string_def scan_json_string skip_ws_def [of "CHR '':'' # _"]
          skip_ws_def [of "CHR '','' # _"] is_space_def starts_with_Cons1 Let_def)
  qed
qed simp

lemma map_results_all2:
  "map_results f xs = Inr ys \<Longrightarrow> (\<And>x y. x \<in> set xs \<Longrightarrow> f x = Inr y \<Longrightarrow> P (g x) y) \<Longrightarrow>
     list_all2 P (map g xs) ys"
  by (induction xs arbitrary: ys) (auto simp: bind_result_Inr_iff)

lemma texts_read_back:
  assumes "map_results canonical_text vs = Inr ts" "list_all float_free vs"
    and "\<And>v t. v \<in> set vs \<Longrightarrow> canonical_text v = Inr t \<Longrightarrow> reads_back h t (normal v)"
  shows "list_all2 (reads_back h) ts (map normal vs)" "list_all starts_value ts"
proof -
  show "list_all2 (reads_back h) ts (map normal vs)"
    using assms(1,3) by (induction vs arbitrary: ts) (auto simp: bind_result_Inr_iff)
  show "list_all starts_value ts"
    using assms(1,2) canonical_text_starts
    by (induction vs arbitrary: ts) (auto simp: bind_result_Inr_iff)
qed

lemma list_text_read_back:
  assumes "list_all2 (reads_back h) ts ws" "list_all starts_value ts"
  shows "reads_back h (''['' @ join ts @ '']'') (VList ws)"
  unfolding reads_back_def
proof (intro allI impI)
  fix n r
  assume n: "2 * length (''['' @ join ts @ '']'') \<le> n" and r: "ends_number r"
  from n obtain m where m: "n = Suc m" by (cases n) auto
  show "parse_value h n ((''['' @ join ts @ '']'') @ r) = Some (Inr (VList ws, r))"
  proof (cases "ts = []")
    case True
    with assms(1) m show ?thesis
      by (simp add: skip_ws_def is_space_def starts_with_Cons1 Let_def)
  next
    case False
    then have "starts_value (join ts)"
      using assms(2) by (cases ts; cases "tl ts") (auto simp: starts_value_def)
    then have "skip_ws (join ts @ CHR '']'' # r) = join ts @ CHR '']'' # r"
      "\<not> starts_with (join ts @ CHR '']'' # r) '']''"
      using starts_value_skip starts_value_opens by blast+
    with elements_read_back [OF False assms, of m "[]" r] n m show ?thesis by (simp add: Let_def)
  qed
qed

lemma dict_text_read_back:
  assumes "list_all2 (\<lambda>kt kw. fst kt = fst kw \<and> reads_back h (snd kt) (snd kw)) kts kws"
    and "list_all (\<lambda>kt. starts_value (snd kt)) kts" "keeps_distinct h" "distinct (map fst kws)"
  shows "reads_back h (''{'' @ join (map member_text kts) @ ''}'') (VDict kws)"
  unfolding reads_back_def
proof (intro allI impI)
  fix n r
  let ?j = "join (map member_text kts)"
  assume n: "2 * length (''{'' @ ?j @ ''}'') \<le> n" and r: "ends_number r"
  from n obtain m where m: "n = Suc m" by (cases n) auto
  show "parse_value h n ((''{'' @ ?j @ ''}'') @ r) = Some (Inr (VDict kws, r))"
  proof (cases "kts = []")
    case True
    with assms(1,3) m show ?thesis
      by (simp add: skip_ws_def is_space_def starts_with_Cons1 keeps_distinct_def Let_def)
  next
    case False
    then have "starts_value ?j"
      by (cases kts; cases "tl kts") (auto simp: starts_value_def json_string_def is_space_def)
    then have "skip_ws (?j @ CHR ''}'' # r) = ?j @ CHR ''}'' # r"
      "\<not> starts_with (?j @ CHR ''}'' # r) ''}''"
      using starts_value_skip starts_value_opens by blast+
    with members_read_back [OF False assms(1-3), of "[]" m r] assms(4) n m show ?thesis
      by (simp add: Let_def)
  qed
qed

lemma member_results:
  "map_results (\<lambda>kv. bind_result (canonical_text (snd kv)) (\<lambda>t. Inr (json_string (fst kv) @ '':'' @ t))) d
     = Inr ms \<Longrightarrow>
   \<exists>kts. ms = map member_text kts \<and>
     list_all2 (\<lambda>kt kv. fst kt = fst kv \<and> canonical_text (snd kv) = Inr (snd kt)) kts d"
proof (induction d arbitrary: ms)
  case (Cons kv d)
  then obtain t ms' where t: "canonical_text (snd kv) = Inr t"
    and ms: "ms = (json_string (fst kv) @ '':'' @ t) # ms'"
    and ms': "map_results (\<lambda>kv. bind_result (canonical_text (snd kv)) (\<lambda>t. Inr (json_string (fst kv) @ '':'' @ t))) d = Inr ms'"
    by (auto simp: bind_result_Inr_iff)
  from Cons.IH [OF ms'] obtain kts where "ms' = map member_text kts"
    "list_all2 (\<lambda>kt kv. fst kt = fst kv \<and> canonical_text (snd kv) = Inr (snd kt)) kts d" by blast
  with t ms show ?case by (intro exI [of _ "(fst kv, t) # kts"]) simp
qed simp

lemma reads_backI:
  assumes "t \<noteq> []" "\<And>m r. ends_number r \<Longrightarrow> parse_value h (Suc m) (t @ r) = Some (Inr (v, r))"
  shows "reads_back h t v"
  unfolding reads_back_def
proof (intro allI impI)
  fix n r
  assume "2 * length t \<le> n" "ends_number r"
  with assms(1) obtain m where "n = Suc m" by (cases n) auto
  with assms(2) \<open>ends_number r\<close> show "parse_value h n (t @ r) = Some (Inr (v, r))" by simp
qed

lemma scalar_reads_back:
  "reads_back h ''null'' VNone" "reads_back h ''true'' (VBool True)"
  "reads_back h ''false'' (VBool False)" "reads_back h (json_string s) (VStr s)"
  "int_text i = Inr t \<Longrightarrow> reads_back h t (VInt i)"
proof -
  show "reads_back h ''null'' VNone" "reads_back h ''true'' (VBool True)"
    "reads_back h ''false'' (VBool False)"
    by (rule reads_backI; simp add: scan_atom_def starts_with_def)+
  show "reads_back h (json_string s) (VStr s)"
    by (rule reads_backI) (simp_all add: json_string_def scan_json_string)
  assume t: "int_text i = Inr t"
  then have "t = int_str i" by (simp add: int_text_def split: if_splits)
  then have "t \<noteq> []" using int_str_starts [of i] by (simp add: starts_value_def)
  then obtain c u where cu: "t = c # u" by (cases t) auto
  show "reads_back h t (VInt i)"
  proof (rule reads_backI)
    fix m r
    assume "ends_number r"
    with scan_atom_int [OF this t] cu show "parse_value h (Suc m) (t @ r) = Some (Inr (VInt i, r))"
      by simp
  qed (simp add: cu)
qed

lemma canonical_text_reads_back:
  assumes "keeps_distinct h" "float_free v" "canonical_text v = Inr t"
  shows "reads_back h t (normal v)"
  using assms(2,3)
proof (induction v arbitrary: t rule: canonical_text.induct)
  case (6 vs)
  then obtain ts where ts: "map_results canonical_text vs = Inr ts" "t = ''['' @ join ts @ '']''"
    by (auto simp: bind_result_Inr_iff)
  have "list_all float_free vs" using "6.prems"(1) by simp
  from texts_read_back [OF ts(1) this, of h] "6.IH" this list_text_read_back ts(2) show ?case
    by (simp add: list_all_iff)
next
  case (7 vs)
  then obtain ts where ts: "map_results canonical_text vs = Inr ts" "t = ''['' @ join ts @ '']''"
    by (auto simp: bind_result_Inr_iff)
  have "list_all float_free vs" using "7.prems"(1) by simp
  from texts_read_back [OF ts(1) this, of h] "7.IH" this list_text_read_back ts(2) show ?case
    by (simp add: list_all_iff)
next
  case (8 d)
  let ?s = "sort_key fst d"
  from "8.prems"(2) obtain ms where ms: "map_results (\<lambda>kv. bind_result (canonical_text (snd kv))
      (\<lambda>t. Inr (json_string (fst kv) @ '':'' @ t))) ?s = Inr ms" and t: "t = ''{'' @ join ms @ ''}''"
    by (auto simp: bind_result_Inr_iff)
  from member_results [OF ms] obtain kts where kts: "ms = map member_text kts"
    "list_all2 (\<lambda>kt kv. fst kt = fst kv \<and> canonical_text (snd kv) = Inr (snd kt)) kts ?s" by blast
  have free: "float_free (snd kv)" if "kv \<in> set ?s" for kv
    using "8.prems"(1) that by (auto simp: list_all_iff)
  have "list_all2 (\<lambda>kt kv. fst kt = fst kv \<and> reads_back h (snd kt) (normal (snd kv)) \<and>
      starts_value (snd kt)) kts ?s"
    using kts(2) by (rule list.rel_mono_strong)
      (use "8.IH" free canonical_text_starts in auto)
  then have "list_all2 (\<lambda>kt kw. fst kt = fst kw \<and> reads_back h (snd kt) (snd kw)) kts
      (map (\<lambda>kv. (fst kv, normal (snd kv))) ?s)" "list_all (\<lambda>kt. starts_value (snd kt)) kts"
    by (auto simp: list_all2_conv_all_nth list_all_length)
  moreover have "distinct (map fst ?s)"
    using "8.prems"(1) by (simp add: distinct_map inj_on_def)
  ultimately show ?case
    using dict_text_read_back [OF _ _ assms(1)] t kts(1) by (simp add: o_def)
qed (auto simp: scalar_reads_back)

text \<open>The whole document: what \<open>json.loads\<close> makes of a canonical text.\<close>

lemma json_loads_canonical_text:
  assumes "keeps_distinct h" "float_free v" "canonical_text v = Inr t"
  shows "json_loads h t = Inr (normal v)"
proof -
  have "ends_number []" by (simp add: ends_number_def)
  moreover have "2 * length t \<le> 2 * length t + 2" by simp
  ultimately have "parse_value h (2 * length t + 2) (t @ []) = Some (Inr (normal v, []))"
    using canonical_text_reads_back [OF assms] unfolding reads_back_def by blast
  moreover have "skip_ws t = t"
    using starts_value_skip [OF canonical_text_starts [OF assms(3,2)], of "[]"] by simp
  ultimately show ?thesis by (simp add: json_loads_def json_loads_fuel_def skip_ws_def [of "[]"])
qed

text \<open>Hence two values with the same canonical text are the same up to the order of keys.\<close>

lemma canonical_text_inject:
  assumes "float_free v" "float_free w" "canonical_text v = Inr t" "canonical_text w = Inr t"
  shows "normal v = normal w"
  using json_loads_canonical_text [OF reject_duplicates_keeps assms(1,3)]
    json_loads_canonical_text [OF reject_duplicates_keeps assms(2,4)] by simp

section \<open>Keys of the store\<close>

lemma canonical_key_text:
  "list_all key_scalar k \<Longrightarrow> canonical_text (VTuple k) = Inr (key_json k)"
proof -
  assume k: "list_all key_scalar k"
  then have "map_results canonical_text k = Inr (map json_dumps k)"
    by (induction k) (auto simp: key_scalar_def)
  then show ?thesis by (simp add: key_json_def)
qed

lemma key_scalar_plain: "list_all key_scalar k \<Longrightarrow> float_free (VTuple k) \<and> map normal k = k"
  by (induction k) (auto simp: key_scalar_def)

lemma json_loads_key_json:
  assumes "keeps_distinct h" "list_all key_scalar k"
  shows "json_loads h (key_json k) = Inr (VList k)"
  using json_loads_canonical_text [OF assms(1) _ canonical_key_text [OF assms(2)]]
    key_scalar_plain [OF assms(2)] by simp

end
