(* ===== verification/Retention.thy ===== *)
theory Retention
  imports Storage Read_Model Json_Round_Trip
begin

text \<open>
  Retention maintenance on PostgreSQL (\<open>retention/postgresql.py\<close>): planning and applying the
  expiry of raw records and projections, planning and applying the physical deletion of
  terminal Deliveries, with the hand-over of a Task's declaration to another Delivery that still
  refers to the Task.  Each \<open>apply\<close> is one transaction; an exception leaves the database as it was.
  \<open>COLLATE "C"\<close> is the order of the bytes.
\<close>

section \<open>Kinds\<close>

definition TRACE_KINDS :: "string list" where
  "TRACE_KINDS = [''trace_node'', ''trace_parent_edge'', ''trace_link'']"

definition FACTUAL_KINDS :: "string list" where
  "FACTUAL_KINDS = [''factual_contribution'', ''finding_assertion'', ''finding_target'',
     ''finding_status'', ''finding_fix'', ''finding_recheck'', ''role_lineage'',
     ''delivery_root_binding'', ''model_attribution'']"

definition PUBLIC_KINDS :: "(string \<times> string) list" where
  "PUBLIC_KINDS =
     [(''trace_node'', ''NODE''), (''trace_parent_edge'', ''PARENT_EDGE''), (''trace_link'', ''LINK''),
      (''factual_contribution'', ''EVENT_CONTRIBUTION''), (''finding_assertion'', ''FINDING_ASSERTION''),
      (''finding_target'', ''FINDING_TARGET''), (''finding_status'', ''FINDING_STATUS''),
      (''finding_fix'', ''FINDING_FIX''), (''finding_recheck'', ''FINDING_RECHECK''),
      (''role_lineage'', ''ROLE_LINEAGE''), (''delivery_root_binding'', ''DELIVERY_ROOT_BINDING''),
      (''model_attribution'', ''MODEL_ATTRIBUTION'')]"

definition public_kind :: "string \<Rightarrow> string" where
  "public_kind k = (case map_of PUBLIC_KINDS k of None \<Rightarrow> [] | Some p \<Rightarrow> p)"

definition INTERNAL_KINDS :: "(string \<times> string) list" where
  "INTERNAL_KINDS = map (\<lambda>(i, p). (p, i)) PUBLIC_KINDS"

definition class_kinds :: "resource_class \<Rightarrow> string list" where
  "class_kinds c = (if c = TRACE_DETAIL then TRACE_KINDS else FACTUAL_KINDS)"

definition COMPATIBILITY_DIMENSIONS :: "(string \<times> (string \<times> string) list) list" where
  "COMPATIBILITY_DIMENSIONS =
     [(''usage'', [(''C42'', ''agentops.usage.kind''), (''C43'', ''agentops.usage.unit''),
        (''C44'', ''agentops.usage.source''), (''C45'', ''agentops.usage.source.id'')]),
      (''implementation.summary'', [(''I05'', ''agentops.coverage.dimension''),
        (''I08'', ''agentops.coverage.scope''), (''I09'', ''agentops.coverage.tool.id''),
        (''I10'', ''agentops.coverage.format'')]),
      (''test.summary'', [(''C28'', ''agentops.artifact.id''), (''C29'', ''agentops.artifact.digest'')]),
      (''review.summary'', [(''C13'', ''agentops.review.lens''), (''C14'', ''agentops.review.scope'')])]"

section \<open>Compatibility of an expired projection\<close>

definition kpair :: "string \<Rightarrow> pyval \<Rightarrow> pyval" where
  "kpair k v = VList [VStr k, v]"

definition present_pairs :: "pydict \<Rightarrow> (string \<times> string) list \<Rightarrow> pyval list" where
  "present_pairs d names = map (\<lambda>(f, n). kpair f (dget d n)) (filter (\<lambda>(f, n). has_key d n) names)"

definition projection_compatibility ::
  "string \<Rightarrow> pyval list \<Rightarrow> pydict \<Rightarrow> pyval \<Rightarrow> pyval list result" where
  "projection_compatibility kind key payload family =
     (let contribution = (kind = ''factual_contribution''); a = the_dict (dget payload ''attributes'');
          context = dget payload ''_otel_context'' in
      check_then (first_error
        [require (contribution \<longrightarrow> 1 \<le> length key) Index_Error,
         require (kind = ''model_attribution'' \<longrightarrow> 4 \<le> length key) Index_Error,
         require (kind = ''delivery_root_binding'' \<longrightarrow> has_key payload ''delivery_id'')
           (Key_Error ''delivery_id'')])
      (Inr
        ([kpair ''family_schema'' family,
          kpair ''event_name'' (if contribution then key ! 0 else VNone),
          kpair ''completeness'' (if contribution then dget a ''agentops.summary.state'' else VNone)] @
         (if contribution then
            (case map_of COMPATIBILITY_DIMENSIONS (the_str (key ! 0)) of
               None \<Rightarrow> [] | Some names \<Rightarrow> present_pairs a names)
          else if kind = ''finding_assertion'' then
            present_pairs payload
              [(''C13'', ''agentops.review.lens''), (''C14'', ''agentops.review.scope'')]
          else if kind = ''model_attribution'' then
            [kpair ''gen_ai.provider.name'' (key ! 0), kpair ''C57'' (key ! 1),
             kpair ''C30'' (key ! 2), kpair ''C06'' (key ! 3)]
          else []) @
         (if kind = ''delivery_root_binding'' then [kpair ''delivery_id'' (dget payload ''delivery_id'')]
          else []) @
         (if is_dict context \<and> str_such (\<lambda>_. True) (dget (the_dict context) ''trace_id'')
          then [kpair ''trace_id'' (dget (the_dict context) ''trace_id'')] else []))))"

section \<open>Planning expiry\<close>

definition has_marker :: "db \<Rightarrow> string \<Rightarrow> string \<Rightarrow> string \<Rightarrow> bool" where
  "has_marker db c kind key \<longleftrightarrow> row_with em_id (c, kind, key) (markers db) \<noteq> None"

definition raw_due :: "db \<Rightarrow> instant \<Rightarrow> accepted_row list" where
  "raw_due db cutoff = filter (\<lambda>ar. ar_at ar \<le> cutoff \<and>
       \<not> has_marker db ''RAW_DEBUG'' ''RAW_DEBUG'' (snd (ar_identity ar)) \<and>
       list_ex (\<lambda>pe. pe_source pe = ar_identity ar) (effects db)) (accepted db)"

definition effects_due :: "db \<Rightarrow> resource_class \<Rightarrow> instant \<Rightarrow> effect_row list" where
  "effects_due db c cutoff = filter (\<lambda>pe. pe_kind pe \<in> set (class_kinds c) \<and> pe_at pe \<le> cutoff \<and>
       \<not> has_marker db (class_value c) (public_kind (pe_kind pe)) (pe_key pe)) (effects db)"

text \<open>The selected rows: a resource kind and the JSON text of the owner key.\<close>

definition due_rows :: "db \<Rightarrow> resource_class \<Rightarrow> instant \<Rightarrow> nat \<Rightarrow> (string \<times> string) list" where
  "due_rows db c cutoff limit =
     (if c = RAW_DEBUG then
        take limit (map (\<lambda>ar. (''RAW_DEBUG'', snd (ar_identity ar)))
          (sort_key (\<lambda>ar. snd (ar_identity ar)) (raw_due db cutoff)))
      else
        take limit (map (\<lambda>pe. (public_kind (pe_kind pe), pe_key pe))
          (sort_key (\<lambda>pe. public_kind (pe_kind pe)) (sort_key pe_key (effects_due db c cutoff)))))"

definition owner_of_row :: "string \<times> string \<Rightarrow> expiry_owner result" where
  "owner_of_row row = bind_result (json_loads dict_hook (snd row)) (\<lambda>v. make_owner (fst row) (the_list v))"

definition plan_expiry ::
  "resource_class \<Rightarrow> string \<Rightarrow> instant \<Rightarrow> int \<Rightarrow> int \<Rightarrow> db \<Rightarrow> expiry_batch result" where
  "plan_expiry c policy cutoff ttl limit db = check_then (first_error
     [require (c \<noteq> ACCEPTED_PROVENANCE) (Value_Error ''accepted provenance cannot expire''),
      require (1 \<le> limit \<and> limit \<le> 1000) (Value_Error ''retention plan limit must be in [1,1000]'')])
     (bind_result (map_results owner_of_row (due_rows db c cutoff (nat limit)))
        (\<lambda>owners. create_expiry_batch c policy cutoff ttl owners))"

section \<open>Applying expiry\<close>

text \<open>Source, recording instant and compatibility of a planned resource, or \<open>None\<close>.\<close>

definition raw_record :: "db \<Rightarrow> string \<Rightarrow> (source \<times> instant \<times> pyval list) option" where
  "raw_record db key =
     map_option (\<lambda>ar. (ar_identity ar, ar_at ar, [])) (row_with (\<lambda>ar. snd (ar_identity ar)) key (accepted db))"

definition projection_record ::
  "db \<Rightarrow> resource_class \<Rightarrow> string \<Rightarrow> string \<Rightarrow> (source \<times> instant \<times> pyval list) option result" where
  "projection_record db c kind key = (case map_of INTERNAL_KINDS kind of
       None \<Rightarrow> Inl (Key_Error kind)
     | Some internal \<Rightarrow>
         if internal \<notin> set (class_kinds c)
         then Inl (Value_Error ''resource kind does not belong to expiry class'')
         else (case row_with pe_id (internal, key) (effects db) of
             None \<Rightarrow> Inr None
           | Some pe \<Rightarrow> (case row_with ar_identity (pe_source pe) (accepted db) of
                 None \<Rightarrow> Inr None
               | Some ar \<Rightarrow>
                   bind_result (json_loads dict_hook (pe_key pe)) (\<lambda>k.
                   bind_result (projection_compatibility internal (the_list k)
                                  (the_dict (pe_payload pe)) (ar_family ar)) (\<lambda>compat.
                   Inr (Some (pe_source pe, pe_at pe, compat)))))))"

definition marker_of ::
  "expiry_batch \<Rightarrow> instant \<Rightarrow> expiry_owner \<Rightarrow> source \<times> instant \<times> pyval list \<Rightarrow> pyval \<Rightarrow> marker_row" where
  "marker_of b now m rec cjson = (case rec of (src, at, _) \<Rightarrow>
     \<lparr>em_class = class_value (eb_class b), em_kind = resource_kind m, em_key = key_json (owner_key m),
      em_source = src, em_recorded_at = at, em_compatibility = cjson, em_policy = eb_policy b,
      em_expires_at = at + seconds (eb_ttl_seconds b), em_expired_at = now,
      em_batch = eb_identity b\<rparr>)"

definition clear_resource :: "expiry_batch \<Rightarrow> expiry_owner \<Rightarrow> source \<Rightarrow> db \<Rightarrow> db" where
  "clear_resource b m src db =
     (if eb_class b = RAW_DEBUG then
        db\<lparr>accepted := map (\<lambda>ar. if ar_identity ar = src then ar\<lparr>ar_logical := VDict []\<rparr> else ar) (accepted db)\<rparr>
      else
        db\<lparr>effects := map (\<lambda>pe. if map_of INTERNAL_KINDS (resource_kind m) = Some (pe_kind pe) \<and>
                                    pe_key pe = key_json (owner_key m)
                                then pe\<lparr>pe_payload := VDict []\<rparr> else pe) (effects db)\<rparr>)"

text \<open>One member; the result says whether it was already expired.\<close>

definition expire_member :: "expiry_batch \<Rightarrow> instant \<Rightarrow> expiry_owner \<Rightarrow> db \<Rightarrow> (bool \<times> db) result" where
  "expire_member b now m db =
     (let key = key_json (owner_key m) in
      if has_marker db (class_value (eb_class b)) (resource_kind m) key then Inr (True, db)
      else bind_result
        (if eb_class b = RAW_DEBUG then Inr (raw_record db key)
         else projection_record db (eb_class b) (resource_kind m) key)
        (\<lambda>found. case found of
           None \<Rightarrow> Inl (Runtime_Error ''planned retention resource disappeared without tombstone'')
         | Some rec \<Rightarrow> bind_result (to_jsonb (VList (snd (snd rec)))) (\<lambda>compat.
             check_then (require (hex_text 64 (eb_identity b)) (Integrity_Error ''retention_expiry_markers''))
             (Inr (False, clear_resource b m (fst rec)
               (db\<lparr>markers := markers db @ [marker_of b now m rec compat]\<rparr>))))))"

fun expire_members ::
  "expiry_batch \<Rightarrow> instant \<Rightarrow> expiry_owner list \<Rightarrow> int \<times> int \<Rightarrow> db \<Rightarrow> ((int \<times> int) \<times> db) result" where
  "expire_members b now [] counts db = Inr (counts, db)"
| "expire_members b now (m # ms) (expired, already) db =
     bind_result (expire_member b now m db) (\<lambda>(was, db').
       expire_members b now ms (if was then (expired, already + 1) else (expired + 1, already)) db')"

text \<open>A transaction: the result and the database it leaves, the old one if it raises.\<close>

definition in_transaction :: "db \<Rightarrow> ('a \<times> db) result \<Rightarrow> 'a result \<times> db" where
  "in_transaction db r = (case r of Inl e \<Rightarrow> (Inl e, db) | Inr (x, db') \<Rightarrow> (Inr x, db'))"

definition apply_expiry :: "expiry_batch \<Rightarrow> instant \<Rightarrow> db \<Rightarrow> count_result result \<times> db" where
  "apply_expiry b now db =
     (if eb_class b = ACCEPTED_PROVENANCE
      then (Inl (Value_Error ''accepted provenance cannot expire''), db)
      else (case in_transaction db (expire_members b now (eb_members b) (0, 0) db) of
          (Inl e, db') \<Rightarrow> (Inl e, db')
        | (Inr (expired, already), db') \<Rightarrow>
            (make_count_result (eb_identity b) (int (length (eb_members b))) expired already, db')))"

section \<open>Deleting Deliveries\<close>

definition plan_delivery_deletion ::
  "string \<Rightarrow> instant \<Rightarrow> int \<Rightarrow> int \<Rightarrow> db \<Rightarrow> deletion_batch result" where
  "plan_delivery_deletion policy cutoff ttl limit db = check_then
     (require (1 \<le> limit \<and> limit \<le> 1000) (Value_Error ''retention plan limit must be in [1,1000]''))
     (create_deletion_batch policy cutoff ttl (take (nat limit) (sort (map ta_delivery
        (filter (\<lambda>t. ta_at t \<le> cutoff \<and> \<not> is_fenced (ta_delivery t) db) (anchors db))))))"

text \<open>\<open>effect_key::jsonb ->> i\<close> and \<open>payload ->> 'task_id'\<close>: the text of a JSON component.\<close>

definition json_text :: "pyval \<Rightarrow> string option" where
  "json_text v = (case v of VNone \<Rightarrow> None | VStr s \<Rightarrow> Some s | _ \<Rightarrow> Some (json_dumps v))"

definition key_part :: "nat \<Rightarrow> effect_row \<Rightarrow> string option" where
  "key_part i pe = (case json_loads dict_hook (pe_key pe) of
       Inr (VList vs) \<Rightarrow> if i < length vs then json_text (vs ! i) else None
     | _ \<Rightarrow> None)"

definition remaining_membership :: "string \<Rightarrow> string \<Rightarrow> db \<Rightarrow> source option" where
  "remaining_membership task delivery db =
     (case sort_key pe_key (filter (\<lambda>pe. pe_kind pe = ''delivery_task_membership'' \<and>
            key_part 0 pe = Some task \<and> (\<exists>d \<in> set_option (key_part 1 pe). d \<noteq> delivery)) (effects db)) of
       [] \<Rightarrow> None | pe # _ \<Rightarrow> Some (pe_source pe))"

definition delivery_members :: "string \<Rightarrow> db \<Rightarrow> source set" where
  "delivery_members d db = dm_identity ` set (filter (\<lambda>m. dm_delivery m = d) (members db))"

definition reassign :: "string \<Rightarrow> source \<Rightarrow> source set \<Rightarrow> effect_row \<Rightarrow> effect_row" where
  "reassign task src gone pe =
     (if pe_kind pe \<in> set [''task_declaration'', ''task_display_name''] \<and>
         pe_key pe = key_json [VStr task] \<and> pe_source pe \<in> gone
      then pe\<lparr>pe_source := src\<rparr> else pe)"

definition preserve_referenced_task :: "string \<Rightarrow> db \<Rightarrow> db" where
  "preserve_referenced_task d db =
     (case row_with pe_id (''delivery_task_guard'', key_json [VStr d]) (effects db) of
        None \<Rightarrow> db
      | Some guard \<Rightarrow>
          (let task = (case json_text (dget (the_dict (pe_payload guard)) ''task_id'') of
                         None \<Rightarrow> ''None'' | Some t \<Rightarrow> t) in
           case remaining_membership task d db of
             None \<Rightarrow> db
           | Some src \<Rightarrow>
               db\<lparr>effects := map (reassign task src (delivery_members d db)) (effects db)\<rparr>))"

text \<open>
  The three deletions.  Deleting an accepted record is restricted while an effect refers to it
  and cascades to its membership and to the anchor it backs.
\<close>

definition delete_rows :: "string \<Rightarrow> db \<Rightarrow> db result" where
  "delete_rows d db =
     (let gone = delivery_members d db;
          effects' = filter (\<lambda>pe. pe_source pe \<notin> gone) (effects db);
          deleted = ar_identity ` set (accepted db) \<inter> gone in
      check_then (require (list_all (\<lambda>pe. pe_source pe \<notin> deleted) effects')
                    (Integrity_Error ''projection_effects''))
        (Inr (db\<lparr>effects := effects',
                 markers := filter (\<lambda>em. em_source em \<notin> gone) (markers db),
                 accepted := filter (\<lambda>ar. ar_identity ar \<notin> gone) (accepted db),
                 members := filter (\<lambda>m. dm_identity m \<notin> deleted) (members db),
                 anchors := filter (\<lambda>t. ta_identity t \<notin> deleted) (anchors db)\<rparr>)))"

definition delete_delivery :: "deletion_batch \<Rightarrow> instant \<Rightarrow> string \<Rightarrow> db \<Rightarrow> (bool \<times> db) result" where
  "delete_delivery b now d db =
     (if is_fenced d db then Inr (True, db)
      else if \<not> list_ex (\<lambda>t. ta_delivery t = d \<and> ta_at t \<le> db_cutoff b) (anchors db)
      then Inl (Runtime_Error ''planned terminal Delivery disappeared before deletion'')
      else bind_result (delete_rows d (preserve_referenced_task d db)) (\<lambda>db'.
        Inr (False, db'\<lparr>fences := fences db' @
          [\<lparr>rf_delivery = d, rf_at = now, rf_policy = db_policy b\<rparr>]\<rparr>)))"

fun delete_deliveries ::
  "deletion_batch \<Rightarrow> instant \<Rightarrow> string list \<Rightarrow> int \<times> int \<Rightarrow> db \<Rightarrow> ((int \<times> int) \<times> db) result" where
  "delete_deliveries b now [] counts db = Inr (counts, db)"
| "delete_deliveries b now (d # ds) (deleted, already) db =
     bind_result (delete_delivery b now d db) (\<lambda>(was, db').
       delete_deliveries b now ds (if was then (deleted, already + 1) else (deleted + 1, already)) db')"

definition apply_delivery_deletion :: "deletion_batch \<Rightarrow> instant \<Rightarrow> db \<Rightarrow> count_result result \<times> db" where
  "apply_delivery_deletion b now db =
     (case in_transaction db (delete_deliveries b now (db_delivery_ids b) (0, 0) db) of
        (Inl e, db') \<Rightarrow> (Inl e, db')
      | (Inr (deleted, already), db') \<Rightarrow>
          (make_count_result (db_identity b) (int (length (db_delivery_ids b))) deleted already, db'))"

section \<open>Expiry keeps the store\<close>

lemma has_marker_iff: "has_marker db c k key \<longleftrightarrow> (c, k, key) \<in> em_id ` set (markers db)"
  by (simp add: has_marker_def row_with_None_iff)

lemma clear_resource_tables [simp]:
  "members (clear_resource b m src db) = members db" "anchors (clear_resource b m src db) = anchors db"
  "fences (clear_resource b m src db) = fences db" "markers (clear_resource b m src db) = markers db"
  "map ar_identity (accepted (clear_resource b m src db)) = map ar_identity (accepted db)"
  "map ar_digest (accepted (clear_resource b m src db)) = map ar_digest (accepted db)"
  "map pe_id (effects (clear_resource b m src db)) = map pe_id (effects db)"
  "map pe_source (effects (clear_resource b m src db)) = map pe_source (effects db)"
  by (auto simp: clear_resource_def pe_id_def o_def)

text \<open>The parts of the store the invariant reads.\<close>

definition skeleton :: "db \<Rightarrow> _" where
  "skeleton db = (map ar_identity (accepted db), map ar_digest (accepted db), map pe_id (effects db),
     map pe_source (effects db), members db, anchors db, fences db)"

lemma skeleton_clear [simp]: "skeleton (clear_resource b m src db) = skeleton db"
  by (simp add: skeleton_def)

lemma skeleton_markers [simp]: "skeleton (db\<lparr>markers := ms\<rparr>) = skeleton db"
  by (simp add: skeleton_def)

lemma skeleton_sets:
  assumes "skeleton db' = skeleton db"
  shows "ar_identity ` set (accepted db') = ar_identity ` set (accepted db)"
    "pe_source ` set (effects db') = pe_source ` set (effects db)"
    "pe_id ` set (effects db') = pe_id ` set (effects db)"
  using assms by (auto simp: skeleton_def simp flip: set_map)

lemma store_ok_map:
  "store_ok db \<longleftrightarrow> distinct (map ar_identity (accepted db)) \<and> distinct (map pe_id (effects db)) \<and>
     distinct (map dm_identity (members db)) \<and> distinct (map ta_delivery (anchors db)) \<and>
     distinct (map rf_delivery (fences db)) \<and> distinct (map em_id (markers db)) \<and>
     set (map pe_source (effects db)) \<subseteq> set (map ar_identity (accepted db)) \<and>
     set (map dm_identity (members db)) \<subseteq> set (map ar_identity (accepted db)) \<and>
     (\<lambda>t. (ta_delivery t, ta_identity t)) ` set (anchors db)
       \<subseteq> (\<lambda>m. (dm_delivery m, dm_identity m)) ` set (members db) \<and>
     dm_delivery ` set (members db) \<inter> rf_delivery ` set (fences db) = {}"
  by (simp only: store_defs key_unique_def set_map conj_assoc)

lemma skeleton_store_ok:
  assumes "store_ok db" "skeleton db' = skeleton db" "key_unique em_id (markers db')"
  shows "store_ok db'"
proof -
  from assms(2) have eqs: "map ar_identity (accepted db') = map ar_identity (accepted db)"
    "map pe_id (effects db') = map pe_id (effects db)"
    "map pe_source (effects db') = map pe_source (effects db)"
    "members db' = members db" "anchors db' = anchors db" "fences db' = fences db"
    by (simp_all only: skeleton_def prod.inject)
  from assms(1,3) show ?thesis unfolding store_ok_map eqs key_unique_def by blast
qed

lemma row_with_map_fields:
  assumes "map f rs' = map f rs" "map g rs' = map g rs"
  shows "map_option g (row_with f k rs') = map_option g (row_with f k rs)"
proof -
  from assms(1) have "length rs' = length rs" by (rule map_eq_imp_length_eq)
  then show ?thesis using assms
    by (induction rs' rs rule: list_induct2) (simp_all add: row_with_Cons)
qed

lemma skeleton_digests:
  assumes "skeleton db' = skeleton db"
  shows "accepted_digest db' = accepted_digest db"
proof
  fix src
  from assms have "map ar_identity (accepted db') = map ar_identity (accepted db)"
    "map ar_digest (accepted db') = map ar_digest (accepted db)"
    by (simp_all only: skeleton_def prod.inject)
  from row_with_map_fields [OF this] show "accepted_digest db' src = accepted_digest db src"
    by (simp only: accepted_digest_def)
qed

lemma expire_member_ok:
  assumes "store_ok db" "expire_member b now m db = Inr (was, db')"
  shows "store_ok db'" "skeleton db' = skeleton db"
    and "has_marker db' (class_value (eb_class b)) (resource_kind m) (key_json (owner_key m))"
    and "was \<longleftrightarrow> has_marker db (class_value (eb_class b)) (resource_kind m) (key_json (owner_key m))"
    and "was \<Longrightarrow> db' = db" "\<And>c k key. has_marker db c k key \<Longrightarrow> has_marker db' c k key"
proof -
  let ?id = "(class_value (eb_class b), resource_kind m, key_json (owner_key m))"
  have all: "store_ok db' \<and> skeleton db' = skeleton db \<and> ?id \<in> em_id ` set (markers db') \<and>
    (was \<longleftrightarrow> ?id \<in> em_id ` set (markers db)) \<and> (was \<longrightarrow> db' = db) \<and>
    set (markers db) \<subseteq> set (markers db')"
  proof (cases "has_marker db (class_value (eb_class b)) (resource_kind m) (key_json (owner_key m))")
    case True
    with assms show ?thesis by (auto simp: expire_member_def has_marker_iff Let_def)
  next
    case False
    with assms(2) obtain rec cj where was: "\<not> was" and db': "db' = clear_resource b m (fst rec)
        (db\<lparr>markers := markers db @ [marker_of b now m rec cj]\<rparr>)"
      by (auto simp: expire_member_def Let_def bind_result_Inr_iff split: option.splits)
    have id: "em_id (marker_of b now m rec cj) = ?id"
      by (simp add: marker_of_def em_id_def split: prod.splits)
    have sk: "skeleton db' = skeleton db" by (simp add: db')
    have "key_unique em_id (markers db @ [marker_of b now m rec cj])"
      using assms(1) False id by (intro key_unique_snoc) (auto simp: store_defs has_marker_iff)
    then have "key_unique em_id (markers db')" by (simp add: db')
    from skeleton_store_ok [OF assms(1) sk this] sk was id False show ?thesis
      by (auto simp: db' has_marker_iff)
  qed
  then show "store_ok db'" "skeleton db' = skeleton db"
    "has_marker db' (class_value (eb_class b)) (resource_kind m) (key_json (owner_key m))"
    "was \<longleftrightarrow> has_marker db (class_value (eb_class b)) (resource_kind m) (key_json (owner_key m))"
    "was \<Longrightarrow> db' = db" "\<And>c k key. has_marker db c k key \<Longrightarrow> has_marker db' c k key"
    by (auto simp: has_marker_iff)
qed

lemma expire_members_ok:
  assumes "store_ok db" "expire_members b now ms (e, a) db = Inr ((e', a'), db')"
  shows "store_ok db' \<and> skeleton db' = skeleton db \<and> e \<le> e' \<and> a \<le> a' \<and>
    e' + a' = e + a + int (length ms) \<and>
    (\<forall>m \<in> set ms. has_marker db' (class_value (eb_class b)) (resource_kind m) (key_json (owner_key m))) \<and>
    (\<forall>c k key. has_marker db c k key \<longrightarrow> has_marker db' c k key)"
  using assms
proof (induction ms arbitrary: e a db)
  case (Cons m ms)
  from Cons.prems(2) obtain was db1 where one: "expire_member b now m db = Inr (was, db1)"
    and rest: "expire_members b now ms (if was then (e, a + 1) else (e + 1, a)) db1 = Inr ((e', a'), db')"
    by (auto simp: bind_result_Inr_iff)
  note step = expire_member_ok [OF Cons.prems(1) one]
  have rest': "store_ok db' \<and> skeleton db' = skeleton db1 \<and> e \<le> e' \<and> a \<le> a' \<and>
    e' + a' = e + a + 1 + int (length ms) \<and>
    (\<forall>m \<in> set ms. has_marker db' (class_value (eb_class b)) (resource_kind m) (key_json (owner_key m))) \<and>
    (\<forall>c k key. has_marker db1 c k key \<longrightarrow> has_marker db' c k key)"
  proof (cases was)
    case True
    with Cons.IH [OF step(1)] rest show ?thesis by fastforce
  next
    case False
    with Cons.IH [OF step(1)] rest show ?thesis by fastforce
  qed
  with step(2,3,6) show ?case by simp
qed simp

text \<open>Applying a batch a second time finds every member expired and changes nothing.\<close>

lemma expire_members_again:
  assumes "\<forall>m \<in> set ms. has_marker db (class_value (eb_class b)) (resource_kind m) (key_json (owner_key m))"
  shows "expire_members b now ms (e, a) db = Inr ((e, a + int (length ms)), db)"
  using assms
proof (induction ms arbitrary: a)
  case (Cons m ms)
  then show ?case by (simp add: expire_member_def Let_def)
qed simp

section \<open>Deletion keeps the store\<close>

lemma preserve_cases:
  obtains "preserve_referenced_task d db = db"
  | t src where "remaining_membership t d db = Some src"
      "preserve_referenced_task d db =
         db\<lparr>effects := map (reassign t src (delivery_members d db)) (effects db)\<rparr>"
proof (cases "row_with pe_id (''delivery_task_guard'', key_json [VStr d]) (effects db)")
  case None
  then show ?thesis using that(1) by (simp add: preserve_referenced_task_def)
next
  case (Some guard)
  define task where "task = (case json_text (dget (the_dict (pe_payload guard)) ''task_id'') of
                         None \<Rightarrow> ''None'' | Some t \<Rightarrow> t)"
  show ?thesis
  proof (cases "remaining_membership task d db")
    case None
    with Some show ?thesis using that(1) by (simp add: preserve_referenced_task_def task_def)
  next
    case src: (Some src)
    with Some show ?thesis using that(2) [OF src]
      by (simp add: preserve_referenced_task_def task_def)
  qed
qed

lemma reassign_simps [simp]:
  "pe_id (reassign t src g pe) = pe_id pe" "pe_payload (reassign t src g pe) = pe_payload pe"
  "pe_kind pe = ''delivery_task_membership'' \<Longrightarrow> reassign t src g pe = pe"
  "pe_kind (reassign t src g pe) = pe_kind pe"
  by (simp_all add: reassign_def pe_id_def)

lemma preserve_tables [simp]:
  "accepted (preserve_referenced_task d db) = accepted db"
  "members (preserve_referenced_task d db) = members db"
  "anchors (preserve_referenced_task d db) = anchors db"
  "fences (preserve_referenced_task d db) = fences db"
  "markers (preserve_referenced_task d db) = markers db"
  by (cases rule: preserve_cases [of d db]; simp)+

lemma preserve_ids [simp]: "map pe_id (effects (preserve_referenced_task d db)) = map pe_id (effects db)"
  by (cases rule: preserve_cases [of d db]) (simp_all add: o_def)

lemma remaining_membership_source:
  "remaining_membership t d db = Some src \<Longrightarrow>
     \<exists>pe \<in> set (effects db). pe_source pe = src \<and> pe_kind pe = ''delivery_task_membership'' \<and>
       key_part 0 pe = Some t \<and> (\<exists>d'. key_part 1 pe = Some d' \<and> d' \<noteq> d)"
proof -
  let ?f = "filter (\<lambda>pe. pe_kind pe = ''delivery_task_membership'' \<and>
            key_part 0 pe = Some t \<and> (\<exists>d' \<in> set_option (key_part 1 pe). d' \<noteq> d)) (effects db)"
  assume "remaining_membership t d db = Some src"
  then obtain pe rest where "sort_key pe_key ?f = pe # rest" "pe_source pe = src"
    unfolding remaining_membership_def by (cases "sort_key pe_key ?f") simp_all
  moreover from this have "pe \<in> set (sort_key pe_key ?f)" by simp
  then have "pe \<in> set ?f" by (simp only: set_sort)
  ultimately show ?thesis by force
qed

lemma preserve_same_kind:
  assumes "pe \<in> set (effects (preserve_referenced_task d db))" "pe_kind pe = ''delivery_task_membership''"
  shows "pe \<in> set (effects db)"
  using assms by (cases rule: preserve_cases [of d db]) auto

lemma preserve_sources:
  "pe_source ` set (effects (preserve_referenced_task d db)) \<subseteq> pe_source ` set (effects db)"
proof (cases rule: preserve_cases [of d db])
  case (2 t src)
  have "pe_source (reassign t src g pe) \<in> {pe_source pe, src}" for g pe by (simp add: reassign_def)
  moreover have "src \<in> pe_source ` set (effects db)"
    using remaining_membership_source [OF 2(1)] by blast
  ultimately show ?thesis unfolding 2(2) by fastforce
qed simp

lemma preserve_store_ok: "store_ok db \<Longrightarrow> store_ok (preserve_referenced_task d db)"
  unfolding store_ok_map set_map using preserve_sources [of d db] by auto

lemma delete_rows_Inr:
  "delete_rows d db = Inr (db\<lparr>effects := filter (\<lambda>pe. pe_source pe \<notin> delivery_members d db) (effects db),
     markers := filter (\<lambda>em. em_source em \<notin> delivery_members d db) (markers db),
     accepted := filter (\<lambda>ar. ar_identity ar \<notin> delivery_members d db) (accepted db),
     members := filter (\<lambda>m. dm_identity m \<notin> ar_identity ` set (accepted db) \<inter> delivery_members d db) (members db),
     anchors := filter (\<lambda>t. ta_identity t \<notin> ar_identity ` set (accepted db) \<inter> delivery_members d db) (anchors db)\<rparr>)"
  by (auto simp: delete_rows_def Let_def list_all_iff check_then_def require_def)

text \<open>Under the invariant the members of a Delivery are exactly its membership rows.\<close>

lemma member_delivery_unique:
  assumes "store_ok db" "m \<in> set (members db)" "dm_identity m \<in> delivery_members d db"
  shows "dm_delivery m = d"
proof -
  from assms(3) obtain m' where m': "m' \<in> set (members db)" "dm_delivery m' = d" "dm_identity m' = dm_identity m"
    by (auto simp: delivery_members_def)
  from assms(1) have "inj_on dm_identity (set (members db))"
    by (simp add: store_defs key_unique_def distinct_map)
  with m' assms(2) have "m' = m" by (auto dest: inj_onD)
  with m' show ?thesis by simp
qed

lemma delivery_members_accepted:
  "store_ok db \<Longrightarrow> delivery_members d db \<subseteq> ar_identity ` set (accepted db)"
  by (auto simp: store_defs delivery_members_def)

lemma members_after:
  assumes "store_ok db"
  shows "filter (\<lambda>m. dm_identity m \<notin> ar_identity ` set (accepted db) \<inter> delivery_members d db) (members db)
           = filter (\<lambda>m. dm_delivery m \<noteq> d) (members db)"
proof (rule filter_cong)
  fix m
  assume m: "m \<in> set (members db)"
  have "dm_identity m \<in> delivery_members d db" if "dm_delivery m = d"
    using that m by (auto simp: delivery_members_def)
  then show "(dm_identity m \<notin> ar_identity ` set (accepted db) \<inter> delivery_members d db) \<longleftrightarrow> dm_delivery m \<noteq> d"
    using member_delivery_unique [OF assms m, of d] delivery_members_accepted [OF assms, of d] by blast
qed simp

lemma anchors_after:
  assumes "store_ok db"
  shows "filter (\<lambda>t. ta_identity t \<notin> ar_identity ` set (accepted db) \<inter> delivery_members d db) (anchors db)
           = filter (\<lambda>t. ta_delivery t \<noteq> d) (anchors db)"
proof (rule filter_cong)
  fix t
  assume "t \<in> set (anchors db)"
  with assms obtain m where m: "m \<in> set (members db)" "dm_delivery m = ta_delivery t" "dm_identity m = ta_identity t"
    by (auto simp: store_defs)
  have "ta_identity t \<in> delivery_members d db" if "ta_delivery t = d"
    using that m by (force simp: delivery_members_def)
  then have "ta_identity t \<in> ar_identity ` set (accepted db) \<inter> delivery_members d db \<longleftrightarrow> ta_delivery t = d"
    using member_delivery_unique [OF assms m(1), of d] delivery_members_accepted [OF assms, of d] m
    by auto
  then show "(ta_identity t \<notin> ar_identity ` set (accepted db) \<inter> delivery_members d db) \<longleftrightarrow> ta_delivery t \<noteq> d"
    by simp
qed simp

lemma image_filter_subset:
  assumes "f ` set xs \<subseteq> g ` set ys"
  shows "f ` set (filter (\<lambda>x. f x \<notin> G) xs) \<subseteq> g ` set (filter (\<lambda>y. g y \<notin> G) ys)"
proof (rule image_subsetI)
  fix x
  assume x: "x \<in> set (filter (\<lambda>x. f x \<notin> G) xs)"
  with assms obtain y where "y \<in> set ys" "f x = g y" by auto
  with x show "f x \<in> g ` set (filter (\<lambda>y. g y \<notin> G) ys)" by auto
qed

lemma delete_rows_ok:
  assumes "store_ok db" "\<not> is_fenced d db" "delete_rows d db = Inr db'"
  shows "store_ok (db'\<lparr>fences := fences db' @ [\<lparr>rf_delivery = d, rf_at = now, rf_policy = p\<rparr>]\<rparr>)"
proof -
  let ?gone = "delivery_members d db"
  have acc: "accepted db' = filter (\<lambda>ar. ar_identity ar \<notin> ?gone) (accepted db)"
    and eff: "effects db' = filter (\<lambda>pe. pe_source pe \<notin> ?gone) (effects db)"
    and mem: "members db' = filter (\<lambda>m. dm_delivery m \<noteq> d) (members db)"
    and anc: "anchors db' = filter (\<lambda>t. ta_delivery t \<noteq> d) (anchors db)"
    and fen: "fences db' = fences db"
    and mar: "markers db' = filter (\<lambda>em. em_source em \<notin> ?gone) (markers db)"
    using assms(3) members_after [OF assms(1), of d] anchors_after [OF assms(1), of d]
    by (auto simp: delete_rows_Inr)
  note ok = assms(1) [unfolded store_defs]
  have keys: "key_unique ar_identity (accepted db')" "key_unique pe_id (effects db')"
    "key_unique dm_identity (members db')" "key_unique ta_delivery (anchors db')"
    "key_unique em_id (markers db')"
    unfolding acc eff mem anc mar using ok by auto
  have fence: "key_unique rf_delivery (fences db @ [\<lparr>rf_delivery = d, rf_at = now, rf_policy = p\<rparr>])"
    using ok assms(2) by (intro key_unique_snoc) (auto simp: is_fenced_iff)
  have src: "pe_source ` set (effects db') \<subseteq> ar_identity ` set (accepted db')"
    unfolding acc eff using ok by (intro image_filter_subset) blast
  have not_gone: "dm_identity m \<notin> ?gone" if "m \<in> set (members db)" "dm_delivery m \<noteq> d" for m
    using member_delivery_unique [OF assms(1) that(1)] that(2) by blast
  have "dm_identity ` set (filter (\<lambda>m. dm_identity m \<notin> ?gone) (members db))
      \<subseteq> ar_identity ` set (accepted db')"
    unfolding acc using ok by (intro image_filter_subset) blast
  with not_gone have mids: "dm_identity ` set (members db') \<subseteq> ar_identity ` set (accepted db')"
    unfolding mem by auto
  have anch: "(\<lambda>t. (ta_delivery t, ta_identity t)) ` set (anchors db')
      \<subseteq> (\<lambda>m. (dm_delivery m, dm_identity m)) ` set (members db')"
  proof (rule image_subsetI)
    fix t
    assume "t \<in> set (anchors db')"
    then have t: "t \<in> set (anchors db)" "ta_delivery t \<noteq> d" by (auto simp: anc)
    with ok obtain m where "m \<in> set (members db)" "dm_delivery m = ta_delivery t" "dm_identity m = ta_identity t"
      by auto
    with t(2) show "(ta_delivery t, ta_identity t) \<in> (\<lambda>m. (dm_delivery m, dm_identity m)) ` set (members db')"
      by (force simp: mem)
  qed
  have "dm_delivery ` set (members db') \<inter> insert d (rf_delivery ` set (fences db)) = {}"
    using ok by (auto simp: mem)
  with keys fence src mids anch show ?thesis by (auto simp: store_defs fen)
qed

lemma delete_delivery_ok:
  assumes "store_ok db" "delete_delivery b now d db = Inr (was, db')"
  shows "store_ok db'" "is_fenced d db'" "was \<longleftrightarrow> is_fenced d db" "was \<Longrightarrow> db' = db"
    and "\<not> was \<Longrightarrow> accepted db' = filter (\<lambda>ar. ar_identity ar \<notin> delivery_members d db) (accepted db) \<and>
          members db' = filter (\<lambda>m. dm_delivery m \<noteq> d) (members db) \<and>
          markers db' = filter (\<lambda>em. em_source em \<notin> delivery_members d db) (markers db) \<and>
          fences db' = fences db @ [\<lparr>rf_delivery = d, rf_at = now, rf_policy = db_policy b\<rparr>] \<and>
          effects db' = filter (\<lambda>pe. pe_source pe \<notin> delivery_members d db)
            (effects (preserve_referenced_task d db))"
proof -
  let ?db1 = "preserve_referenced_task d db"
  have ok1: "store_ok ?db1" using assms(1) by (rule preserve_store_ok)
  have gone: "delivery_members d ?db1 = delivery_members d db" by (simp add: delivery_members_def)
  have all: "store_ok db' \<and> is_fenced d db' \<and> (was \<longleftrightarrow> is_fenced d db) \<and> (was \<longrightarrow> db' = db) \<and>
    (\<not> was \<longrightarrow> accepted db' = filter (\<lambda>ar. ar_identity ar \<notin> delivery_members d db) (accepted db) \<and>
          members db' = filter (\<lambda>m. dm_delivery m \<noteq> d) (members db) \<and>
          markers db' = filter (\<lambda>em. em_source em \<notin> delivery_members d db) (markers db) \<and>
          fences db' = fences db @ [\<lparr>rf_delivery = d, rf_at = now, rf_policy = db_policy b\<rparr>] \<and>
          effects db' = filter (\<lambda>pe. pe_source pe \<notin> delivery_members d db) (effects ?db1))"
  proof (cases "is_fenced d db")
    case True
    with assms show ?thesis by (simp add: delete_delivery_def)
  next
    case False
    with assms(2) obtain db2 where d2: "delete_rows d ?db1 = Inr db2" and was: "\<not> was"
      and db': "db' = db2\<lparr>fences := fences db2 @ [\<lparr>rf_delivery = d, rf_at = now, rf_policy = db_policy b\<rparr>]\<rparr>"
      by (auto simp: delete_delivery_def bind_result_Inr_iff split: if_splits)
    have nf: "\<not> is_fenced d ?db1" using False by (simp add: is_fenced_def)
    from delete_rows_ok [OF ok1 nf d2] have "store_ok db'" unfolding db' .
    moreover have "is_fenced d db'" by (simp add: db' is_fenced_iff)
    moreover from d2 members_after [OF ok1, of d] gone have
      "accepted db2 = filter (\<lambda>ar. ar_identity ar \<notin> delivery_members d db) (accepted db) \<and>
       members db2 = filter (\<lambda>m. dm_delivery m \<noteq> d) (members db) \<and>
       markers db2 = filter (\<lambda>em. em_source em \<notin> delivery_members d db) (markers db) \<and>
       fences db2 = fences db \<and>
       effects db2 = filter (\<lambda>pe. pe_source pe \<notin> delivery_members d db) (effects ?db1)"
      by (auto simp: delete_rows_Inr)
    ultimately show ?thesis using False was unfolding db' by simp
  qed
  then show "store_ok db'" "is_fenced d db'" "was \<longleftrightarrow> is_fenced d db" "was \<Longrightarrow> db' = db"
    "\<not> was \<Longrightarrow> accepted db' = filter (\<lambda>ar. ar_identity ar \<notin> delivery_members d db) (accepted db) \<and>
          members db' = filter (\<lambda>m. dm_delivery m \<noteq> d) (members db) \<and>
          markers db' = filter (\<lambda>em. em_source em \<notin> delivery_members d db) (markers db) \<and>
          fences db' = fences db @ [\<lparr>rf_delivery = d, rf_at = now, rf_policy = db_policy b\<rparr>] \<and>
          effects db' = filter (\<lambda>pe. pe_source pe \<notin> delivery_members d db)
            (effects (preserve_referenced_task d db))"
    by auto
qed

text \<open>What deleting a list of Deliveries does to the records of the store.\<close>

definition deletes :: "string list \<Rightarrow> db \<Rightarrow> db \<Rightarrow> bool" where
  "deletes ds db db' \<longleftrightarrow>
     store_ok db' \<and> (\<forall>d. is_fenced d db' \<longleftrightarrow> is_fenced d db \<or> d \<in> set ds) \<and>
     set (accepted db') = {ar \<in> set (accepted db). \<forall>d \<in> set ds. ar_identity ar \<notin> delivery_members d db} \<and>
     set (members db') = {m \<in> set (members db). dm_delivery m \<notin> set ds} \<and>
     set (markers db') = {em \<in> set (markers db). \<forall>d \<in> set ds. em_source em \<notin> delivery_members d db}"

lemma fenced_no_members: "store_ok db \<Longrightarrow> is_fenced d db \<Longrightarrow> delivery_members d db = {}"
  by (auto simp: store_defs delivery_members_def is_fenced_iff)

lemma deletes_refl: "store_ok db \<Longrightarrow> deletes [] db db"
  by (simp add: deletes_def)

lemma delete_delivery_deletes:
  assumes "store_ok db" "delete_delivery b now d db = Inr (was, db')"
  shows "deletes [d] db db'"
proof (cases was)
  case True
  with delete_delivery_ok(3,4) [OF assms] have "is_fenced d db" "db' = db" by auto
  with assms(1) fenced_no_members [OF assms(1), of d] show ?thesis
    by (auto simp: deletes_def delivery_members_def)
next
  case False
  note facts = delete_delivery_ok(5) [OF assms False]
  have fenced: "is_fenced e db' \<longleftrightarrow> is_fenced e db \<or> e = d" for e
    using facts by (auto simp: is_fenced_iff)
  show ?thesis
    unfolding deletes_def using delete_delivery_ok(1) [OF assms] fenced facts by auto
qed

lemma delivery_members_other:
  assumes "deletes [d] db db1" "e \<noteq> d"
  shows "delivery_members e db1 = delivery_members e db"
  using assms by (auto simp: deletes_def delivery_members_def)

lemma deletes_Cons:
  assumes "store_ok db" "deletes [d] db db1" "deletes ds db1 db'"
  shows "deletes (d # ds) db db'"
proof -
  have ok1: "store_ok db1" using assms(2) by (simp add: deletes_def)
  have "is_fenced d db1" using assms(2) by (simp add: deletes_def)
  note none = fenced_no_members [OF ok1 this]
  have same: "e \<noteq> d \<Longrightarrow> delivery_members e db1 = delivery_members e db" for e
    by (rule delivery_members_other [OF assms(2)])
  have split: "(\<forall>e \<in> set (d # ds). src \<notin> delivery_members e db) \<longleftrightarrow>
      src \<notin> delivery_members d db \<and> (\<forall>e \<in> set ds. src \<notin> delivery_members e db1)" for src
    using same none by (metis empty_iff list.set_intros(2) set_ConsD list.set_intros(1))
  from assms(2,3) show ?thesis
    unfolding deletes_def split by auto
qed

lemma delete_deliveries_ok:
  assumes "store_ok db" "delete_deliveries b now ds (e, a) db = Inr ((e', a'), db')"
  shows "deletes ds db db' \<and> e \<le> e' \<and> a \<le> a' \<and> e' + a' = e + a + int (length ds)"
  using assms
proof (induction ds arbitrary: e a db)
  case (Cons d ds)
  from Cons.prems(2) obtain was db1 where one: "delete_delivery b now d db = Inr (was, db1)"
    and rest: "delete_deliveries b now ds (if was then (e, a + 1) else (e + 1, a)) db1 = Inr ((e', a'), db')"
    by (auto simp: bind_result_Inr_iff)
  note step = delete_delivery_deletes [OF Cons.prems(1) one]
  then have ok1: "store_ok db1" by (simp add: deletes_def)
  have "deletes ds db1 db' \<and> e \<le> e' \<and> a \<le> a' \<and> e' + a' = e + a + 1 + int (length ds)"
  proof (cases was)
    case True
    with Cons.IH [OF ok1] rest show ?thesis by fastforce
  next
    case False
    with Cons.IH [OF ok1] rest show ?thesis by fastforce
  qed
  with deletes_Cons [OF Cons.prems(1) step] show ?case by simp
qed (simp add: deletes_refl)

section \<open>Task memberships\<close>

lemma dict_hook_keeps: "keeps_distinct dict_hook"
proof -
  have "distinct (map fst (acc @ ps)) \<Longrightarrow> foldl (\<lambda>d (k, v). dset d k v) acc ps = acc @ ps" for acc ps
  proof (induction ps arbitrary: acc)
    case (Cons p ps)
    have "dset acc k v = acc @ [(k, v)]" if "k \<notin> set (map fst acc)" for acc k v
      using that by (induction acc k v rule: dset.induct) auto
    with Cons show ?case by (cases p) simp
  qed simp
  from this [of "[]"] show ?thesis by (simp add: keeps_distinct_def dict_hook_def)
qed

lemma key_part_key_json:
  "list_all key_scalar k \<Longrightarrow> pe_key pe = key_json k \<Longrightarrow> i < length k \<Longrightarrow> key_part i pe = json_text (k ! i)"
  by (simp add: key_part_def json_loads_key_json [OF dict_hook_keeps])

text \<open>
  A row that says a Task has a Delivery was written by a record of that Delivery.
\<close>

definition membership_row_ok :: "db \<Rightarrow> effect_row \<Rightarrow> bool" where
  "membership_row_ok db pe \<longleftrightarrow> pe_kind pe = ''delivery_task_membership'' \<longrightarrow>
     (\<exists>t d. pe_key pe = key_json [VStr t, VStr d] \<and> pe_source pe \<in> delivery_members d db)"

definition memberships_ok :: "db \<Rightarrow> bool" where
  "memberships_ok db \<longleftrightarrow> (\<forall>pe \<in> set (effects db). membership_row_ok db pe)"

lemma membership_row_parts:
  assumes "membership_row_ok db pe" "pe_kind pe = ''delivery_task_membership''"
  shows "\<exists>t d. key_part 0 pe = Some t \<and> key_part 1 pe = Some d \<and> pe_source pe \<in> delivery_members d db"
proof -
  from assms obtain t d where k: "pe_key pe = key_json [VStr t, VStr d]"
    and src: "pe_source pe \<in> delivery_members d db" by (auto simp: membership_row_ok_def)
  have "key_part 0 pe = Some t" "key_part 1 pe = Some d"
    using key_part_key_json [OF _ k, of 0] key_part_key_json [OF _ k, of 1] by (simp_all add: json_text_def)
  with src show ?thesis by blast
qed

lemma members_disjoint:
  assumes "store_ok db" "src \<in> delivery_members d db" "d \<noteq> e"
  shows "src \<notin> delivery_members e db"
proof
  assume "src \<in> delivery_members e db"
  from assms(2) obtain m where m: "m \<in> set (members db)" "dm_delivery m = d" "dm_identity m = src"
    by (auto simp: delivery_members_def)
  from member_delivery_unique [OF assms(1) m(1), of e] m(3) \<open>src \<in> delivery_members e db\<close> m(2) assms(3)
  show False by simp
qed

text \<open>The record to which a shared Task is handed over is not one of the deleted Delivery.\<close>

lemma remaining_membership_other:
  assumes "store_ok db" "memberships_ok db" "remaining_membership t d db = Some src"
  shows "src \<notin> delivery_members d db"
proof -
  from remaining_membership_source [OF assms(3)] obtain pe d' where
    pe: "pe \<in> set (effects db)" "pe_source pe = src" "pe_kind pe = ''delivery_task_membership''"
      "key_part 1 pe = Some d'" "d' \<noteq> d" by blast
  from assms(2) pe(1) have "membership_row_ok db pe" by (simp add: memberships_ok_def)
  from membership_row_parts [OF this pe(3)] pe(4) have "pe_source pe \<in> delivery_members d' db" by auto
  with members_disjoint [OF assms(1) _ pe(5)] pe(2) show ?thesis by blast
qed

lemma remaining_membership_exists:
  assumes "mb \<in> set (effects db)" "pe_id mb = (''delivery_task_membership'', key_json [VStr t, VStr d'])"
    and "d' \<noteq> d"
  shows "\<exists>src. remaining_membership t d db = Some src"
proof -
  let ?f = "filter (\<lambda>pe. pe_kind pe = ''delivery_task_membership'' \<and>
            key_part 0 pe = Some t \<and> (\<exists>e \<in> set_option (key_part 1 pe). e \<noteq> d)) (effects db)"
  from assms(2) have k: "pe_kind mb = ''delivery_task_membership''" "pe_key mb = key_json [VStr t, VStr d']"
    by (auto simp: pe_id_def)
  have "key_part 0 mb = Some t" "key_part 1 mb = Some d'"
    using key_part_key_json [OF _ k(2), of 0] key_part_key_json [OF _ k(2), of 1]
    by (simp_all add: json_text_def)
  with assms(1,3) k(1) have mb: "mb \<in> set ?f" by simp
  have "sort_key pe_key ?f \<noteq> []"
  proof
    assume "sort_key pe_key ?f = []"
    then have "set (sort_key pe_key ?f) = {}" by (simp only: list.set(1))
    with mb show False by (simp only: set_sort empty_iff)
  qed
  then obtain pe rest where "sort_key pe_key ?f = pe # rest" by (cases "sort_key pe_key ?f") blast+
  then show ?thesis unfolding remaining_membership_def by simp
qed

lemma shared_task_kept:
  assumes "store_ok db" "memberships_ok db" "delete_delivery b now d db = Inr (was, db')"
    and guard: "row_with pe_id (''delivery_task_guard'', key_json [VStr d]) (effects db) = Some g"
      "dget (the_dict (pe_payload g)) ''task_id'' = VStr t"
    and other: "mb \<in> set (effects db)"
      "pe_id mb = (''delivery_task_membership'', key_json [VStr t, VStr d'])" "d' \<noteq> d"
    and dec: "dec \<in> set (effects db)" "pe_id dec = (k, key_json [VStr t])"
      "k = ''task_declaration'' \<or> k = ''task_display_name''"
  shows "\<exists>r \<in> set (effects db'). pe_id r = pe_id dec \<and> pe_payload r = pe_payload dec"
proof (cases was)
  case True
  with delete_delivery_ok(4) [OF assms(1,3)] dec(1) show ?thesis by blast
next
  case False
  from remaining_membership_exists [OF other] obtain src where src: "remaining_membership t d db = Some src" ..
  note not_gone = remaining_membership_other [OF assms(1,2) src]
  let ?f = "reassign t src (delivery_members d db)"
  have eff: "effects (preserve_referenced_task d db) = map ?f (effects db)"
    using guard src by (simp add: preserve_referenced_task_def json_text_def)
  have kept: "pe_source (?f dec) \<notin> delivery_members d db"
    using dec(2,3) not_gone by (auto simp: pe_id_def reassign_def)
  have "?f dec \<in> set (effects (preserve_referenced_task d db))" using dec(1) eff by simp
  with kept delete_delivery_ok(5) [OF assms(1,3) False] have "?f dec \<in> set (effects db')" by simp
  then show ?thesis by (intro bexI [of _ "?f dec"]) simp_all
qed

lemma skeleton_memberships:
  assumes "memberships_ok db" "skeleton db' = skeleton db"
  shows "memberships_ok db'"
proof -
  have eqs: "map pe_id (effects db') = map pe_id (effects db)"
    "map pe_source (effects db') = map pe_source (effects db)" "members db' = members db"
    using assms(2) by (simp_all only: skeleton_def prod.inject)
  have len: "length (effects db') = length (effects db)" using eqs(1) by (rule map_eq_imp_length_eq)
  have "membership_row_ok db' (effects db' ! i)" if "i < length (effects db')" for i
  proof -
    have "pe_id (effects db' ! i) = pe_id (effects db ! i)"
      "pe_source (effects db' ! i) = pe_source (effects db ! i)"
      using that len eqs by (metis nth_map)+
    moreover have "membership_row_ok db (effects db ! i)"
      using assms(1) that len by (simp add: memberships_ok_def)
    ultimately show ?thesis
      by (simp add: membership_row_ok_def pe_id_def delivery_members_def eqs(3))
  qed
  then show ?thesis by (auto simp: memberships_ok_def in_set_conv_nth)
qed

lemma delete_delivery_memberships:
  assumes "store_ok db" "memberships_ok db" "delete_delivery b now d db = Inr (was, db')"
  shows "memberships_ok db'"
proof (cases was)
  case True
  with delete_delivery_ok(4) [OF assms(1,3)] assms(2) show ?thesis by simp
next
  case False
  note facts = delete_delivery_ok(5) [OF assms(1,3) False]
  show ?thesis
    unfolding memberships_ok_def
  proof
    fix pe
    assume "pe \<in> set (effects db')"
    with facts have pe: "pe \<in> set (effects (preserve_referenced_task d db))"
      "pe_source pe \<notin> delivery_members d db" by auto
    show "membership_row_ok db' pe"
    proof (cases "pe_kind pe = ''delivery_task_membership''")
      case True
      have "pe \<in> set (effects db)"
        using pe(1) True preserve_same_kind by blast
      with assms(2) True obtain t d' where key: "pe_key pe = key_json [VStr t, VStr d']"
        and src: "pe_source pe \<in> delivery_members d' db"
        by (auto simp: memberships_ok_def membership_row_ok_def)
      have "d' \<noteq> d" using src pe(2) by auto
      with src facts have "pe_source pe \<in> delivery_members d' db'"
        by (auto simp: delivery_members_def)
      with key show ?thesis by (auto simp: membership_row_ok_def)
    qed (simp add: membership_row_ok_def)
  qed
qed

lemma delete_deliveries_memberships:
  assumes "store_ok db" "memberships_ok db" "delete_deliveries b now ds (e, a) db = Inr (c, db')"
  shows "memberships_ok db'"
  using assms
proof (induction ds arbitrary: e a db)
  case (Cons d ds)
  from Cons.prems(3) obtain was db1 where one: "delete_delivery b now d db = Inr (was, db1)"
    and rest: "delete_deliveries b now ds (if was then (e, a + 1) else (e + 1, a)) db1 = Inr (c, db')"
    by (auto simp: bind_result_Inr_iff)
  from delete_delivery_ok(1) [OF Cons.prems(1) one] delete_delivery_memberships [OF Cons.prems(1,2) one]
  have ok: "store_ok db1" "memberships_ok db1" .
  show ?case
  proof (cases was)
    case True
    with rest Cons.IH [OF ok] show ?thesis by simp
  next
    case False
    with rest Cons.IH [OF ok] show ?thesis by simp
  qed
qed simp

end
