(* ===== verification/Query_Params.thy ===== *)
theory Query_Params
  imports Retention
begin

text \<open>
  The parameters of a query (\<open>_normalize\<close>, \<open>_parse_utc\<close>, \<open>_validate_filter_values\<close> of
  \<open>query/service.py\<close>): which names a route allows, which values are refused, and the normalised
  filters.  \<open>int\<close> and \<open>\d\<close> also read the decimal digits beyond ASCII; such texts are not
  modelled.  Timestamps are read as \<open>datetime.fromisoformat\<close> of Python 3.14 reads them.
\<close>

datatype query_route = FACTS | TRACES | TASKS

section \<open>Timestamps\<close>

definition leap_year :: "int \<Rightarrow> bool" where
  "leap_year y \<longleftrightarrow> y mod 4 = 0 \<and> (y mod 100 \<noteq> 0 \<or> y mod 400 = 0)"

definition month_length :: "int \<Rightarrow> int \<Rightarrow> int" where
  "month_length y m =
     (if m = 2 then (if leap_year y then 29 else 28)
      else if m \<in> {4, 6, 9, 11} then 30 else 31)"

text \<open>Days since 1970-01-01 of a date of the proleptic Gregorian calendar.\<close>

definition days_of_civil :: "int \<Rightarrow> int \<Rightarrow> int \<Rightarrow> int" where
  "days_of_civil y0 m d =
     (let y = (if m \<le> 2 then y0 - 1 else y0); era = y div 400; yoe = y mod 400;
          mp = (if m > 2 then m - 3 else m + 9);
          doy = (153 * mp + 2) div 5 + d - 1;
          doe = yoe * 365 + yoe div 4 - yoe div 100 + doy
      in era * 146097 + doe - 719468)"

definition fits_template :: "string \<Rightarrow> string \<Rightarrow> bool" where
  "fits_template = list_all2 (\<lambda>t c. if t = CHR ''d'' then is_digit c else c = t)"

text \<open>The fraction of seconds after the 19 characters of date and time, without the Z.\<close>

definition fraction_of :: "string \<Rightarrow> string option" where
  "fraction_of s =
     (if s = ''Z'' then Some []
      else
        (let f = butlast (tl s) in
         if starts_with s ''.'' \<and> ends_with s ''Z'' \<and> 1 \<le> length f \<and> length f \<le> 6 \<and> list_all is_digit f
         then Some f else None))"

definition utc_shape :: "string \<Rightarrow> bool" where
  "utc_shape s \<longleftrightarrow>
     fits_template ''dddd-dd-ddTdd:dd:dd'' (take 19 s) \<and> fraction_of (drop 19 s) \<noteq> None"

definition number_at :: "nat \<Rightarrow> nat \<Rightarrow> string \<Rightarrow> int" where
  "number_at i n s = int (digits_val (take n (drop i s)))"

definition LAST_DAY :: int where
  "LAST_DAY = days_of_civil 9999 12 31"

text \<open>\<open>fromisoformat\<close>: a day of the calendar, a time of the day or 24:00, years 1 to 9999.\<close>

definition read_instant :: "string \<Rightarrow> instant option" where
  "read_instant s =
     (let y = number_at 0 4 s; m = number_at 5 2 s; d = number_at 8 2 s;
          h = number_at 11 2 s; mi = number_at 14 2 s; sec = number_at 17 2 s;
          f = (case fraction_of (drop 19 s) of None \<Rightarrow> [] | Some f \<Rightarrow> f);
          us = int (digits_val (f @ replicate (6 - length f) (CHR ''0'')));
          day = days_of_civil y m d + h div 24
      in if 1 \<le> y \<and> 1 \<le> m \<and> m \<le> 12 \<and> 1 \<le> d \<and> d \<le> month_length y m \<and> mi \<le> 59 \<and> sec \<le> 59 \<and>
            (h \<le> 23 \<or> h = 24 \<and> mi = 0 \<and> sec = 0 \<and> us = 0) \<and> day \<le> LAST_DAY
         then Some (day * days 1 + ((h mod 24 * 60 + mi) * 60 + sec) * 1000000 + us)
         else None)"

definition bad_filter :: "string \<Rightarrow> py_error" where
  "bad_filter m = Query_Error INVALID_FILTER m"

definition parse_utc :: "string \<Rightarrow> instant result" where
  "parse_utc s =
     (if \<not> utc_shape s then Inl (bad_filter ''recorded bounds must be UTC timestamps'')
      else (case read_instant s of
          None \<Rightarrow> Inl (bad_filter ''recorded bound is malformed'')
        | Some t \<Rightarrow> Inr t))"

definition timestamp :: "instant \<Rightarrow> string" where
  "timestamp t = iso_utc t"

section \<open>\<open>int\<close> of a text\<close>

text \<open>Digits with single underscores between them.\<close>

fun digit_groups :: "string \<Rightarrow> bool" where
  "digit_groups [] = False"
| "digit_groups [c] = is_digit c"
| "digit_groups (c # d # s) =
     (is_digit c \<and> (if d = CHR ''_'' then digit_groups s else digit_groups (d # s)))"

definition py_int :: "string \<Rightarrow> int option" where
  "py_int text =
     (let s = py_strip text;
          signed = starts_with s ''-'' \<or> starts_with s ''+'';
          ds = (if signed then tl s else s);
          n = int (digits_val (filter (\<lambda>c. c \<noteq> CHR ''_'') ds))
      in if digit_groups ds \<and> length (filter (\<lambda>c. c \<noteq> CHR ''_'') ds) \<le> 4300
         then Some (if starts_with s ''-'' then - n else n) else None)"

section \<open>Checking values\<close>

definition QUERY_EVENT_NAMES :: "string list" where
  "QUERY_EVENT_NAMES = [''delivery.summary'', ''implementation.summary'', ''intervention'',
     ''review.finding'', ''review.summary'', ''role.lineage'', ''sampling.decision'',
     ''system_design.summary'', ''test.summary'', ''usage'']"

definition FACT_KINDS :: "(string \<times> string) list" where
  "FACT_KINDS =
     [(''factual_contribution'', ''EVENT_CONTRIBUTION''), (''finding_assertion'', ''FINDING_ASSERTION''),
      (''finding_target'', ''FINDING_TARGET''), (''finding_status'', ''FINDING_STATUS''),
      (''finding_fix'', ''FINDING_FIX''), (''finding_recheck'', ''FINDING_RECHECK''),
      (''role_lineage'', ''ROLE_LINEAGE''), (''delivery_root_binding'', ''DELIVERY_ROOT_BINDING''),
      (''model_attribution'', ''MODEL_ATTRIBUTION'')]"

type_synonym params = "(string \<times> string) list"

text \<open>A check of a value that may be absent, and one that encodes it first.\<close>

definition when_param :: "params \<Rightarrow> string \<Rightarrow> (string \<Rightarrow> py_error option) \<Rightarrow> py_error option" where
  "when_param ps n f = (case map_of ps n of None \<Rightarrow> None | Some v \<Rightarrow> f v)"

definition encoded_within :: "nat \<Rightarrow> string \<Rightarrow> string \<Rightarrow> py_error option" where
  "encoded_within n m v =
     (if has_surrogate v then Some (Value_Error ''surrogates not allowed'')
      else require (length v \<le> n) (bad_filter m))"

definition parsed_bound :: "params \<Rightarrow> string \<Rightarrow> instant option result" where
  "parsed_bound ps n = (case map_of ps n of
       None \<Rightarrow> Inr None
     | Some v \<Rightarrow> bind_result (parse_utc v) (\<lambda>t. Inr (Some t)))"

definition interval_check :: "params \<Rightarrow> py_error option" where
  "interval_check ps = error_of
     (bind_result (parsed_bound ps ''recorded_from'') (\<lambda>lower.
      bind_result (parsed_bound ps ''recorded_to'') (\<lambda>upper.
        (case (lower, upper) of
           (Some l, Some u) \<Rightarrow> check_then
             (require (l \<le> u \<and> u - l \<le> days 366) (bad_filter ''recorded interval is invalid'')) (Inr ())
         | _ \<Rightarrow> Inr ()))))"

definition fact_checks :: "params \<Rightarrow> py_error option list" where
  "fact_checks ps =
     [when_param ps ''kind'' (\<lambda>k. require (k \<in> snd ` set FACT_KINDS) (bad_filter ''unknown fact kind'')),
      when_param ps ''event_name'' (\<lambda>e. require (e \<in> set QUERY_EVENT_NAMES)
        (bad_filter ''unknown EventName'')),
      when_param ps ''event_name'' (\<lambda>_. require
        (map_of ps ''kind'' \<in> {None, Some ''EVENT_CONTRIBUTION''})
        (bad_filter ''EventName is incompatible with kind'')),
      when_param ps ''family_schema'' (encoded_within 128 ''family_schema is too long''),
      when_param ps ''delivery_id'' (encoded_within 256 ''delivery_id is too long''),
      interval_check ps]"

definition validate_filter_values :: "params \<Rightarrow> query_route \<Rightarrow> py_error option" where
  "validate_filter_values ps route = first_error
     ((if route = FACTS then fact_checks ps else []) @
      [when_param ps ''delivery_id'' (encoded_within 256 ''delivery_id is too long''),
       when_param ps ''trace_id'' (\<lambda>t. require (fullmatch TRACE_ID t)
         (bad_filter ''trace_id must be 32 lower-case hex''))] @
      (if route = TASKS then
         [when_param ps ''task_id'' (\<lambda>t. require (py_len t \<le> 128 \<and> fullmatch TASK_ID t)
            (bad_filter ''task_id is invalid'')),
          when_param ps ''as_of'' (\<lambda>t. error_of (parse_utc t))]
       else []))"

section \<open>Normalisation\<close>

definition allowed_names :: "query_route \<Rightarrow> string list" where
  "allowed_names route = [''limit'', ''cursor''] @
     (case route of
        FACTS \<Rightarrow> [''kind'', ''event_name'', ''family_schema'', ''delivery_id'', ''trace_id'',
           ''recorded_from'', ''recorded_to'']
      | TRACES \<Rightarrow> [''delivery_id'', ''trace_id'']
      | TASKS \<Rightarrow> [''task_id'', ''as_of''])"

definition operator_byte :: "char \<Rightarrow> bool" where
  "operator_byte c \<longleftrightarrow> c \<in> {CHR '','', CHR ''*'', CHR ''%'', CHR 0x5C} \<or> ord_of c < 32 \<or> ord_of c = 127"

definition shape_checks :: "params \<Rightarrow> query_route \<Rightarrow> py_error option list" where
  "shape_checks ps route =
     [require (distinct (map fst ps) \<and> list_all (\<lambda>(n, v). n \<noteq> [] \<and> v \<noteq> []) ps)
        (bad_filter ''query parameters must be unique and nonempty''),
      require (list_all (\<lambda>(n, v). n \<in> set (allowed_names route)) ps)
        (bad_filter ''unknown query parameter''),
      require (\<not> list_ex (\<lambda>(n, v). list_ex operator_byte v) ps)
        (bad_filter ''operator-like filter bytes are prohibited'')]"

definition DEFAULT_PAGE_LIMIT :: int where
  "DEFAULT_PAGE_LIMIT = 100"

definition MAX_PAGE_LIMIT :: int where
  "MAX_PAGE_LIMIT = 200"

definition page_limit :: "params \<Rightarrow> int result" where
  "page_limit ps =
     bind_result
       (case map_of ps ''limit'' of
          None \<Rightarrow> Inr DEFAULT_PAGE_LIMIT
        | Some v \<Rightarrow> (case py_int v of
              None \<Rightarrow> Inl (bad_filter ''limit must be an integer'')
            | Some n \<Rightarrow> Inr n))
       (\<lambda>n. check_then (require (1 \<le> n \<and> n \<le> MAX_PAGE_LIMIT)
          (bad_filter ''limit is outside [1,200]'')) (Inr n))"

definition normal_value :: "string \<times> string \<Rightarrow> (string \<times> string) result" where
  "normal_value p =
     (if fst p \<in> {''recorded_from'', ''recorded_to'', ''as_of''}
      then bind_result (parse_utc (snd p)) (\<lambda>t. Inr (fst p, timestamp t)) else Inr p)"

type_synonym normal_query = "params \<times> string option \<times> int"

definition normalize :: "params \<Rightarrow> query_route \<Rightarrow> normal_query result" where
  "normalize ps route =
     check_then (first_error (shape_checks ps route))
     (bind_result (page_limit ps) (\<lambda>limit.
      check_then (validate_filter_values ps route)
     (bind_result (map_results normal_value
        (filter (\<lambda>p. fst p \<notin> {''cursor'', ''limit''}) ps @ [(''limit'', int_str limit)])) (\<lambda>values.
      Inr (sort_key fst values, map_of ps ''cursor'', limit)))))"

section \<open>What a normalised query satisfies\<close>

lemma normal_value_key: "normal_value p = Inr q \<Longrightarrow> fst q = fst p"
  by (auto simp: normal_value_def bind_result_Inr_iff split: if_splits)

lemma normal_values_keys: "map_results normal_value ps = Inr qs \<Longrightarrow> map fst qs = map fst ps"
proof (induction ps arbitrary: qs)
  case (Cons p ps)
  from Cons.prems obtain q rest where "normal_value p = Inr q" "map_results normal_value ps = Inr rest"
    "qs = q # rest" by (auto simp: bind_result_Inr_iff)
  with Cons.IH normal_value_key [of p q] show ?case by simp
qed simp

lemma page_limit_Inr: "page_limit ps = Inr n \<Longrightarrow> 1 \<le> n \<and> n \<le> 200"
  by (auto simp: page_limit_def bind_result_Inr_iff MAX_PAGE_LIMIT_def)

lemma normalize_Inr:
  assumes "normalize ps route = Inr (filters, cursor, limit)"
  obtains vs where "first_error (shape_checks ps route) = None" "page_limit ps = Inr limit"
    "validate_filter_values ps route = None" "cursor = map_of ps ''cursor''"
    "map_results normal_value (filter (\<lambda>p. fst p \<notin> {''cursor'', ''limit''}) ps
       @ [(''limit'', int_str limit)]) = Inr vs" "filters = sort_key fst vs"
  using assms by (auto simp: normalize_def bind_result_Inr_iff simp del: first_error_None_iff)

end
