(* ===== verification/Retention_Service.thy ===== *)
theory Retention_Service
  imports Retention
begin

text \<open>
  \<open>RetentionService.run_once\<close> (\<open>retention/service.py\<close>) over a maintenance port, the loop that runs
  it for the life of the process (\<open>retention/scheduler.py\<close>), the contract of the port
  (\<open>ExpiryMaintenance\<close>, \<open>DeliveryRetentionMaintenance\<close> of \<open>storage/read_model.py\<close>) as the locale
  \<open>maintenance_port\<close>, its interpretation on PostgreSQL, and the properties of retention.
\<close>

section \<open>The service and its loop\<close>

record 'db port =
  port_plan_expiry :: "resource_class \<Rightarrow> string \<Rightarrow> instant \<Rightarrow> int \<Rightarrow> int \<Rightarrow> 'db \<Rightarrow> expiry_batch result"
  port_apply_expiry :: "expiry_batch \<Rightarrow> instant \<Rightarrow> 'db \<Rightarrow> count_result result \<times> 'db"
  port_plan_deletion :: "string \<Rightarrow> instant \<Rightarrow> int \<Rightarrow> int \<Rightarrow> 'db \<Rightarrow> deletion_batch result"
  port_apply_deletion :: "deletion_batch \<Rightarrow> instant \<Rightarrow> 'db \<Rightarrow> count_result result \<times> 'db"

definition whole_seconds :: "int \<Rightarrow> int" where
  "whole_seconds ttl = ttl div 1000000"

definition expiry_pass :: "'db port \<Rightarrow> delivery_policy \<Rightarrow> instant \<Rightarrow> 'db \<Rightarrow> count_result result \<times> 'db" where
  "expiry_pass p policy now db =
     (case port_plan_expiry p RAW_DEBUG DELIVERY_RETENTION_POLICY_REVISION (now - raw_debug_ttl policy)
         (whole_seconds (raw_debug_ttl policy)) (batch_size policy) db of
        Inl e \<Rightarrow> (Inl e, db)
      | Inr batch \<Rightarrow> port_apply_expiry p batch now db)"

definition deletion_pass :: "'db port \<Rightarrow> delivery_policy \<Rightarrow> int \<Rightarrow> instant \<Rightarrow> 'db \<Rightarrow> count_result result \<times> 'db" where
  "deletion_pass p policy ttl now db =
     (case port_plan_deletion p DELIVERY_RETENTION_POLICY_REVISION (now - ttl)
         (whole_seconds ttl) (batch_size policy) db of
        Inl e \<Rightarrow> (Inl e, db)
      | Inr batch \<Rightarrow> port_apply_deletion p batch now db)"

definition run_once_with :: "'db port \<Rightarrow> delivery_policy \<Rightarrow> instant \<Rightarrow> 'db \<Rightarrow> count_result list result \<times> 'db" where
  "run_once_with p policy now db =
     (case expiry_pass p policy now db of
        (Inl e, db1) \<Rightarrow> (Inl e, db1)
      | (Inr r, db1) \<Rightarrow>
          (case delivery_ttl policy of
             None \<Rightarrow> (Inr [r], db1)
           | Some ttl \<Rightarrow>
               (case deletion_pass p policy ttl now db1 of
                  (Inl e, db2) \<Rightarrow> (Inl e, db2)
                | (Inr r2, db2) \<Rightarrow> (Inr [r, r2], db2))))"

text \<open>The loop catches every exception of an iteration; its clock readings are the list.\<close>

fun retention_loop :: "'db port \<Rightarrow> delivery_policy \<Rightarrow> instant list \<Rightarrow> 'db \<Rightarrow> 'db" where
  "retention_loop p policy [] db = db"
| "retention_loop p policy (now # later) db =
     retention_loop p policy later (snd (run_once_with p policy now db))"

section \<open>The contract of the port\<close>

locale maintenance_port =
  fixes p :: "'db port" and inv :: "'db \<Rightarrow> bool" and retired :: "'db \<Rightarrow> string \<Rightarrow> bool"
  assumes expiry_inv: "inv db \<Longrightarrow> port_apply_expiry p b now db = (r, db') \<Longrightarrow> inv db' \<and> retired db' = retired db"
    and deletion_inv: "inv db \<Longrightarrow> port_apply_deletion p c now db = (r, db') \<Longrightarrow> inv db'"
    and deletion_retires: "inv db \<Longrightarrow> port_apply_deletion p c now db = (r, db') \<Longrightarrow> retired db d \<Longrightarrow> retired db' d"
    and expiry_counts: "inv db \<Longrightarrow> port_apply_expiry p b now db = (Inr x, db') \<Longrightarrow>
          cr_done x + cr_already x = cr_selected x"
    and deletion_counts: "inv db \<Longrightarrow> port_apply_deletion p c now db = (Inr x, db') \<Longrightarrow>
          cr_done x + cr_already x = cr_selected x"
begin

lemma expiry_pass_inv:
  assumes "inv db" "expiry_pass p policy now db = (r, db')"
  shows "inv db' \<and> retired db' = retired db \<and> (\<forall>x. r = Inr x \<longrightarrow> cr_done x + cr_already x = cr_selected x)"
  using assms expiry_inv expiry_counts by (auto simp: expiry_pass_def split: sum.splits)

lemma deletion_pass_inv:
  assumes "inv db" "deletion_pass p policy ttl now db = (r, db')"
  shows "inv db' \<and> (\<forall>d. retired db d \<longrightarrow> retired db' d) \<and>
    (\<forall>x. r = Inr x \<longrightarrow> cr_done x + cr_already x = cr_selected x)"
  using assms deletion_inv deletion_counts deletion_retires by (auto simp: deletion_pass_def split: sum.splits)

text \<open>A run keeps the invariant even when it fails half-way; retired Deliveries stay retired.\<close>

lemma run_once_inv:
  assumes "inv db" "run_once_with p policy now db = (r, db')"
  shows "inv db' \<and> (\<forall>d. retired db d \<longrightarrow> retired db' d) \<and>
    (\<forall>rs. r = Inr rs \<longrightarrow> (\<forall>x \<in> set rs. cr_done x + cr_already x = cr_selected x))"
proof -
  obtain r1 db1 where one: "expiry_pass p policy now db = (r1, db1)" by force
  note first = expiry_pass_inv [OF assms(1) one]
  show ?thesis
  proof (cases r1)
    case (Inl e)
    with one assms(2) first show ?thesis by (auto simp: run_once_with_def)
  next
    case (Inr x)
    show ?thesis
    proof (cases "delivery_ttl policy")
      case None
      with one Inr assms(2) first show ?thesis by (auto simp: run_once_with_def)
    next
      case (Some ttl)
      obtain r2 db2 where two: "deletion_pass p policy ttl now db1 = (r2, db2)" by force
      from deletion_pass_inv [OF _ two] first Inr Some one two assms(2) show ?thesis
        by (auto simp: run_once_with_def split: sum.splits)
    qed
  qed
qed

lemma loop_inv:
  "inv db \<Longrightarrow> inv (retention_loop p policy ts db) \<and>
     (\<forall>d. retired db d \<longrightarrow> retired (retention_loop p policy ts db) d)"
proof (induction ts arbitrary: db)
  case (Cons now ts)
  obtain r db' where run: "run_once_with p policy now db = (r, db')" by force
  from run_once_inv [OF Cons.prems run] Cons.IH [of db'] run show ?case by auto
qed simp

end

section \<open>PostgreSQL as the port\<close>

definition pg_port :: "db port" where
  "pg_port = \<lparr>port_plan_expiry = plan_expiry, port_apply_expiry = apply_expiry,
     port_plan_deletion = plan_delivery_deletion, port_apply_deletion = apply_delivery_deletion\<rparr>"

definition run_once :: "delivery_policy \<Rightarrow> instant \<Rightarrow> db \<Rightarrow> count_result list result \<times> db" where
  "run_once = run_once_with pg_port"

definition evidence_ok :: "db \<Rightarrow> bool" where
  "evidence_ok db \<longleftrightarrow> store_ok db \<and> memberships_ok db"

definition retired :: "db \<Rightarrow> string \<Rightarrow> bool" where
  "retired db d = is_fenced d db"

lemma make_count_result_Inr:
  "make_count_result i s x y = Inr r \<longleftrightarrow> hex_text 64 i \<and> 0 \<le> min s (min x y) \<and> x + y = s \<and>
     r = \<lparr>cr_identity = i, cr_selected = s, cr_done = x, cr_already = y\<rparr>"
  by (auto simp: make_count_result_def)

text \<open>The two outcomes of applying a batch.\<close>

lemma apply_expiry_cases:
  assumes "apply_expiry b now db = (r, db')"
  obtains e where "r = Inl e" "db' = db"
  | x y where "expire_members b now (eb_members b) (0, 0) db = Inr ((x, y), db')"
      "r = make_count_result (eb_identity b) (int (length (eb_members b))) x y"
proof (cases "eb_class b = ACCEPTED_PROVENANCE")
  case True
  with assms that(1) show thesis by (auto simp: apply_expiry_def)
next
  case False
  show thesis
  proof (cases "expire_members b now (eb_members b) (0, 0) db")
    case (Inl e)
    with assms False that(1) show thesis by (auto simp: apply_expiry_def in_transaction_def)
  next
    case (Inr p)
    then obtain x y db1 where "p = ((x, y), db1)" by (metis prod.exhaust)
    with Inr assms False that(2) show thesis by (auto simp: apply_expiry_def in_transaction_def)
  qed
qed

lemma apply_deletion_cases:
  assumes "apply_delivery_deletion b now db = (r, db')"
  obtains e where "r = Inl e" "db' = db"
  | x y where "delete_deliveries b now (db_delivery_ids b) (0, 0) db = Inr ((x, y), db')"
      "r = make_count_result (db_identity b) (int (length (db_delivery_ids b))) x y"
proof (cases "delete_deliveries b now (db_delivery_ids b) (0, 0) db")
  case (Inl e)
  with assms that(1) show thesis by (auto simp: apply_delivery_deletion_def in_transaction_def)
next
  case (Inr p)
  then obtain x y db1 where "p = ((x, y), db1)" by (metis prod.exhaust)
  with Inr assms that(2) show thesis by (auto simp: apply_delivery_deletion_def in_transaction_def)
qed

lemma apply_expiry_skeleton:
  assumes "store_ok db" "apply_expiry b now db = (r, db')"
  shows "store_ok db' \<and> skeleton db' = skeleton db"
  using assms(2)
proof (cases rule: apply_expiry_cases)
  case 1
  with assms(1) show ?thesis by simp
next
  case (2 x y)
  from expire_members_ok [OF assms(1) 2(1)] show ?thesis by simp
qed

interpretation pg_retention: maintenance_port pg_port evidence_ok retired
proof unfold_locales
  fix db b now r db'
  assume ok: "evidence_ok db" and run: "port_apply_expiry pg_port b now db = (r, db')"
  from run have "apply_expiry b now db = (r, db')" by (simp add: pg_port_def)
  with ok have "store_ok db' \<and> skeleton db' = skeleton db"
    by (auto simp: evidence_ok_def dest: apply_expiry_skeleton)
  with ok skeleton_memberships show "evidence_ok db' \<and> retired db' = retired db"
    by (auto simp: evidence_ok_def retired_def is_fenced_def skeleton_def fun_eq_iff)
next
  fix db b now r db'
  assume ok: "evidence_ok db" and run: "port_apply_deletion pg_port b now db = (r, db')"
  from run have "apply_delivery_deletion b now db = (r, db')" by (simp add: pg_port_def)
  then show "evidence_ok db'"
  proof (cases rule: apply_deletion_cases)
    case 1
    with ok show ?thesis by simp
  next
    case (2 x y)
    with ok delete_deliveries_ok [OF _ 2(1)] delete_deliveries_memberships [OF _ _ 2(1)] show ?thesis
      by (simp add: evidence_ok_def deletes_def)
  qed
next
  fix db b now r db' d
  assume ok: "evidence_ok db" and run: "port_apply_deletion pg_port b now db = (r, db')"
    and "retired db d"
  from run have "apply_delivery_deletion b now db = (r, db')" by (simp add: pg_port_def)
  then show "retired db' d"
  proof (cases rule: apply_deletion_cases)
    case 1
    with \<open>retired db d\<close> show ?thesis by simp
  next
    case (2 x y)
    with ok delete_deliveries_ok [OF _ 2(1)] \<open>retired db d\<close> show ?thesis
      by (simp add: evidence_ok_def deletes_def retired_def)
  qed
next
  fix db b now x db'
  assume "port_apply_expiry pg_port b now db = (Inr x, db')"
  then have "apply_expiry b now db = (Inr x, db')" by (simp add: pg_port_def)
  then show "cr_done x + cr_already x = cr_selected x"
    by (rule apply_expiry_cases) (auto simp: eq_commute [of "Inr x"] make_count_result_Inr)
next
  fix db b now x db'
  assume "port_apply_deletion pg_port b now db = (Inr x, db')"
  then have "apply_delivery_deletion b now db = (Inr x, db')" by (simp add: pg_port_def)
  then show "cr_done x + cr_already x = cr_selected x"
    by (rule apply_deletion_cases) (auto simp: eq_commute [of "Inr x"] make_count_result_Inr)
qed

end
