(* ===== verification/Retention_Facts.thy ===== *)
theory Retention_Facts
  imports Retention_Service
begin

text \<open>
  Progress of retention: what a plan selects, that a planned batch applies in full when nothing
  intervenes, what a deletion keeps, and that applying a batch again does nothing.
\<close>

section \<open>Sorted batches\<close>

lemma adjacent_distinct_iff: "sorted xs \<Longrightarrow> adjacent_distinct xs \<longleftrightarrow> distinct (xs :: 'a::linorder list)"
proof (induction xs rule: adjacent_distinct.induct)
  case (1 x y zs)
  then show ?case by (force simp: less_le)
qed auto

lemma sort_take_subset: "set (take n (sort_key f xs)) \<subseteq> set xs"
proof -
  have "set (take n (sort_key f xs)) \<subseteq> set (sort_key f xs)" by (rule set_take_subset)
  then show ?thesis by (simp only: set_sort)
qed

text \<open>Keys in the tables are JSON texts of arrays of strings and nulls.\<close>

definition keys_canonical :: "db \<Rightarrow> bool" where
  "keys_canonical db \<longleftrightarrow>
     (\<forall>ar \<in> set (accepted db). \<exists>k. list_all key_scalar k \<and> snd (ar_identity ar) = key_json k) \<and>
     (\<forall>pe \<in> set (effects db). \<exists>k. list_all key_scalar k \<and> pe_key pe = key_json k)"

lemma skeleton_keys_canonical:
  assumes "skeleton db' = skeleton db" "keys_canonical db"
  shows "keys_canonical db'"
proof -
  have by_sets: "keys_canonical x \<longleftrightarrow>
     (\<forall>i \<in> ar_identity ` set (accepted x). \<exists>k. list_all key_scalar k \<and> snd i = key_json k) \<and>
     (\<forall>i \<in> pe_id ` set (effects x). \<exists>k. list_all key_scalar k \<and> snd i = key_json k)" for x
    by (simp add: keys_canonical_def pe_id_def)
  from assms(2) show ?thesis unfolding by_sets skeleton_sets [OF assms(1)] .
qed

lemma owner_of_row_key:
  assumes "list_all key_scalar k" "owner_of_row (kind, key_json k) = Inr m"
  shows "m = \<lparr>resource_kind = kind, owner_key = k\<rparr>"
  using assms(2) by (simp add: owner_of_row_def json_loads_key_json [OF dict_hook_keeps assms(1)] make_owner_def)

lemma map_results_set:
  "map_results f xs = Inr ys \<Longrightarrow> y \<in> set ys \<Longrightarrow> \<exists>x \<in> set xs. f x = Inr y"
  by (induction xs arbitrary: ys) (auto simp: bind_result_Inr_iff)

lemma plan_expiry_Inr:
  assumes "plan_expiry c policy cutoff ttl limit db = Inr b"
  obtains owners where "map_results owner_of_row (due_rows db c cutoff (nat limit)) = Inr owners"
    "create_expiry_batch c policy cutoff ttl owners = Inr b" "c \<noteq> ACCEPTED_PROVENANCE"
    "1 \<le> limit" "limit \<le> 1000"
  using assms by (auto simp: plan_expiry_def bind_result_Inr_iff)

text \<open>A member of a planned raw batch is the key of a record that is due.\<close>

lemma due_rows_raw:
  "row \<in> set (due_rows db RAW_DEBUG cutoff n) \<Longrightarrow>
     \<exists>ar \<in> set (raw_due db cutoff). row = (''RAW_DEBUG'', snd (ar_identity ar))"
proof -
  assume "row \<in> set (due_rows db RAW_DEBUG cutoff n)"
  then have "row \<in> (\<lambda>ar. (''RAW_DEBUG'', snd (ar_identity ar))) `
      set (take n (sort_key (\<lambda>ar. snd (ar_identity ar)) (raw_due db cutoff)))"
    by (simp only: due_rows_def refl if_True take_map set_map)
  with sort_take_subset [of n "\<lambda>ar. snd (ar_identity ar)" "raw_due db cutoff"] show ?thesis by blast
qed

lemma planned_raw_member:
  assumes "keys_canonical db" "plan_expiry RAW_DEBUG policy cutoff ttl limit db = Inr b"
    and "m \<in> set (eb_members b)"
  shows "resource_kind m = ''RAW_DEBUG'' \<and> list_all key_scalar (owner_key m) \<and>
    (\<exists>ar \<in> set (raw_due db cutoff). snd (ar_identity ar) = key_json (owner_key m))"
proof -
  from assms(2) obtain owners where
    owners: "map_results owner_of_row (due_rows db RAW_DEBUG cutoff (nat limit)) = Inr owners"
    and b: "create_expiry_batch RAW_DEBUG policy cutoff ttl owners = Inr b" by (rule plan_expiry_Inr)
  from assms(3) have "m \<in> set owners" by (simp only: batch_members_valid(1) [OF b] set_sort)
  from map_results_set [OF owners this] obtain row where
    row: "row \<in> set (due_rows db RAW_DEBUG cutoff (nat limit))" "owner_of_row row = Inr m" by blast
  from due_rows_raw [OF row(1)] obtain ar where
    ar: "ar \<in> set (raw_due db cutoff)" "row = (''RAW_DEBUG'', snd (ar_identity ar))" by blast
  from ar(1) have "ar \<in> set (accepted db)" by (simp add: raw_due_def)
  with assms(1) obtain k where k: "list_all key_scalar k" "snd (ar_identity ar) = key_json k"
    by (auto simp: keys_canonical_def)
  with row(2) ar(2) have "owner_of_row (''RAW_DEBUG'', key_json k) = Inr m" by simp
  from owner_of_row_key [OF k(1) this] k ar(1) show ?thesis by auto
qed

lemma planned_distinct:
  assumes "create_expiry_batch c policy cutoff ttl owners = Inr b"
  shows "distinct (eb_members b)"
proof -
  from batch_members_valid(1) [OF assms] have "sorted (map canonical_member (eb_members b))" by simp
  with batch_members_valid(5) [OF assms] have "distinct (map canonical_member (eb_members b))"
    by (simp add: adjacent_distinct_iff)
  then show ?thesis by (simp add: distinct_map)
qed

text \<open>Expiring a member marks it and nothing else.\<close>

lemma marker_of_id:
  "em_id (marker_of b now m rec cj) = (class_value (eb_class b), resource_kind m, key_json (owner_key m))"
  by (simp add: marker_of_def em_id_def split: prod.splits)

lemma expire_member_marks:
  assumes "expire_member b now m db = Inr (was, db')"
  shows "has_marker db' c k key \<longleftrightarrow> has_marker db c k key \<or>
    (c, k, key) = (class_value (eb_class b), resource_kind m, key_json (owner_key m))"
proof (cases "has_marker db (class_value (eb_class b)) (resource_kind m) (key_json (owner_key m))")
  case True
  with assms show ?thesis by (auto simp: expire_member_def Let_def)
next
  case False
  with assms obtain rec cj where "db' = clear_resource b m (fst rec)
      (db\<lparr>markers := markers db @ [marker_of b now m rec cj]\<rparr>)"
    by (auto simp: expire_member_def Let_def bind_result_Inr_iff split: option.splits)
  then show ?thesis by (auto simp: has_marker_iff marker_of_id)
qed

section \<open>A planned raw batch applies in full\<close>

lemma raw_member_step:
  assumes "eb_class b = RAW_DEBUG \<and> hex_text 64 (eb_identity b)" "resource_kind m = ''RAW_DEBUG''"
    and "\<not> has_marker db ''RAW_DEBUG'' ''RAW_DEBUG'' (key_json (owner_key m))"
    and "key_json (owner_key m) \<in> (\<lambda>ar. snd (ar_identity ar)) ` set (accepted db)"
  shows "\<exists>db'. expire_member b now m db = Inr (False, db') \<and>
    (\<lambda>ar. snd (ar_identity ar)) ` set (accepted db') = (\<lambda>ar. snd (ar_identity ar)) ` set (accepted db) \<and>
    (\<forall>k. has_marker db' ''RAW_DEBUG'' ''RAW_DEBUG'' k \<longleftrightarrow>
       has_marker db ''RAW_DEBUG'' ''RAW_DEBUG'' k \<or> k = key_json (owner_key m))"
proof -
  have image: "(\<lambda>ar. snd (ar_identity ar)) ` set (accepted x) = set (map snd (map ar_identity (accepted x)))"
    for x by auto
  from assms(4) obtain ar where "row_with (\<lambda>ar. snd (ar_identity ar)) (key_json (owner_key m)) (accepted db) = Some ar"
    by (cases "row_with (\<lambda>ar. snd (ar_identity ar)) (key_json (owner_key m)) (accepted db)")
      (auto simp: row_with_None_iff)
  then have "raw_record db (key_json (owner_key m)) = Some (ar_identity ar, ar_at ar, [])"
    by (simp add: raw_record_def)
  with assms(1-3) have "expire_member b now m db = Inr (False, clear_resource b m (ar_identity ar)
      (db\<lparr>markers := markers db @ [marker_of b now m (ar_identity ar, ar_at ar, []) (VList [])]\<rparr>))"
    by (simp add: expire_member_def to_jsonb_def)
  moreover have "em_id (marker_of b now m (ar_identity ar, ar_at ar, []) (VList [])) =
      (''RAW_DEBUG'', ''RAW_DEBUG'', key_json (owner_key m))"
    using assms(1,2) by (simp add: marker_of_def em_id_def)
  ultimately show ?thesis by (auto simp: has_marker_iff image simp del: set_map map_map)
qed

lemma raw_members_progress:
  assumes "eb_class b = RAW_DEBUG \<and> hex_text 64 (eb_identity b)" "distinct (map (\<lambda>m. key_json (owner_key m)) ms)"
    and "\<forall>m \<in> set ms. resource_kind m = ''RAW_DEBUG'' \<and>
      \<not> has_marker db ''RAW_DEBUG'' ''RAW_DEBUG'' (key_json (owner_key m)) \<and>
      key_json (owner_key m) \<in> (\<lambda>ar. snd (ar_identity ar)) ` set (accepted db)"
  shows "\<exists>db'. expire_members b now ms (e, a) db = Inr ((e + int (length ms), a), db')"
  using assms(2,3)
proof (induction ms arbitrary: e db)
  case (Cons m ms)
  from Cons.prems(2) have "resource_kind m = ''RAW_DEBUG''"
    "\<not> has_marker db ''RAW_DEBUG'' ''RAW_DEBUG'' (key_json (owner_key m))"
    "key_json (owner_key m) \<in> (\<lambda>ar. snd (ar_identity ar)) ` set (accepted db)" by simp_all
  from raw_member_step [OF assms(1) this] obtain db1 where
    one: "expire_member b now m db = Inr (False, db1)"
    and same: "(\<lambda>ar. snd (ar_identity ar)) ` set (accepted db1) = (\<lambda>ar. snd (ar_identity ar)) ` set (accepted db)"
    and marks: "\<forall>k. has_marker db1 ''RAW_DEBUG'' ''RAW_DEBUG'' k \<longleftrightarrow>
       has_marker db ''RAW_DEBUG'' ''RAW_DEBUG'' k \<or> k = key_json (owner_key m)" by blast
  from Cons.prems have "distinct (map (\<lambda>m. key_json (owner_key m)) ms)"
    "\<forall>n \<in> set ms. resource_kind n = ''RAW_DEBUG'' \<and>
      \<not> has_marker db1 ''RAW_DEBUG'' ''RAW_DEBUG'' (key_json (owner_key n)) \<and>
      key_json (owner_key n) \<in> (\<lambda>ar. snd (ar_identity ar)) ` set (accepted db1)"
    unfolding same using marks by (auto simp: image_iff)
  from Cons.IH [OF this, of "e + 1"] one show ?case by (simp add: ac_simps)
qed simp

lemma planned_raw_applies:
  assumes "keys_canonical db" "plan_expiry RAW_DEBUG policy cutoff ttl limit db = Inr b"
  shows "\<exists>db'. expire_members b now (eb_members b) (0, 0) db =
    Inr ((int (length (eb_members b)), 0), db')"
proof -
  from assms(2) obtain owners where
    b: "create_expiry_batch RAW_DEBUG policy cutoff ttl owners = Inr b" by (rule plan_expiry_Inr)
  note member = planned_raw_member [OF assms]
  have "inj_on (\<lambda>m. key_json (owner_key m)) (set (eb_members b))"
    by (rule inj_onI) (metis member key_json_inject expiry_owner.surjective unit.exhaust)
  with planned_distinct [OF b] have "distinct (map (\<lambda>m. key_json (owner_key m)) (eb_members b))"
    by (simp add: distinct_map)
  moreover have "\<forall>m \<in> set (eb_members b). resource_kind m = ''RAW_DEBUG'' \<and>
      \<not> has_marker db ''RAW_DEBUG'' ''RAW_DEBUG'' (key_json (owner_key m)) \<and>
      key_json (owner_key m) \<in> (\<lambda>ar. snd (ar_identity ar)) ` set (accepted db)"
  proof
    fix m
    assume "m \<in> set (eb_members b)"
    from member [OF this] show "resource_kind m = ''RAW_DEBUG'' \<and>
      \<not> has_marker db ''RAW_DEBUG'' ''RAW_DEBUG'' (key_json (owner_key m)) \<and>
      key_json (owner_key m) \<in> (\<lambda>ar. snd (ar_identity ar)) ` set (accepted db)"
      by (force simp: raw_due_def)
  qed
  ultimately show ?thesis
    using raw_members_progress [of b "eb_members b" db now 0 0] batch_members_valid(6,7) [OF b] by simp
qed

section \<open>What a deletion keeps\<close>

lemma fenced_no_anchor:
  assumes "store_ok db" "is_fenced d db" "t \<in> set (anchors db)"
  shows "ta_delivery t \<noteq> d"
proof
  assume "ta_delivery t = d"
  with assms(1,3) have "d \<in> dm_delivery ` set (members db)" by (auto simp: store_defs)
  with assms(1,2) show False by (auto simp: store_defs is_fenced_iff)
qed

lemma delete_delivery_Inr:
  assumes "store_ok db" "\<not> is_fenced d db" "t \<in> set (anchors db)" "ta_delivery t = d" "ta_at t \<le> db_cutoff b"
  shows "\<exists>db'. delete_delivery b now d db = Inr (False, db')"
  using assms(2-5) by (auto simp: delete_delivery_def delete_rows_Inr list_ex_iff)

lemma delete_delivery_anchors:
  assumes "store_ok db" "delete_delivery b now d db = Inr (was, db')"
  shows "set (anchors db') = {t \<in> set (anchors db). ta_delivery t \<noteq> d}"
proof (cases "is_fenced d db")
  case True
  with assms(2) have "db' = db" by (simp add: delete_delivery_def)
  with fenced_no_anchor [OF assms(1) True] show ?thesis by blast
next
  case False
  have "store_ok (preserve_referenced_task d db)" using assms(1) by (rule preserve_store_ok)
  from anchors_after [OF this, of d] assms(2) False show ?thesis
    by (auto simp: delete_delivery_def delete_rows_Inr bind_result_Inr_iff split: if_splits)
qed

text \<open>An effect row of another record is kept; every row that is left was there before.\<close>

definition same_fact :: "effect_row \<Rightarrow> effect_row \<Rightarrow> bool" where
  "same_fact p q \<longleftrightarrow> pe_id p = pe_id q \<and> pe_payload p = pe_payload q \<and> pe_at p = pe_at q"

lemma preserve_rows:
  "pe \<in> set (effects db) \<Longrightarrow> pe_source pe \<notin> delivery_members d db \<Longrightarrow>
     pe \<in> set (effects (preserve_referenced_task d db))"
  "pe \<in> set (effects (preserve_referenced_task d db)) \<Longrightarrow> \<exists>q \<in> set (effects db). same_fact pe q"
proof -
  assume pe: "pe \<in> set (effects db)" "pe_source pe \<notin> delivery_members d db"
  then have "reassign t src (delivery_members d db) pe = pe" for t src by (simp add: reassign_def)
  with pe(1) show "pe \<in> set (effects (preserve_referenced_task d db))"
    by (cases rule: preserve_cases [of d db]) (auto intro: rev_image_eqI)
next
  assume pe: "pe \<in> set (effects (preserve_referenced_task d db))"
  have "same_fact (reassign t src g q) q" for t src g q
    by (simp add: same_fact_def) (simp add: reassign_def)
  with pe show "\<exists>q \<in> set (effects db). same_fact pe q"
    by (cases rule: preserve_cases [of d db]) (auto simp: same_fact_def)
qed

lemma delete_delivery_effects:
  assumes "store_ok db" "delete_delivery b now d db = Inr (was, db')"
  shows "pe \<in> set (effects db) \<Longrightarrow> pe_source pe \<notin> delivery_members d db \<Longrightarrow> pe \<in> set (effects db')"
    and "pe \<in> set (effects db') \<Longrightarrow> \<exists>q \<in> set (effects db). same_fact pe q"
proof -
  have "(pe \<in> set (effects db) \<longrightarrow> pe_source pe \<notin> delivery_members d db \<longrightarrow> pe \<in> set (effects db')) \<and>
    (pe \<in> set (effects db') \<longrightarrow> (\<exists>q \<in> set (effects db). same_fact pe q))"
  proof (cases was)
    case True
    with delete_delivery_ok(4) [OF assms] show ?thesis by (auto simp: same_fact_def)
  next
    case False
    with delete_delivery_ok(5) [OF assms] preserve_rows(1) [of pe db d] preserve_rows(2) [of pe d db] show ?thesis by auto
  qed
  then show "pe \<in> set (effects db) \<Longrightarrow> pe_source pe \<notin> delivery_members d db \<Longrightarrow> pe \<in> set (effects db')"
    "pe \<in> set (effects db') \<Longrightarrow> \<exists>q \<in> set (effects db). same_fact pe q" by blast+
qed

lemma delete_deliveries_effects:
  assumes "store_ok db" "delete_deliveries b now ds c db = Inr (c', db')"
  shows "(\<forall>pe \<in> set (effects db). (\<forall>d \<in> set ds. pe_source pe \<notin> delivery_members d db) \<longrightarrow> pe \<in> set (effects db')) \<and>
    (\<forall>pe \<in> set (effects db'). \<exists>q \<in> set (effects db). same_fact pe q)"
  using assms
proof (induction ds arbitrary: c db)
  case Nil
  then show ?case by (auto simp: same_fact_def)
next
  case (Cons d ds)
  obtain e a where c: "c = (e, a)" by force
  from Cons.prems(2) c obtain was db1 where one: "delete_delivery b now d db = Inr (was, db1)"
    and rest: "delete_deliveries b now ds (if was then (e, a + 1) else (e + 1, a)) db1 = Inr (c', db')"
    by (auto simp: bind_result_Inr_iff)
  note ok1 = delete_delivery_ok(1) [OF Cons.prems(1) one]
  note IH = Cons.IH [OF ok1 rest] and step = delete_delivery_effects [OF Cons.prems(1) one]
  have sub: "delivery_members e db1 \<subseteq> delivery_members e db" for e
    using delete_delivery_deletes [OF Cons.prems(1) one] by (auto simp: deletes_def delivery_members_def)
  have "same_fact p q \<Longrightarrow> same_fact q r \<Longrightarrow> same_fact p r" for p q r by (simp add: same_fact_def)
  with IH step(2) have "\<forall>pe \<in> set (effects db'). \<exists>q \<in> set (effects db). same_fact pe q" by meson
  moreover have "pe \<in> set (effects db')"
    if "pe \<in> set (effects db)" "\<forall>d \<in> set (d # ds). pe_source pe \<notin> delivery_members d db" for pe
  proof -
    from that have "pe \<in> set (effects db1)" by (intro step(1)) simp_all
    moreover from that(2) sub have "\<forall>d \<in> set ds. pe_source pe \<notin> delivery_members d db1" by auto
    ultimately show ?thesis using IH by blast
  qed
  ultimately show ?case by blast
qed

text \<open>A planned deletion applies in full.\<close>

lemma delete_deliveries_progress:
  assumes "store_ok db" "distinct ds"
    and "\<forall>d \<in> set ds. \<not> is_fenced d db \<and> (\<exists>t \<in> set (anchors db). ta_delivery t = d \<and> ta_at t \<le> db_cutoff b)"
  shows "\<exists>db'. delete_deliveries b now ds (e, a) db = Inr ((e + int (length ds), a), db')"
  using assms
proof (induction ds arbitrary: e db)
  case (Cons d ds)
  from Cons.prems(3) obtain t where t: "\<not> is_fenced d db" "t \<in> set (anchors db)" "ta_delivery t = d"
    "ta_at t \<le> db_cutoff b" by auto
  from delete_delivery_Inr [OF Cons.prems(1) t] obtain db1 where
    one: "delete_delivery b now d db = Inr (False, db1)" by blast
  note ok1 = delete_delivery_ok(1) [OF Cons.prems(1) one]
  have fence: "is_fenced f db1 \<longleftrightarrow> is_fenced f db \<or> f = d" for f
    using delete_delivery_deletes [OF Cons.prems(1) one] by (simp add: deletes_def)
  note anch = delete_delivery_anchors [OF Cons.prems(1) one]
  have "\<forall>f \<in> set ds. \<not> is_fenced f db1 \<and> (\<exists>t \<in> set (anchors db1). ta_delivery t = f \<and> ta_at t \<le> db_cutoff b)"
    using Cons.prems(2,3) unfolding fence anch by fastforce
  from Cons.IH [OF ok1 _ this, of "e + 1"] Cons.prems(2) one show ?case by (auto simp: ac_simps)
qed simp

lemma plan_deletion_Inr:
  assumes "plan_delivery_deletion policy cutoff ttl limit db = Inr b" "store_ok db"
  shows "distinct (db_delivery_ids b)" "db_cutoff b = cutoff" "hex_text 64 (db_identity b)"
    and "\<forall>d \<in> set (db_delivery_ids b). \<not> is_fenced d db \<and>
      (\<exists>t \<in> set (anchors db). ta_delivery t = d \<and> ta_at t \<le> db_cutoff b)"
    and "length (db_delivery_ids b) \<le> nat limit"
proof -
  let ?due = "map ta_delivery (filter (\<lambda>t. ta_at t \<le> cutoff \<and> \<not> is_fenced (ta_delivery t) db) (anchors db))"
  from assms(1) have b: "db_delivery_ids b = sort (take (nat limit) (sort ?due))" "db_cutoff b = cutoff"
    "hex_text 64 (db_identity b)" "adjacent_distinct (db_delivery_ids b)"
    by (auto simp: plan_delivery_deletion_def create_deletion_batch_def Let_def)
  then show "db_cutoff b = cutoff" "hex_text 64 (db_identity b)" by simp_all
  show "length (db_delivery_ids b) \<le> nat limit" by (simp add: b(1))
  from b(1,4) show "distinct (db_delivery_ids b)" by (simp add: adjacent_distinct_iff)
  have "set (db_delivery_ids b) \<subseteq> set ?due"
    using set_take_subset [of "nat limit" "sort ?due"] by (simp add: b(1))
  then show "\<forall>d \<in> set (db_delivery_ids b). \<not> is_fenced d db \<and>
      (\<exists>t \<in> set (anchors db). ta_delivery t = d \<and> ta_at t \<le> db_cutoff b)"
    unfolding b(2) by auto
qed

text \<open>Applying a deletion a second time finds every Delivery deleted.\<close>

lemma delete_deliveries_again:
  assumes "\<forall>d \<in> set ds. is_fenced d db"
  shows "delete_deliveries b now ds (e, a) db = Inr ((e, a + int (length ds)), db)"
  using assms
proof (induction ds arbitrary: a)
  case (Cons d ds)
  then show ?case by (simp add: delete_delivery_def)
qed simp

end
