(* ===== verification/Snapshot.thy ===== *)
theory Snapshot
  imports Query_Params Retention_Facts "HOL-Library.Product_Lexorder"
begin

text \<open>
  The snapshot adapter of the query side (\<open>query/postgresql.py\<close>): leases on repeatable-read
  transactions, cursors into them, and the rows of a page.  A lease holds the database as its
  transaction sees it.  Every operation is atomic: the lock of the adapter and the lock of a
  lease are not modelled, nor is the pool, whose refusal of a connection is an argument.  So
  are the random tokens.  Strings are compared by the collation of the database, given by its
  sort keys \<open>coll\<close>; \<open>COLLATE "C"\<close> compares bytes.
\<close>

section \<open>Rows and leases\<close>

record query_effect = stored_effect +
  qe_digest :: string
  qe_profile :: string
  qe_family :: pyval

datatype sort_value = Sort_Null | Sort_Int int | Sort_Text string

type_synonym position = "sort_value \<times> sort_value \<times> sort_value"

record snapshot_row =
  sr_kind :: string
  sr_key :: string
  sr_payload :: pyval
  sr_source :: source
  sr_at :: instant
  sr_digest :: string
  sr_profile :: string
  sr_family :: pyval
  sr_sort :: position

record snapshot_lease =
  sl_db :: db
  sl_id :: string
  sl_query :: query_route
  sl_filters :: params
  sl_limit :: int
  sl_expires :: instant

record query_adapter =
  qa_ttl :: int
  qa_lease_limit :: int
  qa_leases :: "snapshot_lease list"
  qa_cursors :: "(string \<times> (string \<times> position)) list"
  qa_tokens :: "((string \<times> position) \<times> string) list"

record snapshot_page =
  sp_contract :: string
  sp_revision :: string
  sp_snapshot :: string
  sp_resources :: "query_effect list"
  sp_next :: "string option"

definition query_effect_of :: "snapshot_row \<Rightarrow> query_effect result" where
  "query_effect_of r =
     bind_result (json_loads dict_hook (sr_key r)) (\<lambda>v. Inr
       \<lparr>se_kind = sr_kind r, se_key = the_list v, se_payload = sr_payload r,
        se_source = sr_source r, se_at = sr_at r, qe_digest = sr_digest r,
        qe_profile = sr_profile r, qe_family = sr_family r\<rparr>)"

definition make_adapter :: "int \<Rightarrow> int \<Rightarrow> query_adapter result" where
  "make_adapter ttl lease_limit = check_then (first_error
     [require (ttl mod seconds 1 = 0 \<and> seconds 10 \<le> ttl \<and> ttl \<le> seconds 300)
        (Value_Error ''snapshot lease TTL must be whole seconds in [10,300]''),
      require (1 \<le> lease_limit \<and> lease_limit \<le> 8)
        (Value_Error ''snapshot lease limit must be in [1,8]'')])
     (Inr \<lparr>qa_ttl = ttl, qa_lease_limit = lease_limit, qa_leases = [], qa_cursors = [], qa_tokens = []\<rparr>)"

section \<open>Constants\<close>

definition FACT_EFFECT_KINDS :: "string list" where
  "FACT_EFFECT_KINDS = [''factual_contribution'', ''finding_assertion'', ''finding_target'',
     ''finding_status'', ''finding_fix'', ''finding_recheck'', ''role_lineage'',
     ''delivery_root_binding'', ''model_attribution'']"

definition TRACE_EFFECT_KINDS :: "string list" where
  "TRACE_EFFECT_KINDS = [''trace_node'', ''trace_parent_edge'', ''trace_link'']"

definition TASK_EFFECT_KINDS :: "string list" where
  "TASK_EFFECT_KINDS = [''task_declaration'', ''delivery_task_membership'']"

definition PUBLIC_FACT_KINDS :: "(string \<times> string) list" where
  "PUBLIC_FACT_KINDS =
     [(''factual_contribution'', ''EVENT_CONTRIBUTION''), (''finding_assertion'', ''FINDING_ASSERTION''),
      (''finding_target'', ''FINDING_TARGET''), (''finding_status'', ''FINDING_STATUS''),
      (''finding_fix'', ''FINDING_FIX''), (''finding_recheck'', ''FINDING_RECHECK''),
      (''role_lineage'', ''ROLE_LINEAGE''), (''delivery_root_binding'', ''DELIVERY_ROOT_BINDING''),
      (''model_attribution'', ''MODEL_ATTRIBUTION'')]"

text \<open>The CASE expressions over \<open>pe.effect_kind\<close>; no branch gives NULL.\<close>

definition fact_kind_sql :: "string \<Rightarrow> string option" where
  "fact_kind_sql k = map_of PUBLIC_FACT_KINDS k"

definition trace_kind_order :: "string \<Rightarrow> sort_value" where
  "trace_kind_order k =
     (if k = ''trace_node'' then Sort_Int 1 else if k = ''trace_parent_edge'' then Sort_Int 2
      else if k = ''trace_link'' then Sort_Int 3 else Sort_Null)"

definition trace_public_kind :: "string \<Rightarrow> string option" where
  "trace_public_kind k =
     (if k = ''trace_node'' then Some ''NODE'' else if k = ''trace_parent_edge'' then Some ''PARENT_EDGE''
      else if k = ''trace_link'' then Some ''LINK'' else None)"

definition sort_text :: "string option \<Rightarrow> sort_value" where
  "sort_text t = (case t of None \<Rightarrow> Sort_Null | Some s \<Rightarrow> Sort_Text s)"

definition fact_id_sql :: "effect_row \<Rightarrow> string option" where
  "fact_id_sql pe = map_option (\<lambda>k. ''fact:'' @ fst (pe_source pe) @ '':'' @ snd (pe_source pe) @ '':''
     @ k @ '':'' @ pe_key pe) (fact_kind_sql (pe_kind pe))"

definition trace_id_sql :: "effect_row \<Rightarrow> string" where
  "trace_id_sql pe = ''trace:'' @ fst (pe_source pe) @ '':'' @ snd (pe_source pe) @ '':''
     @ pe_kind pe @ '':'' @ pe_key pe"

section \<open>Filters\<close>

text \<open>\<open>text::jsonb ->> i\<close> on the text of an array, and \<open>->>\<close> along a path of objects.\<close>

definition text_part :: "nat \<Rightarrow> string \<Rightarrow> string option" where
  "text_part i t = (case json_loads dict_hook t of
       Inr (VList vs) \<Rightarrow> if i < length vs then json_text (vs ! i) else None
     | _ \<Rightarrow> None)"

definition path_text :: "string list \<Rightarrow> pyval \<Rightarrow> string option" where
  "path_text path v = json_text (foldl (\<lambda>w n. dget (the_dict w) n) v path)"

text \<open>\<open>compatibility @> [[n, v]]\<close>: an inner array that contains both texts.\<close>

definition contains_pair :: "string \<Rightarrow> string \<Rightarrow> pyval \<Rightarrow> bool" where
  "contains_pair n v pairs \<longleftrightarrow>
     list_ex (\<lambda>p. VStr n \<in> set (the_list p) \<and> VStr v \<in> set (the_list p)) (the_list pairs)"

definition fact_marker :: "db \<Rightarrow> string option \<Rightarrow> string \<Rightarrow> (marker_row \<Rightarrow> bool) \<Rightarrow> bool" where
  "fact_marker db kind key P \<longleftrightarrow> list_ex (\<lambda>m. em_class m = ''FACTUAL_PROJECTION'' \<and> em_key m = key \<and>
     kind = Some (em_kind m) \<and> P m) (markers db)"

text \<open>The trace ids of the Delivery roots of a Delivery, expired ones by their markers.\<close>

definition delivery_traces :: "db \<Rightarrow> string \<Rightarrow> string option list" where
  "delivery_traces db d = map (key_part 0) (filter (\<lambda>root.
     pe_kind root = ''delivery_root_binding'' \<and>
     (path_text [''delivery_id''] (pe_payload root) = Some d \<or>
      fact_marker db (Some ''DELIVERY_ROOT_BINDING'') (pe_key root)
        (\<lambda>m. contains_pair ''delivery_id'' d (em_compatibility m)))) (effects db))"

definition among :: "string option \<Rightarrow> string option list \<Rightarrow> bool" where
  "among x xs \<longleftrightarrow> x \<noteq> None \<and> x \<in> set xs"

text \<open>The trace id of a fact: of its Span, of the event's context, or of its marker.\<close>

definition marker_trace :: "db \<Rightarrow> effect_row \<Rightarrow> string option" where
  "marker_trace db pe = (case List.map_filter (\<lambda>p.
        if json_text (the_list p ! 0) = Some ''trace_id'' \<and> 2 \<le> length (the_list p)
        then Some (json_text (the_list p ! 1)) else None)
      (concat (map (\<lambda>m. the_list (em_compatibility m)) (filter (\<lambda>m. em_class m = ''FACTUAL_PROJECTION'' \<and>
         em_key m = pe_key pe \<and> fact_kind_sql (pe_kind pe) = Some (em_kind m)) (markers db)))) of
     [] \<Rightarrow> None | t # _ \<Rightarrow> t)"

definition coalesce :: "'a option \<Rightarrow> 'a option \<Rightarrow> 'a option" where
  "coalesce x y = (case x of None \<Rightarrow> y | Some _ \<Rightarrow> x)"

definition fact_trace :: "db \<Rightarrow> effect_row \<Rightarrow> string option" where
  "fact_trace db pe =
     coalesce (if fst (pe_source pe) = ''span'' then text_part 1 (snd (pe_source pe)) else None)
    (coalesce (path_text [''_otel_context'', ''trace_id''] (pe_payload pe)) (marker_trace db pe))"

type_synonym row_filter = "db \<Rightarrow> effect_row \<Rightarrow> accepted_row \<Rightarrow> bool"

text \<open>A text cast to \<open>timestamptz\<close>; the texts that reach it are normalised timestamps.\<close>

definition filter_instant :: "string \<Rightarrow> instant result" where
  "filter_instant v = (case (if utc_shape v then read_instant v else None) of
       None \<Rightarrow> Inl (Database_Error ''invalid input syntax for type timestamp'')
     | Some t \<Rightarrow> Inr t)"

definition trace_filter :: "query_route \<Rightarrow> string \<Rightarrow> row_filter" where
  "trace_filter query v = (\<lambda>db pe ar.
     if query = TRACES then key_part 0 pe = Some v
     else fst (pe_source pe) = ''span'' \<and> text_part 1 (snd (pe_source pe)) = Some v
       \<or> fst (pe_source pe) = ''event'' \<and>
         (path_text [''_otel_context'', ''trace_id''] (pe_payload pe) = Some v \<or>
          fact_marker db (fact_kind_sql (pe_kind pe)) (pe_key pe)
            (\<lambda>m. contains_pair ''trace_id'' v (em_compatibility m))))"

definition delivery_filter :: "query_route \<Rightarrow> string \<Rightarrow> row_filter" where
  "delivery_filter query v = (\<lambda>db pe ar.
     among (if query = TRACES then key_part 0 pe else fact_trace db pe) (delivery_traces db v))"

definition invalid_filter :: "string \<Rightarrow> py_error" where
  "invalid_filter m = Snapshot_Error Fault_Invalid m"

definition add_filter :: "query_route \<Rightarrow> string \<times> string \<Rightarrow> row_filter result" where
  "add_filter query p =
     (let name = fst p; v = snd p in
      if name = ''kind'' then
        (case map_of (map prod.swap PUBLIC_FACT_KINDS) v of
           None \<Rightarrow> Inl (invalid_filter ''unknown fact kind'')
         | Some internal \<Rightarrow> Inr (\<lambda>db pe ar. pe_kind pe = internal))
      else if name = ''event_name'' then
        Inr (\<lambda>db pe ar. pe_kind pe = ''factual_contribution'' \<and> key_part 0 pe = Some v)
      else if name = ''family_schema'' then Inr (\<lambda>db pe ar. ar_family ar = VStr v)
      else if name = ''trace_id'' then Inr (trace_filter query v)
      else if name = ''delivery_id'' then Inr (delivery_filter query v)
      else if name = ''recorded_from'' then
        bind_result (filter_instant v) (\<lambda>t. Inr (\<lambda>db pe ar. t \<le> pe_at pe))
      else if name = ''recorded_to'' then
        bind_result (filter_instant v) (\<lambda>t. Inr (\<lambda>db pe ar. pe_at pe \<le> t))
      else if query = TASKS \<and> name = ''task_id'' then Inr (\<lambda>db pe ar. key_part 0 pe = Some v)
      else if query = TASKS \<and> name = ''as_of'' then
        bind_result (filter_instant v) (\<lambda>t. Inr (\<lambda>db pe ar. pe_at pe \<le> t))
      else Inl (invalid_filter ''unsupported snapshot filter''))"

definition lease_filters :: "snapshot_lease \<Rightarrow> row_filter list result" where
  "lease_filters l = map_results (add_filter (sl_query l))
     (filter (\<lambda>p. fst p \<notin> {''limit'', ''cursor''}) (sl_filters l))"

section \<open>The rows of a lease\<close>

definition task_membership :: "snapshot_lease \<Rightarrow> bool" where
  "task_membership l \<longleftrightarrow> sl_query l = TASKS \<and> ''task_id'' \<in> fst ` set (sl_filters l)"

definition lease_kinds :: "snapshot_lease \<Rightarrow> string list" where
  "lease_kinds l = (case sl_query l of
       FACTS \<Rightarrow> FACT_EFFECT_KINDS
     | TASKS \<Rightarrow> if task_membership l then drop 1 TASK_EFFECT_KINDS else take 1 TASK_EFFECT_KINDS
     | TRACES \<Rightarrow> TRACE_EFFECT_KINDS)"

definition enforce_trace_delivery_bound :: "snapshot_lease \<Rightarrow> py_error option" where
  "enforce_trace_delivery_bound l = (case map_of (sl_filters l) ''delivery_id'' of
       None \<Rightarrow> None
     | Some d \<Rightarrow>
         require (length (remdups (filter (\<lambda>t. among t (delivery_traces (sl_db l) d))
              (map (key_part 0) (filter (\<lambda>pe. pe_kind pe \<in> set TRACE_EFFECT_KINDS)
                 (effects (sl_db l)))))) \<le> 32)
           (Snapshot_Error Fault_Bound_Exceeded ''delivery traversal exceeds the published Trace bound''))"

definition trace_marker :: "db \<Rightarrow> effect_row \<Rightarrow> bool" where
  "trace_marker db pe \<longleftrightarrow> list_ex (\<lambda>m. em_class m = ''TRACE_DETAIL'' \<and>
     trace_public_kind (pe_kind pe) = Some (em_kind m) \<and> em_key m = pe_key pe) (markers db)"

definition sort_columns :: "snapshot_lease \<Rightarrow> effect_row \<Rightarrow> position" where
  "sort_columns l pe = (case sl_query l of
       FACTS \<Rightarrow> (Sort_Int (pe_at pe), sort_text (fact_kind_sql (pe_kind pe)), sort_text (fact_id_sql pe))
     | TASKS \<Rightarrow> (sort_text (key_part (if task_membership l then 1 else 0) pe), Sort_Int 0,
                 Sort_Text (pe_key pe))
     | TRACES \<Rightarrow> (sort_text (key_part 0 pe), trace_kind_order (pe_kind pe), Sort_Text (trace_id_sql pe)))"

text \<open>The order of \<open>ORDER BY\<close>, NULL last: a sort key of every column.\<close>

definition rank :: "(string \<Rightarrow> int list) \<Rightarrow> sort_value \<Rightarrow> int \<times> int list" where
  "rank coll v = (case v of Sort_Null \<Rightarrow> (1, []) | Sort_Int i \<Rightarrow> (0, [i]) | Sort_Text s \<Rightarrow> (0, coll s))"

definition bytes_rank :: "string \<Rightarrow> int list" where
  "bytes_rank s = map (\<lambda>c. int (ord_of c)) s"

definition place ::
  "(string \<Rightarrow> int list) \<Rightarrow> query_route \<Rightarrow> position \<Rightarrow> (int \<times> int list) \<times> (int \<times> int list) \<times> (int \<times> int list)" where
  "place coll query pos = (case pos of (a, b, c) \<Rightarrow>
     (rank (if query = TASKS then bytes_rank else coll) a, rank coll b, rank coll c))"

text \<open>The row of an effect: the display name of a listed Task overrides source and instant.\<close>

definition task_list :: "snapshot_lease \<Rightarrow> bool" where
  "task_list l \<longleftrightarrow> sl_query l = TASKS \<and> \<not> task_membership l"

definition display_of :: "snapshot_lease \<Rightarrow> effect_row \<Rightarrow> effect_row option" where
  "display_of l pe =
     (if task_list l then row_with pe_id (''task_display_name'', pe_key pe) (effects (sl_db l)) else None)"

definition text_value :: "string option \<Rightarrow> pyval" where
  "text_value t = (case t of None \<Rightarrow> VNone | Some s \<Rightarrow> VStr s)"

definition row_payload :: "effect_row option \<Rightarrow> effect_row \<Rightarrow> pyval" where
  "row_payload display pe = (case display of
       None \<Rightarrow> pe_payload pe
     | Some d \<Rightarrow> VDict (dset (the_dict (pe_payload pe)) ''display_name''
         (text_value (path_text [''display_name''] (pe_payload d)))))"

definition row_source :: "effect_row option \<Rightarrow> effect_row \<Rightarrow> source" where
  "row_source display pe = (case display of None \<Rightarrow> pe_source pe | Some d \<Rightarrow> pe_source d)"

definition row_instant :: "effect_row option \<Rightarrow> effect_row \<Rightarrow> instant" where
  "row_instant display pe = (case display of None \<Rightarrow> pe_at pe | Some d \<Rightarrow> pe_at d)"

definition selects :: "snapshot_lease \<Rightarrow> row_filter list \<Rightarrow> effect_row \<Rightarrow> accepted_row \<Rightarrow> bool" where
  "selects l fs pe ar \<longleftrightarrow>
     pe_kind pe \<in> set (lease_kinds l) \<and> list_all (\<lambda>f. f (sl_db l) pe ar) fs \<and>
     (sl_query l = TRACES \<longrightarrow> \<not> trace_marker (sl_db l) pe)"

definition row_of :: "snapshot_lease \<Rightarrow> row_filter list \<Rightarrow> effect_row \<Rightarrow> snapshot_row option" where
  "row_of l fs pe =
     (let display = display_of l pe; src = row_source display pe in
      case row_with ar_identity src (accepted (sl_db l)) of
        None \<Rightarrow> None
      | Some ar \<Rightarrow>
          if selects l fs pe ar then Some
            \<lparr>sr_kind = pe_kind pe, sr_key = pe_key pe, sr_payload = row_payload display pe,
             sr_source = src, sr_at = row_instant display pe, sr_digest = ar_digest ar,
             sr_profile = ar_profile ar, sr_family = ar_family ar, sr_sort = sort_columns l pe\<rparr>
          else None)"

definition row_place :: "(string \<Rightarrow> int list) \<Rightarrow> snapshot_lease \<Rightarrow> snapshot_row \<Rightarrow> _" where
  "row_place coll l r = place coll (sl_query l) (sr_sort r)"

definition ordered_rows :: "(string \<Rightarrow> int list) \<Rightarrow> snapshot_lease \<Rightarrow> row_filter list \<Rightarrow> snapshot_row list" where
  "ordered_rows coll l fs =
     sort_key (row_place coll l) (List.map_filter (row_of l fs) (effects (sl_db l)))"

text \<open>
  The rows after a position.  In SQL a NULL in a compared column would drop the row; the sort
  columns of projected effects are never NULL, so their places are compared as they are.
\<close>

definition beyond ::
  "(string \<Rightarrow> int list) \<Rightarrow> snapshot_lease \<Rightarrow> position option \<Rightarrow> snapshot_row list \<Rightarrow> snapshot_row list" where
  "beyond coll l start rows = (case start of
       None \<Rightarrow> rows
     | Some p \<Rightarrow> filter (\<lambda>r. place coll (sl_query l) p < row_place coll l r) rows)"

definition snapshot_rows ::
  "(string \<Rightarrow> int list) \<Rightarrow> snapshot_lease \<Rightarrow> position option \<Rightarrow> snapshot_row list result" where
  "snapshot_rows coll l start =
     bind_result (lease_filters l) (\<lambda>fs.
     check_then (if sl_query l = TRACES then enforce_trace_delivery_bound l else None)
     (Inr (take (nat (sl_limit l) + 1) (beyond coll l start (ordered_rows coll l fs)))))"

section \<open>Pages\<close>

definition read_snapshot_page ::
  "(string \<Rightarrow> int list) \<Rightarrow> string \<Rightarrow> snapshot_lease \<Rightarrow> position option \<Rightarrow> query_adapter \<Rightarrow>
   snapshot_page result \<times> query_adapter" where
  "read_snapshot_page coll token l start a = (case snapshot_rows coll l start of
       Inl e \<Rightarrow> (Inl e, a)
     | Inr rows \<Rightarrow>
         (let selected = take (nat (sl_limit l)) rows;
              key = (sl_id l, sr_sort (last selected));
              (next_cursor, a1) =
                (if length rows \<le> nat (sl_limit l) then (None, a)
                 else (case map_of (qa_tokens a) key of
                     Some t \<Rightarrow> (Some t, a)
                   | None \<Rightarrow> (Some token, a\<lparr>qa_tokens := (key, token) # qa_tokens a,
                                          qa_cursors := (token, key) # qa_cursors a\<rparr>)));
              (contract, revision) =
                (if sl_query l = TASKS then (''1.0.0'', ''2.0.0'') else (''0.1.0'', ''1.0.0''))
          in (bind_result (map_results query_effect_of selected) (\<lambda>res.
                check_then (check_snapshot_page contract revision (sl_id l))
                  (Inr \<lparr>sp_contract = contract, sp_revision = revision, sp_snapshot = sl_id l,
                        sp_resources = res, sp_next = next_cursor\<rparr>)), a1)))"

section \<open>Leases\<close>

definition lease_with :: "string \<Rightarrow> query_adapter \<Rightarrow> snapshot_lease option" where
  "lease_with sid a = row_with sl_id sid (qa_leases a)"

definition release_lease :: "string \<Rightarrow> query_adapter \<Rightarrow> query_adapter" where
  "release_lease sid a = (case lease_with sid a of
       None \<Rightarrow> a
     | Some l \<Rightarrow> a\<lparr>qa_leases := filter (\<lambda>l. sl_id l \<noteq> sid) (qa_leases a),
                  qa_cursors := filter (\<lambda>(t, sid', p). sid' \<noteq> sid) (qa_cursors a),
                  qa_tokens := filter (\<lambda>((sid', p), t). sid' \<noteq> sid) (qa_tokens a)\<rparr>)"

definition evict_expired :: "instant \<Rightarrow> query_adapter \<Rightarrow> query_adapter" where
  "evict_expired now a =
     fold release_lease (map sl_id (filter (\<lambda>l. sl_expires l \<le> now) (qa_leases a))) a"

definition close_adapter :: "query_adapter \<Rightarrow> query_adapter" where
  "close_adapter a = fold release_lease (map sl_id (qa_leases a)) a"

definition release_snapshot :: "string \<Rightarrow> query_adapter \<Rightarrow> query_adapter" where
  "release_snapshot sid a = release_lease sid a"

text \<open>
  \<open>sid\<close> and \<open>token\<close> are the random texts of this call, \<open>connected\<close> whether the pool gives a
  connection, \<open>db\<close> the database the new transaction sees.
\<close>

definition acquire_snapshot ::
  "(string \<Rightarrow> int list) \<Rightarrow> string \<Rightarrow> string \<Rightarrow> bool \<Rightarrow> db \<Rightarrow> query_route \<Rightarrow> params \<Rightarrow> int \<Rightarrow> instant \<Rightarrow>
   query_adapter \<Rightarrow> snapshot_page result \<times> query_adapter" where
  "acquire_snapshot coll sid token connected db query filters limit now a =
     (if \<not> (1 \<le> limit \<and> limit \<le> 200)
      then (Inl (Snapshot_Error Fault_Invalid ''invalid snapshot query''), a)
      else
        (let a1 = evict_expired now a in
         if qa_lease_limit a1 \<le> int (length (qa_leases a1))
         then (Inl (Snapshot_Error Fault_Unavailable ''snapshot lease capacity exhausted''), a1)
         else if \<not> connected
         then (Inl (Snapshot_Error Fault_Unavailable ''snapshot pool unavailable''), a1)
         else
           (let l = \<lparr>sl_db = db, sl_id = sid, sl_query = query, sl_filters = filters,
                     sl_limit = limit, sl_expires = now + qa_ttl a1\<rparr>;
                a2 = a1\<lparr>qa_leases := qa_leases a1 @ [l]\<rparr>;
                (r, a3) = read_snapshot_page coll token l None a2
            in (case r of Inl e \<Rightarrow> (Inl e, release_lease sid a3) | Inr page \<Rightarrow> (Inr page, a3)))))"

definition continue_snapshot ::
  "(string \<Rightarrow> int list) \<Rightarrow> string \<Rightarrow> string \<Rightarrow> instant \<Rightarrow> query_adapter \<Rightarrow>
   snapshot_page result \<times> query_adapter" where
  "continue_snapshot coll token cursor now a =
     (let a1 = evict_expired now a in
      case map_of (qa_cursors a1) cursor of
        None \<Rightarrow> (Inl (Snapshot_Error Fault_Expired ''snapshot cursor is unavailable''), a1)
      | Some (sid, start) \<Rightarrow>
          (case lease_with sid a1 of
             None \<Rightarrow> (Inl (Snapshot_Error Fault_Expired ''snapshot lease expired''), a1)
           | Some l \<Rightarrow> read_snapshot_page coll token l (Some start) a1))"

section \<open>Expiry, manifests and trace summaries\<close>

definition pair_of :: "pyval \<Rightarrow> string \<times> pyval" where
  "pair_of p = (the_str (the_list p ! 0), the_list p ! 1)"

definition read_expiry ::
  "resource_class \<Rightarrow> string \<Rightarrow> pyval list \<Rightarrow> string \<Rightarrow> query_adapter \<Rightarrow> expiry_record option result" where
  "read_expiry c kind key sid a = (case lease_with sid a of
       None \<Rightarrow> Inl (Snapshot_Error Fault_Expired ''snapshot lease expired'')
     | Some l \<Rightarrow>
         (case row_with em_id (class_value c, kind, key_json key) (markers (sl_db l)) of
            None \<Rightarrow> Inr None
          | Some m \<Rightarrow>
              (let r = \<lparr>er_class = c, er_owner_key = key, er_source = em_source m,
                     er_resource_kind = em_kind m, er_recorded_at = em_recorded_at m,
                     er_compatibility = map pair_of (the_list (em_compatibility m)),
                     er_policy_revision = em_policy m, er_expires_at = em_expires_at m,
                     er_expired_at = em_expired_at m\<rparr>
               in check_then (check_expiry_record r) (Inr (Some r)))))"

definition read_manifest :: "string \<Rightarrow> db \<Rightarrow> query_effect option result" where
  "read_manifest manifest_digest db =
     (case row_with pe_id (''delivery_manifest'', key_json [VStr manifest_digest]) (effects db) of
        None \<Rightarrow> Inr None
      | Some pe \<Rightarrow> (case row_with ar_identity (pe_source pe) (accepted db) of
            None \<Rightarrow> Inr None
          | Some ar \<Rightarrow> bind_result (query_effect_of
              \<lparr>sr_kind = pe_kind pe, sr_key = pe_key pe, sr_payload = pe_payload pe,
               sr_source = pe_source pe, sr_at = pe_at pe, sr_digest = ar_digest ar,
               sr_profile = ar_profile ar, sr_family = ar_family ar,
               sr_sort = (Sort_Null, Sort_Null, Sort_Null)\<rparr>) (\<lambda>q. Inr (Some q))))"

datatype detail_state = Detail_Available | Detail_Partial | Detail_Expired

record trace_summary =
  tr_trace :: string
  tr_state :: detail_state

definition detail_state_of :: "bool \<Rightarrow> bool \<Rightarrow> detail_state" where
  "detail_state_of active expired =
     (if active \<and> \<not> expired then Detail_Available else if active \<and> expired then Detail_Partial
      else Detail_Expired)"

text \<open>Groups by trace id, in its order; the filters of a Trace query read no accepted record.\<close>

definition summary_of :: "snapshot_lease \<Rightarrow> effect_row list \<Rightarrow> string \<Rightarrow> trace_summary result" where
  "summary_of l rows t =
     (let own = filter (\<lambda>pe. key_part 0 pe = Some t) rows in
      check_then (check_trace_summary t)
        (Inr \<lparr>tr_trace = t, tr_state = detail_state_of
           (list_ex (\<lambda>pe. \<not> trace_marker (sl_db l) pe) own)
           (list_ex (trace_marker (sl_db l)) own)\<rparr>))"

definition no_record :: accepted_row where
  "no_record = \<lparr>ar_identity = ([], []), ar_digest = [], ar_profile = [], ar_family = VNone,
     ar_logical = VNone, ar_at = 0\<rparr>"

definition summarize_traces ::
  "(string \<Rightarrow> int list) \<Rightarrow> string \<Rightarrow> query_adapter \<Rightarrow> trace_summary list result" where
  "summarize_traces coll sid a = (case lease_with sid a of
       None \<Rightarrow> Inl (Snapshot_Error Fault_Expired ''snapshot lease expired'')
     | Some l \<Rightarrow>
         if sl_query l \<noteq> TRACES
         then Inl (Snapshot_Error Fault_Mismatch ''snapshot is not a Trace query'')
         else bind_result (lease_filters l) (\<lambda>fs.
           let rows = filter (\<lambda>pe. pe_kind pe \<in> set TRACE_EFFECT_KINDS \<and>
                        list_all (\<lambda>f. f (sl_db l) pe no_record) fs) (effects (sl_db l))
           in map_results (summary_of l rows)
                (sort_key coll (remdups (List.map_filter (key_part 0) rows)))))"

end
