(* ===== verification/Query_Shape.thy ===== *)
theory Query_Shape
  imports Snapshot
begin

text \<open>
  The shapes of query responses (\<open>query/service.py\<close>): which attributes a projection owns, the
  ids they are published under, compatibility, relationships, truth, and the resources of the
  four routes.  A dictionary of the response is a \<open>pydict\<close>.  A payload is a JSON object; a
  subscript of a key or a payload raises as in Python.
\<close>

section \<open>Registries\<close>

definition two_digits :: "nat \<Rightarrow> string" where
  "two_digits n = [digit_char (n div 10), digit_char (n mod 10)]"

definition numbered :: "string \<Rightarrow> string list \<Rightarrow> (string \<times> string) list" where
  "numbered letter names = map2 (\<lambda>name i. (name, letter @ two_digits i)) names [1..<Suc (length names)]"

definition FIELD_IDS :: "(string \<times> string) list" where
  "FIELD_IDS =
     numbered ''C''
       [''agentops.delivery.id'', ''agentops.task.id'', ''agentops.workflow.id'',
        ''agentops.workflow.version'', ''agentops.implementation.id'', ''agentops.runtime.id'',
        ''agentops.manifest.digest'', ''agentops.workflow.family'', ''agentops.event.id'',
        ''agentops.delivery.outcome'', ''agentops.summary.state'', ''agentops.review.id'',
        ''agentops.review.lens'', ''agentops.review.scope'', ''agentops.review.severity'',
        ''agentops.review.total'', ''agentops.review.observed.count'', ''agentops.finding.id'',
        ''agentops.finding.status'', ''agentops.source.review.id'', ''agentops.fix.id'',
        ''agentops.fix.finding.id'', ''agentops.recheck.id'', ''agentops.recheck.review.id'',
        ''agentops.recheck.finding.id'', ''agentops.recheck.fix.id'', ''agentops.iteration.id'',
        ''agentops.artifact.id'', ''agentops.artifact.digest'', ''agentops.role.id'',
        ''agentops.role.lineage.id'', ''agentops.parent.role.id'', ''agentops.writer.role.id'',
        ''agentops.reviewer.role.id'', ''agentops.recheck.role.id'',
        ''agentops.writer.invocation.id'', ''agentops.reviewer.invocation.id'',
        ''agentops.recheck.invocation.id'', ''agentops.intervention.kind'',
        ''agentops.observed.loop.count'', ''agentops.observed.intervention.count'',
        ''agentops.usage.kind'', ''agentops.usage.unit'', ''agentops.usage.source'',
        ''agentops.usage.source.id'', ''agentops.usage.value'', ''agentops.sampling.decision'',
        ''agentops.sampling.probability'', ''agentops.family.schema'', ''agentops.finding.summary'',
        ''agentops.finding.scope.id'', ''agentops.finding.target.kind'',
        ''agentops.finding.target.id'', ''agentops.finding.target.artifact.id'',
        ''agentops.delivery.elapsed_time_ms'', ''agentops.delivery.stage.reached'',
        ''agentops.model.id''] @
     numbered ''I''
       [''agentops.test.passed'', ''agentops.test.failed'', ''agentops.test.skipped'',
        ''agentops.test.duration.seconds'', ''agentops.coverage.dimension'',
        ''agentops.coverage.covered'', ''agentops.coverage.total'', ''agentops.coverage.scope'',
        ''agentops.coverage.tool.id'', ''agentops.coverage.format''] @
     numbered ''S''
       [''agentops.fresh_reader.result'', ''agentops.fresh_reader.finding.count'',
        ''agentops.verification.id'', ''agentops.verification.result'',
        ''agentops.verification.check.passed'', ''agentops.verification.check.failed'']"

definition VALUE_FIELDS :: "string list" where
  "VALUE_FIELDS = [''C16'', ''C17'', ''C40'', ''C41'', ''C46'', ''C55'', ''I01'', ''I02'', ''I03'',
     ''I04'', ''I06'', ''I07'', ''S02'', ''S05'', ''S06'', ''gen_ai.usage.input_tokens'',
     ''gen_ai.usage.output_tokens'']"

definition QUERY_TRACE_KINDS :: "(string \<times> string) list" where
  "QUERY_TRACE_KINDS =
     [(''trace_node'', ''NODE''), (''trace_parent_edge'', ''PARENT_EDGE''), (''trace_link'', ''LINK'')]"

section \<open>Identities\<close>

definition item_at :: "pyval list \<Rightarrow> nat \<Rightarrow> pyval result" where
  "item_at vs i = (if i < length vs then Inr (vs ! i) else Inl Index_Error)"

text \<open>\<open>str\<close> of a component of an identity; identities are arrays of strings.\<close>

definition str_of :: "pyval \<Rightarrow> string" where
  "str_of v = (case v of VStr s \<Rightarrow> s | VNone \<Rightarrow> ''None'' | VInt i \<Rightarrow> int_str i | _ \<Rightarrow> json_dumps v)"

definition source_of :: "query_effect \<Rightarrow> pydict result" where
  "source_of e =
     bind_result (json_loads dict_hook (snd (se_source e))) (\<lambda>v.
       let identity = the_list v in
       if fst (se_source e) = ''event'' then
         bind_result (item_at identity 1) (\<lambda>i.
           Inr [(''kind'', VStr ''EVENT''), (''event_id'', VStr (str_of i))])
       else
         bind_result (item_at identity 1) (\<lambda>t. bind_result (item_at identity 2) (\<lambda>s.
           Inr [(''kind'', VStr ''SPAN''), (''trace_id'', VStr (str_of t)), (''span_id'', VStr (str_of s))])))"

definition resource_id :: "query_effect \<Rightarrow> string \<Rightarrow> string" where
  "resource_id e kind =
     (if se_kind e \<in> fst ` set QUERY_TRACE_KINDS then ''trace'' else ''fact'') @ '':'' @ fst (se_source e) @
     '':'' @ snd (se_source e) @ '':'' @ kind @ '':'' @ key_json (se_key e)"

section \<open>Attributes\<close>

definition payload_of :: "query_effect \<Rightarrow> pydict" where
  "payload_of e = the_dict (se_payload e)"

text \<open>A dictionary display over the key and the payload: positions first, then names.\<close>

definition display ::
  "query_effect \<Rightarrow> (string \<times> nat) list \<Rightarrow> (string \<times> string) list \<Rightarrow> pydict result" where
  "display e from_key from_payload = check_then (first_error
     [require (list_all (\<lambda>(n, i). i < length (se_key e)) from_key) Index_Error,
      need (map snd from_payload) (payload_of e)])
     (Inr (map (\<lambda>(n, i). (n, se_key e ! i)) from_key @ pick (payload_of e) from_payload))"

definition participant_fields :: "(string \<times> string) list" where
  "participant_fields =
     [(''agentops.writer.role.id'', ''writer_role_id''),
      (''agentops.writer.invocation.id'', ''writer_invocation_id''),
      (''agentops.reviewer.role.id'', ''reviewer_role_id''),
      (''agentops.reviewer.invocation.id'', ''reviewer_invocation_id'')]"

definition finding_position :: "(string \<times> nat) list" where
  "finding_position = [(''agentops.finding.id'', 0), (''agentops.finding.scope.id'', 1)]"

definition target_attributes :: "query_effect \<Rightarrow> pydict result" where
  "target_attributes e =
     bind_result (display e (finding_position @ [(''agentops.finding.target.kind'', 2),
        (''agentops.finding.target.id'', 3)]) []) (\<lambda>a.
     bind_result (item_at (se_key e) 4) (\<lambda>artifact.
       Inr (if artifact \<noteq> VNone then a @ [(''agentops.finding.target.artifact.id'', artifact)] else a)))"

definition recheck_attributes :: "query_effect \<Rightarrow> pydict result" where
  "recheck_attributes e =
     bind_result (display e (finding_position @ [(''agentops.recheck.id'', 5)])
       ([(''agentops.review.id'', ''review_id''), (''agentops.recheck.review.id'', ''prior_review_id''),
         (''agentops.recheck.finding.id'', ''finding_id''), (''agentops.iteration.id'', ''iteration_id'')]
        @ participant_fields @
        [(''agentops.recheck.role.id'', ''recheck_role_id''),
         (''agentops.recheck.invocation.id'', ''recheck_invocation_id'')])) (\<lambda>a.
     bind_result (item (payload_of e) ''fix_id'') (\<lambda>fix_id.
       Inr (if fix_id \<noteq> VNone then a @ [(''agentops.recheck.fix.id'', fix_id)] else a)))"

definition projected_attributes :: "query_effect \<Rightarrow> pydict result" where
  "projected_attributes e =
     (let k = se_kind e; p = payload_of e in
      if k = ''factual_contribution'' then Inr (the_dict (dget p ''attributes''))
      else if k = ''finding_assertion'' \<or> k = ''role_lineage''
      then Inr (filter (\<lambda>(n, v). n \<noteq> ''_otel_context'') p)
      else if k = ''finding_target'' then target_attributes e
      else if k = ''finding_status'' then
        display e (finding_position @ [(''agentops.review.id'', 2)])
          ((''agentops.finding.status'', ''status'') # participant_fields)
      else if k = ''finding_fix'' then
        display e (finding_position @ [(''agentops.fix.id'', 5)])
          ([(''agentops.fix.finding.id'', ''finding_id''), (''agentops.review.id'', ''review_id'')]
           @ participant_fields)
      else if k = ''finding_recheck'' then recheck_attributes e
      else if k = ''delivery_root_binding'' then
        display e []
          [(''agentops.delivery.id'', ''delivery_id''), (''agentops.runtime.id'', ''runtime_id''),
           (''agentops.manifest.digest'', ''manifest_digest''),
           (''agentops.workflow.family'', ''workflow_family'')]
      else if k = ''model_attribution'' then
        display e [(''gen_ai.provider.name'', 0), (''agentops.model.id'', 1), (''agentops.role.id'', 2),
           (''agentops.runtime.id'', 3)] [(''gen_ai.request.model'', ''request_model'')]
      else Inr [])"

definition owned_names :: "string \<Rightarrow> string list" where
  "owned_names k =
     (if k = ''finding_target'' then
        [''agentops.finding.id'', ''agentops.finding.scope.id'', ''agentops.finding.target.kind'',
         ''agentops.finding.target.id'', ''agentops.finding.target.artifact.id'']
      else if k = ''finding_status'' then
        [''agentops.finding.id'', ''agentops.finding.scope.id'', ''agentops.finding.status'',
         ''agentops.review.id'', ''agentops.writer.role.id'', ''agentops.writer.invocation.id'',
         ''agentops.reviewer.role.id'', ''agentops.reviewer.invocation.id'']
      else if k = ''finding_fix'' then
        [''agentops.finding.id'', ''agentops.fix.id'', ''agentops.fix.finding.id'',
         ''agentops.review.id'', ''agentops.writer.role.id'', ''agentops.writer.invocation.id'',
         ''agentops.reviewer.role.id'', ''agentops.reviewer.invocation.id'']
      else if k = ''finding_recheck'' then
        [''agentops.finding.id'', ''agentops.finding.scope.id'', ''agentops.recheck.id'',
         ''agentops.review.id'', ''agentops.recheck.review.id'', ''agentops.recheck.finding.id'',
         ''agentops.recheck.fix.id'', ''agentops.iteration.id'', ''agentops.writer.role.id'',
         ''agentops.writer.invocation.id'', ''agentops.reviewer.role.id'',
         ''agentops.reviewer.invocation.id'', ''agentops.recheck.role.id'',
         ''agentops.recheck.invocation.id'']
      else if k = ''role_lineage'' then
        [''agentops.family.schema'', ''agentops.role.id'', ''agentops.role.lineage.id'',
         ''agentops.parent.role.id'']
      else if k = ''delivery_root_binding'' then
        [''agentops.delivery.id'', ''agentops.runtime.id'', ''agentops.manifest.digest'',
         ''agentops.workflow.family'']
      else if k = ''model_attribution'' then
        [''gen_ai.provider.name'', ''gen_ai.request.model'', ''agentops.model.id'',
         ''agentops.role.id'', ''agentops.runtime.id'']
      else [])"

definition owned_attributes :: "query_effect \<Rightarrow> pydict result" where
  "owned_attributes e =
     bind_result (projected_attributes e) (\<lambda>a. Inr
       (if se_kind e \<in> {''factual_contribution'', ''finding_assertion''} then a
        else pick_same a (filter (has_key a) (owned_names (se_kind e)))))"

section \<open>Truth\<close>

definition completeness_value :: "completeness \<Rightarrow> string" where
  "completeness_value c = (case c of FINAL \<Rightarrow> ''FINAL'' | LOWER_BOUND \<Rightarrow> ''LOWER_BOUND''
     | NOT_APPLICABLE \<Rightarrow> ''NOT_APPLICABLE'' | C_UNAVAILABLE \<Rightarrow> ''UNAVAILABLE'')"

text \<open>\<open>Completeness(value)\<close>, unless the value is \<open>None\<close>.\<close>

definition to_completeness :: "pyval \<Rightarrow> completeness option result" where
  "to_completeness v =
     (if v = VNone then Inr None
      else (case List.find (\<lambda>c. v = VStr (completeness_value c))
                   [FINAL, LOWER_BOUND, NOT_APPLICABLE, C_UNAVAILABLE] of
          None \<Rightarrow> Inl (Value_Error ''not a valid Completeness'')
        | Some c \<Rightarrow> Inr (Some c)))"

definition completeness_of :: "query_effect \<Rightarrow> completeness option result" where
  "completeness_of e =
     bind_result (projected_attributes e) (\<lambda>a. to_completeness (dget a ''agentops.summary.state''))"

text \<open>\<open>dict(pairs).get(k)\<close>: the last pair with the key.\<close>

definition pairs_get :: "(string \<times> pyval) list \<Rightarrow> string \<Rightarrow> pyval" where
  "pairs_get ps k = dget (rev ps) k"

definition truth_of ::
  "query_effect \<Rightarrow> int option \<Rightarrow> bool \<Rightarrow> expiry_record option \<Rightarrow> pydict result" where
  "truth_of e ttl trace expiry =
     bind_result
       (if trace then Inr None
        else (case expiry of
            Some x \<Rightarrow> to_completeness (pairs_get (er_compatibility x) ''completeness'')
          | None \<Rightarrow> completeness_of e))
       (\<lambda>c.
         let truth = \<lparr>ts_completeness = c,
               ts_availability = (if expiry \<noteq> None \<or> c = Some C_UNAVAILABLE then UNAVAILABLE else AVAILABLE),
               ts_expiry = (if expiry \<noteq> None then EXPIRED else ACTIVE),
               ts_expires_at = (case expiry of Some x \<Rightarrow> Some (er_expires_at x)
                  | None \<Rightarrow> map_option (\<lambda>d. se_at e + d) ttl)\<rparr>
         in check_then (check_truth_state truth) (Inr
           [(''completeness'', case c of None \<Rightarrow> VNone | Some x \<Rightarrow> VStr (completeness_value x)),
            (''availability'', VStr (if ts_availability truth = UNAVAILABLE then ''UNAVAILABLE'' else ''AVAILABLE'')),
            (''expiry'', VStr (if ts_expiry truth = EXPIRED then ''EXPIRED'' else ''ACTIVE'')),
            (''expires_at'', case ts_expires_at truth of None \<Rightarrow> VNone | Some t \<Rightarrow> VStr (timestamp t))]))"

section \<open>Fields\<close>

definition field_entry :: "string \<Rightarrow> pyval \<Rightarrow> pyval" where
  "field_entry i v = VDict [(''field'', VStr i), (''value'', v)]"

text \<open>\<open>_field_sort_key\<close>: registry fields by letter and number, then the others by name.\<close>

definition field_sort_key :: "string \<Rightarrow> nat \<times> nat \<times> string" where
  "field_sort_key f = (case f of
       [l, d1, d2] \<Rightarrow>
         if l \<in> {CHR ''C'', CHR ''I'', CHR ''S''} \<and> is_digit d1 \<and> is_digit d2
         then (if l = CHR ''C'' then 0 else if l = CHR ''I'' then 1 else 2, digits_val [d1, d2], [])
         else (3, 0, f)
     | _ \<Rightarrow> (3, 0, f))"

definition field_id :: "string \<Rightarrow> string option" where
  "field_id n = (case map_of FIELD_IDS n of
       Some i \<Rightarrow> Some i
     | None \<Rightarrow> if starts_with n ''gen_ai.'' then Some n else None)"

definition withheld :: "completeness option \<Rightarrow> string \<Rightarrow> bool" where
  "withheld c i \<longleftrightarrow> (c = Some NOT_APPLICABLE \<or> c = Some C_UNAVAILABLE) \<and> i \<in> set VALUE_FIELDS"

definition published :: "completeness option \<Rightarrow> pydict \<Rightarrow> (string \<times> pyval) list" where
  "published c a = sort_key (\<lambda>p. field_sort_key (fst p))
     (List.map_filter (\<lambda>(n, v). case field_id n of
        None \<Rightarrow> None | Some i \<Rightarrow> if withheld c i then None else Some (i, v)) a)"

definition fields_of :: "query_effect \<Rightarrow> (string \<times> pyval) list result" where
  "fields_of e = bind_result (owned_attributes e) (\<lambda>a.
     bind_result (completeness_of e) (\<lambda>c. Inr (published c a)))"

definition field_entries :: "(string \<times> pyval) list \<Rightarrow> pyval" where
  "field_entries fs = VList (map (\<lambda>(i, v). field_entry i v) fs)"

section \<open>Compatibility and relationships\<close>

definition coordinate_fields :: "query_effect \<Rightarrow> string option \<Rightarrow> string list" where
  "coordinate_fields e event =
     (if se_kind e = ''finding_assertion'' then [''C13'', ''C14'']
      else if se_kind e = ''model_attribution'' then [''gen_ai.provider.name'', ''C57'', ''C30'', ''C06'']
      else if event = Some ''usage'' then [''C42'', ''C43'', ''C44'', ''C45'']
      else if event = Some ''implementation.summary'' then [''I05'', ''I08'', ''I09'', ''I10'']
      else if event = Some ''test.summary'' then [''C28'', ''C29'']
      else if event = Some ''review.summary'' then [''C13'', ''C14'']
      else [])"

definition field_name :: "string \<Rightarrow> string" where
  "field_name i = (case map_of (map prod.swap FIELD_IDS) i of None \<Rightarrow> i | Some n \<Rightarrow> n)"

definition compatibility_of :: "query_effect \<Rightarrow> pydict result" where
  "compatibility_of e =
     bind_result (projected_attributes e) (\<lambda>a.
     bind_result (if se_kind e = ''factual_contribution''
                  then bind_result (item_at (se_key e) 0) (\<lambda>v. Inr (Some (str_of v))) else Inr None) (\<lambda>event.
     Inr [(''family_schema'', qe_family e), (''event_name'', text_value event),
          (''completeness'', dget a ''agentops.summary.state''),
          (''dimensions'', VList (map (\<lambda>i. field_entry i (dget a (field_name i)))
             (filter (\<lambda>i. has_key a (field_name i)) (coordinate_fields e event))))]))"

definition endpoint :: "string \<Rightarrow> pyval list \<Rightarrow> pyval" where
  "endpoint kind key = VDict [(''kind'', VStr kind), (''key'', VList key)]"

definition relationship :: "string \<Rightarrow> pyval \<Rightarrow> pyval \<Rightarrow> pyval" where
  "relationship kind a b = VDict [(''kind'', VStr kind), (''from'', a), (''to'', b)]"

definition relationships_of :: "query_effect \<Rightarrow> pyval list result" where
  "relationships_of e =
     bind_result (projected_attributes e) (\<lambda>a.
       let k = se_kind e; key = se_key e in
       if k = ''finding_target'' then
         Inr [relationship ''FINDING_TARGET'' (endpoint ''FINDING'' (take 2 key)) (endpoint ''FINDING_TARGET'' key)]
       else if k = ''finding_fix'' then
         bind_result (item_at key 5) (\<lambda>f.
           Inr [relationship ''FINDING_FIX'' (endpoint ''FIX'' [f]) (endpoint ''FINDING_TARGET'' (take 5 key))])
       else if k = ''finding_recheck'' then
         bind_result (item_at key 5) (\<lambda>r.
           Inr [relationship ''FINDING_RECHECK'' (endpoint ''RECHECK'' [r]) (endpoint ''FINDING_TARGET'' (take 5 key))])
       else if k = ''role_lineage'' then
         bind_result (item_at key 0) (\<lambda>f.
           Inr [relationship ''ROLE_LINEAGE'' (endpoint ''ROLE'' [f, dget a ''agentops.role.id''])
                  (endpoint ''ROLE_LINEAGE'' [f, dget a ''agentops.role.lineage.id''])])
       else if k = ''delivery_root_binding'' then
         bind_result (source_of e) (\<lambda>s.
         bind_result (item s ''trace_id'') (\<lambda>t. bind_result (item s ''span_id'') (\<lambda>sp.
         bind_result (item (payload_of e) ''delivery_id'') (\<lambda>d.
           Inr [relationship ''DELIVERY_ROOT'' (endpoint ''SPAN'' [t, sp]) (endpoint ''DELIVERY'' [d])]))))
       else if k = ''model_attribution'' then
         Inr [relationship ''MODEL_ATTRIBUTION'' (endpoint ''SPAN'' (drop 4 key))
                (endpoint ''MODEL_ROLE'' (take 4 key))]
       else Inr [])"

section \<open>Resources\<close>

definition expired_compatibility :: "expiry_record \<Rightarrow> pydict" where
  "expired_compatibility x =
     [(''family_schema'', pairs_get (er_compatibility x) ''family_schema''),
      (''event_name'', pairs_get (er_compatibility x) ''event_name''),
      (''completeness'', pairs_get (er_compatibility x) ''completeness''),
      (''dimensions'', VList (map (\<lambda>(f, v). field_entry f v) (filter (\<lambda>(f, v).
         f \<notin> {''family_schema'', ''event_name'', ''completeness'', ''delivery_id'', ''trace_id''})
         (er_compatibility x))))]"

definition internal_error :: "string \<Rightarrow> py_error" where
  "internal_error m = Query_Error QUERY_INTERNAL m"

definition fact_resource :: "query_effect \<Rightarrow> expiry_record option \<Rightarrow> int option \<Rightarrow> pydict result" where
  "fact_resource e expiry ttl = (case map_of FACT_KINDS (se_kind e) of
       None \<Rightarrow> Inl (internal_error ''unsupported factual projection kind'')
     | Some kind \<Rightarrow>
         bind_result (source_of e) (\<lambda>source.
         bind_result (case expiry of Some x \<Rightarrow> Inr (expired_compatibility x) | None \<Rightarrow> compatibility_of e) (\<lambda>compat.
         bind_result (truth_of e ttl False expiry) (\<lambda>truth.
         bind_result (if expiry \<noteq> None then Inr [] else fields_of e) (\<lambda>fs.
         bind_result (if expiry \<noteq> None then Inr [] else relationships_of e) (\<lambda>rels.
         Inr [(''id'', VStr (resource_id e kind)), (''kind'', VStr kind), (''source'', VDict source),
              (''recorded_at'', VStr (timestamp (se_at e))),
              (''provenance'', VDict [(''accepted_digest'', VStr (qe_digest e)),
                 (''profile_version'', VStr (qe_profile e)), (''family_schema'', qe_family e),
                 (''owner_key'', VList (se_key e))]),
              (''compatibility'', VDict compat), (''truth'', VDict truth),
              (''fields'', field_entries fs), (''relationships'', VList rels)]))))))"

definition remove_key :: "pydict \<Rightarrow> string \<Rightarrow> pydict" where
  "remove_key d k = filter (\<lambda>(n, v). n \<noteq> k) d"

definition trace_fields :: "pydict \<Rightarrow> pyval" where
  "trace_fields a = field_entries (sort_key (\<lambda>p. field_sort_key (fst p))
     (List.map_filter (\<lambda>(n, v). map_option (\<lambda>i. (i, v)) (field_id n)) a))"

definition edge_of :: "pyval \<Rightarrow> pyval \<Rightarrow> pyval \<Rightarrow> pyval \<Rightarrow> pydict" where
  "edge_of t s t' s' =
     [(''from'', VDict [(''trace_id'', t), (''span_id'', s)]),
      (''to'', VDict [(''trace_id'', t'), (''span_id'', s')])]"

definition trace_shape :: "query_effect \<Rightarrow> string \<Rightarrow> pyval \<Rightarrow> (pyval \<times> pyval) result" where
  "trace_shape e kind trace =
     (let key = se_key e; p = payload_of e in
      if kind = ''NODE'' then
        bind_result (item_at key 1) (\<lambda>s.
          let node = dset p ''span_id'' s in
          Inr (VDict (dset (remove_key node ''attributes'') ''fields''
                 (trace_fields (the_dict (dget node ''attributes'')))), VNone))
      else if kind = ''PARENT_EDGE'' then
        bind_result (item_at key 1) (\<lambda>s. bind_result (item_at key 2) (\<lambda>s'.
          Inr (VNone, VDict (edge_of trace s trace s'))))
      else
        bind_result (item_at key 1) (\<lambda>s. bind_result (item_at key 2) (\<lambda>t'. bind_result (item_at key 3) (\<lambda>s'.
          Inr (VNone, VDict (edge_of trace s t' s'
                 @ pick_same p (filter (has_key p) [''trace_state'', ''flags''])))))))"

definition trace_resource :: "query_effect \<Rightarrow> int option \<Rightarrow> pydict result" where
  "trace_resource e ttl = (case map_of QUERY_TRACE_KINDS (se_kind e) of
       None \<Rightarrow> Inl (internal_error ''unsupported Trace projection kind'')
     | Some kind \<Rightarrow>
         bind_result (item_at (se_key e) 0) (\<lambda>v.
         let trace = VStr (str_of v) in
         bind_result (trace_shape e kind trace) (\<lambda>(node, edge).
         bind_result (source_of e) (\<lambda>source.
         bind_result (truth_of e ttl True None) (\<lambda>truth.
         Inr [(''id'', VStr (resource_id e kind)), (''trace_id'', trace), (''kind'', VStr kind),
              (''source'', VDict source), (''recorded_at'', VStr (timestamp (se_at e))),
              (''truth'', VDict truth), (''node'', node), (''edge'', edge)])))))"

definition task_provenance :: "query_effect \<Rightarrow> pydict result" where
  "task_provenance e = bind_result (source_of e) (\<lambda>source. Inr
     [(''accepted_digest'', VStr (qe_digest e)), (''profile_version'', VStr (qe_profile e)),
      (''source'', VDict source)])"

definition task_list_resource :: "query_effect \<Rightarrow> pydict result" where
  "task_list_resource e =
     (if se_kind e \<noteq> ''task_declaration''
      then Inl (internal_error ''unsupported Task list projection kind'')
      else bind_result (item_at (se_key e) 0) (\<lambda>task.
           bind_result (task_provenance e) (\<lambda>prov.
           Inr [(''task_id'', task), (''display_name'', dget (payload_of e) ''display_name''),
                (''provenance'', VDict prov)])))"

definition task_membership_resource :: "query_effect \<Rightarrow> pydict result" where
  "task_membership_resource e =
     (if se_kind e \<noteq> ''delivery_task_membership''
      then Inl (internal_error ''unsupported Task membership kind'')
      else bind_result (item_at (se_key e) 0) (\<lambda>task.
           bind_result (item_at (se_key e) 1) (\<lambda>delivery.
           bind_result (item (payload_of e) ''manifest_digest'') (\<lambda>manifest.
           bind_result (task_provenance e) (\<lambda>prov.
           Inr [(''task_id'', task), (''delivery_id'', delivery), (''manifest_digest'', manifest),
                (''recorded_at'', VStr (timestamp (se_at e))), (''provenance'', VDict prov)])))))"

definition page_envelope :: "string \<Rightarrow> snapshot_page \<Rightarrow> pydict list \<Rightarrow> pydict" where
  "page_envelope profile page items =
     [(''contract'', VDict [(''name'', VStr ''evidence.query''), (''revision'', VStr (sp_contract page))]),
      (''observation_profile'', VStr profile),
      (''read_model_revision'', VStr (sp_revision page)),
      (''snapshot'', VStr (sp_snapshot page)),
      (''items'', VList (map VDict items)),
      (''next_cursor'', text_value (sp_next page))]"

definition query_envelope :: "snapshot_page \<Rightarrow> pydict list \<Rightarrow> pydict" where
  "query_envelope page items = page_envelope ''1.0.0'' page items"

definition task_envelope :: "snapshot_page \<Rightarrow> pydict list \<Rightarrow> pydict" where
  "task_envelope page items = page_envelope ''2.0.0'' page items"

end
