(* ===== verification/Query_Service.thy ===== *)
theory Query_Service
  imports Query_Shape
begin

text \<open>
  \<open>QueryService\<close> (\<open>query/service.py\<close>) over a read model.  The read model's operations are a
  record of functions on its state, in the order of the Protocols \<open>QueryExpiryReadModel\<close>,
  \<open>SnapshotReleaser\<close> and \<open>ManifestReader\<close>; the locale \<open>snapshot_model\<close> says what they promise about
  the snapshots a model holds.  The service's own state is the table of cursor bindings.
\<close>

section \<open>Read models\<close>

record 'm read_model =
  rm_acquire :: "query_route \<Rightarrow> params \<Rightarrow> int \<Rightarrow> instant \<Rightarrow> 'm \<Rightarrow> snapshot_page result \<times> 'm"
  rm_continue :: "string \<Rightarrow> instant \<Rightarrow> 'm \<Rightarrow> snapshot_page result \<times> 'm"
  rm_expiry :: "resource_class \<Rightarrow> string \<Rightarrow> pyval list \<Rightarrow> string \<Rightarrow> 'm \<Rightarrow> expiry_record option result"
  rm_summaries :: "string \<Rightarrow> 'm \<Rightarrow> trace_summary list result"
  rm_release :: "string \<Rightarrow> 'm \<Rightarrow> 'm"
  rm_manifest :: "string \<Rightarrow> 'm \<Rightarrow> query_effect option result"

type_synonym cursor_binding = "query_route \<times> params \<times> int"

record 'm query_state =
  qs_model :: 'm
  qs_bindings :: "(string \<times> cursor_binding) list"

section \<open>Pages\<close>

definition CURSOR_TEXT :: re where
  "CURSOR_TEXT = Rep (Class (alnum @ [(CHR ''_'', CHR ''_''), (CHR ''-'', CHR ''-'')])) 43 43"

definition fault_code :: "bool \<Rightarrow> snapshot_fault \<Rightarrow> query_code" where
  "fault_code has_cursor f = (case f of
       Fault_Invalid \<Rightarrow> if has_cursor then INVALID_CURSOR else INVALID_FILTER
     | Fault_Mismatch \<Rightarrow> CURSOR_MISMATCH
     | Fault_Expired \<Rightarrow> CURSOR_EXPIRED
     | Fault_Bound_Exceeded \<Rightarrow> QUERY_BOUND_EXCEEDED
     | Fault_Unavailable \<Rightarrow> QUERY_UNAVAILABLE)"

definition page_error :: "bool \<Rightarrow> py_error \<Rightarrow> py_error" where
  "page_error has_cursor e = (case e of
       Query_Error c m \<Rightarrow> Query_Error c m
     | Snapshot_Error f m \<Rightarrow> Query_Error (fault_code has_cursor f) ''snapshot request could not be completed''
     | _ \<Rightarrow> Query_Error QUERY_INTERNAL ''query failed safely'')"

definition cursor_check :: "(string \<times> cursor_binding) list \<Rightarrow> cursor_binding \<Rightarrow> string \<Rightarrow> py_error option" where
  "cursor_check bindings binding cursor = first_error
     [require (fullmatch CURSOR_TEXT cursor) (Query_Error INVALID_CURSOR ''cursor is malformed''),
      (case map_of bindings cursor of
         None \<Rightarrow> None
       | Some known \<Rightarrow> require (known = binding)
           (Query_Error CURSOR_MISMATCH ''cursor parameters do not match the first page''))]"

definition query_page ::
  "'m read_model \<Rightarrow> instant \<Rightarrow> query_route \<Rightarrow> params \<Rightarrow> string option \<Rightarrow> int \<Rightarrow> 'm query_state \<Rightarrow>
   snapshot_page result \<times> 'm query_state" where
  "query_page rm now query filters cursor limit s =
     (let binding = (query, filters, limit);
          (r, m) = (case cursor of
             None \<Rightarrow> rm_acquire rm query filters limit now (qs_model s)
           | Some c \<Rightarrow> (case cursor_check (qs_bindings s) binding c of
                 Some e \<Rightarrow> (Inl e, qs_model s)
               | None \<Rightarrow> rm_continue rm c now (qs_model s)))
      in case r of
           Inl e \<Rightarrow> (Inl (page_error (cursor \<noteq> None) e), s\<lparr>qs_model := m\<rparr>)
         | Inr page \<Rightarrow>
             (Inr page, s\<lparr>qs_model := m,
                qs_bindings := (case sp_next page of None \<Rightarrow> qs_bindings s
                  | Some c \<Rightarrow> (c, binding) # qs_bindings s)\<rparr>))"

definition release :: "'m read_model \<Rightarrow> string \<Rightarrow> 'm query_state \<Rightarrow> 'm query_state" where
  "release rm sid s = s\<lparr>qs_model := rm_release rm sid (qs_model s)\<rparr>"

text \<open>
  What \<open>facts\<close>, \<open>traces\<close> and \<open>tasks\<close> share: shape the page, release the snapshot when the shaping
  raises or when the first page is the only one.
\<close>

definition answer ::
  "'m read_model \<Rightarrow> instant \<Rightarrow> query_route \<Rightarrow> normal_query \<Rightarrow> ('m \<Rightarrow> snapshot_page \<Rightarrow> pydict result) \<Rightarrow>
   'm query_state \<Rightarrow> pydict result \<times> 'm query_state" where
  "answer rm now query nq shape_page s =
     (case nq of (filters, cursor, limit) \<Rightarrow>
      (case query_page rm now query filters cursor limit s of
         (Inl e, s1) \<Rightarrow> (Inl e, s1)
       | (Inr page, s1) \<Rightarrow>
           (case shape_page (qs_model s1) page of
              Inl e \<Rightarrow> (Inl e, release rm (sp_snapshot page) s1)
            | Inr response \<Rightarrow>
                (Inr response,
                 if cursor = None \<and> sp_next page = None then release rm (sp_snapshot page) s1 else s1))))"

section \<open>Facts\<close>

definition fact_item ::
  "'m read_model \<Rightarrow> int option \<Rightarrow> string \<Rightarrow> 'm \<Rightarrow> query_effect \<Rightarrow> pydict result" where
  "fact_item rm ttl sid m e = (case map_of FACT_KINDS (se_kind e) of
       None \<Rightarrow> Inl (Key_Error (se_kind e))
     | Some kind \<Rightarrow> bind_result (rm_expiry rm FACTUAL_PROJECTION kind (se_key e) sid m) (\<lambda>expiry.
         fact_resource e expiry ttl))"

definition facts_page :: "'m read_model \<Rightarrow> int option \<Rightarrow> 'm \<Rightarrow> snapshot_page \<Rightarrow> pydict result" where
  "facts_page rm ttl m page =
     bind_result (map_results (fact_item rm ttl (sp_snapshot page) m) (sp_resources page)) (\<lambda>items.
       Inr (query_envelope page items))"

definition facts ::
  "'m read_model \<Rightarrow> retention_policy \<Rightarrow> instant \<Rightarrow> params \<Rightarrow> 'm query_state \<Rightarrow>
   pydict result \<times> 'm query_state" where
  "facts rm policy now ps s = (case normalize ps FACTS of
       Inl e \<Rightarrow> (Inl e, s)
     | Inr nq \<Rightarrow> answer rm now FACTS nq (facts_page rm (rp_factual_projection_ttl policy)) s)"

section \<open>Traces\<close>

text \<open>One resource of a Trace page; \<open>None\<close> when its detail has expired.\<close>

definition trace_item ::
  "'m read_model \<Rightarrow> int option \<Rightarrow> string \<Rightarrow> 'm \<Rightarrow> query_effect \<Rightarrow> pydict option result" where
  "trace_item rm ttl sid m e = (case map_of QUERY_TRACE_KINDS (se_kind e) of
       None \<Rightarrow> Inl (Key_Error (se_kind e))
     | Some kind \<Rightarrow> bind_result (rm_expiry rm TRACE_DETAIL kind (se_key e) sid m) (\<lambda>expiry.
         if expiry \<noteq> None then Inr None
         else bind_result (trace_resource e ttl) (\<lambda>r. Inr (Some r))))"

definition detail_value :: "detail_state \<Rightarrow> string" where
  "detail_value d = (case d of Detail_Available \<Rightarrow> ''AVAILABLE'' | Detail_Partial \<Rightarrow> ''PARTIAL''
     | Detail_Expired \<Rightarrow> ''EXPIRED'')"

definition trace_state_of :: "trace_summary list \<Rightarrow> string" where
  "trace_state_of summaries =
     (case remdups (map tr_state summaries) of
        [] \<Rightarrow> ''ABSENT''
      | [d] \<Rightarrow> if d \<noteq> Detail_Partial then detail_value d else ''PARTIAL''
      | _ \<Rightarrow> ''PARTIAL'')"

definition traces_page :: "'m read_model \<Rightarrow> int option \<Rightarrow> 'm \<Rightarrow> snapshot_page \<Rightarrow> pydict result" where
  "traces_page rm ttl m page =
     bind_result (map_results (trace_item rm ttl (sp_snapshot page) m) (sp_resources page)) (\<lambda>items.
     bind_result (rm_summaries rm (sp_snapshot page) m) (\<lambda>summaries.
       let state = trace_state_of summaries;
           response = query_envelope page (List.map_filter id items) @
             [(''trace_summaries'', VList (map (\<lambda>t. VDict [(''trace_id'', VStr (tr_trace t)),
                 (''state'', VStr (detail_value (tr_state t)))]) summaries)),
              (''trace_state'', VStr state)]
       in Inr (if state \<in> {''ABSENT'', ''EXPIRED''} then dset response ''next_cursor'' VNone else response)))"

definition traces ::
  "'m read_model \<Rightarrow> retention_policy \<Rightarrow> instant \<Rightarrow> params \<Rightarrow> 'm query_state \<Rightarrow>
   pydict result \<times> 'm query_state" where
  "traces rm policy now ps s = (case normalize ps TRACES of
       Inl e \<Rightarrow> (Inl e, s)
     | Inr (filters, cursor, limit) \<Rightarrow>
         if (''trace_id'' \<in> fst ` set filters) = (''delivery_id'' \<in> fst ` set filters)
         then (Inl (bad_filter ''exactly one trace_id or delivery_id is required''), s)
         else answer rm now TRACES (filters, cursor, limit) (traces_page rm (rp_trace_detail_ttl policy)) s)"

section \<open>Tasks\<close>

definition tasks_page :: "bool \<Rightarrow> 'm \<Rightarrow> snapshot_page \<Rightarrow> pydict result" where
  "tasks_page membership m page =
     bind_result (map_results (if membership then task_membership_resource else task_list_resource)
                    (sp_resources page)) (\<lambda>items.
       Inr (task_envelope page items))"

definition tasks ::
  "'m read_model \<Rightarrow> instant \<Rightarrow> params \<Rightarrow> 'm query_state \<Rightarrow> pydict result \<times> 'm query_state" where
  "tasks rm now ps s = (case normalize ps TASKS of
       Inl e \<Rightarrow> (Inl e, s)
     | Inr (filters, cursor, limit) \<Rightarrow>
         (let ks = fst ` set filters; membership = (''task_id'' \<in> ks \<or> ''as_of'' \<in> ks) in
          if membership \<and> \<not> {''task_id'', ''as_of''} \<subseteq> ks
          then (Inl (bad_filter ''task_id and as_of are required together''), s)
          else answer rm now TASKS (filters, cursor, limit) (tasks_page membership) s))"

section \<open>Manifests\<close>

text \<open>
  \<open>json.dumps(v, sort_keys=True)\<close> sorts the keys of every object by code points.
\<close>

fun json_sorted :: "pyval \<Rightarrow> pyval" where
  "json_sorted (VList vs) = VList (map json_sorted vs)"
| "json_sorted (VTuple vs) = VTuple (map json_sorted vs)"
| "json_sorted (VDict d) = VDict (map (\<lambda>kv. (fst kv, json_sorted (snd kv))) (sort_key fst d))"
| "json_sorted v = v"

definition manifest_name :: "params \<Rightarrow> string option" where
  "manifest_name ps = (case ps of
       [(n, v)] \<Rightarrow> if n = ''manifest_digest'' \<and> fullmatch DIGEST v then Some v else None
     | _ \<Rightarrow> None)"

text \<open>The checks of a stored Manifest; any exception among them is answered as inconsistency.\<close>

definition stored_projection :: "string \<Rightarrow> query_effect \<Rightarrow> (pydict \<times> pyval) result" where
  "stored_projection d e =
     bind_result (item (payload_of e) ''canonical_projection'') (\<lambda>canonical.
     bind_result (item (payload_of e) ''projection_digest'') (\<lambda>pd.
       case canonical of
         VStr text \<Rightarrow> bind_result (json_loads dict_hook text) (\<lambda>projection.
           if se_kind e = ''delivery_manifest'' \<and> se_key e = [VStr d] \<and>
              \<not> has_surrogate text \<and> pd = VStr (sha256_hex text) \<and>
              json_dumps (json_sorted projection) = text \<and> is_dict projection \<and>
              dget (the_dict projection) ''manifest_digest'' = VStr d
           then Inr (the_dict projection, pd)
           else Inl (Value_Error ''stored Manifest projection integrity failure''))
       | _ \<Rightarrow> Inl (Type_Error ''the JSON object must be str, bytes or bytearray'')))"

definition manifest :: "'m read_model \<Rightarrow> params \<Rightarrow> 'm query_state \<Rightarrow> pydict result" where
  "manifest rm ps s = (case manifest_name ps of
       None \<Rightarrow> Inl (bad_filter ''exactly one lowercase manifest_digest is required'')
     | Some d \<Rightarrow> (case rm_manifest rm d (qs_model s) of
           Inl _ \<Rightarrow> Inl (internal_error ''manifest query failed safely'')
         | Inr None \<Rightarrow> Inl (Query_Error NOT_FOUND ''manifest was not found'')
         | Inr (Some e) \<Rightarrow> (case stored_projection d e of
               Inl _ \<Rightarrow> Inl (internal_error ''stored manifest is inconsistent'')
             | Inr (projection, pd) \<Rightarrow> bind_result (task_provenance e) (\<lambda>prov. Inr
                 [(''contract'', VDict [(''name'', VStr ''evidence.query''), (''revision'', VStr ''1.0.0'')]),
                  (''observation_profile'', VStr ''2.0.0''), (''read_model_revision'', VStr ''2.0.0''),
                  (''manifest'', VDict projection), (''manifest_projection_digest'', pd),
                  (''provenance'', VDict prov)]))))"

section \<open>What a read model promises about its snapshots\<close>

text \<open>
  \<open>held\<close> observes the ids of the snapshots a model holds; \<open>inv\<close> is its invariant.  A page comes
  with a snapshot the model holds, a refused request holds no new snapshot, releasing gives up
  exactly the one it names.
\<close>

locale snapshot_model =
  fixes rm :: "'m read_model"
    and held :: "'m \<Rightarrow> string set"
    and inv :: "'m \<Rightarrow> bool"
  assumes acquired: "inv m \<Longrightarrow> rm_acquire rm q fs n now m = (Inr page, m') \<Longrightarrow>
        inv m' \<and> held m' \<subseteq> insert (sp_snapshot page) (held m)"
    and not_acquired: "inv m \<Longrightarrow> rm_acquire rm q fs n now m = (Inl e, m') \<Longrightarrow> inv m' \<and> held m' \<subseteq> held m"
    and continued: "inv m \<Longrightarrow> rm_continue rm c now m = (r, m') \<Longrightarrow> inv m' \<and> held m' \<subseteq> held m"
    and released: "inv m \<Longrightarrow> inv (rm_release rm sid m) \<and> held (rm_release rm sid m) = held m - {sid}"
begin

lemma page_held:
  assumes "inv (qs_model s)" "query_page rm now q fs cursor n s = (r, s')"
  shows "inv (qs_model s') \<and> (case r of
     Inr page \<Rightarrow> held (qs_model s') \<subseteq> (if cursor = None then insert (sp_snapshot page) (held (qs_model s))
        else held (qs_model s))
   | Inl e \<Rightarrow> held (qs_model s') \<subseteq> held (qs_model s))"
proof (cases cursor)
  case None
  obtain x m where m: "rm_acquire rm q fs n now (qs_model s) = (x, m)" by force
  show ?thesis
  proof (cases x)
    case (Inl e)
    from not_acquired [OF assms(1) m [unfolded Inl]] assms(2) None m Inl show ?thesis
      by (auto simp: query_page_def)
  next
    case (Inr page)
    from acquired [OF assms(1) m [unfolded Inr]] assms(2) None m Inr show ?thesis
      by (auto simp: query_page_def)
  qed
next
  case (Some c)
  obtain x m where m: "rm_continue rm c now (qs_model s) = (x, m)" by force
  show ?thesis
  proof (cases "cursor_check (qs_bindings s) (q, fs, n) c")
    case None
    with continued [OF assms(1) m] m Some assms show ?thesis
      by (cases x) (auto simp: query_page_def Let_def)
  next
    case (Some e)
    with \<open>cursor = Some c\<close> assms show ?thesis by (auto simp: query_page_def Let_def)
  qed
qed

text \<open>A query leaves a new snapshot behind only when its first page is not its last.\<close>

lemma answer_held:
  assumes "inv (qs_model s)" "answer rm now q nq shape_page s = (r, s')"
  shows "inv (qs_model s') \<and>
    (held (qs_model s') \<subseteq> held (qs_model s) \<or>
     (\<exists>fs n page response. nq = (fs, None, n) \<and> r = Inr response \<and> sp_next page \<noteq> None \<and>
        query_page rm now q fs None n s = (Inr page, s') \<and> shape_page (qs_model s') page = Inr response \<and>
        held (qs_model s') \<subseteq> insert (sp_snapshot page) (held (qs_model s))))"
proof -
  obtain fs cursor n where nq: "nq = (fs, cursor, n)" by (cases nq)
  obtain x s1 where page: "query_page rm now q fs cursor n s = (x, s1)" by force
  note h = page_held [OF assms(1) page]
  show ?thesis
  proof (cases x)
    case (Inl e)
    with assms(2) nq page h show ?thesis by (simp add: answer_def)
  next
    case (Inr p)
    with h have inv: "inv (qs_model s1)" and held: "held (qs_model s1) \<subseteq>
        (if cursor = None then insert (sp_snapshot p) (held (qs_model s)) else held (qs_model s))" by simp_all
    have gone: "inv (qs_model (release rm (sp_snapshot p) s1)) \<and>
        held (qs_model (release rm (sp_snapshot p) s1)) \<subseteq> held (qs_model s)"
      using released [OF inv] held by (auto simp: release_def split: if_splits)
    show ?thesis
    proof (cases "shape_page (qs_model s1) p")
      case (Inl e)
      with assms(2) nq page Inr gone show ?thesis by (auto simp: answer_def)
    next
      case response: (Inr y)
      show ?thesis
      proof (cases "cursor = None \<and> sp_next p = None")
        case True
        with assms(2) nq page Inr response gone show ?thesis by (auto simp: answer_def)
      next
        case False
        with assms(2) nq page Inr response have "s' = s1" "r = Inr y" by (auto simp: answer_def)
        with False nq page Inr inv held response show ?thesis by (cases cursor) auto
      qed
    qed
  qed
qed

end

section \<open>The snapshot adapter is such a model\<close>

definition pg_model ::
  "(string \<Rightarrow> int list) \<Rightarrow> (query_adapter \<Rightarrow> string) \<Rightarrow> (query_adapter \<Rightarrow> string) \<Rightarrow> bool \<Rightarrow> db \<Rightarrow>
   query_adapter read_model" where
  "pg_model coll sid token connected db =
     \<lparr>rm_acquire = (\<lambda>q fs n now a. acquire_snapshot coll (sid a) (token a) connected db q fs n now a),
      rm_continue = (\<lambda>c now a. continue_snapshot coll (token a) c now a),
      rm_expiry = read_expiry,
      rm_summaries = summarize_traces coll,
      rm_release = release_snapshot,
      rm_manifest = (\<lambda>d a. read_manifest d db)\<rparr>"

end
