(* ===== verification/Query_Http.thy ===== *)
theory Query_Http
  imports Query_Service
begin

text \<open>
  The HTTP adapter of the query side (\<open>transport/query.py\<close>).  A response is a status and the
  JSON content; whether the framework can render a content is an argument, \<open>renders\<close>
  (\<open>JSONResponse\<close> refuses numbers that are not finite).  The dispatch on path and method is in
  Application, the handlers it calls are here.  Header characters are Latin-1, one char each.
\<close>

section \<open>Errors\<close>

definition ERROR_STATUS :: "query_code \<Rightarrow> nat" where
  "ERROR_STATUS c = (case c of
       INVALID_FILTER \<Rightarrow> 400 | INVALID_CURSOR \<Rightarrow> 400 | NOT_ACCEPTABLE \<Rightarrow> 406 | CURSOR_MISMATCH \<Rightarrow> 409
     | CURSOR_EXPIRED \<Rightarrow> 410 | QUERY_BOUND_EXCEEDED \<Rightarrow> 413 | METHOD_NOT_ALLOWED \<Rightarrow> 405
     | ROUTE_NOT_FOUND \<Rightarrow> 404 | QUERY_INTERNAL \<Rightarrow> 500 | QUERY_UNAVAILABLE \<Rightarrow> 503 | NOT_FOUND \<Rightarrow> 404)"

definition code_text :: "query_code \<Rightarrow> string" where
  "code_text c = (case c of
       INVALID_FILTER \<Rightarrow> ''INVALID_FILTER'' | INVALID_CURSOR \<Rightarrow> ''INVALID_CURSOR''
     | NOT_ACCEPTABLE \<Rightarrow> ''NOT_ACCEPTABLE'' | CURSOR_MISMATCH \<Rightarrow> ''CURSOR_MISMATCH''
     | CURSOR_EXPIRED \<Rightarrow> ''CURSOR_EXPIRED'' | QUERY_BOUND_EXCEEDED \<Rightarrow> ''QUERY_BOUND_EXCEEDED''
     | METHOD_NOT_ALLOWED \<Rightarrow> ''METHOD_NOT_ALLOWED'' | ROUTE_NOT_FOUND \<Rightarrow> ''ROUTE_NOT_FOUND''
     | QUERY_INTERNAL \<Rightarrow> ''QUERY_INTERNAL'' | QUERY_UNAVAILABLE \<Rightarrow> ''QUERY_UNAVAILABLE''
     | NOT_FOUND \<Rightarrow> ''NOT_FOUND'')"

text \<open>The codes are an enumeration, so a claim about all of them is decided by evaluation.\<close>

instantiation query_code :: enum
begin

definition enum_query_code :: "query_code list" where
  "enum_query_code = [INVALID_FILTER, INVALID_CURSOR, NOT_ACCEPTABLE, CURSOR_MISMATCH, CURSOR_EXPIRED,
     QUERY_BOUND_EXCEEDED, METHOD_NOT_ALLOWED, ROUTE_NOT_FOUND, QUERY_INTERNAL, QUERY_UNAVAILABLE, NOT_FOUND]"

definition enum_all_query_code :: "(query_code \<Rightarrow> bool) \<Rightarrow> bool" where
  "enum_all_query_code P = list_all P enum_class.enum"

definition enum_ex_query_code :: "(query_code \<Rightarrow> bool) \<Rightarrow> bool" where
  "enum_ex_query_code P = list_ex P enum_class.enum"

instance
proof
  show all: "(UNIV :: query_code set) = set enum_class.enum"
  proof (rule UNIV_eq_I)
    show "c \<in> set enum_class.enum" for c :: query_code by (cases c) (simp_all add: enum_query_code_def)
  qed
  show "distinct (enum_class.enum :: query_code list)" by (simp add: enum_query_code_def)
  show "enum_class.enum_all P \<longleftrightarrow> Ball UNIV P" for P :: "query_code \<Rightarrow> bool"
    unfolding all by (simp add: enum_all_query_code_def list_all_iff)
  show "enum_class.enum_ex P \<longleftrightarrow> Bex UNIV P" for P :: "query_code \<Rightarrow> bool"
    unfolding all by (simp add: enum_ex_query_code_def list_ex_iff)
qed

end

lemma error_status_refuses: "\<forall>c. 400 \<le> ERROR_STATUS c"
  by code_simp

lemma code_text_inject: "\<forall>c d. code_text c = code_text d \<longrightarrow> c = d"
  by code_simp

record json_response =
  jr_status :: nat
  jr_content :: pyval

text \<open>The messages of the service are ASCII, so their first 256 characters are bytes.\<close>

definition error_response :: "query_code \<Rightarrow> string \<Rightarrow> json_response" where
  "error_response c message =
     \<lparr>jr_status = ERROR_STATUS c,
      jr_content = VDict [(''error'', VDict [(''code'', VStr (code_text c)), (''message'', VStr (take 256 message))])]\<rparr>"

text \<open>The handlers answer any other exception as an internal error.\<close>

definition answered_error :: "py_error \<Rightarrow> json_response" where
  "answered_error e = (case e of
       Query_Error c message \<Rightarrow> error_response c message
     | _ \<Rightarrow> error_response QUERY_INTERNAL ''query failed safely'')"

section \<open>Accept\<close>

definition latin_lower :: "char \<Rightarrow> char" where
  "latin_lower c = (let n = ord_of c in
     if 65 \<le> n \<and> n \<le> 90 \<or> 192 \<le> n \<and> n \<le> 222 \<and> n \<noteq> 215 then char_of (n + 32) else c)"

definition latin_space :: "char \<Rightarrow> bool" where
  "latin_space c \<longleftrightarrow> ord_of c \<in> {9, 10, 11, 12, 13, 28, 29, 30, 31, 32, 133, 160}"

definition latin_strip :: "string \<Rightarrow> string" where
  "latin_strip s = rev (dropWhile latin_space (rev (dropWhile latin_space s)))"

text \<open>\<open>s.split(c)\<close>: at least one part.\<close>

fun split_at :: "char \<Rightarrow> string \<Rightarrow> string list" where
  "split_at c [] = [[]]"
| "split_at c (x # s) =
     (if x = c then [] # split_at c s
      else (case split_at c s of [] \<Rightarrow> [[x]] | p # ps \<Rightarrow> (x # p) # ps))"

definition QUALITY :: re where
  "QUALITY =
     Alt (Seq (lits ''0'') (Alt Empty (Seq (lits ''.'') (Rep (Class [(CHR ''0'', CHR ''9'')]) 1 3))))
         (Seq (lits ''1'') (Alt Empty (Seq (lits ''.'') (Rep (Class [(CHR ''0'', CHR ''0'')]) 1 3))))"

text \<open>The quality in thousandths: the digit before the point and up to three behind it.\<close>

definition quality_of :: "string \<Rightarrow> nat" where
  "quality_of q =
     (if fullmatch QUALITY q
      then digits_val (take 1 q @ take 3 (drop 2 q @ ''000'')) else 0)"

definition accepts_entry :: "string \<Rightarrow> bool" where
  "accepts_entry entry =
     (let parts = map latin_strip (split_at (CHR '';'') entry);
          quality = (case filter (\<lambda>p. starts_with p ''q='') (tl parts) of
             [] \<Rightarrow> 1000 | [p] \<Rightarrow> quality_of (drop 2 p) | _ \<Rightarrow> 0)
      in 0 < quality \<and> hd parts \<in> {''*/*'', ''application/*'', ''application/json''})"

definition accepts_json :: "string \<Rightarrow> bool" where
  "accepts_json header = list_ex accepts_entry (split_at (CHR '','') (map latin_lower header))"

section \<open>Handlers\<close>

record query_request =
  qr_body :: string
  qr_accept :: "string option"
  qr_params :: params

definition prepare :: "query_request \<Rightarrow> 's option \<Rightarrow> 's result" where
  "prepare r service = check_then (first_error
     [require (qr_body r = []) (bad_filter ''query GET request body is prohibited''),
      require (accepts_json (case qr_accept r of None \<Rightarrow> ''*/*'' | Some a \<Rightarrow> a))
        (Query_Error NOT_ACCEPTABLE ''application/json is required'')])
     (case service of
        None \<Rightarrow> Inl (Query_Error QUERY_UNAVAILABLE ''query storage is unavailable'')
      | Some s \<Rightarrow> Inr s)"

definition json_answer :: "(pyval \<Rightarrow> bool) \<Rightarrow> pydict result \<Rightarrow> json_response" where
  "json_answer renders r = (case r of
       Inl e \<Rightarrow> answered_error e
     | Inr d \<Rightarrow> if renders (VDict d) then \<lparr>jr_status = 200, jr_content = VDict d\<rparr>
               else answered_error (Value_Error ''Out of range float values are not JSON compliant''))"

text \<open>A handler: prepare, run the service's method, answer.\<close>

definition handle_query ::
  "(pyval \<Rightarrow> bool) \<Rightarrow> (params \<Rightarrow> 's \<Rightarrow> pydict result \<times> 's) \<Rightarrow> query_request \<Rightarrow> 's option \<Rightarrow>
   json_response \<times> 's option" where
  "handle_query renders method r service = (case prepare r service of
       Inl e \<Rightarrow> (answered_error e, service)
     | Inr s \<Rightarrow> (case method (qr_params r) s of (x, s') \<Rightarrow> (json_answer renders x, Some s')))"

definition get_facts ::
  "(pyval \<Rightarrow> bool) \<Rightarrow> 'm read_model \<Rightarrow> retention_policy \<Rightarrow> instant \<Rightarrow> query_request \<Rightarrow> 'm query_state option \<Rightarrow>
   json_response \<times> 'm query_state option" where
  "get_facts renders rm policy now = handle_query renders (facts rm policy now)"

definition get_traces ::
  "(pyval \<Rightarrow> bool) \<Rightarrow> 'm read_model \<Rightarrow> retention_policy \<Rightarrow> instant \<Rightarrow> query_request \<Rightarrow> 'm query_state option \<Rightarrow>
   json_response \<times> 'm query_state option" where
  "get_traces renders rm policy now = handle_query renders (traces rm policy now)"

definition get_tasks ::
  "(pyval \<Rightarrow> bool) \<Rightarrow> 'm read_model \<Rightarrow> instant \<Rightarrow> query_request \<Rightarrow> 'm query_state option \<Rightarrow>
   json_response \<times> 'm query_state option" where
  "get_tasks renders rm now = handle_query renders (tasks rm now)"

definition get_manifests ::
  "(pyval \<Rightarrow> bool) \<Rightarrow> 'm read_model \<Rightarrow> query_request \<Rightarrow> 'm query_state option \<Rightarrow>
   json_response \<times> 'm query_state option" where
  "get_manifests renders rm = handle_query renders (\<lambda>ps s. (manifest rm ps s, s))"

definition method_not_allowed :: json_response where
  "method_not_allowed = error_response METHOD_NOT_ALLOWED ''method is not allowed''"

definition route_not_found :: json_response where
  "route_not_found = error_response ROUTE_NOT_FOUND ''query route is not defined''"

text \<open>The handler of the framework's own HTTP errors; \<open>detail\<close> is the framework's.\<close>

definition query_transport_error :: "string \<Rightarrow> nat \<Rightarrow> pyval \<Rightarrow> json_response" where
  "query_transport_error path status detail =
     (if starts_with path ''/v1/evidence/''
      then error_response (if status = 405 then METHOD_NOT_ALLOWED else ROUTE_NOT_FOUND)
             ''query route or method is not defined''
      else \<lparr>jr_status = status, jr_content = VDict [(''detail'', detail)]\<rparr>)"

section \<open>What every answer satisfies\<close>



lemma split_at_nonempty [simp]: "split_at c s \<noteq> []"
  by (cases s) (auto split: list.splits)

text \<open>Joining the parts with the separator gives the text back; no part contains it.\<close>

lemma split_at_join: "concat (map (\<lambda>p. p @ [c]) (split_at c s)) = s @ [c]"
  by (induction s) (auto split: list.splits)

lemma split_at_parts: "p \<in> set (split_at c s) \<Longrightarrow> c \<notin> set p"
proof (induction s arbitrary: p)
  case (Cons x s)
  then show ?case by (cases "split_at c s") (auto split: if_splits)
qed simp

text \<open>An answer that is not the service's result is an error object with the status of its code.\<close>

lemma answered_error_shape:
  "\<exists>c m. jr_status (answered_error e) = ERROR_STATUS c \<and> length m \<le> 256 \<and>
    jr_content (answered_error e) =
      VDict [(''error'', VDict [(''code'', VStr (code_text c)), (''message'', VStr m)])]"
proof -
  obtain c m where "answered_error e = error_response c m"
    by (cases e) (auto simp: answered_error_def)
  then show ?thesis by (intro exI [of _ c] exI [of _ "take 256 m"]) (simp add: error_response_def)
qed

lemma handle_query_answers:
  assumes "handle_query renders method r service = (a, service')"
  shows "jr_status a = 200 \<and> (\<exists>s s' d. service = Some s \<and> method (qr_params r) s = (Inr d, s') \<and>
      service' = Some s' \<and> jr_content a = VDict d \<and> renders (VDict d)) \<or>
    (\<exists>e. a = answered_error e \<and> jr_status a \<noteq> 200)"
proof -
  have refuses: "400 \<le> jr_status (answered_error e)" for e
    using error_status_refuses by (cases e) (simp_all add: answered_error_def error_response_def)
  have "jr_status (answered_error e) \<noteq> 200" for e using refuses [of e] by linarith
  with assms show ?thesis
    by (auto simp: handle_query_def prepare_def json_answer_def split: sum.splits prod.splits if_splits option.splits)
qed

end
