(* ===== verification/Settings.thy ===== *)
theory Settings
  imports Query_Params
begin

text \<open>
  The retention environment (\<open>retention/config.py\<close>): the variables read at startup and the
  policy made of them.  The environment is a list of pairs of a name and a text.  A duration is
  in microseconds, as everywhere.  \<open>isdigit\<close> also accepts digits beyond ASCII; such texts are not
  modelled.
\<close>

type_synonym environment = "(string \<times> string) list"

definition env_get :: "environment \<Rightarrow> string \<Rightarrow> string \<Rightarrow> string" where
  "env_get env n fallback = (case map_of env n of None \<Rightarrow> fallback | Some v \<Rightarrow> v)"

text \<open>\<open>timedelta(days = n)\<close> and \<open>timedelta(seconds = n)\<close>: within 999999999 days of zero.\<close>

definition timedelta_days :: "int \<Rightarrow> int result" where
  "timedelta_days n = (if \<bar>n\<bar> \<le> 999999999 then Inr (days n) else Inl Overflow_Error)"

definition timedelta_seconds :: "int \<Rightarrow> int result" where
  "timedelta_seconds n = (if \<bar>n div 86400\<bar> \<le> 999999999 then Inr (seconds n) else Inl Overflow_Error)"

definition duration :: "environment \<Rightarrow> string \<Rightarrow> string \<Rightarrow> bool \<Rightarrow> int option result" where
  "duration env name fallback never =
     (let v = env_get env name fallback; n = butlast (tl v) in
      if v = ''NEVER'' then
        (if never then Inr None else Inl (Value_Error (name @ '' cannot be NEVER'')))
      else if v = ''PT0S'' then Inr (Some 0)
      else if py_len v < 3 \<or> hd v \<noteq> CHR ''P'' \<or> last v \<noteq> CHR ''D'' \<or> \<not> list_all is_digit n
      then Inl (Value_Error (name @ '' must be PT0S, P<n>D, or NEVER when allowed''))
      else if 4300 < length n then Inl (Value_Error ''Exceeds the limit for integer string conversion'')
      else bind_result (timedelta_days (int (digits_val n))) (\<lambda>d. Inr (Some d)))"

definition integer_setting :: "environment \<Rightarrow> string \<Rightarrow> string \<Rightarrow> int result" where
  "integer_setting env name fallback = (case py_int (env_get env name fallback) of
       None \<Rightarrow> Inl (Value_Error (name @ '' must be an integer''))
     | Some n \<Rightarrow> Inr n)"

definition retired_variables :: "string list" where
  "retired_variables = [''WSR_EVIDENCE_TRACE_DETAIL_TTL'', ''WSR_EVIDENCE_FACTUAL_PROJECTION_TTL'',
     ''WSR_EVIDENCE_ACCEPTED_PROVENANCE_TTL'']"

definition settings_from_environment :: "environment \<Rightarrow> delivery_policy result" where
  "settings_from_environment env =
     (case List.find (\<lambda>n. n \<in> fst ` set env) retired_variables of
        Some n \<Rightarrow> Inl (Value_Error (n @ '' is retired; configure Delivery retention as one unit''))
      | None \<Rightarrow>
          bind_result (duration env ''WSR_EVIDENCE_RAW_DEBUG_TTL'' ''PT0S'' False) (\<lambda>raw.
          bind_result (duration env ''WSR_EVIDENCE_DELIVERY_TTL'' ''P30D'' True) (\<lambda>delivery.
          bind_result (integer_setting env ''WSR_EVIDENCE_RETENTION_BATCH_SIZE'' ''500'') (\<lambda>batch.
          bind_result (integer_setting env ''WSR_EVIDENCE_RETENTION_INTERVAL_SECONDS'' ''60'') (\<lambda>n.
          bind_result (timedelta_seconds n) (\<lambda>every.
            let p = \<lparr>raw_debug_ttl = the raw, delivery_ttl = delivery, batch_size = batch, interval = every\<rparr>
            in check_then (check_delivery_policy p) (Inr p)))))))"

text \<open>Only the Delivery lifetime can be NEVER; every other variable has a value.\<close>

lemma duration_never: "duration env n d False \<noteq> Inr None"
  by (auto simp: duration_def Let_def bind_result_Inr_iff)

lemma env_get_empty [simp]: "env_get [] n d = d"
  by (simp add: env_get_def)

text \<open>
  The settings are the defaults of the policy where the environment says nothing, and whatever
  it says they pass the checks of the policy.
\<close>

lemma settings_default: "settings_from_environment [] = Inr default_policy"
  by code_simp

lemma settings_checked:
  assumes "settings_from_environment env = Inr p"
  shows "check_delivery_policy p = None"
    and "0 \<le> raw_debug_ttl p \<and> raw_debug_ttl p \<le> days 1"
    and "1 \<le> batch_size p \<and> batch_size p \<le> 1000"
    and "seconds 10 \<le> interval p \<and> interval p \<le> seconds 3600"
proof -
  from assms show c: "check_delivery_policy p = None"
    by (auto simp: settings_from_environment_def bind_result_Inr_iff Let_def split: option.splits)
  then show "0 \<le> raw_debug_ttl p \<and> raw_debug_ttl p \<le> days 1" "1 \<le> batch_size p \<and> batch_size p \<le> 1000"
    "seconds 10 \<le> interval p \<and> interval p \<le> seconds 3600"
    by (simp_all add: check_delivery_policy_def bounded_ttl_def batch_and_interval_def)
qed

end
