(* ===== verification/Runtime.thy ===== *)
theory Runtime
  imports Query_Http Settings
begin

text \<open>
  The start of the process: the network settings (\<open>config.py\<close>), the entry point (\<open>cli.py\<close>) and
  what the application opens and closes (\<open>app.py\<close>).  \<open>ip_address\<close> is the one of the standard
  library since Python 3.13, where a mapped IPv4 address is a loopback address when the IPv4
  address is.  The handle of the storage and the services built on it are parameters.
\<close>

section \<open>IP addresses\<close>

datatype ip = V4 int | V6 int

definition parse_octet :: "string \<Rightarrow> int option" where
  "parse_octet s =
     (if s \<noteq> [] \<and> list_all is_digit s \<and> length s \<le> 3 \<and> (s = ''0'' \<or> hd s \<noteq> CHR ''0'') \<and> digits_val s \<le> 255
      then Some (int (digits_val s)) else None)"

definition parse_ipv4 :: "string \<Rightarrow> int option" where
  "parse_ipv4 s = (case map parse_octet (split_at (CHR ''.'') s) of
       [Some a, Some b, Some c, Some d] \<Rightarrow> Some (((a * 256 + b) * 256 + c) * 256 + d)
     | _ \<Rightarrow> None)"

text \<open>One group of an IPv6 address; the groups of a text, put together.\<close>

definition parse_hextet :: "string \<Rightarrow> int option" where
  "parse_hextet s =
     (if s \<noteq> [] \<and> length s \<le> 4 \<and> list_all (\<lambda>c. hex_value c \<noteq> None) s
      then Some (foldl (\<lambda>n c. n * 16 + int (the (hex_value c))) 0 s) else None)"

definition join_hextets :: "string list \<Rightarrow> int option" where
  "join_hextets parts =
     (if list_all (\<lambda>p. parse_hextet p \<noteq> None) parts
      then Some (foldl (\<lambda>n p. n * 65536 + the (parse_hextet p)) 0 parts) else None)"

fun hextet_text :: "nat \<Rightarrow> string" where
  "hextet_text n = (if n < 16 then [hex_digit n] else hextet_text (n div 16) @ [hex_digit (n mod 16)])"

declare hextet_text.simps [simp del]

text \<open>A dotted last part stands for two groups.\<close>

definition dotted_suffix :: "string list \<Rightarrow> string list option" where
  "dotted_suffix parts =
     (if CHR ''.'' \<in> set (last parts)
      then map_option (\<lambda>n. butlast parts @ [hextet_text (nat (n div 65536)), hextet_text (nat (n mod 65536))])
             (parse_ipv4 (last parts))
      else Some parts)"

text \<open>
  Eight groups, or fewer with one empty part between two others (\<open>::\<close>) that stands for the
  groups that are missing; an empty first or last part must belong to the \<open>::\<close>.
\<close>

definition expand_groups :: "string list \<Rightarrow> string list option" where
  "expand_groups parts =
     (if 9 < length parts then None
      else (case filter (\<lambda>i. parts ! i = []) [1..<length parts - 1] of
          [] \<Rightarrow> if length parts = 8 then Some parts else None
        | [i] \<Rightarrow>
            let hi = (if hd parts = [] then i - 1 else i);
                lo = (if last parts = [] then length parts - i - 2 else length parts - i - 1)
            in if hd parts = [] \<and> hi \<noteq> 0 \<or> last parts = [] \<and> lo \<noteq> 0 \<or> 7 < hi + lo then None
               else Some (take hi parts @ replicate (8 - (hi + lo)) ''0'' @ drop (length parts - lo) parts)
        | _ \<Rightarrow> None))"

text \<open>The text before a zone, which must not be empty where there is one.\<close>

definition without_zone :: "string \<Rightarrow> string option" where
  "without_zone s = (case split_at (CHR ''%'') s of
       [a] \<Rightarrow> Some a
     | [a, zone] \<Rightarrow> if zone = [] then None else Some a
     | _ \<Rightarrow> None)"

definition parse_ipv6 :: "string \<Rightarrow> int option" where
  "parse_ipv6 s =
     (if CHR ''/'' \<in> set s then None
      else Option.bind (without_zone s) (\<lambda>a.
        let parts = split_at (CHR '':'') a
        in if length parts < 3 then None
           else Option.bind (dotted_suffix parts) (\<lambda>ps. Option.bind (expand_groups ps) join_hextets)))"

definition ip_address :: "string \<Rightarrow> ip option" where
  "ip_address s = (case parse_ipv4 s of Some n \<Rightarrow> Some (V4 n) | None \<Rightarrow> map_option V6 (parse_ipv6 s))"

definition loopback_v4 :: "int \<Rightarrow> bool" where
  "loopback_v4 n \<longleftrightarrow> n div 16777216 = 127"

fun is_loopback :: "ip \<Rightarrow> bool" where
  "is_loopback (V4 n) = loopback_v4 n"
| "is_loopback (V6 n) = (if n div 4294967296 = 65535 then loopback_v4 (n mod 4294967296) else n = 1)"

section \<open>Network settings\<close>

record runtime_settings =
  rs_host :: string
  rs_port :: int
  rs_scope :: string
  rs_url :: "string option"

definition bad_scope :: py_error where
  "bad_scope = Value_Error ''Evidence bind scope must be loopback or container''"

definition bad_host :: py_error where
  "bad_host = Value_Error ''Evidence host must be an IP loopback address''"

definition check_runtime :: "runtime_settings \<Rightarrow> py_error option" where
  "check_runtime s =
     (let address = ip_address (rs_host s) in first_error
        [require (rs_scope s \<in> {''loopback'', ''container''}) bad_scope,
         require (address \<noteq> None) bad_host,
         require (rs_scope s = ''container'' \<longrightarrow> rs_host s \<in> {''0.0.0.0'', ''::''})
           (Value_Error ''Container scope must bind an IP wildcard address''),
         require (rs_scope s = ''loopback'' \<longrightarrow> is_loopback (the address)) bad_host,
         require (1 \<le> rs_port s \<and> rs_port s \<le> 65535) (Value_Error ''Evidence port must be between 1 and 65535'')])"

definition runtime_from_environment :: "environment \<Rightarrow> runtime_settings result" where
  "runtime_from_environment env =
     (let scope = env_get env ''WSR_EVIDENCE_BIND_SCOPE'' ''loopback'' in
      check_then (require (scope \<in> {''loopback'', ''container''}) bad_scope)
        (case py_int (env_get env ''WSR_EVIDENCE_PORT'' ''4318'') of
           None \<Rightarrow> Inl (Value_Error ''invalid literal for int()'')
         | Some p \<Rightarrow>
             let s = \<lparr>rs_host = env_get env ''WSR_EVIDENCE_HOST'' ''127.0.0.1'', rs_port = p, rs_scope = scope,
                      rs_url = map_of env ''WSR_EVIDENCE_DATABASE_URL''\<rparr>
             in check_then (check_runtime s) (Inr s)))"

text \<open>The entry point: both environments are read before anything is opened.\<close>

definition cli_main :: "environment \<Rightarrow> (runtime_settings \<times> delivery_policy) result" where
  "cli_main env =
     bind_result (runtime_from_environment env) (\<lambda>s.
     bind_result (settings_from_environment env) (\<lambda>p. Inr (s, p)))"

section \<open>Assembly\<close>

record ('o, 'q, 'r) app_arguments =
  given_otlp :: "'o option"
  given_query :: "'q option"
  given_retention :: "'r option"
  given_policy :: "delivery_policy option"
  given_url :: "string option"

record ('o, 'q, 'r, 's) app_state =
  app_otlp :: "'o option"
  app_query :: "'q option"
  app_loop :: "('r \<times> int) option"
  app_storage :: "'s option"
  app_query_storage :: bool

record ('o, 'q, 'r, 's) app_builders =
  open_storage :: "string \<Rightarrow> 's result"
  build_otlp :: "'s \<Rightarrow> 'o"
  build_query :: "'s \<Rightarrow> 'q"
  build_retention :: "'s \<Rightarrow> delivery_policy \<Rightarrow> 'r"

definition or_built :: "'a option \<Rightarrow> 'a \<Rightarrow> 'a option" where
  "or_built given built = (case given of None \<Rightarrow> Some built | Some a \<Rightarrow> Some a)"

text \<open>The part of \<open>lifespan\<close> before the application serves.\<close>

definition lifespan_start ::
    "('o, 'q, 'r, 's) app_builders \<Rightarrow> ('o, 'q, 'r) app_arguments \<Rightarrow> ('o, 'q, 'r, 's) app_state result" where
  "lifespan_start b a =
     (let policy = (case given_policy a of None \<Rightarrow> default_policy | Some p \<Rightarrow> p);
          started = (\<lambda>runner. map_option (\<lambda>r. (r, interval policy)) runner);
          as_given = \<lparr>app_otlp = given_otlp a, app_query = given_query a, app_loop = started (given_retention a),
                      app_storage = None, app_query_storage = False\<rparr>
      in case given_url a of
           None \<Rightarrow> Inr as_given
         | Some url \<Rightarrow>
             if given_otlp a = None \<or> given_query a = None \<or> given_retention a = None
             then bind_result (open_storage b url) (\<lambda>s. Inr
                    \<lparr>app_otlp = or_built (given_otlp a) (build_otlp b s),
                     app_query = or_built (given_query a) (build_query b s),
                     app_loop = started (or_built (given_retention a) (build_retention b s policy)),
                     app_storage = Some s, app_query_storage = (given_query a = None)\<rparr>)
             else Inr as_given)"

datatype shutdown = Stop_Loop | Close_Query_Storage | Close_Storage

text \<open>The part after it, in the order of the steps.\<close>

definition lifespan_end :: "('o, 'q, 'r, 's) app_state \<Rightarrow> shutdown list" where
  "lifespan_end st = (if app_loop st \<noteq> None then [Stop_Loop] else [])
     @ (if app_query_storage st then [Close_Query_Storage] else [])
     @ (if app_storage st \<noteq> None then [Close_Storage] else [])"

definition health :: pydict where
  "health = [(''status'', VStr ''ok'')]"

section \<open>A dotted address is accepted exactly on the loopback network\<close>

definition dotted :: "nat \<Rightarrow> nat \<Rightarrow> nat \<Rightarrow> nat \<Rightarrow> string" where
  "dotted a b c d = nat_str a @ CHR ''.'' # nat_str b @ CHR ''.'' # nat_str c @ CHR ''.'' # nat_str d"

lemma split_at_append: "c \<notin> set s \<Longrightarrow> split_at c (s @ c # t) = s # split_at c t"
  by (induction s) auto

lemma split_at_absent: "c \<notin> set s \<Longrightarrow> split_at c s = [s]"
  by (induction s) auto

lemma digit_text_absent: "\<not> is_digit c \<Longrightarrow> c \<notin> set (nat_str n)"
  using nat_str_digits [of n] by (auto simp: list_all_iff)

lemma octet_length: "n < 1000 \<Longrightarrow> length (nat_str n) \<le> 3"
  by (simp add: nat_str.simps [of n] nat_str.simps [of "n div 10"] nat_str.simps [of "n div 10 div 10"])

lemma parse_octet_nat_str [simp]:
  assumes "n < 256"
  shows "parse_octet (nat_str n) = Some (int n)"
proof -
  have "nat_str n = ''0'' \<or> hd (nat_str n) \<noteq> CHR ''0''"
    using nat_str_no_leading_zero [of n] by (cases "n = 0") (auto simp: nat_str.simps [of 0] digit_char_def)
  with assms show ?thesis using octet_length [of n] nat_str_digits [of n] by (auto simp: parse_octet_def)
qed

lemma parse_ipv4_dotted:
  assumes "a < 256" "b < 256" "c < 256" "d < 256"
  shows "parse_ipv4 (dotted a b c d) = Some (((int a * 256 + int b) * 256 + int c) * 256 + int d)"
proof -
  have "\<not> is_digit CHR ''.''" by (simp add: is_digit_def ord_of_def)
  then have "CHR ''.'' \<notin> set (nat_str n)" for n by (rule digit_text_absent)
  with assms show ?thesis by (simp add: parse_ipv4_def dotted_def split_at_append split_at_absent)
qed

lemma loopback_dotted:
  assumes "b < 256" "c < 256" "d < 256"
  shows "loopback_v4 (((int a * 256 + int b) * 256 + int c) * 256 + int d) \<longleftrightarrow> a = 127"
proof -
  have "(((int a * 256 + int b) * 256 + int c) * 256 + int d) div 16777216 = int a"
    using assms by (intro int_div_pos_eq [where r = "(int b * 256 + int c) * 256 + int d"]) simp_all
  then show ?thesis by (simp add: loopback_v4_def)
qed

lemma digit_groups_digits: "s \<noteq> [] \<Longrightarrow> list_all is_digit s \<Longrightarrow> digit_groups s"
proof (induction s rule: digit_groups.induct)
  case (3 c d s)
  moreover have "d \<noteq> CHR ''_''" if "is_digit d" using that by (auto simp: is_digit_def ord_of_def)
  ultimately show ?case by auto
qed simp_all

lemma strip_front_none: "\<forall>p \<in> set ps. \<not> starts_with s p \<Longrightarrow> strip_front ps n s = s"
  by (cases n) (auto simp: find_None_iff split: option.splits dest!: find_Some_iff [THEN iffD1])

lemma space_points_no_digits: "list_all (list_ex (\<lambda>c. \<not> is_digit c)) space_points"
  by (simp add: space_points_def is_digit_def ord_of_def)

lemma digits_not_space:
  assumes "list_all is_digit s" "p \<in> set space_points" "set q = set p"
  shows "\<not> starts_with s q"
  using assms space_points_no_digits set_mono_prefix [of q s]
  by (fastforce simp: starts_with_def list_all_iff list_ex_iff)

lemma py_strip_digits:
  assumes "list_all is_digit s"
  shows "py_strip s = s"
proof -
  have "\<forall>p \<in> set space_points. \<not> starts_with s p" using digits_not_space [OF assms] by blast
  moreover have "\<not> starts_with (rev s) (rev p)" if "p \<in> set space_points" for p
    using digits_not_space [of "rev s" p "rev p"] assms that by (simp add: list_all_iff)
  ultimately show ?thesis by (simp add: py_strip_def strip_front_none)
qed

lemma filter_absent: "c \<notin> set s \<Longrightarrow> filter (\<lambda>x. x \<noteq> c) s = s"
  by (induction s) auto

lemma py_int_nat_str:
  assumes "length (nat_str n) \<le> 4300"
  shows "py_int (nat_str n) = Some (int n)"
proof -
  let ?s = "nat_str n"
  have absent: "CHR ''_'' \<notin> set ?s" "CHR ''-'' \<notin> set ?s" "CHR ''+'' \<notin> set ?s"
    by (rule digit_text_absent, simp add: is_digit_def ord_of_def)+
  then have "filter (\<lambda>c. c \<noteq> CHR ''_'') ?s = ?s" by (intro filter_absent)
  moreover have "\<not> starts_with ?s ''-'' \<and> \<not> starts_with ?s ''+''"
    using absent(2,3) by (cases ?s) (simp_all add: starts_with_def)
  ultimately show ?thesis
    using assms digit_groups_digits [OF nat_str_nonempty nat_str_digits, of n]
      py_strip_digits [OF nat_str_digits, of n] by (simp add: py_int_def Let_def)
qed

section \<open>A process that starts\<close>

lemma started_process:
  assumes "cli_main env = Inr (s, p)"
  shows "1 \<le> rs_port s \<and> rs_port s \<le> 65535" and "check_delivery_policy p = None"
    and "rs_scope s = ''container'' \<longrightarrow> map_of env ''WSR_EVIDENCE_BIND_SCOPE'' = Some ''container'' \<and>
      rs_host s \<in> {''0.0.0.0'', ''::''}"
    and "rs_scope s \<noteq> ''container'' \<longrightarrow> (\<exists>address. ip_address (rs_host s) = Some address \<and> is_loopback address)"
proof -
  from assms have s: "runtime_from_environment env = Inr s" and p: "settings_from_environment env = Inr p"
    by (auto simp: cli_main_def bind_result_Inr_iff)
  from s have c: "check_runtime s = None" and scope: "rs_scope s = env_get env ''WSR_EVIDENCE_BIND_SCOPE'' ''loopback''"
    by (auto simp: runtime_from_environment_def Let_def split: option.splits)
  from c show "1 \<le> rs_port s \<and> rs_port s \<le> 65535"
    "rs_scope s \<noteq> ''container'' \<longrightarrow> (\<exists>address. ip_address (rs_host s) = Some address \<and> is_loopback address)"
    by (auto simp: check_runtime_def Let_def)
  from c scope show "rs_scope s = ''container'' \<longrightarrow> map_of env ''WSR_EVIDENCE_BIND_SCOPE'' = Some ''container'' \<and>
      rs_host s \<in> {''0.0.0.0'', ''::''}"
    by (auto simp: check_runtime_def Let_def env_get_def split: option.splits)
  from p show "check_delivery_policy p = None" by (rule settings_checked)
qed

text \<open>
  C37: without the container scope the process binds a dotted address exactly when it is on the
  loopback network.  With no bind scope in the environment, a host of four decimal octets and a
  decimal port, the settings are accepted when the first octet is 127 and the port lies between
  1 and 65535, with that very host and port; every other address is refused as not loopback,
  and otherwise the port is refused.
\<close>

theorem dotted_host_binds_loopback:
  assumes "a < 256" "b < 256" "c < 256" "d < 256" "length (nat_str port) \<le> 4300"
    and "map_of env ''WSR_EVIDENCE_HOST'' = Some (dotted a b c d)"
    and "map_of env ''WSR_EVIDENCE_PORT'' = Some (nat_str port)"
    and "map_of env ''WSR_EVIDENCE_BIND_SCOPE'' = None"
  shows "runtime_from_environment env =
    (if a \<noteq> 127 then Inl (Value_Error ''Evidence host must be an IP loopback address'')
     else if 1 \<le> port \<and> port \<le> 65535
     then Inr \<lparr>rs_host = dotted a b c d, rs_port = int port, rs_scope = ''loopback'',
               rs_url = map_of env ''WSR_EVIDENCE_DATABASE_URL''\<rparr>
     else Inl (Value_Error ''Evidence port must be between 1 and 65535''))"
  using assms parse_ipv4_dotted [OF assms(1-4)] loopback_dotted [OF assms(2-4), of a] py_int_nat_str [OF assms(5)]
  by (simp add: runtime_from_environment_def env_get_def Let_def check_runtime_def ip_address_def first_error_Cons
      bad_host_def require_def)

theorem dotted_host_binds_loopback_witness:
  "runtime_from_environment
     [(''WSR_EVIDENCE_HOST'', dotted 192 0 2 10), (''WSR_EVIDENCE_PORT'', nat_str 4318)] =
     Inl (Value_Error ''Evidence host must be an IP loopback address'') \<and>
   (\<exists>s. runtime_from_environment
     [(''WSR_EVIDENCE_HOST'', dotted 127 4 3 2), (''WSR_EVIDENCE_PORT'', nat_str 4318)] = Inr s)"
proof -
  have "length (nat_str 4318) \<le> 4300" by (simp add: nat_str.simps)
  then show ?thesis
    using dotted_host_binds_loopback [of 192 0 2 10 4318
        "[(''WSR_EVIDENCE_HOST'', dotted 192 0 2 10), (''WSR_EVIDENCE_PORT'', nat_str 4318)]"]
      dotted_host_binds_loopback [of 127 4 3 2 4318
        "[(''WSR_EVIDENCE_HOST'', dotted 127 4 3 2), (''WSR_EVIDENCE_PORT'', nat_str 4318)]"]
    by simp
qed

section \<open>What is opened is closed\<close>

lemma lifespan_closes:
  assumes "lifespan_start b a = Inr st"
  shows "Close_Storage \<in> set (lifespan_end st) \<longleftrightarrow> app_storage st \<noteq> None"
    and "sorted_wrt (\<lambda>x y. y \<noteq> Stop_Loop \<and> x \<noteq> Close_Storage) (lifespan_end st)"
    and "app_query_storage st \<Longrightarrow> app_storage st \<noteq> None"
  using assms by (auto simp: lifespan_end_def lifespan_start_def Let_def bind_result_Inr_iff split: option.splits if_splits)

text \<open>With a database every service is there; without one only those that are given.\<close>

lemma lifespan_services:
  assumes "lifespan_start b a = Inr st"
  shows "given_url a \<noteq> None \<Longrightarrow> app_otlp st \<noteq> None \<and> app_query st \<noteq> None \<and> app_loop st \<noteq> None"
    and "given_url a = None \<Longrightarrow> app_otlp st = given_otlp a \<and> app_query st = given_query a \<and> app_storage st = None"
  using assms
  by (auto simp: lifespan_start_def Let_def bind_result_Inr_iff or_built_def split: option.splits if_splits)

lemma no_database_unavailable:
  assumes "lifespan_start b a = Inr st" "given_url a = None" "given_query a = None"
    and "qr_body r = []" "accepts_json (case qr_accept r of None \<Rightarrow> ''*/*'' | Some t \<Rightarrow> t)"
  shows "prepare r (app_query st) = Inl (Query_Error QUERY_UNAVAILABLE ''query storage is unavailable'')"
  using lifespan_services(2) [OF assms(1,2)] assms(3-5) by (simp add: prepare_def check_then_def)

end
