(* ===== verification/Projection_Facts.thy ===== *)
theory Projection_Facts
  imports Projection
begin

text \<open>
  Every validated record has a projection, and its effects are keyed by strings and nulls: the
  rules of validation cover every subscript of \<open>projection/effects.py\<close>.
\<close>

section \<open>Keys are strings or null\<close>

lemma string_attribute_key:
  assumes "validate_attributes a = None" "field_type_of n = Some TString"
  shows "key_scalar (dget a n)"
proof (cases "has_key a n")
  case True
  from valid_string [OF assms(1) True assms(2)] show ?thesis by auto
next
  case False
  then show ?thesis by (simp add: dget_absent)
qed

lemma key_field_types:
  "field_type_of ''agentops.delivery.id'' = Some TString"
  "field_type_of ''agentops.task.id'' = Some TString"
  "field_type_of ''agentops.manifest.digest'' = Some TString"
  "field_type_of ''agentops.event.id'' = Some TString"
  "field_type_of ''agentops.family.schema'' = Some TString"
  "field_type_of ''agentops.role.id'' = Some TString"
  "field_type_of ''agentops.finding.id'' = Some TString"
  "field_type_of ''agentops.finding.scope.id'' = Some TString"
  "field_type_of ''agentops.finding.target.kind'' = Some TString"
  "field_type_of ''agentops.finding.target.id'' = Some TString"
  "field_type_of ''agentops.finding.target.artifact.id'' = Some TString"
  "field_type_of ''agentops.review.id'' = Some TString"
  "field_type_of ''agentops.fix.id'' = Some TString"
  "field_type_of ''agentops.recheck.id'' = Some TString"
  "field_type_of ''agentops.recheck.fix.id'' = Some TString"
  "field_type_of ''gen_ai.provider.name'' = Some TString"
  "field_type_of ''agentops.model.id'' = Some TString"
  "field_type_of ''agentops.runtime.id'' = Some TString"
  by (simp_all add: field_type_of_def FIELD_TYPES_def STANDARD_TYPES_def NUMBER_FIELDS_def
      INTEGER_FIELDS_def COMMON_STRING_FIELDS_def FAMILY_STRING_FIELDS_def STANDARD_STRING_FIELDS_def)

lemmas key_attributes = string_attribute_key [OF _ key_field_types(1)]
  string_attribute_key [OF _ key_field_types(2)] string_attribute_key [OF _ key_field_types(3)]
  string_attribute_key [OF _ key_field_types(4)] string_attribute_key [OF _ key_field_types(5)]
  string_attribute_key [OF _ key_field_types(6)] string_attribute_key [OF _ key_field_types(7)]
  string_attribute_key [OF _ key_field_types(8)] string_attribute_key [OF _ key_field_types(9)]
  string_attribute_key [OF _ key_field_types(10)] string_attribute_key [OF _ key_field_types(11)]
  string_attribute_key [OF _ key_field_types(12)] string_attribute_key [OF _ key_field_types(13)]
  string_attribute_key [OF _ key_field_types(14)] string_attribute_key [OF _ key_field_types(15)]
  string_attribute_key [OF _ key_field_types(16)] string_attribute_key [OF _ key_field_types(17)]
  string_attribute_key [OF _ key_field_types(18)]

definition scalar_keys :: "effect list \<Rightarrow> bool" where
  "scalar_keys es \<longleftrightarrow> list_all (\<lambda>e. list_all key_scalar (effect_key e)) es"

lemma scalar_keys_simps [simp]:
  "scalar_keys []" "scalar_keys (e # es) \<longleftrightarrow> list_all key_scalar (effect_key e) \<and> scalar_keys es"
  "scalar_keys (es @ fs) \<longleftrightarrow> scalar_keys es \<and> scalar_keys fs"
  by (auto simp: scalar_keys_def)

lemma effect_simps [simp]:
  "effect_kind (effect k key p) = k" "effect_key (effect k key p) = key"
  "effect_payload (effect k key p) = p"
  by (simp_all add: effect_def)

lemma with_context_simps [simp]:
  "effect_kind (with_context t s e) = effect_kind e" "effect_key (with_context t s e) = effect_key e"
  by (simp_all add: with_context_def)

lemma bind_event_context_keys:
  "map effect_kind (bind_event_context rec es) = map effect_kind es"
  "map effect_key (bind_event_context rec es) = map effect_key es"
  by (simp_all add: bind_event_context_def Let_def o_def)

lemma scalar_keys_context [simp]: "scalar_keys (bind_event_context rec es) = scalar_keys es"
proof -
  have "scalar_keys fs = list_all (list_all key_scalar) (map effect_key fs)" for fs
    by (simp add: scalar_keys_def list_all_iff)
  then show ?thesis by (simp only: bind_event_context_keys)
qed

lemma finding_keys:
  assumes "validate_attributes a = None"
  shows "scalar_keys (guard_effects a @ assertion_effects a @ [status_effect a] @ fix_effects a
              @ recheck_effects a)"
  using key_attributes [OF assms]
  by (simp add: guard_effects_def assertion_effects_def status_effect_def fix_effects_def
      recheck_effects_def assertion_key_def target_key_def)

lemma record_facts:
  "is_span_record r rec \<Longrightarrow> logical rec = r" "is_event_record r rec \<Longrightarrow> logical rec = r"
  "is_span_record r rec \<Longrightarrow> validate_attributes (attributes rec) = None"
  "is_event_record r rec \<Longrightarrow> validate_attributes (attributes rec) = None"
  unfolding is_span_record_def is_event_record_def passed_common_def by blast+

section \<open>Spans\<close>

lemma span_key_fields:
  assumes "is_span_record r rec"
  shows "key_scalar (dget r ''trace_id'')" "key_scalar (dget r ''span_id'')"
    and "truthy (dget r ''parent_span_id'') \<Longrightarrow> key_scalar (dget r ''parent_span_id'')"
    and "has_all span_required r"
    and "\<And>l. l \<in> set (span_links r) \<Longrightarrow> has_key l ''trace_id'' \<and> has_key l ''span_id'' \<and>
           key_scalar (dget l ''trace_id'') \<and> key_scalar (dget l ''span_id'')"
proof -
  from assms have checks: "\<forall>c \<in> set (span_field_checks r). c = None"
    and links: "\<forall>l \<in> set (the_list (dget r ''span_links'')). \<forall>c \<in> set (link_checks l). c = None"
    by (simp_all add: is_span_record_def validate_span_None)
  from span_fields_accepted [OF checks]
  show "key_scalar (dget r ''trace_id'')" "key_scalar (dget r ''span_id'')" "has_all span_required r"
    by auto
  show "truthy (dget r ''parent_span_id'') \<Longrightarrow> key_scalar (dget r ''parent_span_id'')"
    using span_fields_accepted(6) [OF checks] dget_absent [of r "''parent_span_id''"]
    by (cases "has_key r ''parent_span_id''") auto
  fix l
  assume "l \<in> set (span_links r)"
  then obtain v where v: "v \<in> set (the_list (dget r ''span_links''))" "l = the_dict v"
    by (auto simp: span_links_def)
  from links v(1) have "\<forall>c \<in> set (link_checks v). c = None" by blast
  from link_accepted [OF this] v(2) have "key_scalar (dget l ''trace_id'')" "key_scalar (dget l ''span_id'')"
    "dget l ''trace_id'' \<noteq> VNone" "dget l ''span_id'' \<noteq> VNone" by auto
  then show "has_key l ''trace_id'' \<and> has_key l ''span_id'' \<and>
      key_scalar (dget l ''trace_id'') \<and> key_scalar (dget l ''span_id'')"
    using dget_absent [of l] by auto
qed

lemma need_None [simp]: "need ns d = None \<longleftrightarrow> list_all (has_key d) ns"
  by (auto simp: need_def list_all_iff)

lemma span_need_met:
  assumes "is_span_record r rec"
  shows "span_need rec = None"
proof -
  let ?a = "attributes rec"
  have r: "logical rec = r" using assms by (simp add: is_span_record_def passed_common_def)
  from assms have attrs: "\<forall>c \<in> set (span_attribute_checks r ?a). c = None"
    and ops: "\<forall>c \<in> set (operation_checks r ?a). c = None"
    by (simp_all add: is_span_record_def validate_span_None)
  have req: "has_all span_required r" by (rule span_key_fields(4) [OF assms])
  have root: "starts_with (the_str (dget r ''span_name'')) ''invoke_workflow'' \<Longrightarrow> has_all root_fields ?a"
    by (rule root_span_accepted(1) [OF attrs])
  have model: "has_key ?a ''agentops.model.id'' \<Longrightarrow> has_all [''agentops.model.id'', ''agentops.role.id'',
      ''agentops.runtime.id'', ''gen_ai.provider.name'', ''gen_ai.request.model''] ?a"
    by (rule model_span_accepted(1) [OF ops])
  from req root model span_key_fields(5) [OF assms] show ?thesis
    by (simp add: span_need_def r Let_def span_required_def root_fields_def)
qed

lemma span_effect_keys:
  assumes "is_span_record r rec" "project_span rec = Inr es"
  shows "scalar_keys es"
proof -
  note r = record_facts(1) [OF assms(1)] and valid = record_facts(3) [OF assms(1)]
  note fields = span_key_fields [OF assms(1)]
  have links: "scalar_keys (map (link_effect r) (span_links r))"
    using fields by (simp add: scalar_keys_def list_all_iff link_effect_def)
  from assms(2) links show ?thesis
    using fields(1-3) key_attributes [OF valid]
    by (auto simp: project_span_def r root_effects_def model_effects_def trace_node_def
        parent_effects_def Let_def)
qed

section \<open>Events\<close>

lemma event_rules_required:
  assumes "EVENT_RULES e = Some (allowed, required)"
  shows "''agentops.event.id'' \<in> set required"
    and "e = ''role.lineage'' \<Longrightarrow> {''agentops.family.schema'', ''agentops.role.id''} \<subseteq> set required"
    and "e = ''review.finding'' \<Longrightarrow> set ([''agentops.finding.id'', ''agentops.finding.scope.id'',
      ''agentops.finding.target.kind'', ''agentops.finding.target.id'', ''agentops.review.id'',
      ''agentops.finding.status''] @ invariant_names @ origin_names) \<subseteq> set required"
    and "e = ''task.binding'' \<Longrightarrow> {''agentops.task.id'', ''agentops.delivery.id'',
      ''agentops.manifest.digest'', ''agentops.delivery.manifest_projection'',
      ''agentops.delivery.manifest_projection_digest''} \<subseteq> set required"
proof -
  show "''agentops.event.id'' \<in> set required"
    using assms
    by (auto simp: EVENT_RULES_def required_task_binding_def required_delivery_summary_def
        required_review_finding_def required_review_summary_def required_test_summary_def
        required_implementation_summary_def required_system_design_summary_def
        required_role_lineage_def required_intervention_def required_usage_def
        required_sampling_decision_def split: if_split_asm)
  show "e = ''role.lineage'' \<Longrightarrow> {''agentops.family.schema'', ''agentops.role.id''} \<subseteq> set required"
    using assms by (auto simp: EVENT_RULES_def required_role_lineage_def)
  show "e = ''review.finding'' \<Longrightarrow> set ([''agentops.finding.id'', ''agentops.finding.scope.id'',
      ''agentops.finding.target.kind'', ''agentops.finding.target.id'', ''agentops.review.id'',
      ''agentops.finding.status''] @ invariant_names @ origin_names) \<subseteq> set required"
    using assms by (auto simp: EVENT_RULES_def required_review_finding_def invariant_names_def origin_names_def)
  show "e = ''task.binding'' \<Longrightarrow> {''agentops.task.id'', ''agentops.delivery.id'',
      ''agentops.manifest.digest'', ''agentops.delivery.manifest_projection'',
      ''agentops.delivery.manifest_projection_digest''} \<subseteq> set required"
    using assms by (auto simp: EVENT_RULES_def required_task_binding_def)
qed

lemma event_keys_present:
  assumes "is_event_record r rec"
  obtains event allowed required where "dget r ''event_name'' = VStr event" "event_name rec = Some event"
    "EVENT_RULES event = Some (allowed, required)"
    "\<And>n. n \<in> set required \<Longrightarrow> has_key (attributes rec) n"
    "profile_version rec = ''2.0.0'' \<Longrightarrow> has_key (attributes rec) ''agentops.delivery.id''"
    "event = ''task.binding'' \<Longrightarrow> profile_version rec = ''2.0.0''"
proof -
  from event_closed_set [OF assms] obtain event allowed required where
    e: "dget r ''event_name'' = VStr event" "event_name rec = Some event"
      "EVENT_RULES event = Some (allowed, required)" "has_all required (attributes rec)"
      "is_task_profile r \<longrightarrow> has_key (attributes rec) ''agentops.delivery.id''"
    and names: "event \<in> set (if is_task_profile r then EVENT_NAMES @ [''task.binding''] else EVENT_NAMES)"
    by blast
  have "passed_common r rec" using assms by (simp add: is_event_record_def)
  note profile = profile_version_cases(2) [OF this]
  have "''task.binding'' \<notin> set EVENT_NAMES" by (simp add: EVENT_NAMES_def)
  with names profile have "event = ''task.binding'' \<Longrightarrow> profile_version rec = ''2.0.0''"
    by (auto split: if_splits)
  with e profile that show thesis by (metis has_all_key)
qed

lemma py_eq_present: "py_eq (dget a n) (VStr s) \<Longrightarrow> has_key a n"
proof -
  assume "py_eq (dget a n) (VStr s)"
  then have "dget a n = VStr s" by (simp only: py_eq_str2)
  then show "has_key a n" using dget_absent [of a n] by (cases "has_key a n") simp_all
qed

lemma finding_need_met:
  assumes "is_event_record r rec" "event_name rec = Some ''review.finding''"
  shows "finding_need (attributes rec) = None"
proof -
  let ?a = "attributes rec"
  obtain event allowed required where e': "dget r ''event_name'' = VStr event" "event_name rec = Some event"
    and rules': "EVENT_RULES event = Some (allowed, required)"
    and req: "\<And>n. n \<in> set required \<Longrightarrow> has_key ?a n"
    by (rule event_keys_present [OF assms(1)]) (rule that; assumption)
  from e'(2) assms(2) have "event = ''review.finding''" by simp
  with e'(1) rules' have e: "dget r ''event_name'' = VStr ''review.finding''"
    and rules: "EVENT_RULES ''review.finding'' = Some (allowed, required)" by simp_all
  have base: "list_all (has_key ?a) ([''agentops.finding.id'', ''agentops.finding.scope.id'',
      ''agentops.finding.target.kind'', ''agentops.finding.target.id'', ''agentops.review.id'',
      ''agentops.finding.status''] @ invariant_names @ origin_names)"
    using event_rules_required(3) [OF rules refl] req by (auto simp: list_all_iff)
  have valid: "validate_attributes ?a = None" by (rule record_facts(4) [OF assms(1)])
  from base valid_string [OF valid _ key_field_types(7)] obtain f where
    f: "dget ?a ''agentops.finding.id'' = VStr f" by auto
  have src: "field_type_of ''agentops.source.review.id'' = Some TString"
    by (simp add: field_type_of_def FIELD_TYPES_def NUMBER_FIELDS_def INTEGER_FIELDS_def
        COMMON_STRING_FIELDS_def)
  from base valid_string [OF valid _ src] obtain v where
    v: "dget ?a ''agentops.source.review.id'' = VStr v" by (auto simp: invariant_names_def)
  note later = event_later_checks [OF assms(1) e]
  have fixed: "has_key ?a ''agentops.fix.finding.id''" if "has_key ?a ''agentops.fix.id''"
    using later(2) [OF refl] that f
    by (intro py_eq_present [of _ _ f]) (simp add: finding_checks_def Let_def)
  have rechecked: "has_key ?a ''agentops.recheck.finding.id'' \<and> has_key ?a ''agentops.recheck.review.id''"
    if "has_key ?a ''agentops.recheck.id''"
    using later(2) [OF refl] that f v
    by (auto simp: finding_checks_def Let_def intro: py_eq_present [of _ _ f] py_eq_present [of _ _ v])
  have recheck: "has_all recheck_required ?a" if "has_key ?a ''agentops.recheck.id''"
    using later(4) that by (simp add: review_checks_def)
  from base fixed rechecked recheck show ?thesis
    by (simp add: finding_need_def participants_def recheck_required_def invariant_names_def
        origin_names_def)
qed

text \<open>Every validated record projects, to effects with keys of strings and nulls.\<close>

lemma project_validated:
  assumes "validate_record v = Inr rec"
  shows "\<exists>es. project rec = Inr es \<and> scalar_keys es"
  using assms
proof (cases rule: validated_cases)
  case (1 r)
  from span_need_met [OF 1(2)] obtain es where es: "project_span rec = Inr es"
    by (auto simp: project_span_def)
  from span_effect_keys [OF 1(2) es] es 1(2) show ?thesis
    by (simp add: project_def is_span_record_def)
next
  case (2 r)
  let ?a = "attributes rec"
  obtain event allowed required where
    name: "event_name rec = Some event" and rules: "EVENT_RULES event = Some (allowed, required)"
    and req: "\<And>n. n \<in> set required \<Longrightarrow> has_key ?a n"
    and direct: "profile_version rec = ''2.0.0'' \<Longrightarrow> has_key ?a ''agentops.delivery.id''"
    by (rule event_keys_present [OF 2(2)]) (rule that; assumption)
  have valid: "validate_attributes ?a = None" by (rule record_facts(4) [OF 2(2)])
  note keys = key_attributes [OF valid]
  have type: "record_type rec = ''event''" using 2(2) by (simp add: is_event_record_def)
  show ?thesis
  proof (cases "event = ''task.binding''")
    case True
    have "{''agentops.task.id'', ''agentops.delivery.id'', ''agentops.manifest.digest'',
        ''agentops.delivery.manifest_projection'', ''agentops.delivery.manifest_projection_digest''}
        \<subseteq> set required"
      using event_rules_required(4) [OF rules True] .
    with req have met: "need [''agentops.task.id'', ''agentops.delivery.id'', ''agentops.manifest.digest'',
        ''agentops.delivery.manifest_projection'', ''agentops.delivery.manifest_projection_digest''] ?a = None"
      by simp
    with True name type keys show ?thesis
      by (simp add: project_def project_task_binding_def Let_def del: need_None)
  next
    case False
    show ?thesis
    proof (cases "event = ''review.finding''")
      case True
      with name have "event_name rec = Some ''review.finding''" by simp
      from finding_need_met [OF 2(2) this] finding_keys [OF valid] True False name type show ?thesis
        by (simp add: project_def project_finding_def Let_def)
    next
      case nf: False
      show ?thesis
      proof (cases "event = ''role.lineage''")
        case True
        have "{''agentops.family.schema'', ''agentops.role.id''} \<subseteq> set required"
          using event_rules_required(2) [OF rules True] .
        with req direct have met: "need (lineage_names rec) ?a = None" by (simp add: lineage_names_def)
        have "list_all key_scalar (map (dget ?a) (lineage_names rec))"
          using keys by (simp add: lineage_names_def)
        with met True False nf name type show ?thesis by (simp add: project_def project_lineage_def del: need_None)
      next
        case nl: False
        have "''agentops.event.id'' \<in> set required" using event_rules_required(1) [OF rules] .
        with req have met: "need [''agentops.event.id''] ?a = None" by simp
        with False nf nl name type keys show ?thesis
          by (simp add: project_def project_contribution_def event_value_def del: need_None)
      qed
    qed
  qed
qed

section \<open>Which effects a record can have\<close>

text \<open>Only a task binding says that a Task has a Delivery, and it says so of its own Delivery.\<close>

lemma other_kinds:
  "\<forall>e \<in> set (root_effects rec @ model_effects rec @ [trace_node rec] @ parent_effects r
      @ map (link_effect r) ls). effect_kind e \<noteq> ''delivery_task_membership''"
  "\<forall>e \<in> set (guard_effects a @ assertion_effects a @ [status_effect a] @ fix_effects a
      @ recheck_effects a). effect_kind e \<noteq> ''delivery_task_membership''"
  by (auto simp: root_effects_def model_effects_def trace_node_def parent_effects_def link_effect_def
      guard_effects_def assertion_effects_def status_effect_def fix_effects_def recheck_effects_def
      Let_def split: if_splits)

lemma membership_effect:
  assumes "validate_record v = Inr rec" "project rec = Inr es" "e \<in> set es"
    and "effect_kind e = ''delivery_task_membership''"
  shows "\<exists>t d. effect_key e = [VStr t, VStr d] \<and> record_type rec = ''event'' \<and>
           profile_version rec = ''2.0.0'' \<and> dget (attributes rec) ''agentops.delivery.id'' = VStr d"
  using assms(1)
proof (cases rule: validated_cases)
  case (1 r)
  with assms(2) have "project_span rec = Inr es" by (simp add: project_def is_span_record_def)
  then have "es = root_effects rec @ model_effects rec @ [trace_node rec] @ parent_effects (logical rec)
      @ map (link_effect (logical rec)) (span_links (logical rec))" by (simp add: project_span_def)
  with other_kinds(1) assms(3,4) show ?thesis by blast
next
  case (2 r)
  obtain event allowed required where
    name: "event_name rec = Some event" and rules: "EVENT_RULES event = Some (allowed, required)"
    and req: "\<And>n. n \<in> set required \<Longrightarrow> has_key (attributes rec) n"
    and profile: "event = ''task.binding'' \<Longrightarrow> profile_version rec = ''2.0.0''"
    by (rule event_keys_present [OF 2(2)]) (rule that; assumption)
  have type: "record_type rec = ''event''" using 2(2) by (simp add: is_event_record_def)
  have "event = ''task.binding''"
  proof (rule ccontr)
    assume not: "event \<noteq> ''task.binding''"
    with assms(2) name type obtain fs where fs: "es = bind_event_context rec fs"
      and source: "project_finding rec = Inr fs \<or> project_lineage rec = Inr fs \<or> project_contribution rec = Inr fs"
      by (auto simp: project_def bind_result_Inr_iff split: if_splits)
    have "''delivery_task_membership'' \<notin> set (map effect_kind fs)"
    proof -
      have "project_finding rec = Inr fs \<Longrightarrow> \<forall>e \<in> set fs. effect_kind e \<noteq> ''delivery_task_membership''"
        using other_kinds(2) [of "attributes rec"] unfolding project_finding_def Let_def by simp
      moreover have "project_lineage rec = Inr fs \<or> project_contribution rec = Inr fs \<Longrightarrow>
          \<forall>e \<in> set fs. effect_kind e \<noteq> ''delivery_task_membership''"
        by (auto simp: project_lineage_def project_contribution_def)
      ultimately show ?thesis using source by auto
    qed
    with assms(3,4) fs bind_event_context_keys(1) [of rec fs] show False by (metis image_eqI set_map)
  qed
  moreover from this have "{''agentops.task.id'', ''agentops.delivery.id''} \<subseteq> set required"
    using event_rules_required(4) [OF rules] by simp
  then have "has_key (attributes rec) ''agentops.task.id''" "has_key (attributes rec) ''agentops.delivery.id''"
    using req by auto
  with valid_string [OF record_facts(4) [OF 2(2)]] key_field_types(1,2)
  obtain t d where "dget (attributes rec) ''agentops.task.id'' = VStr t"
    "dget (attributes rec) ''agentops.delivery.id'' = VStr d" by metis
  ultimately show ?thesis
    using assms(2-4) name type profile
    by (auto simp: project_def project_task_binding_def Let_def split: if_splits)
qed

end
