(* ===== verification/Samples.thy ===== *)
theory Samples
  imports Projection
begin

text \<open>
  Concrete records at which the properties of the development are instantiated: an event and a
  Delivery summary of profile 2.0.0 and a Span of profile 1.0.0.
\<close>

definition sample_resource :: pyval where
  "sample_resource = VDict [(''service.name'', VStr ''s''), (''service.version'', VStr ''1'')]"

definition sample_event_attributes :: pydict where
  "sample_event_attributes =
     [(''agentops.delivery.id'', VStr ''d''), (''agentops.event.id'', VStr ''e''),
      (''agentops.workflow.family'', VStr ''f''), (''agentops.family.schema'', VStr ''f@1''),
      (''agentops.intervention.kind'', VStr ''USER_REDIRECT'')]"

definition sample_event :: pydict where
  "sample_event =
     [(''profile_version'', VStr ''2.0.0''), (''record_type'', VStr ''event''),
      (''event_name'', VStr ''intervention''), (''resource'', sample_resource),
      (''scope'', VDict TASK_SCOPE), (''attributes'', VDict sample_event_attributes)]"

lemma sample_envelope: "validate_envelope sample_event = None"
  by (simp add: validate_envelope_def sample_event_def sample_resource_def keys_are_def
      RECORD_KEYS_def RESOURCE_FIELDS_def TASK_SCOPE_def SCOPE_def PROFILE_VERSION_def
      TASK_PROFILE_VERSION_def require_in_def Let_def first_error_Cons require_def
      is_continuation_def ord_of_def is_dict_def)

lemma sample_attributes: "validate_attributes sample_event_attributes = None"
  by (simp add: validate_attributes_def sample_event_attributes_def attribute_checks_def
      field_type_of_def FIELD_TYPES_def STANDARD_TYPES_def NUMBER_FIELDS_def INTEGER_FIELDS_def
      COMMON_STRING_FIELDS_def type_checks_def string_checks_def Let_def string_maximum_def
      ENUMS_def digest_names_def IDENTIFIER_def alnum_def ident_class_def in_class_def between_def
      ord_of_def is_continuation_def ends_with_code)

lemma sample_event_rules: "validate_event sample_event sample_event_attributes = None"
  by (simp add: validate_event_def event_envelope_checks_def closed_set_checks_def
      sample_event_def sample_event_attributes_def is_task_profile_def TASK_PROFILE_VERSION_def
      EVENT_NAMES_def has_none_def event_span_fields_def starts_with_code EVENT_RULES_def
      allowed_intervention_def required_intervention_def family_checks_def review_checks_def
      numeric_checks_def Let_def first_error_Cons require_def require_in_def)

lemma sample_digest: "\<exists>t. canonical_digest (VDict sample_event) = Inr (sha256_hex t)"
  by (simp add: canonical_digest_def canonical_bytes_def sample_event_def sample_resource_def
      sample_event_attributes_def TASK_SCOPE_def SCOPE_def TASK_PROFILE_VERSION_def
      json_string_def escape_byte_def ord_of_def insort_key_def) (rule exI, rule refl)

definition sample_record :: validated_record where
  "sample_record =
     \<lparr>logical = sample_event, profile_version = ''2.0.0'', identity = [''event'', ''e''],
      digest = (case canonical_digest (VDict sample_event) of Inl _ \<Rightarrow> [] | Inr d \<Rightarrow> d),
      attributes = sample_event_attributes, record_type = ''event'',
      event_name = Some ''intervention''\<rparr>"

lemma sample_record_simps [simp]:
  "logical sample_record = sample_event" "profile_version sample_record = ''2.0.0''"
  "identity sample_record = [''event'', ''e'']" "record_type sample_record = ''event''"
  "attributes sample_record = sample_event_attributes"
  "event_name sample_record = Some ''intervention''"
  by (simp_all add: sample_record_def)

lemma sample_record_digest: "hex_text 64 (digest sample_record)"
  using sample_digest by (auto simp: sample_record_def)

lemma sample_valid: "validate_record (VDict sample_event) = Inr sample_record"
proof -
  from sample_digest obtain t where d: "canonical_digest (VDict sample_event) = Inr (sha256_hex t)" ..
  have fields: "dget sample_event ''attributes'' = VDict sample_event_attributes"
    "dget sample_event ''record_type'' = VStr ''event''"
    "dget sample_event ''profile_version'' = VStr ''2.0.0''"
    "dget sample_event ''event_name'' = VStr ''intervention''"
    "dget sample_event_attributes ''agentops.event.id'' = VStr ''e''"
    by (simp_all add: sample_event_def sample_event_attributes_def)
  with d show ?thesis
    by (simp add: validate_record_def validated_def sample_record_def sample_envelope
        sample_attributes sample_event_rules is_dict_def)
qed

end
