(* ===== verification/Admission.thy ===== *)
theory Admission
  imports Storage Samples
begin

text \<open>
  \<open>AdmissionService.admit\<close> (\<open>admission/service.py\<close>) over a transaction manager
  (\<open>storage/transaction.py\<close>): validate, claim the identity, project, apply, commit.  The manager's
  operations are arguments of \<open>admit_with\<close>; the contract a manager promises is the locale
  \<open>transaction_manager\<close>, which the PostgreSQL storage of \<open>Storage\<close> is shown to satisfy.
\<close>

section \<open>The service\<close>

record admission_result =
  disposition :: disposition
  result_effects :: "effect list"
  reason :: "string option"

definition admission :: "disposition \<Rightarrow> effect list \<Rightarrow> string option \<Rightarrow> admission_result" where
  "admission d es why = \<lparr>disposition = d, result_effects = es, reason = why\<rparr>"

text \<open>
  The body of the \<open>async with\<close> block: a result with the transaction to commit, or the exception
  that leaves the block and rolls the transaction back.
\<close>

definition admit_body ::
  "(validated_record \<Rightarrow> 'tx \<Rightarrow> (disposition \<times> 'tx) result) \<Rightarrow> (effect list \<Rightarrow> 'tx \<Rightarrow> 'tx result) \<Rightarrow>
   validated_record \<Rightarrow> 'tx \<Rightarrow> (admission_result \<times> 'tx) result" where
  "admit_body claim apply_es rec tx =
     bind_result (claim rec tx) (\<lambda>(disp, tx1).
       if disp \<noteq> ACCEPTED then Inr (admission disp [] None, tx1)
       else bind_result (project rec) (\<lambda>es.
            bind_result (apply_es es tx1) (\<lambda>tx2. Inr (admission disp es None, tx2))))"

definition caught :: "py_error \<Rightarrow> admission_result result" where
  "caught e = (case e of
       Projection_Conflict m \<Rightarrow> Inr (admission CONFLICT [] (Some m))
     | Projection_Precondition_Failed m \<Rightarrow> Inr (admission REJECTED [] (Some m))
     | _ \<Rightarrow> Inl e)"

definition admit_with ::
  "('db \<Rightarrow> 'tx) \<Rightarrow> (validated_record \<Rightarrow> 'tx \<Rightarrow> (disposition \<times> 'tx) result) \<Rightarrow>
   (effect list \<Rightarrow> 'tx \<Rightarrow> 'tx result) \<Rightarrow> ('tx \<Rightarrow> 'db) \<Rightarrow> pyval \<Rightarrow> 'db \<Rightarrow> admission_result result \<times> 'db" where
  "admit_with begin_tx claim apply_es commit v db = (case validate_record v of
       Inl e \<Rightarrow> (Inl e, db)
     | Inr rec \<Rightarrow> (case admit_body claim apply_es rec (begin_tx db) of
           Inl e \<Rightarrow> (caught e, db)
         | Inr (res, tx) \<Rightarrow> (Inr res, commit tx)))"

text \<open>The service on the PostgreSQL storage, with the clock reading of the transaction.\<close>

definition admit :: "instant \<Rightarrow> pyval \<Rightarrow> db \<Rightarrow> admission_result result \<times> db" where
  "admit now = admit_with (begin_txn now) claim_identity apply_effects txn_db"

section \<open>The contract of a transaction manager\<close>

text \<open>
  \<open>digest_of\<close> observes under which digest a store has accepted a record; \<open>inv\<close> is the invariant of
  the store.  An accepted claim enters the digest of a fresh identity, any other claim changes
  nothing and compares digests, effects leave the digests alone, and a record accepted in an
  earlier transaction is recognised.
\<close>

locale transaction_manager =
  fixes begin_tx :: "instant \<Rightarrow> 'db \<Rightarrow> 'tx"
    and claim :: "validated_record \<Rightarrow> 'tx \<Rightarrow> (disposition \<times> 'tx) result"
    and apply_es :: "effect list \<Rightarrow> 'tx \<Rightarrow> 'tx result"
    and commit :: "'tx \<Rightarrow> 'db"
    and inv :: "'db \<Rightarrow> bool"
    and digest_of :: "'db \<Rightarrow> source \<Rightarrow> string option"
  assumes begin_commit: "commit (begin_tx now db) = db"
    and claim_new: "inv (commit tx) \<Longrightarrow> claim rec tx = Inr (ACCEPTED, tx') \<Longrightarrow>
          inv (commit tx') \<and> digest_of (commit tx) (record_source rec) = None \<and>
          digest_of (commit tx') = (digest_of (commit tx))(record_source rec \<mapsto> digest rec)"
    and claim_old: "claim rec tx = Inr (disp, tx') \<Longrightarrow> disp \<noteq> ACCEPTED \<Longrightarrow>
          commit tx' = commit tx \<and>
          (\<exists>d. digest_of (commit tx) (record_source rec) = Some d \<and>
             disp = (if d = digest rec then DUPLICATE else CONFLICT))"
    and apply_keeps: "inv (commit tx) \<Longrightarrow> apply_es es tx = Inr tx' \<Longrightarrow>
          inv (commit tx') \<and> digest_of (commit tx') = digest_of (commit tx)"
    and claim_again: "inv db \<Longrightarrow> claim rec (begin_tx now db) = Inr (ACCEPTED, tx1) \<Longrightarrow>
          apply_es es tx1 = Inr tx2 \<Longrightarrow>
          \<exists>tx3. claim rec (begin_tx later (commit tx2)) = Inr (DUPLICATE, tx3)"
begin

abbreviation admit_at :: "instant \<Rightarrow> pyval \<Rightarrow> 'db \<Rightarrow> admission_result result \<times> 'db" where
  "admit_at now \<equiv> admit_with (begin_tx now) claim apply_es commit"

text \<open>The outcomes of an admission, with what they leave in the store.\<close>

lemma admit_accepted:
  assumes "admit_at now v db = (Inr res, db')" "disposition res = ACCEPTED" "inv db"
  obtains rec tx1 tx2 where "validate_record v = Inr rec" "project rec = Inr (result_effects res)"
    "claim rec (begin_tx now db) = Inr (ACCEPTED, tx1)" "apply_es (result_effects res) tx1 = Inr tx2"
    "db' = commit tx2" "inv db'" "digest_of db (record_source rec) = None"
    "digest_of db' = (digest_of db)(record_source rec \<mapsto> digest rec)"
proof -
  from assms(1,2) obtain rec tx1 es tx2 where
    v: "validate_record v = Inr rec" and c: "claim rec (begin_tx now db) = Inr (ACCEPTED, tx1)"
    and p: "project rec = Inr es" and a: "apply_es es tx1 = Inr tx2"
    and r: "res = admission ACCEPTED es None" "db' = commit tx2"
    by (auto simp: admit_with_def admit_body_def caught_def admission_def result_iffs
        split: sum.splits prod.splits if_splits py_error.splits)
  have inv: "inv (commit (begin_tx now db))" using assms(3) by (simp add: begin_commit)
  from claim_new [OF inv c] have new: "inv (commit tx1)" "digest_of db (record_source rec) = None"
    "digest_of (commit tx1) = (digest_of db)(record_source rec \<mapsto> digest rec)"
    by (simp_all add: begin_commit)
  from apply_keeps [OF new(1) a] that [of rec tx1 tx2] v c p a r new show thesis
    by (simp add: admission_def)
qed

lemma admit_not_accepted:
  assumes "admit_at now v db = (r, db')" "\<forall>res. r = Inr res \<longrightarrow> disposition res \<noteq> ACCEPTED"
  shows "db' = db"
proof (cases "validate_record v")
  case (Inl e)
  with assms(1) show ?thesis by (simp add: admit_with_def)
next
  case (Inr rec)
  show ?thesis
  proof (cases "admit_body claim apply_es rec (begin_tx now db)")
    case (Inl e)
    with assms(1) Inr show ?thesis by (simp add: admit_with_def)
  next
    case body: (Inr p)
    obtain res tx where p: "p = (res, tx)" by force
    with assms body Inr have res: "disposition res \<noteq> ACCEPTED" "db' = commit tx"
      by (auto simp: admit_with_def)
    from body p res(1) have "claim rec (begin_tx now db) = Inr (disposition res, tx)"
      by (auto simp: admit_body_def admission_def bind_result_Inr_iff split: if_splits)
    from claim_old [OF this res(1)] res(2) show ?thesis by (simp add: begin_commit)
  qed
qed

lemma admit_inv:
  assumes "inv db" "admit_at now v db = (r, db')"
  shows "inv db'"
proof (cases "\<exists>res. r = Inr res \<and> disposition res = ACCEPTED")
  case True
  with assms show ?thesis by (metis admit_accepted)
next
  case False
  then have "\<forall>res. r = Inr res \<longrightarrow> disposition res \<noteq> ACCEPTED" by blast
  from admit_not_accepted [OF assms(2) this] assms(1) show ?thesis by simp
qed

text \<open>Digests only ever grow: an identity keeps the digest under which it was first accepted.\<close>

lemma admit_digests_grow:
  assumes "inv db" "admit_at now v db = (r, db')"
  shows "digest_of db \<subseteq>\<^sub>m digest_of db'"
proof (cases "\<exists>res. r = Inr res \<and> disposition res = ACCEPTED")
  case True
  then obtain res where res: "r = Inr res" "disposition res = ACCEPTED" by blast
  from assms(2) res(1) have "admit_at now v db = (Inr res, db')" by simp
  from admit_accepted [OF this res(2) assms(1)] obtain rec where
    "digest_of db (record_source rec) = None"
    "digest_of db' = (digest_of db)(record_source rec \<mapsto> digest rec)" by blast
  then show ?thesis by (auto simp: map_le_def)
next
  case False
  then have "\<forall>res. r = Inr res \<longrightarrow> disposition res \<noteq> ACCEPTED" by blast
  from admit_not_accepted [OF assms(2) this] show ?thesis by simp
qed

text \<open>Delivering the same record again changes nothing and is answered as a duplicate.\<close>

lemma admit_twice:
  assumes "inv db" "admit_at now v db = (Inr res, db')" "disposition res = ACCEPTED"
  shows "admit_at later v db' = (Inr (admission DUPLICATE [] None), db')"
proof -
  from admit_accepted [OF assms(2,3,1)] obtain rec tx1 tx2 where
    v: "validate_record v = Inr rec" and c: "claim rec (begin_tx now db) = Inr (ACCEPTED, tx1)"
    and a: "apply_es (result_effects res) tx1 = Inr tx2" and db': "db' = commit tx2" .
  from claim_again [OF assms(1) c a] obtain tx3 where
    d: "claim rec (begin_tx later db') = Inr (DUPLICATE, tx3)" using db' by blast
  from claim_old [OF d] have "commit tx3 = db'" by (simp add: begin_commit)
  with v d show ?thesis by (simp add: admit_with_def admit_body_def)
qed

lemma admit_known:
  assumes "validate_record v = Inr rec" "digest_of db (record_source rec) = Some d"
    and "inv db" "admit_at now v db = (Inr res, db')" "disposition res \<noteq> REJECTED" "reason res = None"
  shows "disposition res = (if d = digest rec then DUPLICATE else CONFLICT)"
proof -
  from assms(1,4,6) obtain tx where body: "admit_body claim apply_es rec (begin_tx now db) = Inr (res, tx)"
    by (auto simp: admit_with_def caught_def admission_def split: sum.splits prod.splits py_error.splits)
  then obtain disp tx1 where c: "claim rec (begin_tx now db) = Inr (disp, tx1)"
    and disp: "disposition res = disp"
    by (auto simp: admit_body_def bind_result_Inr_iff admission_def split: if_splits)
  show ?thesis
  proof (cases "disp = ACCEPTED")
    case True
    with claim_new [of "begin_tx now db" rec tx1] c assms(2,3) show ?thesis by (simp add: begin_commit)
  next
    case False
    from claim_old [OF c False] assms(2) disp show ?thesis by (auto simp: begin_commit)
  qed
qed

end

section \<open>PostgreSQL satisfies the contract\<close>

lemma retirement_check_stable:
  assumes "retirement_check rec db = None" "fences db' = fences db"
  shows "retirement_check rec db' = None"
  using assms by (auto simp: retirement_check_def is_fenced_def split: option.splits)

lemma accepted_row_of_now:
  "accepted_row_of rec now = Inr row \<Longrightarrow> \<exists>row'. accepted_row_of rec later = Inr row' \<and>
     ar_identity row' = ar_identity row \<and> ar_digest row' = ar_digest row"
  by (auto simp: accepted_row_of_def bind_result_Inr_iff)

lemma claim_again_duplicate:
  assumes "store_ok db" "claim_identity rec (begin_txn now db) = Inr (ACCEPTED, tx1)"
    and "apply_effects es tx1 = Inr tx2"
  shows "claim_identity rec (begin_txn later (txn_db tx2)) = Inr (DUPLICATE, begin_txn later (txn_db tx2))"
proof -
  have "store_ok (txn_db (begin_txn now db))" using assms(1) by simp
  note ok = claim_ok [OF this assms(2)]
  from apply_effects_ok [OF _ assms(3)] ok have ext: "extends tx1 tx2" by blast
  from assms(2) obtain row where row: "accepted_row_of rec now = Inr row"
    "accepted_constraints row = None" and ret: "retirement_check rec db = None"
    by (auto simp: claim_identity_def bind_result_Inr_iff)
  from ret ok extends_tables(4) [OF ext] have ret': "retirement_check rec (txn_db tx2) = None"
    by (auto intro: retirement_check_stable)
  from accepted_row_of_now [OF row(1)] obtain row' where
    row': "accepted_row_of rec later = Inr row'" "ar_identity row' = ar_identity row"
      "ar_digest row' = ar_digest row" by blast
  from ok apply_effects_digests [OF ext]
  have "accepted_digest (txn_db tx2) (record_source rec) = Some (digest rec)" by simp
  then obtain old where "row_with ar_identity (record_source rec) (accepted (txn_db tx2)) = Some old"
    "ar_digest old = digest rec" by (auto simp: accepted_digest_def)
  with ret' row' row accepted_row_of_ok [OF row(1)] show ?thesis
    by (simp add: claim_identity_def accepted_constraints_def)
qed

interpretation pg: transaction_manager begin_txn claim_identity apply_effects txn_db store_ok accepted_digest
proof unfold_locales
  show "txn_db (begin_txn now db) = db" for now db by simp
next
  fix rec tx tx'
  assume "store_ok (txn_db tx)" "claim_identity rec tx = Inr (ACCEPTED, tx')"
  from claim_ok [OF this] show "store_ok (txn_db tx') \<and>
      accepted_digest (txn_db tx) (record_source rec) = None \<and>
      accepted_digest (txn_db tx') = (accepted_digest (txn_db tx))(record_source rec \<mapsto> digest rec)"
    by simp
next
  fix rec tx disp tx'
  assume "claim_identity rec tx = Inr (disp, tx')" "disp \<noteq> ACCEPTED"
  from claim_known [OF this] show "txn_db tx' = txn_db tx \<and>
      (\<exists>d. accepted_digest (txn_db tx) (record_source rec) = Some d \<and>
         disp = (if d = digest rec then DUPLICATE else CONFLICT))" by simp
next
  fix es tx tx'
  assume a: "store_ok (txn_db tx)" "apply_effects es tx = Inr tx'"
  with apply_effects_ok [OF a] apply_effects_digests
  show "store_ok (txn_db tx') \<and> accepted_digest (txn_db tx') = accepted_digest (txn_db tx)" by blast
next
  fix db rec now tx1 es tx2 later
  assume "store_ok db" "claim_identity rec (begin_txn now db) = Inr (ACCEPTED, tx1)"
    "apply_effects es tx1 = Inr tx2"
  from claim_again_duplicate [OF this]
  show "\<exists>tx3. claim_identity rec (begin_txn later (txn_db tx2)) = Inr (DUPLICATE, tx3)" by blast
qed

section \<open>A concrete admission\<close>

definition sample_effects :: "effect list" where
  "sample_effects = [effect ''factual_contribution'' [VStr ''intervention'', VStr ''e'']
     [(''attributes'', VDict sample_event_attributes),
      (''compatibility_key'', VTuple [VStr ''f@1'', VStr ''intervention'', VNone]),
      (''aggregate_eligible'', VBool False)]]"

lemma sample_project: "project sample_record = Inr sample_effects"
  by (simp add: project_def project_contribution_def need_def
      sample_event_attributes_def sample_effects_def compatibility_coordinates_def event_value_def
      aggregate_eligible_def bind_event_context_def sample_event_def Let_def)

definition sample_db :: db where
  "sample_db = snd (admit 0 (VDict sample_event) empty_db)"

lemma sample_nul_free:
  "nul_free (VDict sample_event)" "nul_free (VDict sample_event_attributes)"
  "dget sample_event_attributes ''agentops.delivery.id'' = VStr ''d''"
  "has_key sample_event_attributes ''agentops.delivery.id''"
  by (simp_all add: sample_event_def sample_event_attributes_def sample_resource_def TASK_SCOPE_def
      SCOPE_def TASK_PROFILE_VERSION_def has_nul_def ord_of_def)

lemma sample_claim:
  "\<exists>tx. claim_identity sample_record (begin_txn 0 empty_db) = Inr (ACCEPTED, tx) \<and>
     txn_source tx = Some (record_source sample_record) \<and> effects (txn_db tx) = [] \<and>
     record_source sample_record \<in> ar_identity ` set (accepted (txn_db tx)) \<and> fences (txn_db tx) = []"
proof -
  have "retirement_check sample_record empty_db = None"
    by (simp add: retirement_check_def record_delivery_def sample_nul_free text_param_def
        has_nul_def ord_of_def is_fenced_def empty_db_def)
  moreover obtain row where "accepted_row_of sample_record 0 = Inr row"
    "ar_identity row = record_source sample_record" "ar_digest row = digest sample_record"
    using sample_nul_free(1) by (auto simp: accepted_row_of_def to_jsonb_def)
  ultimately show ?thesis
    using sample_record_digest
    by (simp add: claim_identity_def accepted_constraints_def record_source_def empty_db_def
        claim_new_def record_delivery_def add_membership_def Let_def)
qed

lemma sample_apply:
  assumes "txn_source tx = Some src" "effects (txn_db tx) = []" "src \<in> ar_identity ` set (accepted (txn_db tx))"
  shows "\<exists>tx'. apply_effects sample_effects tx = Inr tx'"
proof -
  have "nul_free (VDict (effect_payload (hd sample_effects)))"
    using sample_nul_free(2) by (simp add: sample_effects_def effect_def has_nul_def ord_of_def)
  with assms show ?thesis
    by (simp add: sample_effects_def effect_def apply_effect_def starts_with_code first_write_def
        to_jsonb_def row_with_None_iff)
qed

lemma sample_admitted:
  "admit 0 (VDict sample_event) empty_db = (Inr (admission ACCEPTED sample_effects None), sample_db)"
proof -
  from sample_claim obtain tx where c: "claim_identity sample_record (begin_txn 0 empty_db) = Inr (ACCEPTED, tx)"
    and "txn_source tx = Some (record_source sample_record)" "effects (txn_db tx) = []"
      "record_source sample_record \<in> ar_identity ` set (accepted (txn_db tx))" by blast
  from sample_apply [OF this(2-4)] obtain tx' where "apply_effects sample_effects tx = Inr tx'" ..
  with c have "admit 0 (VDict sample_event) empty_db =
      (Inr (admission ACCEPTED sample_effects None), txn_db tx')"
    by (simp add: admit_def admit_with_def sample_valid admit_body_def sample_project)
  then show ?thesis by (simp add: sample_db_def)
qed

section \<open>Properties of admission\<close>

lemma admit_pg: "admit now = pg.admit_at now"
  by (simp add: admit_def)

lemma sample_db_ok: "store_ok sample_db"
  using pg.admit_inv [of empty_db 0 "VDict sample_event"] sample_admitted by (simp add: admit_pg)

text \<open>The abstract registry an admission implements: one digest per identity, never replaced.\<close>

definition registry_step ::
  "source \<Rightarrow> string \<Rightarrow> (source \<Rightarrow> string option) \<Rightarrow> disposition \<times> (source \<Rightarrow> string option)" where
  "registry_step src d m = (case m src of
       None \<Rightarrow> (ACCEPTED, m(src \<mapsto> d))
     | Some d' \<Rightarrow> (if d' = d then DUPLICATE else CONFLICT, m))"

text \<open>
  C1: admission refines the registry.  Whenever admitting a valid record ends without a
  projection failure, the disposition and the digests the database holds afterwards are those
  of the registry's step: accepted exactly when the identity was unknown, a duplicate exactly
  when it is known under the same digest, a conflict exactly when under another one.
\<close>

theorem admit_refines_registry:
  assumes "store_ok db" "validate_record v = Inr rec" "admit now v db = (Inr res, db')"
    and "reason res = None"
  shows "(disposition res, accepted_digest db') =
           registry_step (record_source rec) (digest rec) (accepted_digest db)"
proof -
  from assms(3,4) have not_rejected: "disposition res \<noteq> REJECTED"
    using assms(2) claim_known
    by (auto simp: admit_def admit_with_def admit_body_def caught_def admission_def result_iffs
        bind_result_Inr_iff split: sum.splits prod.splits if_splits py_error.splits dest!: claim_known)
  show ?thesis
  proof (cases "disposition res = ACCEPTED")
    case True
    from pg.admit_accepted [OF assms(3) [unfolded admit_pg] True assms(1)] obtain rec' where
      "validate_record v = Inr rec'" "accepted_digest db (record_source rec') = None"
      "accepted_digest db' = (accepted_digest db)(record_source rec' \<mapsto> digest rec')" .
    with assms(2) True show ?thesis by (simp add: registry_step_def)
  next
    case False
    then have "db' = db"
      using pg.admit_not_accepted [OF assms(3) [unfolded admit_pg]] by simp
    moreover have "accepted_digest db (record_source rec) \<noteq> None"
    proof -
      from assms(2-4) obtain tx where
        "admit_body claim_identity apply_effects rec (begin_txn now db) = Inr (res, tx)"
        by (auto simp: admit_def admit_with_def caught_def admission_def
            split: sum.splits prod.splits py_error.splits)
      with False have "claim_identity rec (begin_txn now db) = Inr (disposition res, tx)"
        by (auto simp: admit_body_def bind_result_Inr_iff admission_def split: if_splits)
      from claim_known [OF this False] show ?thesis by auto
    qed
    ultimately show ?thesis
      using pg.admit_known [OF assms(2) _ assms(1) assms(3) [unfolded admit_pg] not_rejected assms(4)]
      by (auto simp: registry_step_def)
  qed
qed

theorem admit_refines_registry_witness:
  "(ACCEPTED, accepted_digest sample_db) =
     registry_step (record_source sample_record) (digest sample_record) (accepted_digest empty_db)"
  using admit_refines_registry [OF empty_db_ok sample_valid sample_admitted]
  by (simp add: admission_def)

text \<open>
  C2: an admission is all or nothing.  Whatever goes wrong - an invalid record, a known
  identity, a conflicting or missing projection, an exception of the database - the database
  after the admission is the database before it.
\<close>

theorem admit_all_or_nothing:
  assumes "admit now v db = (r, db')" and "\<forall>res. r = Inr res \<longrightarrow> disposition res \<noteq> ACCEPTED"
  shows "db' = db"
  using pg.admit_not_accepted [OF assms(1) [unfolded admit_pg] assms(2)] .

theorem admit_all_or_nothing_witness: "snd (admit 5 VNone sample_db) = sample_db"
  using admit_all_or_nothing [of 5 VNone sample_db "fst (admit 5 VNone sample_db)"
      "snd (admit 5 VNone sample_db)"]
  by (simp add: admit_def admit_with_def validate_record_def is_dict_def)

text \<open>
  C3: redelivery is idempotent.  After a record was accepted, admitting the same record again,
  at any later time, is answered as a duplicate and changes nothing.
\<close>

theorem admit_redelivery:
  assumes "store_ok db" "admit now v db = (Inr res, db')" "disposition res = ACCEPTED"
  shows "admit later v db' = (Inr (admission DUPLICATE [] None), db')"
  using pg.admit_twice [OF assms(1) assms(2) [unfolded admit_pg] assms(3)] by (simp add: admit_pg)

theorem admit_redelivery_witness:
  "admit 9 (VDict sample_event) sample_db = (Inr (admission DUPLICATE [] None), sample_db)"
  using admit_redelivery [OF empty_db_ok sample_admitted] by (simp add: admission_def)

text \<open>
  Admission keeps the store well formed (primary keys, references between tables, no
  member of a retired Delivery) and never removes or alters a row it wrote before.
\<close>

theorem admit_keeps_store:
  assumes "store_ok db" "admit now v db = (r, db')"
  shows "store_ok db' \<and> set (accepted db) \<subseteq> set (accepted db') \<and> set (effects db) \<subseteq> set (effects db') \<and>
         fences db' = fences db \<and> markers db' = markers db"
proof (cases "\<exists>res. r = Inr res \<and> disposition res = ACCEPTED")
  case True
  then obtain res where "r = Inr res" and acc: "disposition res = ACCEPTED" by blast
  with assms(2) have a: "pg.admit_at now v db = (Inr res, db')" by (simp add: admit_pg)
  from pg.admit_accepted [OF a acc assms(1)] obtain rec tx1 tx2 where
    c: "claim_identity rec (begin_txn now db) = Inr (ACCEPTED, tx1)"
    and e: "apply_effects (result_effects res) tx1 = Inr tx2" and db': "db' = txn_db tx2"
    and ok: "store_ok db'" .
  have "store_ok (txn_db (begin_txn now db))" using assms(1) by simp
  note claimed = claim_ok [OF this c]
  from claimed apply_effects_ok [OF _ e] have ext: "extends tx1 tx2" by blast
  from claim_accepted [OF c] claim_new_Inr have "set (accepted db) \<subseteq> set (accepted (txn_db tx1))"
    by fastforce
  with claimed extends_tables [OF ext] ok db' show ?thesis by auto
next
  case False
  with pg.admit_not_accepted [OF assms(2) [unfolded admit_pg]] assms(1) show ?thesis by blast
qed

theorem admit_keeps_store_witness:
  "store_ok sample_db \<and> set (accepted empty_db) \<subseteq> set (accepted sample_db) \<and>
   set (effects empty_db) \<subseteq> set (effects sample_db) \<and> fences sample_db = fences empty_db \<and>
   markers sample_db = markers empty_db"
  using admit_keeps_store [OF empty_db_ok sample_admitted] .

lemma admit_established_rows:
  assumes "store_ok db" "admit now v db = (Inr res, db')" "disposition res = ACCEPTED"
  shows "\<exists>rec. validate_record v = Inr rec \<and> project rec = Inr (result_effects res) \<and>
    (\<forall>e \<in> set (result_effects res). established (Some (record_source rec)) e (effects db'))"
proof -
  from pg.admit_accepted [OF assms(2) [unfolded admit_pg] assms(3,1)] obtain rec tx1 tx2 where
    v: "validate_record v = Inr rec" and p: "project rec = Inr (result_effects res)"
    and c: "claim_identity rec (begin_txn now db) = Inr (ACCEPTED, tx1)"
    and e: "apply_effects (result_effects res) tx1 = Inr tx2" and db': "db' = txn_db tx2" .
  have "store_ok (txn_db (begin_txn now db))" using assms(1) by simp
  from claim_ok [OF this c] have ok: "store_ok (txn_db tx1)" "txn_source tx1 = Some (record_source rec)"
    by auto
  from apply_effects_established [OF ok(1) e] ok(2) db'
  have "\<forall>f \<in> set (result_effects res). established (Some (record_source rec)) f (effects db')" by simp
  with v p show ?thesis by blast
qed

text \<open>
  C4: acceptance writes the whole projection.  Every effect of an accepted record is
  established afterwards: a written effect has a row of its kind and key, either one written
  for this record with this payload or an earlier one with an equal payload; a required effect
  has a row that carries the required values.
\<close>

theorem admit_establishes_projection:
  assumes "store_ok db" "admit now v db = (Inr res, db')" "disposition res = ACCEPTED"
  shows "\<exists>rec. validate_record v = Inr rec \<and> project rec = Inr (result_effects res) \<and>
    (\<forall>e \<in> set (result_effects res). established (Some (record_source rec)) e (effects db'))"
  using admit_established_rows [OF assms] .

theorem admit_establishes_projection_witness:
  "\<exists>rec. validate_record (VDict sample_event) = Inr rec \<and> project rec = Inr sample_effects \<and>
    (\<forall>e \<in> set sample_effects. established (Some (record_source rec)) e (effects sample_db))"
  using admit_establishes_projection [OF empty_db_ok sample_admitted] by (simp add: admission_def)

end
