(* ===== verification/Lifecycle.thy ===== *)
theory Lifecycle
  imports Retention_Facts Projection_Facts Admission
begin

text \<open>
  The life of the evidence database: the transactions of the two writers, admission and
  retention, as a step relation, the databases that are reachable from the empty one, and what
  holds of all of them.  Each step is one transaction of the code; its result or exception is
  what its caller sees.
\<close>

section \<open>Admission keeps the memberships\<close>

lemma apply_effect_new_rows:
  assumes "apply_effect e tx = Inr tx'" "r \<in> set (effects (txn_db tx'))"
  shows "r \<in> set (effects (txn_db tx)) \<or>
    pe_id r = (effect_kind e, key_json (effect_key e)) \<and> txn_source tx = Some (pe_source r)"
proof (cases "starts_with (effect_kind e) ''require_''")
  case True
  with assms show ?thesis by (auto simp: apply_effect_def dest: require_effect_same)
next
  case False
  with assms(1) have "first_write e tx = Inr tx'" by (simp add: apply_effect_def)
  from first_write_ok [OF this] assms(2) show ?thesis by auto
qed

lemma apply_effect_extends: "apply_effect e tx = Inr tx' \<Longrightarrow> extends tx tx'"
proof (cases "starts_with (effect_kind e) ''require_''")
  case True
  then show "apply_effect e tx = Inr tx' \<Longrightarrow> ?thesis"
    by (auto simp: apply_effect_def dest: require_effect_same)
next
  case False
  assume "apply_effect e tx = Inr tx'"
  with False have "first_write e tx = Inr tx'" by (simp add: apply_effect_def)
  from first_write_ok [OF this] show ?thesis by (auto intro: extends_snoc)
qed

lemma apply_effects_new_rows:
  assumes "apply_effects es tx = Inr tx'" "r \<in> set (effects (txn_db tx'))"
  shows "r \<in> set (effects (txn_db tx)) \<or>
    (\<exists>e \<in> set es. pe_id r = (effect_kind e, key_json (effect_key e))) \<and> txn_source tx = Some (pe_source r)"
  using assms
proof (induction es tx rule: apply_effects.induct)
  case (2 e es tx)
  then obtain tx1 where one: "apply_effect e tx = Inr tx1" and rest: "apply_effects es tx1 = Inr tx'"
    by (auto simp: bind_result_Inr_iff)
  note same = extends_tables(6) [OF apply_effect_extends [OF one]]
  from "2.IH" [OF rest "2.prems"(2)] consider "r \<in> set (effects (txn_db tx1))"
    | "\<exists>e \<in> set es. pe_id r = (effect_kind e, key_json (effect_key e))" "txn_source tx1 = Some (pe_source r)"
    by blast
  then show ?case
  proof cases
    case 1
    from apply_effect_new_rows [OF one 1] show ?thesis by auto
  next
    case 2
    with same show ?thesis by auto
  qed
qed simp

lemma claim_member:
  assumes "claim_identity rec tx = Inr (ACCEPTED, tx')" "record_delivery rec = Some d"
  shows "record_source rec \<in> delivery_members d (txn_db tx')"
proof -
  from claim_accepted [OF assms(1)] obtain row where
    new: "claim_new rec row tx = Inr (ACCEPTED, tx')" "ar_identity row = record_source rec" by blast
  from claim_new_Inr [OF new(1)] assms(2) new(2) show ?thesis by (auto simp: delivery_members_def image_iff)
qed

lemma claim_members_grow:
  assumes "claim_identity rec tx = Inr (ACCEPTED, tx')"
  shows "delivery_members d (txn_db tx) \<subseteq> delivery_members d (txn_db tx')"
proof -
  from claim_accepted [OF assms] obtain row where new: "claim_new rec row tx = Inr (ACCEPTED, tx')" by blast
  from claim_new_Inr [OF new] show ?thesis by (auto simp: delivery_members_def)
qed

lemma evidence_ok_empty [simp]: "evidence_ok empty_db"
  by (simp add: evidence_ok_def memberships_ok_def) (simp add: empty_db_def)

lemma admit_evidence_ok:
  assumes "evidence_ok db" "admit now v db = (r, db')"
  shows "evidence_ok db'"
proof (cases "\<exists>res. r = Inr res \<and> disposition res = ACCEPTED")
  case False
  with pg.admit_not_accepted [OF assms(2) [unfolded admit_pg]] assms(1) show ?thesis by blast
next
  case True
  then obtain res where "r = Inr res" and acc: "disposition res = ACCEPTED" by blast
  with assms(2) have a: "pg.admit_at now v db = (Inr res, db')" by (simp add: admit_pg)
  have ok: "store_ok db" "memberships_ok db" using assms(1) by (simp_all add: evidence_ok_def)
  from pg.admit_accepted [OF a acc ok(1)] obtain rec tx1 tx2 where
    v: "validate_record v = Inr rec" and p: "project rec = Inr (result_effects res)"
    and c: "claim_identity rec (begin_txn now db) = Inr (ACCEPTED, tx1)"
    and e: "apply_effects (result_effects res) tx1 = Inr tx2" and db': "db' = txn_db tx2"
    and ok': "store_ok db'" .
  have "store_ok (txn_db (begin_txn now db))" using ok(1) by simp
  note claimed = claim_ok [OF this c]
  from claimed apply_effects_ok [OF _ e] have ext: "extends tx1 tx2" by blast
  have mem: "delivery_members d db' = delivery_members d (txn_db tx1)" for d
    by (simp add: db' delivery_members_def extends_tables [OF ext])
  have "membership_row_ok db' row" if row: "row \<in> set (effects db')" for row
  proof -
    have "row \<in> set (effects (txn_db tx2))" using row db' by simp
    from apply_effects_new_rows [OF e this] claimed
    consider "row \<in> set (effects db)"
      | f where "f \<in> set (result_effects res)" "pe_id row = (effect_kind f, key_json (effect_key f))"
        "pe_source row = record_source rec"
      by auto
    then show ?thesis
    proof cases
      case 1
      with ok(2) have "membership_row_ok db row" by (simp add: memberships_ok_def)
      moreover have "delivery_members d db \<subseteq> delivery_members d db'" for d
        using claim_members_grow [OF c, of d] mem by simp
      ultimately show ?thesis by (auto simp: membership_row_ok_def)
    next
      case 2
      show ?thesis
      proof (cases "pe_kind row = ''delivery_task_membership''")
        case True
        with 2(2) have kind: "effect_kind f = ''delivery_task_membership''" by (simp add: pe_id_def)
        from membership_effect [OF v p 2(1) kind] obtain t d where
          key: "effect_key f = [VStr t, VStr d]" and d: "profile_version rec = ''2.0.0''"
            "dget (attributes rec) ''agentops.delivery.id'' = VStr d" by blast
        then have "record_delivery rec = Some d" by (simp add: record_delivery_def)
        from claim_member [OF c this] mem 2(3) have "pe_source row \<in> delivery_members d db'" by simp
        with 2(2) key show ?thesis by (auto simp: membership_row_ok_def pe_id_def)
      qed (simp add: membership_row_ok_def)
    qed
  qed
  with ok' show ?thesis by (simp add: evidence_ok_def memberships_ok_def)
qed

section \<open>Steps and reachable databases\<close>

datatype action =
  Admit instant pyval
| Expire expiry_batch instant
| Delete deletion_batch instant

inductive step :: "db \<Rightarrow> action \<Rightarrow> db \<Rightarrow> bool" where
  admit_step: "admit now v db = (r, db') \<Longrightarrow> step db (Admit now v) db'"
| expire_step: "apply_expiry b now db = (r, db') \<Longrightarrow> step db (Expire b now) db'"
| delete_step: "apply_delivery_deletion b now db = (r, db') \<Longrightarrow> step db (Delete b now) db'"

inductive_cases step_cases: "step db a db'"

inductive_simps step_admit: "step db (Admit now v) db'"
inductive_simps step_expire: "step db (Expire b now) db'"
inductive_simps step_delete: "step db (Delete b now) db'"

lemmas step_simps = step_admit step_expire step_delete

inductive steps :: "db \<Rightarrow> action list \<Rightarrow> db \<Rightarrow> bool" where
  none: "steps db [] db"
| more: "step db a db1 \<Longrightarrow> steps db1 as db2 \<Longrightarrow> steps db (a # as) db2"

inductive_simps steps_Nil [simp]: "steps db [] db'"
inductive_simps steps_Cons: "steps db (a # as) db'"

definition reachable :: "db \<Rightarrow> bool" where
  "reachable db \<longleftrightarrow> (\<exists>as. steps empty_db as db)"

lemma steps_append: "steps db as db1 \<Longrightarrow> steps db1 bs db2 \<Longrightarrow> steps db (as @ bs) db2"
  by (induction rule: steps.induct) (auto intro: steps.intros)

text \<open>An invariant of single steps is one of runs; so is a relation that composes.\<close>

lemma steps_invariant:
  assumes "steps db as db'" "P db" "\<And>x a y. P x \<Longrightarrow> step x a y \<Longrightarrow> P y"
  shows "P db'"
  using assms(1,2) by (induction rule: steps.induct) (auto intro: assms(3))

lemma step_evidence_ok:
  assumes "step db a db'" "evidence_ok db"
  shows "evidence_ok db'"
  using assms(1)
proof (cases rule: step_cases [consumes 1])
  case (1 now v r)
  with assms(2) show ?thesis by (auto intro: admit_evidence_ok)
next
  case (2 b now r)
  then have "port_apply_expiry pg_port b now db = (r, db')" by (simp add: pg_port_def)
  from pg_retention.expiry_inv [OF assms(2) this] show ?thesis ..
next
  case (3 b now r)
  then have "port_apply_deletion pg_port b now db = (r, db')" by (simp add: pg_port_def)
  from pg_retention.deletion_inv [OF assms(2) this] show ?thesis .
qed

lemma steps_evidence_ok: "steps db as db' \<Longrightarrow> evidence_ok db \<Longrightarrow> evidence_ok db'"
  by (erule steps_invariant) (auto intro: step_evidence_ok)

lemma admit_fences:
  assumes "store_ok db" "admit now v db = (r, db')"
  shows "fences db' = fences db"
proof (cases "\<exists>res. r = Inr res \<and> disposition res = ACCEPTED")
  case False
  with pg.admit_not_accepted [OF assms(2) [unfolded admit_pg]] show ?thesis by blast
next
  case True
  then obtain res where "r = Inr res" and acc: "disposition res = ACCEPTED" by blast
  with assms(2) have a: "pg.admit_at now v db = (Inr res, db')" by (simp add: admit_pg)
  from pg.admit_accepted [OF a acc assms(1)] obtain rec tx1 tx2 where
    c: "claim_identity rec (begin_txn now db) = Inr (ACCEPTED, tx1)"
    and e: "apply_effects (result_effects res) tx1 = Inr tx2" and db': "db' = txn_db tx2" .
  have "store_ok (txn_db (begin_txn now db))" using assms(1) by simp
  note claimed = claim_ok [OF this c]
  from claimed apply_effects_ok [OF _ e] have ext: "extends tx1 tx2" by blast
  with claimed extends_tables [OF ext] db' show ?thesis by simp
qed

lemma step_retired:
  assumes "step db a db'" "evidence_ok db" "retired db d"
  shows "retired db' d"
  using assms(1)
proof (cases rule: step_cases [consumes 1])
  case (1 now v r)
  with assms(2,3) admit_fences show ?thesis by (auto simp: evidence_ok_def retired_def is_fenced_def)
next
  case (2 b now r)
  then have "port_apply_expiry pg_port b now db = (r, db')" by (simp add: pg_port_def)
  from pg_retention.expiry_inv [OF assms(2) this] assms(3) show ?thesis by simp
next
  case (3 b now r)
  then have "port_apply_deletion pg_port b now db = (r, db')" by (simp add: pg_port_def)
  from pg_retention.deletion_retires [OF assms(2) this assms(3)] show ?thesis .
qed

lemma steps_retired:
  assumes "steps db as db'" "evidence_ok db" "retired db d"
  shows "retired db' d"
proof -
  have "evidence_ok db' \<and> retired db' d"
    by (rule steps_invariant [OF assms(1)]) (use assms(2,3) in \<open>auto intro: step_evidence_ok step_retired\<close>)
  then show ?thesis ..
qed

section \<open>Keys stay canonical\<close>

lemma empty_keys_canonical [simp]: "keys_canonical empty_db"
  by (simp add: keys_canonical_def empty_db_def)

lemma admit_keys_canonical:
  assumes "store_ok db" "keys_canonical db" "admit now v db = (r, db')"
  shows "keys_canonical db'"
proof (cases "\<exists>res. r = Inr res \<and> disposition res = ACCEPTED")
  case False
  with pg.admit_not_accepted [OF assms(3) [unfolded admit_pg]] assms(2) show ?thesis by blast
next
  case True
  then obtain res where "r = Inr res" and acc: "disposition res = ACCEPTED" by blast
  with assms(3) have a: "pg.admit_at now v db = (Inr res, db')" by (simp add: admit_pg)
  from pg.admit_accepted [OF a acc assms(1)] obtain rec tx1 tx2 where
    v: "validate_record v = Inr rec" and p: "project rec = Inr (result_effects res)"
    and c: "claim_identity rec (begin_txn now db) = Inr (ACCEPTED, tx1)"
    and e: "apply_effects (result_effects res) tx1 = Inr tx2" and db': "db' = txn_db tx2" .
  from claim_accepted [OF c] obtain row where new: "claim_new rec row (begin_txn now db) = Inr (ACCEPTED, tx1)"
    and id: "ar_identity row = record_source rec" by blast
  from claim_new_Inr [OF new] have tx1: "accepted (txn_db tx1) = accepted db @ [row]"
    "effects (txn_db tx1) = effects db" by auto
  have "store_ok (txn_db (begin_txn now db))" using assms(1) by simp
  from claim_ok [OF this c] apply_effects_ok [OF _ e] have ext: "extends tx1 tx2" by blast
  have scalar: "\<forall>f \<in> set (result_effects res). list_all key_scalar (effect_key f)"
    using project_validated [OF v] p by (simp add: scalar_keys_def list_all_iff)
  have "list_all key_scalar (map VStr (identity rec))" by (simp add: list_all_iff)
  then have "\<exists>k. list_all key_scalar k \<and> snd (ar_identity row) = key_json k"
    using id by (auto simp: record_source_def)
  moreover have "\<exists>k. list_all key_scalar k \<and> pe_key pe = key_json k" if "pe \<in> set (effects db')" for pe
    using apply_effects_new_rows [OF e, of pe] that db' tx1(2) assms(2) scalar
    by (auto simp: keys_canonical_def pe_id_def)
  ultimately show ?thesis
    using assms(2) tx1(1) by (auto simp: keys_canonical_def db' extends_tables(1) [OF ext])
qed

lemma step_keys_canonical:
  assumes "step db a db'" "evidence_ok db" "keys_canonical db"
  shows "keys_canonical db'"
  using assms(1)
proof (cases rule: step_cases [consumes 1])
  case (1 now v r)
  with assms(2,3) show ?thesis by (auto simp: evidence_ok_def intro: admit_keys_canonical)
next
  case (2 b now r)
  with assms(2) have "skeleton db' = skeleton db" by (auto simp: evidence_ok_def dest: apply_expiry_skeleton)
  with assms(3) show ?thesis by (rule skeleton_keys_canonical [rotated])
next
  case (3 b now r)
  from 3(2) show ?thesis
  proof (cases rule: apply_deletion_cases)
    case 1
    with assms(3) show ?thesis by simp
  next
    case (2 x y)
    have ok: "store_ok db" using assms(2) by (simp add: evidence_ok_def)
    from delete_deliveries_ok [OF ok 2(1)] have "set (accepted db') \<subseteq> set (accepted db)"
      by (auto simp: deletes_def)
    moreover have "\<exists>q \<in> set (effects db). pe_key pe = pe_key q" if "pe \<in> set (effects db')" for pe
      using delete_deliveries_effects [OF ok 2(1)] that by (force simp: same_fact_def pe_id_def)
    ultimately show ?thesis using assms(3) unfolding keys_canonical_def by (metis subsetD)
  qed
qed

lemma reachable_ok:
  assumes "reachable db"
  shows "store_ok db" "memberships_ok db" "keys_canonical db" "evidence_ok db"
proof -
  from assms obtain as where "steps empty_db as db" by (auto simp: reachable_def)
  then have "evidence_ok db \<and> keys_canonical db"
    by (rule steps_invariant) (auto intro: step_evidence_ok step_keys_canonical)
  then show "store_ok db" "memberships_ok db" "keys_canonical db" "evidence_ok db"
    by (simp_all add: evidence_ok_def)
qed

lemma reachable_steps: "reachable db \<Longrightarrow> steps db as db' \<Longrightarrow> reachable db'"
  unfolding reachable_def using steps_append by blast

lemma empty_reachable [simp]: "reachable empty_db"
  unfolding reachable_def by (rule exI [of _ "[]"]) simp

section \<open>The ledger\<close>

text \<open>
  What the evidence database promises, without its tables: which identities are known under
  which digest, to which Delivery each belongs, and which Deliveries are closed.  A record is
  registered once, in an open Delivery; closing Deliveries forgets exactly their records.
\<close>

record ledger =
  known :: "source \<Rightarrow> string option"
  owner :: "source \<Rightarrow> string option"
  closed :: "string set"

definition ledger_of :: "db \<Rightarrow> ledger" where
  "ledger_of db = \<lparr>known = accepted_digest db,
     owner = (\<lambda>src. map_option dm_delivery (row_with dm_identity src (members db))),
     closed = {d. is_fenced d db}\<rparr>"

definition register :: "validated_record \<Rightarrow> ledger \<Rightarrow> ledger" where
  "register rec l = l\<lparr>known := (known l)(record_source rec \<mapsto> digest rec),
     owner := (owner l)(record_source rec := record_delivery rec)\<rparr>"

definition close :: "string list \<Rightarrow> ledger \<Rightarrow> ledger" where
  "close ds l =
     (let gone = (\<lambda>src. \<exists>d \<in> set ds. owner l src = Some d) in
      l\<lparr>known := (\<lambda>src. if gone src then None else known l src),
        owner := (\<lambda>src. if gone src then None else owner l src),
        closed := closed l \<union> set ds\<rparr>)"

inductive ledger_step :: "ledger \<Rightarrow> action \<Rightarrow> ledger \<Rightarrow> bool" where
  unchanged: "ledger_step l a l"
| registered: "validate_record v = Inr rec \<Longrightarrow> known l (record_source rec) = None \<Longrightarrow>
    (\<forall>d. record_delivery rec = Some d \<longrightarrow> d \<notin> closed l) \<Longrightarrow>
    ledger_step l (Admit now v) (register rec l)"
| closing: "ledger_step l (Delete b now) (close (db_delivery_ids b) l)"

lemma ledger_of_simps [simp]:
  "known (ledger_of db) = accepted_digest db" "d \<in> closed (ledger_of db) \<longleftrightarrow> is_fenced d db"
  by (simp_all add: ledger_of_def)

lemma owner_iff:
  assumes "store_ok db"
  shows "owner (ledger_of db) src = Some d \<longleftrightarrow> src \<in> delivery_members d db"
proof
  assume "owner (ledger_of db) src = Some d"
  then show "src \<in> delivery_members d db"
    by (auto simp: ledger_of_def delivery_members_def dest!: row_with_SomeD)
next
  assume "src \<in> delivery_members d db"
  then obtain m where m: "m \<in> set (members db)" "dm_delivery m = d" "dm_identity m = src"
    by (auto simp: delivery_members_def)
  from assms have "key_unique dm_identity (members db)" by (simp add: store_defs)
  from row_with_key_unique [OF this m(1)] m show "owner (ledger_of db) src = Some d"
    by (simp add: ledger_of_def)
qed

lemma known_iff:
  assumes "store_ok db"
  shows "accepted_digest db src = Some g \<longleftrightarrow>
    (\<exists>ar \<in> set (accepted db). ar_identity ar = src \<and> ar_digest ar = g)"
proof
  assume "accepted_digest db src = Some g"
  then show "\<exists>ar \<in> set (accepted db). ar_identity ar = src \<and> ar_digest ar = g"
    by (auto simp: accepted_digest_def dest!: row_with_SomeD)
next
  assume "\<exists>ar \<in> set (accepted db). ar_identity ar = src \<and> ar_digest ar = g"
  then obtain ar where ar: "ar \<in> set (accepted db)" "ar_identity ar = src" "ar_digest ar = g" by blast
  from assms have "key_unique ar_identity (accepted db)" by (simp add: store_defs)
  from row_with_key_unique [OF this ar(1)] ar show "accepted_digest db src = Some g"
    by (simp add: accepted_digest_def)
qed

lemma option_eqI: "(\<And>y. x = Some y \<longleftrightarrow> x' = Some y) \<Longrightarrow> x = x'"
  by (cases x; cases x') auto

lemma deletes_ledger:
  assumes "store_ok db" "deletes ds db db'"
  shows "ledger_of db' = close ds (ledger_of db)"
proof -
  have ok': "store_ok db'" using assms(2) by (simp add: deletes_def)
  have gone: "(\<exists>d \<in> set ds. owner (ledger_of db) src = Some d) \<longleftrightarrow> (\<exists>d \<in> set ds. src \<in> delivery_members d db)"
    for src by (simp add: owner_iff [OF assms(1)])
  have "known (ledger_of db') src = known (close ds (ledger_of db)) src" for src
  proof (rule option_eqI)
    fix g
    from assms(2) have "accepted_digest db' src = Some g \<longleftrightarrow>
        accepted_digest db src = Some g \<and> (\<forall>d \<in> set ds. src \<notin> delivery_members d db)"
      by (auto simp: known_iff [OF ok'] known_iff [OF assms(1)] deletes_def)
    then show "known (ledger_of db') src = Some g \<longleftrightarrow> known (close ds (ledger_of db)) src = Some g"
      by (simp add: close_def Let_def gone)
  qed
  moreover have "owner (ledger_of db') src = owner (close ds (ledger_of db)) src" for src
  proof (rule option_eqI)
    fix d
    have "src \<in> delivery_members d db' \<longleftrightarrow> src \<in> delivery_members d db \<and> d \<notin> set ds"
      using assms(2) by (auto simp: deletes_def delivery_members_def)
    moreover have "src \<in> delivery_members d db \<Longrightarrow> e \<in> set ds \<Longrightarrow> d \<notin> set ds \<Longrightarrow> src \<notin> delivery_members e db" for e
      using members_disjoint [OF assms(1), of src d e] by blast
    ultimately show
      "owner (ledger_of db') src = Some d \<longleftrightarrow> owner (close ds (ledger_of db)) src = Some d"
      by (auto simp: close_def Let_def gone owner_iff [OF ok'] owner_iff [OF assms(1)])
  qed
  moreover have "closed (ledger_of db') = closed (close ds (ledger_of db))"
    using assms(2) by (auto simp: ledger_of_def close_def Let_def deletes_def)
  ultimately show ?thesis by (intro ledger.equality) (auto simp: fun_eq_iff)
qed

lemma skeleton_ledger:
  assumes "skeleton db' = skeleton db"
  shows "ledger_of db' = ledger_of db"
proof -
  from assms have "members db' = members db" "fences db' = fences db"
    by (simp_all only: skeleton_def prod.inject)
  with skeleton_digests [OF assms] show ?thesis by (simp add: ledger_of_def is_fenced_def)
qed

lemma admit_ledger:
  assumes "store_ok db" "admit now v db = (Inr res, db')" "disposition res = ACCEPTED"
  obtains rec where "validate_record v = Inr rec" "accepted_digest db (record_source rec) = None"
    "\<forall>d. record_delivery rec = Some d \<longrightarrow> \<not> is_fenced d db" "ledger_of db' = register rec (ledger_of db)"
proof -
  have a: "pg.admit_at now v db = (Inr res, db')" using assms(2) by (simp add: admit_pg)
  from pg.admit_accepted [OF a assms(3,1)] obtain rec tx1 tx2 where
    v: "validate_record v = Inr rec"
    and c: "claim_identity rec (begin_txn now db) = Inr (ACCEPTED, tx1)"
    and e: "apply_effects (result_effects res) tx1 = Inr tx2" and db': "db' = txn_db tx2"
    and ok': "store_ok db'" and new: "accepted_digest db (record_source rec) = None"
    and dig: "accepted_digest db' = (accepted_digest db)(record_source rec \<mapsto> digest rec)" .
  from claim_accepted [OF c] obtain row where cn: "claim_new rec row (begin_txn now db) = Inr (ACCEPTED, tx1)"
    and id: "ar_identity row = record_source rec" and ret: "retirement_check rec db = None" by auto
  from claim_new_Inr [OF cn] obtain ms where mem: "members (txn_db tx1) = members db @ ms"
    and ms: "case record_delivery rec of None \<Rightarrow> ms = []
       | Some d \<Rightarrow> ms = [\<lparr>dm_delivery = d, dm_identity = record_source rec\<rparr>]"
    using id by (auto split: option.splits)
  have "store_ok (txn_db (begin_txn now db))" using assms(1) by simp
  note claimed = claim_ok [OF this c]
  from claimed apply_effects_ok [OF _ e] have ext: "extends tx1 tx2" by blast
  have fresh: "row_with dm_identity (record_source rec) (members db) = None"
    using new assms(1) by (auto simp: accepted_digest_def row_with_None_iff store_defs)
  have "owner (ledger_of db') = owner (register rec (ledger_of db))"
  proof (cases "record_delivery rec")
    case None
    with ms fresh show ?thesis
      by (simp add: ledger_of_def register_def db' extends_tables(2) [OF ext] mem fun_eq_iff)
  next
    case (Some d)
    with ms fresh show ?thesis
      by (simp add: ledger_of_def register_def db' extends_tables(2) [OF ext] mem fun_eq_iff
          row_with_append row_with_Cons split: option.split)
  qed
  moreover have "is_fenced d db' = is_fenced d db" for d
    using claimed by (simp add: db' is_fenced_def extends_tables(4) [OF ext])
  ultimately have "ledger_of db' = register rec (ledger_of db)"
    by (intro ledger.equality) (simp_all add: register_def dig ledger_of_def)
  with retirement_check_fence [OF ret] show thesis by (intro that [OF v new]) auto
qed

lemma step_ledger:
  assumes "evidence_ok db" "step db a db'"
  shows "ledger_step (ledger_of db) a (ledger_of db')"
  using assms(2)
proof (cases rule: step_cases [consumes 1])
  case (1 now v r)
  have ok: "store_ok db" using assms(1) by (simp add: evidence_ok_def)
  show ?thesis
  proof (cases "\<exists>res. r = Inr res \<and> disposition res = ACCEPTED")
    case True
    with 1 obtain res where "admit now v db = (Inr res, db')" "disposition res = ACCEPTED" by auto
    from admit_ledger [OF ok this] obtain rec where "validate_record v = Inr rec"
      "accepted_digest db (record_source rec) = None"
      "\<forall>d. record_delivery rec = Some d \<longrightarrow> \<not> is_fenced d db" "ledger_of db' = register rec (ledger_of db)" .
    with 1(1) show ?thesis by (auto intro: ledger_step.intros)
  next
    case False
    then have "db' = db" using pg.admit_not_accepted [OF 1(2) [unfolded admit_pg]] by blast
    then show ?thesis by (simp add: ledger_step.unchanged)
  qed
next
  case (2 b now r)
  with assms(1) have "skeleton db' = skeleton db" by (auto simp: evidence_ok_def dest: apply_expiry_skeleton)
  from skeleton_ledger [OF this] show ?thesis by (simp add: ledger_step.unchanged)
next
  case (3 b now r)
  from 3(2) show ?thesis
  proof (cases rule: apply_deletion_cases)
    case 1
    then show ?thesis by (simp add: ledger_step.unchanged)
  next
    case (2 x y)
    have ok: "store_ok db" using assms(1) by (simp add: evidence_ok_def)
    from delete_deliveries_ok [OF ok 2(1)] have "deletes (db_delivery_ids b) db db'" by blast
    from deletes_ledger [OF ok this] 3(1) show ?thesis by (simp add: ledger_step.closing)
  qed
qed

section \<open>What the ledger promises over a run\<close>

text \<open>
  A known identity keeps its digest and its Delivery until that Delivery is closed, and a closed
  Delivery stays closed.
\<close>

definition remembered :: "source \<Rightarrow> string \<Rightarrow> string option \<Rightarrow> ledger \<Rightarrow> bool" where
  "remembered src g od l \<longleftrightarrow>
     known l src = Some g \<and> owner l src = od \<or> (\<exists>d. od = Some d \<and> d \<in> closed l)"

lemma ledger_step_remembered:
  assumes "ledger_step l a l'" "remembered src g od l"
  shows "remembered src g od l'"
  using assms by (cases rule: ledger_step.cases) (auto simp: remembered_def register_def close_def Let_def)

lemma steps_remembered:
  assumes "steps db as db'" "evidence_ok db" "remembered src g od (ledger_of db)"
  shows "remembered src g od (ledger_of db')"
proof -
  have "evidence_ok db' \<and> remembered src g od (ledger_of db')"
    by (rule steps_invariant [OF assms(1)])
      (use assms(2,3) in \<open>auto intro: step_evidence_ok ledger_step_remembered step_ledger\<close>)
  then show ?thesis ..
qed

end
