(* ===== verification/Snapshot_Facts.thy ===== *)
theory Snapshot_Facts
  imports Snapshot Lifecycle
begin

text \<open>
  Facts of the snapshot adapter: the identities of accepted records have one of two shapes in
  every reachable database, so the positions of the rows of a snapshot are distinct and a cursor
  cuts the ordered rows at one place; and the invariant of the adapter's leases and cursors.
\<close>

section \<open>Shapes of accepted identities\<close>

definition source_shape :: "source \<Rightarrow> bool" where
  "source_shape src \<longleftrightarrow>
     (\<exists>e. src = (''event'', key_json [VStr ''event'', VStr e])) \<or>
     (\<exists>t s. src = (''span'', key_json [VStr ''span'', VStr t, VStr s]))"

definition sources_ok :: "db \<Rightarrow> bool" where
  "sources_ok db \<longleftrightarrow> (\<forall>ar \<in> set (accepted db). source_shape (ar_identity ar))"

lemma validated_source:
  assumes "validate_record v = Inr rec"
  shows "source_shape (record_source rec)"
  using assms
  by (rule validated_cases)
     (auto simp: is_span_record_def is_event_record_def record_source_def source_shape_def)

lemma admit_sources_ok:
  assumes "store_ok db" "sources_ok db" "admit now v db = (r, db')"
  shows "sources_ok db'"
proof (cases "\<exists>res. r = Inr res \<and> disposition res = ACCEPTED")
  case False
  with pg.admit_not_accepted [OF assms(3) [unfolded admit_pg]] assms(2) show ?thesis by blast
next
  case True
  then obtain res where "r = Inr res" and acc: "disposition res = ACCEPTED" by blast
  with assms(3) have a: "pg.admit_at now v db = (Inr res, db')" by (simp add: admit_pg)
  from pg.admit_accepted [OF a acc assms(1)] obtain rec tx1 tx2 where
    v: "validate_record v = Inr rec"
    and c: "claim_identity rec (begin_txn now db) = Inr (ACCEPTED, tx1)"
    and e: "apply_effects (result_effects res) tx1 = Inr tx2" and db': "db' = txn_db tx2" .
  from claim_accepted [OF c] obtain row where new: "claim_new rec row (begin_txn now db) = Inr (ACCEPTED, tx1)"
    and id: "ar_identity row = record_source rec" by blast
  from claim_new_Inr [OF new] have tx1: "accepted (txn_db tx1) = accepted db @ [row]" by auto
  have "store_ok (txn_db (begin_txn now db))" using assms(1) by simp
  from claim_ok [OF this c] apply_effects_ok [OF _ e] have ext: "extends tx1 tx2" by blast
  from validated_source [OF v] id assms(2) tx1 show ?thesis
    by (auto simp: sources_ok_def db' extends_tables(1) [OF ext])
qed

lemma step_sources_ok:
  assumes "step db a db'" "evidence_ok db" "sources_ok db"
  shows "sources_ok db'"
  using assms(1)
proof (cases rule: step_cases [consumes 1])
  case (1 now v r)
  with assms(2,3) show ?thesis by (auto simp: evidence_ok_def intro: admit_sources_ok)
next
  case (2 b now r)
  with assms(2) have "skeleton db' = skeleton db" by (auto simp: evidence_ok_def dest: apply_expiry_skeleton)
  from skeleton_sets(1) [OF this] assms(3) show ?thesis by (simp add: sources_ok_def) (metis imageE imageI)
next
  case (3 b now r)
  from 3(2) show ?thesis
  proof (cases rule: apply_deletion_cases)
    case 1
    with assms(3) show ?thesis by simp
  next
    case (2 x y)
    have ok: "store_ok db" using assms(2) by (simp add: evidence_ok_def)
    from delete_deliveries_ok [OF ok 2(1)] have "set (accepted db') \<subseteq> set (accepted db)"
      by (auto simp: deletes_def)
    with assms(3) show ?thesis by (auto simp: sources_ok_def)
  qed
qed

lemma empty_sources [simp]: "sources_ok empty_db"
  by (simp add: sources_ok_def empty_db_def)

lemma reachable_sources: "reachable db \<Longrightarrow> sources_ok db"
proof -
  assume "reachable db"
  then obtain as where "steps empty_db as db" by (auto simp: reachable_def)
  then have "evidence_ok db \<and> sources_ok db"
    by (rule steps_invariant) (auto intro: step_evidence_ok step_sources_ok)
  then show ?thesis ..
qed

section \<open>Positions are distinct\<close>

lemma join_Cons_parts: "\<exists>tl. join (map json_dumps (v # vs)) = json_dumps v @ tl"
  by (cases vs) auto

lemma join_not_bracket: "key_scalar v \<Longrightarrow> join (map json_dumps (v # vs)) @ u \<noteq> '']'' @ u'"
  using join_Cons_parts [of v vs] key_scalar_not_bracket [of v] by (auto simp del: list.map)

lemma keys_append_eq:
  assumes "list_all key_scalar vs" "list_all key_scalar ws"
    and "join (map json_dumps vs) @ '']'' @ u = join (map json_dumps ws) @ '']'' @ u'"
  shows "vs = ws \<and> u = u'"
  using assms
proof (induction vs arbitrary: ws)
  case Nil
  show ?case
  proof (cases ws)
    case (Cons w ws')
    with Nil join_not_bracket [of w ws' "'']'' @ u'" u]
    show ?thesis by (metis append_Nil join.simps(1) list.map(1) list.pred_inject(2))
  qed (use Nil in simp)
next
  case (Cons v vs)
  have "ws \<noteq> []"
    using Cons.prems join_not_bracket [of v vs "'']'' @ u" u'] by (auto simp del: list.map(2))
  then obtain w ws' where ws: "ws = w # ws'" by (cases ws) auto
  have "v = w \<and> (case vs of [] \<Rightarrow> '']'' @ u | _ \<Rightarrow> '','' @ join (map json_dumps vs) @ '']'' @ u) =
        (case ws' of [] \<Rightarrow> '']'' @ u' | _ \<Rightarrow> '','' @ join (map json_dumps ws') @ '']'' @ u')"
    using Cons.prems ws by (intro key_scalar_append_eq) (auto split: list.splits)
  then show ?case using Cons.IH [of ws'] Cons.prems ws by (auto split: list.splits)
qed

lemma key_json_append_eq:
  "list_all key_scalar k \<Longrightarrow> list_all key_scalar l \<Longrightarrow> key_json k @ u = key_json l @ v \<Longrightarrow> k = l \<and> u = v"
  using keys_append_eq [of k l u v] by (simp add: key_json_def)

lemma source_append_eq:
  assumes "source_shape a" "source_shape b"
    and "fst a @ '':'' @ snd a @ u = fst b @ '':'' @ snd b @ v"
  shows "u = v"
  using assms(1,2)
proof (auto simp: source_shape_def, goal_cases)
  case (1 e e')
  with assms(3) key_json_append_eq [of "[VStr ''event'', VStr e]" "[VStr ''event'', VStr e']" u v]
  show ?case by simp
next
  case (4 t s t' s')
  with assms(3) key_json_append_eq [of "[VStr ''span'', VStr t, VStr s]" "[VStr ''span'', VStr t', VStr s']" u v]
  show ?case by simp
qed (use assms(3) in simp_all)

lemma fact_kinds_inj:
  "k \<in> set FACT_EFFECT_KINDS \<Longrightarrow> fact_kind_sql k = fact_kind_sql k' \<Longrightarrow> k = k'"
  by (auto simp: FACT_EFFECT_KINDS_def fact_kind_sql_def PUBLIC_FACT_KINDS_def split: if_splits)

lemma fact_kind_known: "k \<in> set FACT_EFFECT_KINDS \<Longrightarrow> \<exists>p. fact_kind_sql k = Some p"
  by (auto simp: FACT_EFFECT_KINDS_def fact_kind_sql_def PUBLIC_FACT_KINDS_def)

lemma trace_order_inj:
  "k \<in> set TRACE_EFFECT_KINDS \<Longrightarrow> trace_kind_order k = trace_kind_order k' \<Longrightarrow> k = k'"
  by (auto simp: TRACE_EFFECT_KINDS_def trace_kind_order_def split: if_splits)

lemma rank_text: "inj coll \<Longrightarrow> rank coll (Sort_Text s) = rank coll (Sort_Text s') \<Longrightarrow> s = s'"
  by (simp add: rank_def inj_eq)

lemma columns_determine:
  assumes "inj coll" "pe_kind p \<in> set (lease_kinds l)" "pe_kind q \<in> set (lease_kinds l)"
    and "source_shape (pe_source p)" "source_shape (pe_source q)"
    and same: "place coll (sl_query l) (sort_columns l p) = place coll (sl_query l) (sort_columns l q)"
  shows "pe_id p = pe_id q"
proof (cases "sl_query l")
  case FACTS
  with assms(2,3) have kinds: "pe_kind p \<in> set FACT_EFFECT_KINDS" "pe_kind q \<in> set FACT_EFFECT_KINDS"
    by (simp_all add: lease_kinds_def)
  then obtain a b where a: "fact_kind_sql (pe_kind p) = Some a" and b: "fact_kind_sql (pe_kind q) = Some b"
    using fact_kind_known by meson
  from same FACTS a b have "a = b"
    and "the (fact_id_sql p) = the (fact_id_sql q)"
    using rank_text [OF assms(1)] by (auto simp: place_def sort_columns_def sort_text_def fact_id_sql_def)
  moreover from this have "pe_kind p = pe_kind q" using fact_kinds_inj [OF kinds(1)] a b by simp
  ultimately show ?thesis
    using source_append_eq [OF assms(4,5), of "'':'' @ a @ '':'' @ pe_key p" "'':'' @ a @ '':'' @ pe_key q"] a b
    by (simp add: fact_id_sql_def pe_id_def)
next
  case TASKS
  with assms(2,3) have "pe_kind p = pe_kind q"
    by (auto simp: lease_kinds_def TASK_EFFECT_KINDS_def split: if_splits)
  moreover from same TASKS have "pe_key p = pe_key q"
    using rank_text [OF assms(1)] by (auto simp: place_def sort_columns_def)
  ultimately show ?thesis by (simp add: pe_id_def)
next
  case TRACES
  with assms(2,3) have kinds: "pe_kind p \<in> set TRACE_EFFECT_KINDS" "pe_kind q \<in> set TRACE_EFFECT_KINDS"
    by (simp_all add: lease_kinds_def)
  from same TRACES have "rank coll (trace_kind_order (pe_kind p)) = rank coll (trace_kind_order (pe_kind q))"
    and ids: "trace_id_sql p = trace_id_sql q"
    using rank_text [OF assms(1)] by (auto simp: place_def sort_columns_def)
  then have "trace_kind_order (pe_kind p) = trace_kind_order (pe_kind q)"
    using kinds by (auto simp: TRACE_EFFECT_KINDS_def trace_kind_order_def rank_def)
  then have "pe_kind p = pe_kind q" using trace_order_inj kinds by blast
  with ids show ?thesis
    using source_append_eq [OF assms(4,5), of "'':'' @ pe_kind p @ '':'' @ pe_key p" "'':'' @ pe_kind p @ '':'' @ pe_key q"]
    by (simp add: trace_id_sql_def pe_id_def)
qed

section \<open>A cursor cuts the ordered rows\<close>

lemma distinct_map_map_filter:
  assumes "distinct xs"
    and "\<And>x y a b. x \<in> set xs \<Longrightarrow> y \<in> set xs \<Longrightarrow> f x = Some a \<Longrightarrow> f y = Some b \<Longrightarrow> g a = g b \<Longrightarrow> x = y"
  shows "distinct (map g (List.map_filter f xs))"
  using assms
proof (induction xs)
  case (Cons x xs)
  have IH: "distinct (map g (List.map_filter f xs))"
    using Cons.prems by (intro Cons.IH) auto
  show ?case
  proof (cases "f x")
    case None
    with IH show ?thesis by (simp add: map_filter_simps)
  next
    case (Some a)
    have "g a \<notin> set (map g (List.map_filter f xs))"
    proof
      assume "g a \<in> set (map g (List.map_filter f xs))"
      then obtain y b where y: "y \<in> set xs" "f y = Some b" "g a = g b"
        by (auto simp: List.map_filter_def)
      have "x \<in> set (x # xs)" "y \<in> set (x # xs)" using y(1) by simp_all
      from Cons.prems(2) [OF this Some y(2,3)] y(1) Cons.prems(1) show False by simp
    qed
    with Some IH show ?thesis by (simp add: map_filter_simps)
  qed
qed (simp add: map_filter_simps)

lemma row_of_Some:
  "row_of l fs pe = Some r \<Longrightarrow> sr_sort r = sort_columns l pe \<and> sr_kind r = pe_kind pe \<and>
     sr_key r = pe_key pe \<and> pe_kind pe \<in> set (lease_kinds l)"
  by (auto simp: row_of_def Let_def selects_def split: option.splits if_splits)

lemma effect_source_shape:
  "store_ok db \<Longrightarrow> sources_ok db \<Longrightarrow> pe \<in> set (effects db) \<Longrightarrow> source_shape (pe_source pe)"
  by (force simp: store_defs sources_ok_def)

lemma ordered_rows_strict:
  assumes "inj coll" "store_ok (sl_db l)" "sources_ok (sl_db l)"
  shows "sorted (map (row_place coll l) (ordered_rows coll l fs))"
    and "distinct (map (row_place coll l) (ordered_rows coll l fs))"
proof -
  let ?rows = "List.map_filter (row_of l fs) (effects (sl_db l))"
  have unique: "distinct (map pe_id (effects (sl_db l)))"
    using assms(2) by (simp add: store_defs key_unique_def)
  have "distinct (map (row_place coll l) ?rows)"
  proof (rule distinct_map_map_filter)
    show "distinct (effects (sl_db l))" using unique by (simp add: distinct_map)
  next
    fix p q a b
    assume in_db: "p \<in> set (effects (sl_db l))" "q \<in> set (effects (sl_db l))"
      and rows: "row_of l fs p = Some a" "row_of l fs q = Some b"
      and "row_place coll l a = row_place coll l b"
    with row_of_Some have "place coll (sl_query l) (sort_columns l p) = place coll (sl_query l) (sort_columns l q)"
      by (metis row_place_def)
    with columns_determine [OF assms(1)] row_of_Some rows in_db effect_source_shape [OF assms(2,3)]
    have "pe_id p = pe_id q" by metis
    with unique in_db show "p = q" by (auto simp: distinct_map inj_on_def)
  qed
  then show "distinct (map (row_place coll l) (ordered_rows coll l fs))"
    by (simp add: ordered_rows_def distinct_map)
  show "sorted (map (row_place coll l) (ordered_rows coll l fs))"
    by (simp add: ordered_rows_def)
qed

lemma filter_beyond:
  fixes f :: "'a \<Rightarrow> 'b::linorder"
  assumes "sorted (map f xs)" "distinct (map f xs)" "k < length xs"
  shows "filter (\<lambda>r. f (xs ! k) < f r) xs = drop (Suc k) xs"
  using assms
proof (induction xs arbitrary: k)
  case (Cons x xs)
  show ?case
  proof (cases k)
    case 0
    have "f x < f r" if "r \<in> set xs" for r
      using Cons.prems(1,2) that by (auto simp: order_less_le image_iff)
    with 0 show ?thesis by (simp add: filter_id_conv)
  next
    case (Suc j)
    with Cons.prems have "\<not> f (xs ! j) < f x" by (auto simp: not_less)
    with Suc Cons show ?thesis by simp
  qed
qed simp

lemma map_results_take: "map_results f xs = Inr ys \<Longrightarrow> map_results f (take n xs) = Inr (take n ys)"
proof (induction xs arbitrary: n ys)
  case (Cons x xs)
  then show ?case by (cases n) (auto simp: bind_result_Inr_iff)
qed simp

lemma map_results_drop: "map_results f xs = Inr ys \<Longrightarrow> map_results f (drop n xs) = Inr (drop n ys)"
proof (induction xs arbitrary: n ys)
  case (Cons x xs)
  then show ?case by (cases n) (auto simp: bind_result_Inr_iff)
qed simp

text \<open>Where a cursor stands: before the first row, or at the last row of the pages read.\<close>

definition start_at :: "snapshot_row list \<Rightarrow> nat \<Rightarrow> position option" where
  "start_at rows k = (if k = 0 then None else Some (sr_sort (rows ! (k - 1))))"

lemma beyond_start:
  assumes "sorted (map (row_place coll l) rows)" "distinct (map (row_place coll l) rows)" "k \<le> length rows"
  shows "beyond coll l (start_at rows k) rows = drop k rows"
  using filter_beyond [OF assms(1,2), of "k - 1"] assms(3)
  by (cases k) (simp_all add: beyond_def start_at_def row_place_def)

text \<open>Every selected row converts to a resource with its kind and key.\<close>

lemma map_filter_set: "set (List.map_filter f xs) = {y. \<exists>x \<in> set xs. f x = Some y}"
  by (force simp: List.map_filter_def)

lemma ordered_rows_origin:
  assumes "r \<in> set (ordered_rows coll l fs)"
  obtains pe where "pe \<in> set (effects (sl_db l))" "row_of l fs pe = Some r"
  using assms by (auto simp: ordered_rows_def map_filter_set)

lemma length_ordered_rows: "length (ordered_rows coll l fs) \<le> length (effects (sl_db l))"
  by (simp add: ordered_rows_def List.map_filter_def)

lemma ordered_rows_ids_distinct:
  assumes "store_ok (sl_db l)"
  shows "distinct (map (\<lambda>r. (sr_kind r, sr_key r)) (ordered_rows coll l fs))"
proof -
  have "distinct (map pe_id (effects (sl_db l)))" using assms by (simp add: store_defs key_unique_def)
  then have "distinct (map (\<lambda>r. (sr_kind r, sr_key r)) (List.map_filter (row_of l fs) (effects (sl_db l))))"
    by (intro distinct_map_map_filter) (auto simp: distinct_map inj_on_def pe_id_def dest!: row_of_Some)
  then show ?thesis by (simp add: ordered_rows_def distinct_map)
qed

lemma rows_convert:
  assumes "keys_canonical (sl_db l)"
  shows "\<exists>effs. map_results query_effect_of (ordered_rows coll l fs) = Inr effs \<and>
    map (\<lambda>q. (se_kind q, key_json (se_key q))) effs = map (\<lambda>r. (sr_kind r, sr_key r)) (ordered_rows coll l fs)"
proof -
  have one: "\<exists>q. query_effect_of r = Inr q \<and> se_kind q = sr_kind r \<and> key_json (se_key q) = sr_key r"
    if "r \<in> set (ordered_rows coll l fs)" for r
  proof -
    from that obtain pe where pe: "pe \<in> set (effects (sl_db l))" "row_of l fs pe = Some r"
      by (rule ordered_rows_origin)
    with assms obtain k where "list_all key_scalar k" "sr_key r = key_json k"
      using row_of_Some [OF pe(2)] by (auto simp: keys_canonical_def)
    then show ?thesis by (simp add: query_effect_of_def json_loads_key_json [OF dict_hook_keeps])
  qed
  have "\<exists>effs. map_results query_effect_of rs = Inr effs \<and>
    map (\<lambda>q. (se_kind q, key_json (se_key q))) effs = map (\<lambda>r. (sr_kind r, sr_key r)) rs"
    if "set rs \<subseteq> set (ordered_rows coll l fs)" for rs
    using that
  proof (induction rs)
    case (Cons r rs)
    with one [of r] show ?case by fastforce
  qed simp
  then show ?thesis by blast
qed

section \<open>Leases and cursors\<close>

text \<open>
  The adapter's invariant: not more leases than the limit, each under its own id; every cursor
  and every remembered continuation belongs to a live lease, and a remembered continuation is
  the cursor it was remembered for.
\<close>

definition adapter_ok :: "query_adapter \<Rightarrow> bool" where
  "adapter_ok a \<longleftrightarrow>
     int (length (qa_leases a)) \<le> qa_lease_limit a \<and> key_unique sl_id (qa_leases a) \<and>
     distinct (map fst (qa_cursors a)) \<and>
     (\<lambda>(t, sid, p). sid) ` set (qa_cursors a) \<subseteq> sl_id ` set (qa_leases a) \<and>
     (\<forall>(key, t) \<in> set (qa_tokens a). map_of (qa_cursors a) t = Some key)"

lemma release_fields:
  "qa_leases (release_lease sid a) = filter (\<lambda>l. sl_id l \<noteq> sid) (qa_leases a)"
  "qa_ttl (release_lease sid a) = qa_ttl a" "qa_lease_limit (release_lease sid a) = qa_lease_limit a"
proof -
  have "filter (\<lambda>l. sl_id l \<noteq> sid) (qa_leases a) = qa_leases a" if "sid \<notin> sl_id ` set (qa_leases a)"
    using that by (auto simp: filter_id_conv)
  then show "qa_leases (release_lease sid a) = filter (\<lambda>l. sl_id l \<noteq> sid) (qa_leases a)"
    by (auto simp: release_lease_def lease_with_def row_with_None_iff split: option.splits)
qed (simp_all add: release_lease_def split: option.splits)

lemma map_of_filter_Some: "map_of xs k = Some v \<Longrightarrow> P (k, v) \<Longrightarrow> map_of (filter P xs) k = Some v"
  by (induction xs) (auto split: if_splits)

lemma release_tables:
  assumes "adapter_ok a"
  shows "qa_cursors (release_lease sid a) = filter (\<lambda>(t, sid', p). sid' \<noteq> sid) (qa_cursors a)"
    and "qa_tokens (release_lease sid a) = filter (\<lambda>((sid', p), t). sid' \<noteq> sid) (qa_tokens a)"
proof -
  have live: "sid' \<in> sl_id ` set (qa_leases a)" if "(t, sid', p) \<in> set (qa_cursors a)" for t sid' p
    using assms that by (force simp: adapter_ok_def)
  have "sid' \<in> sl_id ` set (qa_leases a)" if "((sid', p), t) \<in> set (qa_tokens a)" for t sid' p
  proof -
    from assms that have "map_of (qa_cursors a) t = Some (sid', p)" by (auto simp: adapter_ok_def)
    with live show ?thesis by (blast dest: map_of_SomeD)
  qed
  with live have "filter (\<lambda>(t, sid', p). sid' \<noteq> sid) (qa_cursors a) = qa_cursors a"
    "filter (\<lambda>((sid', p), t). sid' \<noteq> sid) (qa_tokens a) = qa_tokens a"
    if "sid \<notin> sl_id ` set (qa_leases a)"
    using that by (auto simp: filter_id_conv)
  then show "qa_cursors (release_lease sid a) = filter (\<lambda>(t, sid', p). sid' \<noteq> sid) (qa_cursors a)"
    "qa_tokens (release_lease sid a) = filter (\<lambda>((sid', p), t). sid' \<noteq> sid) (qa_tokens a)"
    by (auto simp: release_lease_def lease_with_def row_with_None_iff split: option.splits)
qed

lemma release_ok:
  assumes "adapter_ok a"
  shows "adapter_ok (release_lease sid a)"
proof -
  have "length (filter (\<lambda>l. sl_id l \<noteq> sid) (qa_leases a)) \<le> length (qa_leases a)" by simp
  then have "int (length (qa_leases (release_lease sid a))) \<le> qa_lease_limit (release_lease sid a)"
    using assms unfolding adapter_ok_def release_fields by linarith
  moreover have "map_of (qa_cursors (release_lease sid a)) t = Some key"
    if "(key, t) \<in> set (qa_tokens (release_lease sid a))" for key t
    using that assms by (auto simp: release_tables [OF assms] adapter_ok_def intro: map_of_filter_Some)
  moreover have "(\<lambda>(t, sid, p). sid) ` set (qa_cursors (release_lease sid a))
      \<subseteq> sl_id ` set (qa_leases (release_lease sid a))"
    using assms by (force simp: release_fields release_tables [OF assms] adapter_ok_def)
  ultimately show ?thesis using assms
    by (simp add: adapter_ok_def release_fields key_unique_filter release_tables [OF assms]
        distinct_map_filter)
qed

lemma token_live:
  assumes "adapter_ok a" "((sid, p), t) \<in> set (qa_tokens a)"
  shows "sid \<in> sl_id ` set (qa_leases a)"
proof -
  from assms have "map_of (qa_cursors a) t = Some (sid, p)" by (auto simp: adapter_ok_def)
  then have "(t, sid, p) \<in> set (qa_cursors a)" by (rule map_of_SomeD)
  with assms(1) show ?thesis by (force simp: adapter_ok_def)
qed

lemma fold_release_ok: "adapter_ok a \<Longrightarrow> adapter_ok (fold release_lease sids a)"
  by (induction sids arbitrary: a) (simp_all add: release_ok)

lemma fold_release_leases:
  "qa_leases (fold release_lease sids a) = filter (\<lambda>l. sl_id l \<notin> set sids) (qa_leases a)"
  by (induction sids arbitrary: a) (auto simp: release_fields intro: filter_cong)

lemma fold_release_fields:
  "qa_ttl (fold release_lease sids a) = qa_ttl a"
  "qa_lease_limit (fold release_lease sids a) = qa_lease_limit a"
  by (induction sids arbitrary: a) (simp_all add: release_fields)

lemma fold_release_cursor:
  assumes "adapter_ok a" "map_of (qa_cursors a) c = Some (sid, p)" "sid \<notin> set sids"
  shows "map_of (qa_cursors (fold release_lease sids a)) c = Some (sid, p)"
  using assms
proof (induction sids arbitrary: a)
  case (Cons s sids)
  have "map_of (qa_cursors (release_lease s a)) c = Some (sid, p)"
    unfolding release_tables [OF Cons.prems(1)] using Cons.prems(2,3) by (intro map_of_filter_Some) auto
  with Cons release_ok show ?case by simp
qed simp

lemma fold_release_tokens:
  assumes "adapter_ok a"
  shows "set (qa_tokens (fold release_lease sids a)) \<subseteq> set (qa_tokens a)"
  using assms
proof (induction sids arbitrary: a)
  case (Cons s sids)
  from Cons.IH [OF release_ok [OF Cons.prems]] show ?case
    by (auto simp: release_tables [OF Cons.prems])
qed simp

lemmas evict_simps = evict_expired_def fold_release_leases fold_release_fields

lemma evict_ok: "adapter_ok a \<Longrightarrow> adapter_ok (evict_expired now a)"
  by (simp add: evict_expired_def fold_release_ok)

lemma evicted_leases:
  "adapter_ok a \<Longrightarrow> qa_leases (evict_expired now a) = filter (\<lambda>l. now < sl_expires l) (qa_leases a)"
  by (auto simp: evict_simps adapter_ok_def key_unique_def distinct_map inj_on_def not_le intro!: filter_cong)

text \<open>Reading a page only adds a cursor of the lease it reads.\<close>

lemma read_page_adapter:
  assumes "read_snapshot_page coll token l start a = (r, a')"
  obtains "a' = a" | p where "map_of (qa_tokens a) (sl_id l, p) = None"
    "a' = a\<lparr>qa_tokens := ((sl_id l, p), token) # qa_tokens a,
            qa_cursors := (token, (sl_id l, p)) # qa_cursors a\<rparr>"
proof (cases "snapshot_rows coll l start")
  case (Inl e)
  with assms that(1) show thesis by (simp add: read_snapshot_page_def)
next
  case (Inr rows)
  let ?p = "sr_sort (last (take (nat (sl_limit l)) rows))"
  show thesis
  proof (cases "length rows \<le> nat (sl_limit l) \<or> map_of (qa_tokens a) (sl_id l, ?p) \<noteq> None")
    case True
    with Inr assms that(1) show thesis
      by (auto simp: read_snapshot_page_def Let_def split: prod.splits if_splits option.splits)
  next
    case False
    with Inr assms that(2) [of ?p] show thesis
      by (simp add: read_snapshot_page_def Let_def split: prod.splits)
  qed
qed

lemma read_page_ok:
  assumes "adapter_ok a" "l \<in> set (qa_leases a)" "token \<notin> fst ` set (qa_cursors a)"
    and "read_snapshot_page coll token l start a = (r, a')"
  shows "adapter_ok a'"
  using assms(4)
proof (rule read_page_adapter)
  fix p
  assume a': "a' = a\<lparr>qa_tokens := ((sl_id l, p), token) # qa_tokens a,
            qa_cursors := (token, (sl_id l, p)) # qa_cursors a\<rparr>"
  have tokens: "map_of (qa_cursors a') t = Some key" if "(key, t) \<in> set (qa_tokens a)" for key t
  proof -
    from assms(1) that have *: "map_of (qa_cursors a) t = Some key" by (auto simp: adapter_ok_def)
    then have "t \<in> fst ` set (qa_cursors a)" by (force dest: map_of_SomeD)
    with assms(3) have "t \<noteq> token" by blast
    with * a' show ?thesis by simp
  qed
  have "(\<lambda>(t, sid, p). sid) ` set (qa_cursors a') \<subseteq> sl_id ` set (qa_leases a')"
    using assms(1,2) a' by (simp add: adapter_ok_def)
  moreover have "case x of (key, t) \<Rightarrow> map_of (qa_cursors a') t = Some key" if "x \<in> set (qa_tokens a')" for x
  proof (cases x)
    case (Pair key t)
    with that a' have "key = (sl_id l, p) \<and> t = token \<or> (key, t) \<in> set (qa_tokens a)" by simp
    with Pair tokens [of key t] a' show ?thesis by (elim disjE) simp_all
  qed
  moreover have "token \<notin> set (map fst (qa_cursors a))" using assms(3) by simp
  ultimately show "adapter_ok a'" using assms(1) a' by (simp add: adapter_ok_def)
qed (use assms(1) in simp)

text \<open>The operations of the adapter; the random texts of a call have not been drawn before.\<close>

inductive adapter_step :: "query_adapter \<Rightarrow> query_adapter \<Rightarrow> bool" where
  acquire: "acquire_snapshot coll sid token connected db query filters limit now a = (r, a') \<Longrightarrow>
    sid \<notin> sl_id ` set (qa_leases a) \<Longrightarrow> token \<notin> fst ` set (qa_cursors a) \<Longrightarrow> adapter_step a a'"
| continue: "continue_snapshot coll token cursor now a = (r, a') \<Longrightarrow>
    token \<notin> fst ` set (qa_cursors a) \<Longrightarrow> adapter_step a a'"
| release: "adapter_step a (release_snapshot sid a)"
| close: "adapter_step a (close_adapter a)"

inductive_cases adapter_step_cases: "adapter_step a a'"

lemma fold_release_cursors_subset:
  assumes "adapter_ok a"
  shows "set (qa_cursors (fold release_lease sids a)) \<subseteq> set (qa_cursors a)"
  using assms
proof (induction sids arbitrary: a)
  case (Cons s sids)
  from Cons.IH [OF release_ok [OF Cons.prems]] show ?case
    by (auto simp: release_tables [OF Cons.prems])
qed simp

lemma evict_fresh:
  assumes "adapter_ok a"
  shows "sid \<notin> sl_id ` set (qa_leases a) \<Longrightarrow> sid \<notin> sl_id ` set (qa_leases (evict_expired now a))"
    and "token \<notin> fst ` set (qa_cursors a) \<Longrightarrow> token \<notin> fst ` set (qa_cursors (evict_expired now a))"
  using fold_release_cursors_subset [OF assms] by (auto simp: evict_simps)

lemma add_lease_ok:
  assumes "adapter_ok a" "sl_id l \<notin> sl_id ` set (qa_leases a)"
    and "int (length (qa_leases a)) < qa_lease_limit a"
  shows "adapter_ok (a\<lparr>qa_leases := qa_leases a @ [l]\<rparr>)"
  using assms by (auto simp: adapter_ok_def key_unique_def)

lemma adapter_step_ok:
  assumes "adapter_step a a'" "adapter_ok a"
  shows "adapter_ok a'"
  using assms(1)
proof (cases rule: adapter_step_cases [consumes 1])
  case (1 coll sid token connected db query filters limit now r)
  let ?e = "evict_expired now a"
  let ?l = "\<lparr>sl_db = db, sl_id = sid, sl_query = query, sl_filters = filters, sl_limit = limit,
     sl_expires = now + qa_ttl ?e\<rparr>"
  let ?a = "?e\<lparr>qa_leases := qa_leases ?e @ [?l]\<rparr>"
  obtain p a3 where page: "read_snapshot_page coll token ?l None ?a = (p, a3)" by force
  from 1(1) page have cases: "a' = a \<or> a' = ?e \<or>
      int (length (qa_leases ?e)) < qa_lease_limit ?e \<and> (a' = a3 \<or> a' = release_lease sid a3)"
    by (auto simp: acquire_snapshot_def Let_def split: if_splits sum.splits)
  have e: "adapter_ok ?e" using assms(2) by (rule evict_ok)
  have "adapter_ok a3" if "int (length (qa_leases ?e)) < qa_lease_limit ?e"
  proof (rule read_page_ok [OF _ _ _ page])
    show "adapter_ok ?a" using e that evict_fresh(1) [OF assms(2) 1(2)] by (intro add_lease_ok) auto
    show "token \<notin> fst ` set (qa_cursors ?a)" using evict_fresh(2) [OF assms(2) 1(3)] by simp
  qed simp
  with cases e assms(2) release_ok show ?thesis by blast
next
  case (2 coll token cursor now r)
  have e: "adapter_ok (evict_expired now a)" using assms(2) by (rule evict_ok)
  from 2(1) show ?thesis
  proof (auto simp: continue_snapshot_def Let_def e split: option.splits prod.splits)
    fix sid p l
    assume "lease_with sid (evict_expired now a) = Some l"
      and page: "read_snapshot_page coll token l (Some p) (evict_expired now a) = (r, a')"
    then have "l \<in> set (qa_leases (evict_expired now a))"
      by (auto simp: lease_with_def dest: row_with_SomeD)
    from read_page_ok [OF e this evict_fresh(2) [OF assms(2) 2(2)] page] show "adapter_ok a'" .
  qed
next
  case (3 sid)
  with assms(2) show ?thesis by (simp add: release_snapshot_def release_ok)
next
  case 4
  with assms(2) show ?thesis by (simp add: close_adapter_def fold_release_ok)
qed

lemma read_page_limit:
  "read_snapshot_page coll token l start a = (r, a') \<Longrightarrow> qa_lease_limit a' = qa_lease_limit a"
  by (erule read_page_adapter) simp_all

lemma adapter_step_limit: "adapter_step a a' \<Longrightarrow> qa_lease_limit a' = qa_lease_limit a"
  by (erule adapter_step_cases)
     (auto simp: acquire_snapshot_def continue_snapshot_def Let_def evict_simps release_fields
       release_snapshot_def close_adapter_def
       split: if_splits sum.splits prod.splits option.splits dest!: read_page_limit)

end
