(* ===== verification/Query_Facts.thy ===== *)
theory Query_Facts
  imports Query_Service Snapshot_Facts
begin

text \<open>
  The snapshot adapter keeps the contract \<open>snapshot_model\<close>.  The random texts of a call
  (\<open>secrets.token_urlsafe\<close>) are functions of the adapter's state; the locale \<open>random_texts\<close> states
  the one thing the code relies on: a text that is drawn has not been drawn for a live lease or
  cursor.
\<close>

definition held_leases :: "query_adapter \<Rightarrow> string set" where
  "held_leases a = sl_id ` set (qa_leases a)"

lemma read_page_leases:
  "read_snapshot_page coll token l start a = (r, a') \<Longrightarrow> qa_leases a' = qa_leases a"
  by (erule read_page_adapter) simp_all

lemma evict_held: "held_leases (evict_expired now a) \<subseteq> held_leases a"
  by (auto simp: held_leases_def evict_simps)

lemma acquire_held:
  assumes "adapter_ok a" "sid \<notin> held_leases a"
    and "acquire_snapshot coll sid token connected db q fs n now a = (r, a')"
  shows "held_leases a' \<subseteq> (case r of Inl e \<Rightarrow> held_leases a
    | Inr page \<Rightarrow> insert (sp_snapshot page) (held_leases a))"
proof -
  let ?e = "evict_expired now a"
  let ?l = "\<lparr>sl_db = db, sl_id = sid, sl_query = q, sl_filters = fs, sl_limit = n,
     sl_expires = now + qa_ttl ?e\<rparr>"
  let ?a = "?e\<lparr>qa_leases := qa_leases ?e @ [?l]\<rparr>"
  obtain p a3 where page: "read_snapshot_page coll token ?l None ?a = (p, a3)" by force
  have leases: "qa_leases a3 = qa_leases ?e @ [?l]" using read_page_leases [OF page] by simp
  have sub: "sl_id ` set (qa_leases ?e) \<subseteq> held_leases a" using evict_held by (simp add: held_leases_def)
  have named: "sp_snapshot x = sid" if "p = Inr x" for x
    using page that by (auto simp: read_snapshot_page_def Let_def bind_result_Inr_iff
        split: sum.splits prod.splits if_splits option.splits)
  consider "a' = a" "\<exists>e. r = Inl e" | "a' = ?e" "\<exists>e. r = Inl e"
    | e where "p = Inl e" "r = Inl e" "a' = release_lease sid a3" | x where "p = Inr x" "r = Inr x" "a' = a3"
    using assms(3) page by (cases p) (auto simp: acquire_snapshot_def Let_def split: if_splits)
  then show ?thesis
  proof cases
    case 2
    with sub show ?thesis by (auto simp: held_leases_def)
  next
    case 3
    with sub show ?thesis by (auto simp: held_leases_def release_fields leases)
  next
    case 4
    with sub named show ?thesis by (auto simp: held_leases_def leases)
  qed auto
qed

lemma continue_held:
  assumes "continue_snapshot coll token c now a = (r, a')"
  shows "held_leases a' \<subseteq> held_leases a"
proof -
  have "qa_leases a' = qa_leases (evict_expired now a)"
    using assms by (auto simp: continue_snapshot_def Let_def dest: read_page_leases split: option.splits)
  then show ?thesis using evict_held [of now a] by (simp add: held_leases_def)
qed

lemma release_held: "held_leases (release_snapshot sid a) = held_leases a - {sid}"
  by (auto simp: held_leases_def release_snapshot_def release_fields)

section \<open>A page that has a successor has a Trace with detail\<close>

text \<open>The filters of a Trace query read the effect only, and select no effect without a trace id.\<close>

lemma trace_query_filter:
  assumes "add_filter TRACES p = Inr f" "fst p \<in> {''trace_id'', ''delivery_id''}"
  shows "f db pe ar = f db pe ar'" and "f db pe ar \<Longrightarrow> key_part 0 pe \<noteq> None"
  using assms by (auto simp: add_filter_def Let_def trace_filter_def delivery_filter_def among_def)

lemma trace_query_filters:
  assumes "lease_filters l = Inr gs" "sl_query l = TRACES"
    and "fst ` set (sl_filters l) \<subseteq> {''limit'', ''trace_id'', ''delivery_id''}"
    and "''trace_id'' \<in> fst ` set (sl_filters l) \<or> ''delivery_id'' \<in> fst ` set (sl_filters l)"
    and "list_all (\<lambda>g. g db pe ar) gs"
  shows "list_all (\<lambda>g. g db pe ar') gs" "key_part 0 pe \<noteq> None"
proof -
  let ?ps = "filter (\<lambda>p. fst p \<notin> {''limit'', ''cursor''}) (sl_filters l)"
  from assms(1,2) have gs: "map_results (add_filter TRACES) ?ps = Inr gs" by (simp add: lease_filters_def)
  have names: "fst p \<in> {''trace_id'', ''delivery_id''}" if "p \<in> set ?ps" for p
  proof -
    from that have "fst p \<in> fst ` set (sl_filters l)" by simp
    with assms(3) have "fst p \<in> {''limit'', ''trace_id'', ''delivery_id''}" by blast
    with that show ?thesis by simp
  qed
  have "g db pe ar' \<and> key_part 0 pe \<noteq> None" if "g \<in> set gs" for g
  proof -
    from map_results_origin [OF gs that] obtain p where p: "p \<in> set ?ps" "add_filter TRACES p = Inr g" by blast
    from assms(5) that have "g db pe ar" unfolding list_all_iff by blast
    with trace_query_filter [OF p(2) names [OF p(1)]] show ?thesis by blast
  qed
  moreover have "gs \<noteq> []"
  proof -
    from assms(4) have "?ps \<noteq> []" by (force simp: filter_empty_conv)
    with map_results_Inr_length [OF gs] show ?thesis by auto
  qed
  ultimately show "list_all (\<lambda>g. g db pe ar') gs" "key_part 0 pe \<noteq> None"
    by (auto simp: list_all_iff dest: hd_in_set)
qed

lemma first_page_active:
  assumes "adapter_ok a" "sid \<notin> held_leases a"
    and "acquire_snapshot coll sid token connected db TRACES fs n now a = (Inr page, a')" "sp_next page \<noteq> None"
    and "fst ` set fs \<subseteq> {''limit'', ''trace_id'', ''delivery_id''}"
    and "''trace_id'' \<in> fst ` set fs \<or> ''delivery_id'' \<in> fst ` set fs"
    and "summarize_traces coll (sp_snapshot page) a' = Inr summaries"
  shows "\<exists>t \<in> set summaries. tr_state t \<noteq> Detail_Expired"
proof -
  let ?e = "evict_expired now a"
  define l where "l = \<lparr>sl_db = db, sl_id = sid, sl_query = TRACES, sl_filters = fs, sl_limit = n,
     sl_expires = now + qa_ttl ?e\<rparr>"
  let ?a = "?e\<lparr>qa_leases := qa_leases ?e @ [l]\<rparr>"
  from assms(3) have page: "read_snapshot_page coll token l None ?a = (Inr page, a')"
    by (auto simp: acquire_snapshot_def Let_def l_def split: if_splits sum.splits prod.splits)
  have l: "sl_db l = db" "sl_id l = sid" "sl_query l = TRACES" "sl_filters l = fs"
    by (simp_all add: l_def)
  from page obtain rows where rows: "snapshot_rows coll l None = Inr rows"
    by (auto simp: read_snapshot_page_def split: sum.splits)
  have "rows \<noteq> [] \<and> sp_snapshot page = sid"
    using page assms(4) l(2) unfolding read_snapshot_page_def rows sum.case Let_def
    by (auto simp: bind_result_Inr_iff split: prod.splits if_splits option.splits)
  then have "rows \<noteq> []" and sid: "sp_snapshot page = sid" by simp_all
  from rows obtain gs where gs: "lease_filters l = Inr gs" "set rows \<subseteq> set (ordered_rows coll l gs)"
    by (auto simp: snapshot_rows_def beyond_def bind_result_Inr_iff dest: in_set_takeD)
  with \<open>rows \<noteq> []\<close> obtain r where "r \<in> set (ordered_rows coll l gs)" by (cases rows) auto
  then obtain pe where pe: "pe \<in> set (effects db)" "row_of l gs pe = Some r"
    by (auto simp: ordered_rows_def map_filter_set l)
  then obtain ar where ar: "selects l gs pe ar" by (auto simp: row_of_def Let_def split: option.splits if_splits)
  then have kind: "pe_kind pe \<in> set TRACE_EFFECT_KINDS" and live: "\<not> trace_marker db pe"
    and sel: "list_all (\<lambda>g. g db pe ar) gs"
    by (simp_all add: selects_def lease_kinds_def l)
  note all = trace_query_filters [OF gs(1) _ _ _ sel]
  let ?rows = "filter (\<lambda>pe. pe_kind pe \<in> set TRACE_EFFECT_KINDS \<and> list_all (\<lambda>g. g db pe no_record) gs) (effects db)"
  have own: "pe \<in> set ?rows" using pe(1) kind all(1) [of no_record] assms(5,6) by (simp add: l)
  from all(2) assms(5,6) obtain t where t: "key_part 0 pe = Some t" by (auto simp: l)
  with own have trace: "t \<in> set (sort_key coll (remdups (List.map_filter (key_part 0) ?rows)))"
    by (auto simp: map_filter_set)
  have "qa_leases a' = qa_leases ?e @ [l]" using read_page_leases [OF page] by simp
  moreover have "row_with sl_id sid (qa_leases ?e) = None"
    using assms(2) evict_held [of now a] by (auto simp: row_with_None_iff held_leases_def)
  ultimately have "lease_with sid a' = Some l"
    by (simp add: lease_with_def row_with_append row_with_Cons l)
  with assms(7) sid gs(1) have "map_results (summary_of l ?rows)
      (sort_key coll (remdups (List.map_filter (key_part 0) ?rows))) = Inr summaries"
    by (simp add: summarize_traces_def l Let_def)
  from map_results_hit [OF this trace] obtain x where x: "x \<in> set summaries" "summary_of l ?rows t = Inr x" by blast
  from x(2) have "tr_state x = detail_state_of
      (list_ex (\<lambda>pe. \<not> trace_marker db pe) (filter (\<lambda>pe. key_part 0 pe = Some t) ?rows))
      (list_ex (trace_marker db) (filter (\<lambda>pe. key_part 0 pe = Some t) ?rows))"
    by (auto simp: summary_of_def Let_def l)
  moreover have "list_ex (\<lambda>pe. \<not> trace_marker db pe) (filter (\<lambda>pe. key_part 0 pe = Some t) ?rows)"
    using own t live by (auto simp: list_ex_iff)
  moreover have "detail_state_of True b \<noteq> Detail_Expired" for b by (cases b) (simp_all add: detail_state_of_def)
  ultimately have "tr_state x \<noteq> Detail_Expired" by simp
  with x(1) show ?thesis by blast
qed

section \<open>The contract, for any source of fresh texts\<close>

locale random_texts =
  fixes sid token :: "query_adapter \<Rightarrow> string"
  assumes fresh_sid: "sid a \<notin> held_leases a"
    and fresh_token: "token a \<notin> fst ` set (qa_cursors a)"
begin

lemma acquire_step:
  "acquire_snapshot coll (sid a) (token a) connected db q fs n now a = (r, a') \<Longrightarrow> adapter_step a a'"
  using fresh_sid fresh_token by (intro adapter_step.acquire) (auto simp: held_leases_def)

lemma continue_step: "continue_snapshot coll (token a) c now a = (r, a') \<Longrightarrow> adapter_step a a'"
  by (erule adapter_step.continue) (rule fresh_token)

end

sublocale random_texts \<subseteq> snapshot_model "pg_model coll sid token connected db" held_leases adapter_ok
  for coll connected db
proof
  fix m q fs n now page m'
  assume "adapter_ok m" and a: "rm_acquire (pg_model coll sid token connected db) q fs n now m = (Inr page, m')"
  from a have "acquire_snapshot coll (sid m) (token m) connected db q fs n now m = (Inr page, m')"
    by (simp add: pg_model_def)
  with \<open>adapter_ok m\<close> acquire_held [OF _ fresh_sid this] adapter_step_ok [OF acquire_step [OF this]]
  show "adapter_ok m' \<and> held_leases m' \<subseteq> insert (sp_snapshot page) (held_leases m)" by simp
next
  fix m q fs n now e m'
  assume "adapter_ok m" and a: "rm_acquire (pg_model coll sid token connected db) q fs n now m = (Inl e, m')"
  from a have "acquire_snapshot coll (sid m) (token m) connected db q fs n now m = (Inl e, m')"
    by (simp add: pg_model_def)
  with \<open>adapter_ok m\<close> acquire_held [OF _ fresh_sid this] adapter_step_ok [OF acquire_step [OF this]]
  show "adapter_ok m' \<and> held_leases m' \<subseteq> held_leases m" by simp
next
  fix m c now r m'
  assume "adapter_ok m" "rm_continue (pg_model coll sid token connected db) c now m = (r, m')"
  then show "adapter_ok m' \<and> held_leases m' \<subseteq> held_leases m"
    using adapter_step_ok [OF continue_step] continue_held by (simp add: pg_model_def)
next
  fix m d
  assume "adapter_ok m"
  then show "adapter_ok (rm_release (pg_model coll sid token connected db) d m) \<and>
      held_leases (rm_release (pg_model coll sid token connected db) d m) = held_leases m - {d}"
    by (simp add: pg_model_def release_snapshot_def release_ok release_held [unfolded release_snapshot_def])
qed

text \<open>The service over the adapter leaves a new lease only behind a page that is not the last.\<close>

context random_texts
begin

lemma pg_answer_held:
  assumes "adapter_ok (qs_model s)"
    and "answer (pg_model coll sid token connected db) now q nq shape_page s = (r, s')"
  shows "adapter_ok (qs_model s') \<and>
    (held_leases (qs_model s') \<subseteq> held_leases (qs_model s) \<or>
     (\<exists>fs n page response. nq = (fs, None, n) \<and> r = Inr response \<and> sp_next page \<noteq> None \<and>
        acquire_snapshot coll (sid (qs_model s)) (token (qs_model s)) connected db q fs n now (qs_model s) =
          (Inr page, qs_model s') \<and>
        shape_page (qs_model s') page = Inr response \<and>
        held_leases (qs_model s') \<subseteq> insert (sp_snapshot page) (held_leases (qs_model s))))"
proof -
  have "acquire_snapshot coll (sid (qs_model s)) (token (qs_model s)) connected db q fs n now (qs_model s) =
      (Inr page, qs_model s')"
    if "query_page (pg_model coll sid token connected db) now q fs None n s = (Inr page, s')" for fs n page
    using that by (auto simp: query_page_def pg_model_def split: prod.splits sum.splits)
  with answer_held [OF assms] show ?thesis by blast
qed

text \<open>When the first page of a Trace query has a successor, the Traces are not all expired.\<close>

lemma pg_traces_state:
  assumes "adapter_ok (qs_model s)"
    and "acquire_snapshot coll (sid (qs_model s)) (token (qs_model s)) connected db TRACES fs n now (qs_model s) =
          (Inr page, qs_model s')" "sp_next page \<noteq> None"
    and "fst ` set fs \<subseteq> {''limit'', ''trace_id'', ''delivery_id''}"
    and "''trace_id'' \<in> fst ` set fs \<or> ''delivery_id'' \<in> fst ` set fs"
    and "traces_page (pg_model coll sid token connected db) ttl (qs_model s') page = Inr response"
  shows "dget response ''snapshot'' = VStr (sp_snapshot page) \<and> dget response ''next_cursor'' = text_value (sp_next page)"
proof -
  from assms(6) obtain items summaries where summaries: "summarize_traces coll (sp_snapshot page) (qs_model s') = Inr summaries"
    and response: "response = (let state = trace_state_of summaries;
           response = query_envelope page (List.map_filter id items) @
             [(''trace_summaries'', VList (map (\<lambda>t. VDict [(''trace_id'', VStr (tr_trace t)),
                 (''state'', VStr (detail_value (tr_state t)))]) summaries)),
              (''trace_state'', VStr state)]
       in if state \<in> {''ABSENT'', ''EXPIRED''} then dset response ''next_cursor'' VNone else response)"
    by (auto simp: traces_page_def bind_result_Inr_iff pg_model_def Let_def)
  from first_page_active [OF assms(1) fresh_sid assms(2-5) summaries]
  obtain t where t: "t \<in> set summaries" "tr_state t \<noteq> Detail_Expired" by blast
  have "trace_state_of summaries \<noteq> ''ABSENT'' \<and> trace_state_of summaries \<noteq> ''EXPIRED''"
  proof (cases "remdups (map tr_state summaries)")
    case Nil
    with t(1) show ?thesis by simp
  next
    case (Cons d ds)
    show ?thesis
    proof (cases ds)
      case Nil
      from t(1) have "tr_state t \<in> set (remdups (map tr_state summaries))" by simp
      with Cons Nil have "d = tr_state t" by simp
      with Cons Nil t(2) show ?thesis by (cases d) (simp_all add: trace_state_of_def detail_value_def)
    qed (use Cons in \<open>simp add: trace_state_of_def\<close>)
  qed
  then show ?thesis by (simp add: response query_envelope_def page_envelope_def dget_def)
qed

end

text \<open>A source of fresh texts that computes: a text longer than every text in use.\<close>

definition longer_text :: "string list \<Rightarrow> string" where
  "longer_text used = replicate (Suc (fold max (map length used) 0)) CHR ''a''"

lemma fold_max_ge: "n = x \<or> n \<in> set ns \<Longrightarrow> (n::nat) \<le> fold max ns x"
proof (induction ns arbitrary: x)
  case (Cons m ns)
  show ?case
  proof (cases "n \<in> set ns")
    case False
    with Cons.prems have "n \<le> max m x" by auto
    also have "max m x \<le> fold max ns (max m x)"
      by (induction ns arbitrary: x) (simp, metis fold_simps(2) max.cobounded2 max.left_commute order_trans)
    finally show ?thesis by simp
  qed (use Cons.IH in simp)
qed simp

lemma longer_text_fresh: "longer_text used \<notin> set used"
proof
  assume "longer_text used \<in> set used"
  then have "length (longer_text used) \<le> fold max (map length used) 0" by (intro fold_max_ge) simp
  then show False by (simp add: longer_text_def)
qed

definition next_sid :: "query_adapter \<Rightarrow> string" where
  "next_sid a = longer_text (map sl_id (qa_leases a))"

definition next_token :: "query_adapter \<Rightarrow> string" where
  "next_token a = longer_text (map fst (qa_cursors a))"

interpretation pg: random_texts next_sid next_token
  by unfold_locales
     (use longer_text_fresh [of "map sl_id (qa_leases a)" for a] longer_text_fresh [of "map fst (qa_cursors a)" for a]
      in \<open>auto simp: held_leases_def next_sid_def next_token_def\<close>)

end
