(* ===== verification/Calendar.thy ===== *)
theory Calendar
  imports Query_Params
begin

text \<open>
  The calendar behind timestamps: \<open>civil_of_days\<close>, by which instants are written
  (\<open>datetime.isoformat\<close>), and \<open>days_of_civil\<close>, by which they are read
  (\<open>datetime.fromisoformat\<close>), are inverse on the years 1 to 9999, and every written date is a day
  of the calendar.
\<close>

section \<open>Days of a 400-year era\<close>

definition year_of_era :: "int \<Rightarrow> int" where
  "year_of_era doe = (doe - doe div 1460 + doe div 36524 - doe div 146096) div 365"

definition days_before_year :: "int \<Rightarrow> int" where
  "days_before_year y = 365 * y + y div 4 - y div 100"

text \<open>
  The position of a day in its era: century, four-year cycle, year and day of the year, which
  begins in March; only the fourth year of a cycle, or the last of the era, has a day 365.
\<close>

lemma year_of_era_decomposed:
  assumes "0 \<le> c" "c \<le> 3" "0 \<le> q" "q \<le> 24" "0 \<le> r" "r \<le> 1460" "q = 24 \<Longrightarrow> r \<le> 1459"
  shows "year_of_era (36524 * c + 1461 * q + r) = 100 * c + 4 * q + min (r div 365) 3"
proof -
  let ?doe = "36524 * c + 1461 * q + r"
  let ?t = "24 * c + q + r"
  have "?doe = 1460 * (25 * c + q) + ?t" by simp
  then have cycles: "?doe div 1460 = 25 * c + q + ?t div 1460" by (simp only: div_mult_self4)
  have carry: "?t div 1460 = (if 1460 \<le> ?t then 1 else 0)"
    using assms by (auto simp: div_pos_pos_trivial)
  have "1461 * q + r < 36524" using assms(3-7) by (cases "q = 24") auto
  then have centuries: "?doe div 36524 = c" using assms by (intro int_div_pos_eq [of _ _ _ "1461 * q + r"]) auto
  have last: "?doe div 146096 = 0" using assms \<open>1461 * q + r < 36524\<close> by (intro div_pos_pos_trivial) auto
  have split: "?doe - ?doe div 1460 + ?doe div 36524 - ?doe div 146096 =
      365 * (100 * c + 4 * q) + (r - ?t div 1460)"
    unfolding cycles centuries last by simp
  have "(r - ?t div 1460) div 365 = min (r div 365) 3"
  proof (cases "1460 \<le> ?t")
    case True
    with assms have r: "1364 \<le> r" by linarith
    with assms(6) have "(r - 1) div 365 = 3" by (intro int_div_pos_eq [of _ _ _ "r - 1096"]) auto
    moreover have "3 \<le> r div 365" using r zdiv_mono1 [of 1095 r 365] by simp
    ultimately show ?thesis using True unfolding carry by simp
  next
    case False
    with assms have "r \<le> 1459" by linarith
    then have "r div 365 \<le> 3" using zdiv_mono1 [of r 1459 365] by simp
    with False show ?thesis unfolding carry by simp
  qed
  then show ?thesis unfolding year_of_era_def split by simp
qed

lemma era_position:
  assumes "0 \<le> doe" "doe \<le> 146096"
  defines "y \<equiv> year_of_era doe"
  shows "0 \<le> y" "y \<le> 399" "0 \<le> doe - days_before_year y" "doe - days_before_year y \<le> 365"
    "doe - days_before_year y = 365 \<Longrightarrow> leap_year (y + 1)"
proof -
  have "0 \<le> y \<and> y \<le> 399 \<and> 0 \<le> doe - days_before_year y \<and> doe - days_before_year y \<le> 365 \<and>
    (doe - days_before_year y = 365 \<longrightarrow> leap_year (y + 1))"
  proof (cases "doe = 146096")
    case True
    then show ?thesis by (simp add: y_def year_of_era_def days_before_year_def leap_year_def)
  next
    case False
    define c where "c = doe div 36524"
    define q where "q = doe mod 36524 div 1461"
    define r where "r = doe mod 36524 mod 1461"
    define s where "s = min (r div 365) 3"
    have doe: "doe = 36524 * c + 1461 * q + r" unfolding c_def q_def r_def by simp
    define a where "a = doe mod 36524"
    have "doe = 36524 * c + a" "0 \<le> a" "a \<le> 36523" "0 \<le> c"
      using assms(1) by (simp_all add: c_def a_def pos_imp_zdiv_nonneg_iff)
    moreover have "a = 1461 * q + r" "0 \<le> r" "r \<le> 1460" "0 \<le> q"
      using \<open>0 \<le> a\<close> by (simp_all add: q_def r_def a_def [symmetric] pos_imp_zdiv_nonneg_iff)
    ultimately have bounds: "0 \<le> c" "c \<le> 3" "0 \<le> q" "q \<le> 24" "0 \<le> r" "r \<le> 1460"
        "q = 24 \<Longrightarrow> r \<le> 1459"
      using assms(2) False by linarith+
    have s: "0 \<le> s" "s \<le> 3" "365 * s \<le> r" "r \<le> 365 * s + 365" "r = 365 * s + 365 \<Longrightarrow> s = 3 \<and> r = 1460"
      using bounds(5,6) pos_mod_bound [of 365 r] pos_mod_sign [of 365 r] div_mult_mod_eq [of r 365]
      unfolding s_def min_def by (auto split: if_splits)
    have y: "y = 100 * c + 4 * q + s"
      using year_of_era_decomposed [OF bounds] unfolding y_def s_def doe .
    have "y div 4 = 25 * c + q" using s(1,2) unfolding y by (intro int_div_pos_eq [of _ _ _ s]) auto
    moreover have "y div 100 = c"
      using s(1,2) bounds(3,4) unfolding y by (intro int_div_pos_eq [of _ _ _ "4 * q + s"]) auto
    ultimately have rest: "doe - days_before_year y = r - 365 * s" unfolding days_before_year_def doe y by simp
    have "leap_year (y + 1)" if "r - 365 * s = 365"
    proof -
      from that s(5) bounds(4,7) have "s = 3" "q \<le> 23" by (auto simp: le_less)
      then have "y + 1 = 4 * (25 * c + q + 1)" "y + 1 = 100 * c + (4 * q + 4)" using y by simp_all
      then have "(y + 1) mod 4 = 0" "(y + 1) mod 100 = 4 * q + 4"
        using bounds(3) \<open>q \<le> 23\<close> int_mod_pos_eq [of "y + 1" 100 c "4 * q + 4"] by auto
      then have "(y + 1) mod 4 = 0" "(y + 1) mod 100 \<noteq> 0" using bounds(3) by linarith+
      then show ?thesis by (simp add: leap_year_def)
    qed
    moreover have "0 \<le> y" "y \<le> 399" using s(1,2) bounds(1-4) unfolding y by linarith+
    ultimately show ?thesis using rest s(3,4) by auto
  qed
  then show "0 \<le> y" "y \<le> 399" "0 \<le> doe - days_before_year y" "doe - days_before_year y \<le> 365"
    "doe - days_before_year y = 365 \<Longrightarrow> leap_year (y + 1)" by auto
qed

section \<open>Dates\<close>

lemma month_cases:
  assumes "0 \<le> x" "x \<le> 11"
  shows "x \<in> {0, 1, 2, 3, 4, 5, 6, 7, 8, 9, 10, 11 :: int}"
proof -
  consider "x \<le> 2" | "3 \<le> x" "x \<le> 5" | "6 \<le> x" "x \<le> 8" | "9 \<le> x" by linarith
  then show ?thesis
  proof cases
    case 1
    with assms have "x = 0 \<or> x = 1 \<or> x = 2" by linarith
    then show ?thesis by blast
  next
    case 2
    then have "x = 3 \<or> x = 4 \<or> x = 5" by linarith
    then show ?thesis by blast
  next
    case 3
    then have "x = 6 \<or> x = 7 \<or> x = 8" by linarith
    then show ?thesis by blast
  next
    case 4
    with assms have "x = 9 \<or> x = 10 \<or> x = 11" by linarith
    then show ?thesis by blast
  qed
qed

lemma month_bounds:
  assumes "0 \<le> doy" "doy \<le> 365" "doy = 365 \<Longrightarrow> leap_year (y + 1)"
  defines "mp \<equiv> (5 * doy + 2) div 153"
  defines "d \<equiv> doy - (153 * mp + 2) div 5 + 1" and "m \<equiv> if mp < 10 then mp + 3 else mp - 9"
  shows "1 \<le> m" "m \<le> 12" "1 \<le> d" "d \<le> month_length (y + (if m \<le> 2 then 1 else 0)) m"
    "mp = (if m > 2 then m - 3 else m + 9)" "m \<le> 2 \<longleftrightarrow> 306 \<le> doy"
proof -
  have mp: "153 * mp \<le> 5 * doy + 2" "5 * doy + 2 < 153 * mp + 153" unfolding mp_def by presburger+
  with assms(1,2) have "0 \<le> mp" "mp \<le> 11" by linarith+
  from assms(2,3) have long: "doy \<le> 364 \<or> leap_year (y + 1)" by linarith
  from \<open>0 \<le> mp\<close> \<open>mp \<le> 11\<close> have "mp \<in> {0, 1, 2, 3, 4, 5, 6, 7, 8, 9, 10, 11}" by (rule month_cases)
  then have cases: "P mp" if "P 0" "P 1" "P 2" "P 3" "P 4" "P 5" "P 6" "P 7" "P 8" "P 9" "P 10" "P 11" for P
    by (elim insertE emptyE) (simp_all only: that)
  show "1 \<le> m" "m \<le> 12" "mp = (if m > 2 then m - 3 else m + 9)"
    using \<open>0 \<le> mp\<close> \<open>mp \<le> 11\<close> by (simp_all add: m_def)
  show "1 \<le> d" using mp(1) unfolding d_def by linarith
  have "10 \<le> mp \<longleftrightarrow> 306 \<le> doy" using mp by (intro iffI) linarith+
  with \<open>0 \<le> mp\<close> \<open>mp \<le> 11\<close> show "m \<le> 2 \<longleftrightarrow> 306 \<le> doy" by (auto simp: m_def)
  have "5 * doy + 2 < 153 * mp + 153 \<longrightarrow>
      doy - (153 * mp + 2) div 5 + 1 \<le> month_length (y + (if m \<le> 2 then 1 else 0)) m"
    unfolding m_def
  proof (rule cases)
    show "5 * doy + 2 < 153 * 11 + 153 \<longrightarrow> doy - (153 * 11 + 2) div 5 + 1
        \<le> month_length (y + (if (if 11 < (10::int) then 11 + 3 else 11 - 9) \<le> (2::int) then 1 else 0))
            (if 11 < (10::int) then 11 + 3 else 11 - 9)"
      using long assms(2) by (auto simp: month_length_def)
  qed (simp_all add: month_length_def)
  with mp(2) show "d \<le> month_length (y + (if m \<le> 2 then 1 else 0)) m" by (simp add: d_def)
qed

lemma leap_year_era [simp]: "leap_year (y + e * 400) = leap_year y"
proof -
  have "(y + e * 400) mod 4 = y mod 4" "(y + e * 400) mod 100 = y mod 100" "(y + e * 400) mod 400 = y mod 400"
    using mod_mult_self1 [of y "e * 100" 4] mod_mult_self1 [of y "e * 4" 100]
    by (simp_all add: mult.commute)
  then show ?thesis by (simp add: leap_year_def)
qed

text \<open>Writing a day and reading it back; days of the years 1 to 9999 have such a year.\<close>

lemma civil_round_trip:
  assumes "civil_of_days z = (y, m, d)"
  shows "days_of_civil y m d = z" "1 \<le> m" "m \<le> 12" "1 \<le> d" "d \<le> month_length y m"
    "- 719162 \<le> z \<Longrightarrow> 1 \<le> y" "z \<le> LAST_DAY \<Longrightarrow> y \<le> 9999"
proof -
  define era where "era = (z + 719468) div 146097"
  define doe where "doe = (z + 719468) mod 146097"
  define yoe where "yoe = year_of_era doe"
  define doy where "doy = doe - days_before_year yoe"
  define mp where "mp = (5 * doy + 2) div 153"
  have z: "z + 719468 = era * 146097 + doe" by (simp add: era_def doe_def)
  have doe: "0 \<le> doe" "doe \<le> 146096" using pos_mod_bound [of 146097 "z + 719468"] by (simp_all add: doe_def)
  note pos = era_position [OF doe, folded yoe_def, folded doy_def]
  note month = month_bounds [OF pos(3,4) pos(5), folded mp_def]
  define m' where "m' = (if mp < 10 then mp + 3 else mp - 9)"
  have civil: "civil_of_days z =
      (yoe + era * 400 + (if m' \<le> 2 then 1 else 0), m', doy - (153 * mp + 2) div 5 + 1)"
    by (simp only: civil_of_days_def Let_def era_def doe_def yoe_def year_of_era_def doy_def
        days_before_year_def mp_def m'_def)
  from trans [OF civil [symmetric] assms] have m: "m = (if mp < 10 then mp + 3 else mp - 9)"
    and y: "y = yoe + era * 400 + (if m \<le> 2 then 1 else 0)" and d: "d = doy - (153 * mp + 2) div 5 + 1"
    unfolding prod.inject m'_def [symmetric] by blast+
  show "1 \<le> m" "m \<le> 12" "1 \<le> d" using month(1-3) unfolding m d by auto
  have "y = (yoe + (if m \<le> 2 then 1 else 0)) + era * 400" using y by simp
  then have "month_length y m = month_length (yoe + (if m \<le> 2 then 1 else 0)) m"
    unfolding month_length_def by (simp only: leap_year_era)
  with month(4) show "d \<le> month_length y m" unfolding m d by simp
  have "(yoe + era * 400) div 400 = era" "(yoe + era * 400) mod 400 = yoe"
    using pos(1,2) by (auto simp: div_pos_pos_trivial mod_pos_pos_trivial)
  moreover have "(if m \<le> 2 then y - 1 else y) = yoe + era * 400" using y by simp
  moreover have "(if m > 2 then m - 3 else m + 9) = mp" using month(5) unfolding m by simp
  ultimately show "days_of_civil y m d = z"
    using z unfolding days_of_civil_def Let_def d by (simp add: doy_def days_before_year_def)
  show "1 \<le> y" if "- 719162 \<le> z"
  proof -
    from that z doe have "1 \<le> era \<or> era = 0 \<and> 306 \<le> doe" by linarith
    then show ?thesis
    proof
      assume era: "era = 0 \<and> 306 \<le> doe"
      show ?thesis
      proof (cases "yoe = 0")
        case True
        with era month(6) have "m \<le> 2" unfolding m by (simp add: doy_def days_before_year_def)
        with True era y show ?thesis by simp
      qed (use pos(1) era y in \<open>auto\<close>)
    qed (use pos(1) y in \<open>auto\<close>)
  qed
  show "y \<le> 9999" if "z \<le> LAST_DAY"
  proof -
    have "z \<le> 2932896" using that by (simp add: LAST_DAY_def days_of_civil_def)
    with z doe have "era \<le> 23 \<or> era = 24 \<and> doe \<le> 146036" by linarith
    then show ?thesis
    proof
      assume era: "era = 24 \<and> doe \<le> 146036"
      show ?thesis
      proof (cases "yoe = 399")
        case True
        with era month(6) have "\<not> m \<le> 2" unfolding m by (simp add: doy_def days_before_year_def)
        with True era y show ?thesis by simp
      qed (use pos(2) era y in \<open>auto\<close>)
    qed (use pos(2) y in \<open>auto\<close>)
  qed
qed

section \<open>Written and read timestamps\<close>

lemma nat_str_length: "n < 10 ^ w \<Longrightarrow> 0 < w \<Longrightarrow> length (nat_str n) \<le> w"
proof (induction n arbitrary: w rule: nat_str.induct)
  case (1 n)
  show ?case
  proof (cases "n < 10")
    case True
    with 1 show ?thesis by (subst nat_str.simps) simp
  next
    case False
    from 1(3) obtain v where w: "w = Suc v" by (cases w) auto
    with 1(2) False have v: "0 < v" by (cases v) auto
    from w 1(2) have "n div 10 < 10 ^ v" by (simp add: less_mult_imp_div_less mult.commute)
    from 1(1) [OF False this v] w False show ?thesis by (subst nat_str.simps) simp
  qed
qed

lemma pad_spec:
  assumes "0 \<le> n" "n < 10 ^ w" "0 < w"
  shows "length (pad w n) = w" "list_all is_digit (pad w n)" "int (digits_val (pad w n)) = n"
proof -
  have "nat n < 10 ^ w" using assms by (simp add: nat_less_iff)
  then show "length (pad w n) = w" using nat_str_length [of "nat n" w] assms(3) by (simp add: pad_def Let_def)
  show "list_all is_digit (pad w n)" using nat_str_digits [of "nat n"]
    by (auto simp: pad_def Let_def list_all_iff is_digit_def)
  have "digits_val (replicate k (CHR ''0'') @ s) = digits_val s" for k s
    by (induction k) (simp_all add: digits_val_def ord_of_def)
  then show "int (digits_val (pad w n)) = n" using assms(1) by (simp add: pad_def Let_def)
qed

lemma pad_2_digits:
  assumes "0 \<le> n" "n < 100"
  obtains a b where "pad 2 n = [a, b]" "is_digit a" "is_digit b" "int (digits_val [a, b]) = n"
proof -
  from pad_spec [of n 2] assms have "length (pad 2 n) = Suc (Suc 0)" "list_all is_digit (pad 2 n)"
    "int (digits_val (pad 2 n)) = n" by simp_all
  with that show thesis by (auto simp: length_Suc_conv)
qed

lemma pad_4_digits:
  assumes "0 \<le> n" "n < 10000"
  obtains a b c d where "pad 4 n = [a, b, c, d]" "is_digit a" "is_digit b" "is_digit c" "is_digit d"
    "int (digits_val [a, b, c, d]) = n"
proof -
  from pad_spec [of n 4] assms have "length (pad 4 n) = Suc (Suc (Suc (Suc 0)))"
    "list_all is_digit (pad 4 n)" "int (digits_val (pad 4 n)) = n" by simp_all
  with that show thesis by (auto simp: length_Suc_conv)
qed

definition FIRST_INSTANT :: instant where
  "FIRST_INSTANT = - 719162 * days 1"

definition LAST_INSTANT :: instant where
  "LAST_INSTANT = (LAST_DAY + 1) * days 1 - 1"

lemma parse_timestamp:
  assumes "FIRST_INSTANT \<le> t" "t \<le> LAST_INSTANT"
  shows "parse_utc (timestamp t) = Inr t"
proof -
  define z where "z = t div days 1"
  define us where "us = t mod days 1"
  define s where "s = us div 1000000"
  obtain y m d where civil: "civil_of_days z = (y, m, d)" by (cases "civil_of_days z")
  have t: "t = z * days 1 + us" "0 \<le> us" "us < days 1" by (simp_all add: z_def us_def days_def)
  with assms have "- 719162 * 86400000000 < (z + 1) * 86400000000"
      "z * 86400000000 < (LAST_DAY + 1) * 86400000000"
    by (simp_all add: FIRST_INSTANT_def LAST_INSTANT_def days_def)
  then have "- 719162 \<le> z" "z \<le> LAST_DAY" by simp_all
  with civil_round_trip [OF civil] have days: "days_of_civil y m d = z" "1 \<le> m" "m \<le> 12" "1 \<le> d"
    "d \<le> month_length y m" "1 \<le> y" "y \<le> 9999" by simp_all
  then have "d < 100" by (auto simp: month_length_def split: if_splits)
  have us: "us = s * 1000000 + us mod 1000000" "0 \<le> us mod 1000000" "us mod 1000000 < 1000000"
    by (simp_all add: s_def)
  with t(2,3) have s: "0 \<le> s" "s < 86400" unfolding days_def by linarith+
  define h where "h = s div 3600"
  define mi where "mi = s div 60 mod 60"
  define sec where "sec = s mod 60"
  have clock: "s = (h * 60 + mi) * 60 + sec" "0 \<le> h" "h < 24" "0 \<le> mi" "mi < 60" "0 \<le> sec" "sec < 60"
    using s zdiv_zmult2_eq [of 60 s 60] div_mult_mod_eq [of s 60] div_mult_mod_eq [of "s div 60" 60]
      pos_mod_bound [of 60 s] pos_mod_bound [of 60 "s div 60"]
    by (simp_all add: h_def mi_def sec_def)
  obtain y1 y2 y3 y4 where yy: "pad 4 y = [y1, y2, y3, y4]" "is_digit y1" "is_digit y2" "is_digit y3"
    "is_digit y4" "int (digits_val [y1, y2, y3, y4]) = y" by (rule pad_4_digits [of y]) (use days(6,7) in \<open>simp, simp, blast\<close>)
  obtain m1 m2 where mm: "pad 2 m = [m1, m2]" "is_digit m1" "is_digit m2" "int (digits_val [m1, m2]) = m"
    by (rule pad_2_digits [of m]) (use days(2,3) in \<open>simp, simp, blast\<close>)
  obtain d1 d2 where dd: "pad 2 d = [d1, d2]" "is_digit d1" "is_digit d2" "int (digits_val [d1, d2]) = d"
    by (rule pad_2_digits [of d]) (use days(4) \<open>d < 100\<close> in \<open>simp, simp, blast\<close>)
  obtain h1 h2 where hh: "pad 2 h = [h1, h2]" "is_digit h1" "is_digit h2" "int (digits_val [h1, h2]) = h"
    by (rule pad_2_digits [of h]) (use clock(2,3) in \<open>simp, simp, blast\<close>)
  obtain n1 n2 where nn: "pad 2 mi = [n1, n2]" "is_digit n1" "is_digit n2" "int (digits_val [n1, n2]) = mi"
    by (rule pad_2_digits [of mi]) (use clock(4,5) in \<open>simp, simp, blast\<close>)
  obtain s1 s2 where ss: "pad 2 sec = [s1, s2]" "is_digit s1" "is_digit s2" "int (digits_val [s1, s2]) = sec"
    by (rule pad_2_digits [of sec]) (use clock(6,7) in \<open>simp, simp, blast\<close>)
  define f where "f = pad 6 (us mod 1000000)"
  have f: "length f = 6" "list_all is_digit f" "int (digits_val f) = us mod 1000000"
    using pad_spec [of "us mod 1000000" 6] us(2,3) by (simp_all add: f_def)
  let ?date = "[y1, y2, y3, y4, CHR ''-'', m1, m2, CHR ''-'', d1, d2, CHR ''T'', h1, h2, CHR '':'',
     n1, n2, CHR '':'', s1, s2]"
  have written: "timestamp t = ?date @ (CHR ''.'' # f @ ''Z'')"
    unfolding timestamp_def iso_utc_def z_def [symmetric] us_def [symmetric] civil Let_def prod.case
      s_def [symmetric] h_def [symmetric] mi_def [symmetric] sec_def [symmetric] f_def [symmetric]
      yy(1) mm(1) dd(1) hh(1) nn(1) ss(1) by simp
  have frac: "fraction_of (CHR ''.'' # f @ ''Z'') = Some f"
    using f(1,2) by (simp add: fraction_of_def starts_with_def ends_with_def suffix_def)
  have rest: "drop 19 (timestamp t) = CHR ''.'' # f @ ''Z''" "take 19 (timestamp t) = ?date"
    unfolding written by simp_all
  have shape: "utc_shape (timestamp t)"
    unfolding utc_shape_def rest frac using yy mm dd hh nn ss by (simp add: fits_template_def)
  have numbers: "number_at 0 4 (timestamp t) = y" "number_at 5 2 (timestamp t) = m"
    "number_at 8 2 (timestamp t) = d" "number_at 11 2 (timestamp t) = h"
    "number_at 14 2 (timestamp t) = mi" "number_at 17 2 (timestamp t) = sec"
    unfolding written number_at_def using yy(6) mm(4) dd(4) hh(4) nn(4) ss(4) by simp_all
  have "read_instant (timestamp t) = Some t"
    unfolding read_instant_def numbers rest(1) frac Let_def option.case f(1)
    using days clock f(3) \<open>z \<le> LAST_DAY\<close> us(1) t(1) by simp
  with shape show ?thesis by (simp add: parse_utc_def)
qed

text \<open>What is read lies in the years 1 to 9999.\<close>

lemma days_of_civil_first:
  assumes "1 \<le> y" "1 \<le> m" "1 \<le> d"
  shows "- 719162 \<le> days_of_civil y m d"
proof -
  define y' where "y' = (if m \<le> 2 then y - 1 else y)"
  define mp where "mp = (if m > 2 then m - 3 else m + 9)"
  define e where "e = y' div 400"
  define r where "r = y' mod 400"
  have "0 \<le> y'" using assms(1) by (simp add: y'_def)
  then have e: "0 \<le> e" "0 \<le> r" "y' = 400 * e + r" by (simp_all add: e_def r_def pos_imp_zdiv_nonneg_iff)
  have "r div 100 \<le> r div 4" "0 \<le> r div 100" using e(2) by (simp_all add: pos_imp_zdiv_nonneg_iff zdiv_mono2)
  moreover have "0 \<le> (153 * mp + 2) div 5" using assms(2) by (simp add: mp_def pos_imp_zdiv_nonneg_iff)
  moreover have "e = 0 \<Longrightarrow> 306 \<le> r * 365 + (153 * mp + 2) div 5"
  proof (cases "m \<le> 2")
    case True
    then have "(153 * 10 + 2) div 5 \<le> (153 * mp + 2) div 5" using assms(2) by (intro zdiv_mono1) (auto simp: mp_def)
    with e(2) show ?thesis by simp
  next
    case False
    moreover assume "e = 0"
    ultimately have "1 \<le> r" using assms(1) e(3) by (simp add: y'_def)
    with \<open>0 \<le> (153 * mp + 2) div 5\<close> show ?thesis by linarith
  qed
  ultimately have "306 \<le> e * 146097 + (r * 365 + r div 4 - r div 100 + ((153 * mp + 2) div 5 + d - 1))"
    using e(1,2) assms(3) by (cases "e = 0") linarith+
  then show ?thesis
    unfolding days_of_civil_def Let_def y'_def [symmetric] mp_def [symmetric] e_def [symmetric] r_def [symmetric]
    by linarith
qed

lemma digits_val_bound: "list_all is_digit s \<Longrightarrow> digits_val s < 10 ^ length s"
proof (induction s rule: rev_induct)
  case (snoc c s)
  then have "ord_of c - 48 \<le> 9" by (auto simp: is_digit_def)
  moreover have "digits_val s < 10 ^ length s" using snoc by simp
  ultimately show ?case by simp
qed (simp add: digits_val_def)

lemma fraction_of_digits: "fraction_of s = Some f \<Longrightarrow> length f \<le> 6 \<and> list_all is_digit f"
  by (auto simp: fraction_of_def Let_def split: if_splits)

lemma time_of_day:
  assumes "0 \<le> h" "h < 24" "0 \<le> m" "m \<le> 59" "0 \<le> s" "s \<le> 59" "0 \<le> us" "us < 1000000"
  shows "0 \<le> ((h * 60 + m) * 60 + s) * 1000000 + us" "((h * 60 + m) * 60 + s) * 1000000 + us < days 1"
  using assms unfolding days_def by simp_all

lemma read_instant_range:
  assumes "read_instant s = Some t"
  shows "FIRST_INSTANT \<le> t" "t \<le> LAST_INSTANT"
proof -
  define f where "f = (case fraction_of (drop 19 s) of None \<Rightarrow> [] | Some f \<Rightarrow> f)"
  define us where "us = int (digits_val (f @ replicate (6 - length f) (CHR ''0'')))"
  define h where "h = number_at 11 2 s"
  define day where "day = days_of_civil (number_at 0 4 s) (number_at 5 2 s) (number_at 8 2 s) + h div 24"
  have f: "length f \<le> 6" "list_all is_digit f"
    using fraction_of_digits [of "drop 19 s"] by (auto simp: f_def split: option.splits)
  then have "list_all is_digit (f @ replicate (6 - length f) (CHR ''0''))"
    by (auto simp: list_all_iff is_digit_def)
  from digits_val_bound [OF this] f(1) have us: "0 \<le> us" "us < 1000000" by (simp_all add: us_def)
  have h: "0 \<le> h" by (simp add: h_def number_at_def)
  from assms have "1 \<le> number_at 0 4 s" "1 \<le> number_at 5 2 s" "1 \<le> number_at 8 2 s"
    and clock: "number_at 14 2 s \<le> 59" "number_at 17 2 s \<le> 59" and "day \<le> LAST_DAY"
    and t: "t = day * days 1 + ((h mod 24 * 60 + number_at 14 2 s) * 60 + number_at 17 2 s) * 1000000 + us"
    unfolding read_instant_def Let_def f_def [symmetric] us_def [symmetric] h_def [symmetric] day_def [symmetric]
    by (auto split: if_splits)
  then have day: "- 719162 \<le> day" "day \<le> LAST_DAY"
    using days_of_civil_first h by (simp_all add: day_def pos_imp_zdiv_nonneg_iff add_increasing2)
  have "0 \<le> number_at 14 2 s" "0 \<le> number_at 17 2 s" by (simp_all add: number_at_def)
  then have "0 \<le> t - day * days 1" "t - day * days 1 < days 1"
    using time_of_day [of "h mod 24" "number_at 14 2 s" "number_at 17 2 s" us] clock us by (simp_all add: t)
  with day show "FIRST_INSTANT \<le> t" "t \<le> LAST_INSTANT"
    by (simp_all add: FIRST_INSTANT_def LAST_INSTANT_def days_def)
qed

lemma parse_utc_canonical: "parse_utc v = Inr t \<Longrightarrow> parse_utc (timestamp t) = Inr t"
  by (intro parse_timestamp) (auto simp: parse_utc_def dest: read_instant_range split: if_splits option.splits)

end
