(* ===== verification/Otlp.thy ===== *)
theory Otlp
  imports Lifecycle
begin

unbundle bit_operations_syntax

text \<open>
  OTLP/HTTP ingestion (\<open>transport/otlp.py\<close>): decoding of protobuf requests into logical records,
  the batch-wide checks, the admission of the records one after the other, and the responses.
  The messages are those of opentelemetry-proto; the fields the code reads are the records
  below.  What protobuf does on its own is an argument of the definitions that use it: \<open>parse\<close>
  (ParseFromString, \<open>None\<close> for DecodeError), \<open>kind_name\<close> and \<open>status_name\<close> (the Name of an enum
  number) and \<open>serialize\<close> (SerializeToString).
\<close>

section \<open>Messages\<close>

text \<open>The \<open>value\<close> oneof of an AnyValue, with the field \<open>WhichOneof\<close> names.\<close>

datatype any_value =
    String_Value string
  | Bool_Value bool
  | Int_Value int
  | Double_Value pyfloat
  | Array_Value "any_value list"
  | Kvlist_Value "(string \<times> any_value) list"
  | Bytes_Value string
  | Value_Not_Set

record key_value =
  kv_key :: string
  kv_value :: any_value

record otlp_resource =
  res_attributes :: "key_value list"
  res_dropped :: nat

record otlp_scope =
  scope_name :: string
  scope_version :: string
  scope_attributes :: "key_value list"
  scope_dropped :: nat

record 'r scope_group =
  sg_scope :: otlp_scope
  sg_schema_url :: string
  sg_records :: "'r list"

record 'r resource_group =
  rg_resource :: otlp_resource
  rg_scopes :: "'r scope_group list"

record log_record =
  log_attributes :: "key_value list"
  log_dropped :: nat
  log_body :: any_value
  log_event_name :: string
  log_trace_id :: string
  log_span_id :: string

record span_link =
  link_trace_id :: string
  link_span_id :: string
  link_trace_state :: string
  link_flags :: nat
  link_attributes :: "key_value list"
  link_dropped :: nat

record otlp_span =
  span_attributes :: "key_value list"
  span_dropped :: nat
  span_events :: nat
  span_dropped_events :: nat
  span_dropped_links :: nat
  span_message :: string
  span_code :: int
  span_link_list :: "span_link list"
  span_kind_number :: int
  span_title :: string
  span_trace_id :: string
  span_span_id :: string
  span_parent_id :: string
  span_start :: nat
  span_end :: nat
  span_flag_bits :: nat
  span_state :: string

section \<open>Decoding\<close>

definition MAX_BATCH_BYTES :: nat where
  "MAX_BATCH_BYTES = 4 * 1024 * 1024"

definition MAX_BATCH_RECORDS :: nat where
  "MAX_BATCH_RECORDS = 512"

definition scalar :: "any_value \<Rightarrow> pyval result" where
  "scalar v = (case v of
       String_Value s \<Rightarrow> Inr (VStr s)
     | Int_Value i \<Rightarrow> Inr (VInt i)
     | Double_Value x \<Rightarrow> Inr (VFloat x)
     | Bool_Value b \<Rightarrow> Inr (VBool b)
     | _ \<Rightarrow> Inl (Otlp_Decode_Error ''OTLP attributes must use scalar AnyValue carriers''))"

text \<open>The loop of \<open>_attributes\<close>, with the dictionary filled so far.\<close>

fun attributes_from :: "pydict \<Rightarrow> key_value list \<Rightarrow> pydict result" where
  "attributes_from done [] = Inr done"
| "attributes_from done (kv # kvs) =
     (if has_key done (kv_key kv)
      then Inl (Otlp_Decode_Error (''duplicate OTLP attribute '' @ kv_key kv))
      else bind_result (scalar (kv_value kv))
             (\<lambda>v. attributes_from (done @ [(kv_key kv, v)]) kvs))"

definition attributes_of :: "key_value list \<Rightarrow> pydict result" where
  "attributes_of kvs = attributes_from [] kvs"

definition parse_message :: "(string \<Rightarrow> 'req option) \<Rightarrow> string \<Rightarrow> 'req result" where
  "parse_message parse payload =
     (if MAX_BATCH_BYTES < length payload
      then Inl (Otlp_Decode_Error ''OTLP protobuf request exceeds batch byte limit'')
      else (case parse payload of
          None \<Rightarrow> Inl (Otlp_Decode_Error ''invalid OTLP protobuf'')
        | Some req \<Rightarrow> Inr req))"

text \<open>The \<open>try\<close> around \<open>_attributes\<close>: no attributes and the message of the error.\<close>

definition message_of :: "py_error \<Rightarrow> string" where
  "message_of e = (case e of Otlp_Decode_Error m \<Rightarrow> m | _ \<Rightarrow> [])"

definition tried_attributes :: "key_value list \<Rightarrow> pydict \<times> string list" where
  "tried_attributes kvs = (case attributes_of kvs of
       Inl e \<Rightarrow> ([], [message_of e])
     | Inr a \<Rightarrow> (a, []))"

definition noted :: "bool \<Rightarrow> string \<Rightarrow> string list" where
  "noted c m = (if c then [m] else [])"

definition envelope :: "otlp_resource \<Rightarrow> otlp_scope \<Rightarrow> string \<Rightarrow> pydict \<times> string list" where
  "envelope res scope schema_url =
     (let (resource_attributes, errors) = tried_attributes (res_attributes res) in
      ([(''profile_version'', VStr (scope_version scope)),
        (''resource'', VDict resource_attributes),
        (''scope'', VDict [(''name'', VStr (scope_name scope)),
                         (''version'', VStr (scope_version scope)),
                         (''schema_url'', VStr schema_url)])],
       errors
       @ noted (res_dropped res \<noteq> 0) ''dropped Resource attributes''
       @ noted (scope_attributes scope \<noteq> [] \<or> scope_dropped scope \<noteq> 0)
           ''InstrumentationScope attributes''))"

definition decoded_attributes :: "key_value list \<Rightarrow> nat \<Rightarrow> pydict \<times> string list" where
  "decoded_attributes kvs dropped =
     (let (a, errors) = tried_attributes kvs
      in (a, errors @ noted (dropped \<noteq> 0) ''dropped record attributes''))"

fun joined :: "string list \<Rightarrow> string" where
  "joined [] = []"
| "joined [m] = m"
| "joined (m # ms) = m @ ''; '' @ joined ms"

definition mark_carrier_errors :: "string list \<Rightarrow> pydict \<Rightarrow> pydict" where
  "mark_carrier_errors errors r =
     (if errors = [] then r else dset r ''_carrier_error'' (VStr (joined errors)))"

definition remove_prefix :: "string \<Rightarrow> string \<Rightarrow> string" where
  "remove_prefix s p = (if starts_with s p then drop (length p) s else s)"

definition native_enum_name ::
  "(int \<Rightarrow> string option) \<Rightarrow> int \<Rightarrow> string \<Rightarrow> string \<Rightarrow> string result" where
  "native_enum_name name value label pre = (case name value of
       Some n \<Rightarrow> Inr (remove_prefix n pre)
     | None \<Rightarrow> Inl (Otlp_Decode_Error (''unsupported native '' @ label)))"

definition hex_of :: "string \<Rightarrow> string" where
  "hex_of bytes =
     concat (map (\<lambda>c. [hex_digit (ord_of c div 16), hex_digit (ord_of c mod 16)]) bytes)"

definition optional_field :: "bool \<Rightarrow> string \<Rightarrow> pyval \<Rightarrow> pydict" where
  "optional_field c k v = (if c then [(k, v)] else [])"

text \<open>One log record in its group's envelope.\<close>

definition decode_log :: "pydict \<times> string list \<Rightarrow> log_record \<Rightarrow> pydict" where
  "decode_log header r =
     (let (env, group_errors) = header;
          (attributes, attribute_errors) = decoded_attributes (log_attributes r) (log_dropped r);
          errors = group_errors @ attribute_errors
            @ noted (log_body r \<noteq> Value_Not_Set) ''OTLP LogRecord body must be empty''
      in mark_carrier_errors errors
           (env @ [(''record_type'', VStr ''event''), (''event_name'', VStr (log_event_name r)),
                 (''attributes'', VDict attributes)]
            @ optional_field (log_trace_id r \<noteq> []) ''trace_id'' (VStr (hex_of (log_trace_id r)))
            @ optional_field (log_span_id r \<noteq> []) ''span_id'' (VStr (hex_of (log_span_id r)))))"

text \<open>The links that carry no attributes, and an error for each that does.\<close>

definition plain_link :: "span_link \<Rightarrow> bool" where
  "plain_link l \<longleftrightarrow> link_attributes l = [] \<and> link_dropped l = 0"

definition decode_link :: "span_link \<Rightarrow> pyval" where
  "decode_link l = VDict
     ([(''trace_id'', VStr (hex_of (link_trace_id l))), (''span_id'', VStr (hex_of (link_span_id l)))]
      @ optional_field (link_trace_state l \<noteq> []) ''trace_state'' (VStr (link_trace_state l))
      @ optional_field (link_flags l \<noteq> 0) ''flags'' (VInt (int (link_flags l))))"

fun decode_links :: "span_link list \<Rightarrow> pyval list \<times> string list" where
  "decode_links [] = ([], [])"
| "decode_links (l # ls) =
     (let (links, errors) = decode_links ls
      in if plain_link l then (decode_link l # links, errors)
         else (links, ''Span Link attributes are outside Profile 1.0.0'' # errors))"

definition tried_name :: "string result \<Rightarrow> string \<times> string list" where
  "tried_name r = (case r of Inl e \<Rightarrow> (''INVALID'', [message_of e]) | Inr n \<Rightarrow> (n, []))"

definition decode_span ::
  "(int \<Rightarrow> string option) \<Rightarrow> (int \<Rightarrow> string option) \<Rightarrow> pydict \<times> string list \<Rightarrow> otlp_span \<Rightarrow> pydict" where
  "decode_span kind_name status_name header r =
     (let (env, group_errors) = header;
          (attributes, attribute_errors) = decoded_attributes (span_attributes r) (span_dropped r);
          (links, link_errors) = decode_links (span_link_list r);
          (kind, kind_errors) = tried_name
            (native_enum_name kind_name (span_kind_number r) ''Span kind'' ''SPAN_KIND_'');
          (status, status_errors) = tried_name
            (native_enum_name status_name (span_code r) ''Span status'' ''STATUS_CODE_'');
          errors = group_errors @ attribute_errors
            @ noted (span_events r \<noteq> 0 \<or> span_dropped_events r \<noteq> 0)
                ''Span Events are outside Profile 1.0.0''
            @ noted (span_dropped_links r \<noteq> 0) ''dropped Span Links''
            @ noted (span_message r \<noteq> []) ''Span Status message is prohibited content''
            @ link_errors @ kind_errors @ status_errors
      in mark_carrier_errors errors
           (env @ [(''record_type'', VStr ''span''), (''span_name'', VStr (span_title r)),
                 (''trace_id'', VStr (hex_of (span_trace_id r))),
                 (''span_id'', VStr (hex_of (span_span_id r))),
                 (''span_kind'', VStr kind),
                 (''start_time_unix_nano'', VStr (nat_str (span_start r))),
                 (''end_time_unix_nano'', VStr (nat_str (span_end r))),
                 (''span_flags'', VInt (int (span_flag_bits r))),
                 (''span_links'', VList links),
                 (''span_status'', VStr status),
                 (''attributes'', VDict attributes)]
            @ optional_field (span_parent_id r \<noteq> []) ''parent_span_id''
                (VStr (hex_of (span_parent_id r)))
            @ optional_field (span_state r \<noteq> []) ''trace_state'' (VStr (span_state r))))"

text \<open>The nested loops over the groups of a request.\<close>

definition decode_groups ::
  "(pydict \<times> string list \<Rightarrow> 'r \<Rightarrow> pydict) \<Rightarrow> 'r resource_group list \<Rightarrow> pydict list" where
  "decode_groups decode groups = concat (map (\<lambda>rg. concat (map (\<lambda>sg.
     map (decode (envelope (rg_resource rg) (sg_scope sg) (sg_schema_url sg))) (sg_records sg))
     (rg_scopes rg))) groups)"

definition check_record_count :: "pydict list \<Rightarrow> py_error option" where
  "check_record_count records = require (length records \<le> MAX_BATCH_RECORDS)
     (Otlp_Decode_Error ''OTLP protobuf request exceeds record limit'')"

definition decode_request ::
  "(string \<Rightarrow> 'r resource_group list option) \<Rightarrow> (pydict \<times> string list \<Rightarrow> 'r \<Rightarrow> pydict) \<Rightarrow>
   string \<Rightarrow> pydict list result" where
  "decode_request parse decode payload =
     bind_result (parse_message parse payload) (\<lambda>groups.
       let records = decode_groups decode groups
       in check_then (check_record_count records) (Inr records))"

definition decode_logs_request ::
  "(string \<Rightarrow> log_record resource_group list option) \<Rightarrow> string \<Rightarrow> pydict list result" where
  "decode_logs_request parse payload = decode_request parse decode_log payload"

definition decode_traces_request ::
  "(string \<Rightarrow> otlp_span resource_group list option) \<Rightarrow> (int \<Rightarrow> string option) \<Rightarrow>
   (int \<Rightarrow> string option) \<Rightarrow> string \<Rightarrow> pydict list result" where
  "decode_traces_request parse kind_name status_name payload =
     decode_request parse (decode_span kind_name status_name) payload"

section \<open>Batch-wide checks\<close>

definition BOUNDED_CARDINALITY_FIELDS :: "string list" where
  "BOUNDED_CARDINALITY_FIELDS = [
    ''agentops.workflow.id'', ''agentops.workflow.version'', ''agentops.implementation.id'',
    ''agentops.runtime.id'', ''agentops.review.scope'', ''agentops.review.total'',
    ''agentops.review.observed.count'', ''agentops.observed.loop.count'',
    ''agentops.observed.intervention.count'', ''agentops.usage.unit'', ''agentops.usage.source.id'',
    ''agentops.usage.value'', ''agentops.finding.summary'', ''agentops.delivery.elapsed_time_ms'',
    ''agentops.delivery.stage.reached'', ''agentops.model.id'', ''agentops.test.passed'',
    ''agentops.test.failed'', ''agentops.test.skipped'', ''agentops.test.duration.seconds'',
    ''agentops.coverage.covered'', ''agentops.coverage.total'', ''agentops.coverage.tool.id'',
    ''agentops.coverage.format'', ''agentops.fresh_reader.finding.count'',
    ''agentops.verification.check.passed'', ''agentops.verification.check.failed'']"

definition record_attributes :: "pydict \<Rightarrow> pydict" where
  "record_attributes r = the_dict (dget r ''attributes'')"

text \<open>A set of at most one element: every value equals the first.\<close>

definition at_most_one :: "pyval list \<Rightarrow> bool" where
  "at_most_one vs = (case vs of [] \<Rightarrow> True | v # ws \<Rightarrow> list_all (py_eq v) ws)"

definition homogeneous :: "pydict list \<Rightarrow> bool" where
  "homogeneous records \<longleftrightarrow>
     at_most_one (map (\<lambda>r. dget r ''profile_version'') records) \<and>
     at_most_one (filter (\<lambda>v. v \<noteq> VNone)
       (map (\<lambda>r. dget (record_attributes r) ''agentops.family.schema'') records))"

text \<open>
  The loop over the fields.  Python iterates a set of strings in an order of the process: the
  order is the argument \<open>names\<close>, a permutation of \<open>BOUNDED_CARDINALITY_FIELDS\<close>.
\<close>

definition field_values :: "string \<Rightarrow> pydict list \<Rightarrow> pyval list" where
  "field_values field records =
     map (\<lambda>r. dget (record_attributes r) field)
       (filter (\<lambda>r. has_key (record_attributes r) field) records)"

fun within_cardinality_budget :: "string list \<Rightarrow> pydict list \<Rightarrow> bool result" where
  "within_cardinality_budget [] records = Inr True"
| "within_cardinality_budget (name # names) records =
     bind_result (map_results canonical_bytes (field_values name records)) (\<lambda>values.
       if 256 < length (remdups values) then Inr False
       else within_cardinality_budget names records)"

section \<open>Ingestion\<close>

datatype signal = Logs | Traces

record otlp_outcome =
  signal :: signal
  http_status :: nat
  rejected_items :: nat

text \<open>
  The loop over the records.  \<open>clock i\<close> is the time of the transaction of the i-th record.  A
  \<open>ValidationError\<close>, a conflict and a rejection count as rejected; any other exception ends the
  loop, with the records admitted so far committed.
\<close>

fun ingest_records ::
  "(nat \<Rightarrow> instant) \<Rightarrow> nat \<Rightarrow> pydict list \<Rightarrow> nat \<Rightarrow> db \<Rightarrow> nat result \<times> db" where
  "ingest_records clock i [] rejected db = (Inr rejected, db)"
| "ingest_records clock i (r # rs) rejected db =
     (case admit (clock i) (VDict r) db of
        (Inl (Validation_Error m), db') \<Rightarrow> ingest_records clock (Suc i) rs (Suc rejected) db'
      | (Inl e, db') \<Rightarrow> (Inl e, db')
      | (Inr res, db') \<Rightarrow> ingest_records clock (Suc i) rs
          (if disposition res \<in> {CONFLICT, REJECTED} then Suc rejected else rejected) db')"

definition ingest ::
  "string list \<Rightarrow> (nat \<Rightarrow> instant) \<Rightarrow> signal \<Rightarrow> pydict list \<Rightarrow> db \<Rightarrow> otlp_outcome result \<times> db" where
  "ingest names clock sig records db =
     (let refused = \<lparr>signal = sig, http_status = 400, rejected_items = length records\<rparr> in
      if \<not> homogeneous records then (Inr refused, db)
      else (case within_cardinality_budget names records of
          Inl e \<Rightarrow> (Inl e, db)
        | Inr False \<Rightarrow> (Inr refused, db)
        | Inr True \<Rightarrow> (case ingest_records clock 0 records 0 db of
              (Inl e, db') \<Rightarrow> (Inl e, db')
            | (Inr rejected, db') \<Rightarrow>
                (Inr \<lparr>signal = sig,
                      http_status = (if records \<noteq> [] \<and> rejected = length records then 400 else 200),
                      rejected_items = rejected\<rparr>, db'))))"

section \<open>Responses\<close>

text \<open>\<open>_varint\<close> on the length of a message, a natural number.\<close>

function varint :: "nat \<Rightarrow> string" where
  "varint value =
     (if 0x7F < value then char_of ((value AND 0x7F) OR 0x80) # varint (drop_bit 7 value)
      else [char_of value])"
  by pat_completeness auto
termination
  by (relation "measure id") (simp_all add: drop_bit_eq_div)

declare varint.simps [simp del]

definition status_payload :: "string \<Rightarrow> string" where
  "status_payload message =
     (let encoded = take 256 message
      in [CHR 0x08, CHR 0x03, CHR 0x12] @ varint (length encoded) @ encoded)"

record export_response =
  response_signal :: signal
  partial_rejected :: nat
  partial_message :: string

definition export_payload :: "(export_response \<Rightarrow> string) \<Rightarrow> otlp_outcome \<Rightarrow> string" where
  "export_payload serialize out = serialize
     \<lparr>response_signal = signal out, partial_rejected = rejected_items out,
      partial_message =
        (if rejected_items out = 0 then []
         else if signal out = Logs then ''one or more log records rejected''
         else ''one or more spans rejected'')\<rparr>"

record http_response =
  status_code :: nat
  body :: string

definition plain_status :: "string \<Rightarrow> nat \<Rightarrow> http_response" where
  "plain_status m code = \<lparr>status_code = code, body = status_payload m\<rparr>"

text \<open>
  The handler of both routes: \<open>decode\<close> is the decoder of the signal, \<open>ready\<close> says whether the
  application holds an ingestor.  \<open>OtlpDecodeError\<close>, which only the decoders raise, is answered
  with 400; any other exception propagates, with what was committed before it.
\<close>

definition handle_ingest ::
  "(export_response \<Rightarrow> string) \<Rightarrow> string list \<Rightarrow> (nat \<Rightarrow> instant) \<Rightarrow> signal \<Rightarrow>
   (string \<Rightarrow> pydict list result) \<Rightarrow> string option \<Rightarrow> bool \<Rightarrow> string \<Rightarrow> db \<Rightarrow>
   http_response result \<times> db" where
  "handle_ingest serialize names clock sig decode content_type ready payload db =
     (if content_type \<noteq> Some ''application/x-protobuf'' then
        (Inr (plain_status ''Content-Type must be application/x-protobuf'' 400), db)
      else if \<not> ready then (Inr (plain_status ''Evidence storage is unavailable'' 503), db)
      else (case decode payload of
          Inl (Otlp_Decode_Error m) \<Rightarrow> (Inr (plain_status ''invalid OTLP protobuf request'' 400), db)
        | Inl e \<Rightarrow> (Inl e, db)
        | Inr records \<Rightarrow> (case ingest names clock sig records db of
              (Inl e, db') \<Rightarrow> (Inl e, db')
            | (Inr out, db') \<Rightarrow>
                (Inr (if http_status out = 400 then plain_status ''all logical records rejected'' 400
                      else \<lparr>status_code = http_status out, body = export_payload serialize out\<rparr>),
                 db'))))"

end
