(* ===== verification/Otlp_Facts.thy ===== *)
theory Otlp_Facts
  imports Otlp
begin

text \<open>
  Facts of ingestion the properties share: what decoding and the batch-wide checks return, and
  how the loop over the records steps the database.
\<close>

section \<open>Decoding\<close>

lemma noted_Nil [simp]: "noted c m = [] \<longleftrightarrow> \<not> c"
  by (simp add: noted_def)

lemma decode_request_Inr:
  assumes "decode_request parse decode payload = Inr records"
  obtains groups where "parse payload = Some groups" "records = decode_groups decode groups"
    "length payload \<le> MAX_BATCH_BYTES" "length records \<le> MAX_BATCH_RECORDS"
  using assms
  by (auto simp: decode_request_def parse_message_def bind_result_Inr_iff Let_def
      check_record_count_def split: if_splits option.splits)

lemma decode_request_Inl:
  "decode_request parse decode payload = Inl e \<Longrightarrow> \<exists>m. e = Otlp_Decode_Error m"
  by (auto simp: decode_request_def parse_message_def result_iffs Let_def check_record_count_def
      split: if_splits option.splits)

text \<open>The attributes of a list of key-value pairs, when there are no errors.\<close>

definition wire_attribute :: "key_value \<Rightarrow> (string \<times> pyval) result" where
  "wire_attribute kv = bind_result (scalar (kv_value kv)) (\<lambda>v. Inr (kv_key kv, v))"

lemma attributes_from_Inr:
  assumes "attributes_from done kvs = Inr a"
  shows "\<exists>new. map_results wire_attribute kvs = Inr new \<and> a = done @ new \<and> keys new = map kv_key kvs \<and>
           distinct (map kv_key kvs) \<and> set (map kv_key kvs) \<inter> set (keys done) = {}"
  using assms
proof (induction "done" kvs rule: attributes_from.induct)
  case (2 "done" kv kvs)
  then obtain v where v: "\<not> has_key done (kv_key kv)" "scalar (kv_value kv) = Inr v"
    "attributes_from (done @ [(kv_key kv, v)]) kvs = Inr a"
    by (auto simp: bind_result_Inr_iff split: if_splits)
  from 2(1) [OF v(1,3)] obtain new where "map_results wire_attribute kvs = Inr new"
    "a = (done @ [(kv_key kv, v)]) @ new" "keys new = map kv_key kvs" "distinct (map kv_key kvs)"
    "set (map kv_key kvs) \<inter> set (keys (done @ [(kv_key kv, v)])) = {}" by blast
  moreover from v(2) have "wire_attribute kv = Inr (kv_key kv, v)" by (simp add: wire_attribute_def)
  ultimately show ?case using v(1)
    by (intro exI [of _ "(kv_key kv, v) # new"]) (auto simp: has_key_iff keys_def)
qed simp

definition lossless :: "key_value list \<Rightarrow> nat \<Rightarrow> pydict \<Rightarrow> bool" where
  "lossless kvs dropped a \<longleftrightarrow> map_results wire_attribute kvs = Inr a \<and>
     distinct (map kv_key kvs) \<and> dropped = 0"

lemma tried_attributes_clean:
  "tried_attributes kvs = (a, []) \<Longrightarrow> lossless kvs 0 a"
  using attributes_from_Inr [of "[]" kvs a]
  by (auto simp: tried_attributes_def attributes_of_def lossless_def split: sum.splits)

lemma decoded_attributes_clean:
  "decoded_attributes kvs dropped = (a, []) \<Longrightarrow> lossless kvs dropped a"
  using tried_attributes_clean [of kvs a]
  by (auto simp: decoded_attributes_def lossless_def split: prod.splits)

lemma envelope_clean:
  assumes "envelope res scope url = (env, [])"
  shows "lossless (res_attributes res) (res_dropped res) (the_dict (dget env ''resource''))"
    and "scope_attributes scope = []" "scope_dropped scope = 0"
    and "dget env ''profile_version'' = VStr (scope_version scope)"
  using assms tried_attributes_clean [of "res_attributes res"]
  by (auto simp: envelope_def lossless_def split: prod.splits)

lemma envelope_keys: "keys (fst (envelope res scope url)) = [''profile_version'', ''resource'', ''scope'']"
  by (simp add: envelope_def split: prod.splits)

text \<open>A record with a carrier error is outside the closed set of record fields.\<close>

lemma marked_key: "errors \<noteq> [] \<Longrightarrow> has_key (mark_carrier_errors errors r) ''_carrier_error''"
  by (simp add: mark_carrier_errors_def has_key_iff keys_dset)

lemma unknown_field_rejected:
  assumes "has_key r ''_carrier_error''"
  shows "validate_record (VDict r) = Inl (Validation_Error ''unknown record field'')"
proof -
  have "''_carrier_error'' \<notin> set RECORD_KEYS" by (simp add: RECORD_KEYS_def)
  with assms have "\<not> keys_within r RECORD_KEYS" by (auto simp: keys_within_iff has_key_iff)
  then have "validate_envelope r = Some (Validation_Error ''unknown record field'')"
    by (simp add: validate_envelope_def Let_def)
  then show ?thesis by (simp add: validate_record_def is_dict_def)
qed

lemma marked_rejected:
  "errors \<noteq> [] \<Longrightarrow> validate_record (VDict (mark_carrier_errors errors r)) =
     Inl (Validation_Error ''unknown record field'')"
  by (intro unknown_field_rejected marked_key)

lemma validated_unmarked:
  assumes "validate_record (VDict (mark_carrier_errors errors r)) = Inr rec"
  shows "errors = []"
  using assms marked_rejected [of errors r] by (cases "errors = []") simp_all

lemma unmarked [simp]: "mark_carrier_errors [] r = r"
  by (simp add: mark_carrier_errors_def)

lemma validated_attributes:
  "validate_record v = Inr rec \<Longrightarrow> attributes rec = record_attributes (the_dict v)"
  by (erule validated_cases)
     (auto simp: is_span_record_def is_event_record_def passed_common_def record_attributes_def)

lemma dget_append: "dget (d @ e) k = (if has_key d k then dget d k else dget e k)"
  by (induction d) auto

lemma decode_groups_concat:
  "decode_groups decode (g @ h) = decode_groups decode g @ decode_groups decode h"
  by (simp add: decode_groups_def)

section \<open>Batch-wide checks\<close>

lemma canonical_text_error: "canonical_text v = Inl e \<Longrightarrow> \<exists>m. e = Value_Error m"
proof (induction v arbitrary: e rule: canonical_text.induct)
  case (6 vs)
  then show ?case by (auto simp: result_iffs dest!: map_results_Inl)
next
  case (7 vs)
  then show ?case by (auto simp: result_iffs dest!: map_results_Inl)
next
  case (8 d)
  then show ?case by (auto simp: result_iffs dest!: map_results_Inl)
qed (auto simp: int_text_def canonical_number_def Let_def split: if_splits pyfloat.splits)

lemma canonical_bytes_error: "canonical_bytes v = Inl e \<Longrightarrow> \<exists>m. e = Value_Error m"
  using canonical_text_error by (auto simp: canonical_bytes_def result_iffs split: if_splits)

definition field_ok :: "pydict list \<Rightarrow> string \<Rightarrow> bool" where
  "field_ok records name \<longleftrightarrow> (\<exists>vs. map_results canonical_bytes (field_values name records) = Inr vs \<and>
     length (remdups vs) \<le> 256)"

lemma within_budget_True:
  "within_cardinality_budget names records = Inr True \<longleftrightarrow> (\<forall>name \<in> set names. field_ok records name)"
proof (induction names)
  case (Cons n names)
  show ?case
    by (cases "map_results canonical_bytes (field_values n records)") (simp_all add: Cons.IH field_ok_def)
qed simp

lemma within_budget_error:
  "within_cardinality_budget names records = Inl e \<Longrightarrow> \<exists>m. e = Value_Error m"
  by (induction names)
     (auto simp: bind_result_Inl_iff canonical_bytes_error dest!: map_results_Inl split: if_splits)

lemma length_field_values: "length (field_values name records) \<le> length records"
  by (simp add: field_values_def)

text \<open>Few records are never over the budget; then a value without canonical bytes raises.\<close>

lemma within_budget_raises:
  assumes "length records \<le> 256" "name \<in> set names" "map_results canonical_bytes (field_values name records) = Inl e"
  shows "\<exists>m. within_cardinality_budget names records = Inl (Value_Error m)"
  using assms(2)
proof (induction names)
  case (Cons n names)
  show ?case
  proof (cases "map_results canonical_bytes (field_values n records)")
    case (Inl e')
    then have "\<exists>m. e' = Value_Error m" using canonical_bytes_error map_results_Inl by blast
    with Inl show ?thesis by auto
  next
    case (Inr vs)
    then have "length (remdups vs) \<le> 256"
      using map_results_Inr_length [OF Inr] length_field_values [of n records] assms(1)
        length_remdups_leq [of vs] by linarith
    moreover from Inr assms(3) Cons.prems have "name \<in> set names" by auto
    ultimately show ?thesis using Inr Cons.IH by auto
  qed
qed simp

section \<open>The loop over the records\<close>

definition rejects :: "admission_result result \<Rightarrow> bool" where
  "rejects a = (case a of Inl e \<Rightarrow> (\<exists>m. e = Validation_Error m)
     | Inr res \<Rightarrow> disposition res \<in> {CONFLICT, REJECTED})"

lemma ingest_records_Cons:
  assumes "ingest_records clock i (r # rs) k db = (res, db')"
  obtains a db1 where "admit (clock i) (VDict r) db = (a, db1)"
    "ingest_records clock (Suc i) rs (if rejects a then Suc k else k) db1 = (res, db')"
    "rejects a \<or> (\<exists>x. a = Inr x)"
  | e where "admit (clock i) (VDict r) db = (Inl e, db')" "res = Inl e" "\<not> rejects (Inl e)"
proof -
  obtain a db1 where a: "admit (clock i) (VDict r) db = (a, db1)" by force
  show thesis
  proof (cases "rejects a \<or> (\<exists>x. a = Inr x)")
    case True
    with assms a show thesis
      by (intro that(1) [of a db1]) (auto simp: rejects_def split: sum.splits)
  next
    case False
    then obtain e where "a = Inl e" by (cases a) auto
    with False assms a show thesis
      by (intro that(2) [of e]) (auto simp: rejects_def split: py_error.splits)
  qed
qed

lemma rejects_keeps:
  assumes "admit now v db = (a, db')" "rejects a"
  shows "db' = db"
proof (rule pg.admit_not_accepted [OF assms(1) [unfolded admit_pg]])
  show "\<forall>res. a = Inr res \<longrightarrow> disposition res \<noteq> ACCEPTED" using assms(2) by (auto simp: rejects_def)
qed

lemma ingest_records_count:
  "ingest_records clock i rs k db = (Inr m, db') \<Longrightarrow> k \<le> m \<and> m \<le> k + length rs"
proof (induction rs arbitrary: i k db)
  case (Cons r rs)
  from Cons.prems show ?case
    by (rule ingest_records_Cons) (auto dest: Cons.IH split: if_splits)
qed simp

text \<open>When every record is rejected the database is the one before.\<close>

lemma ingest_records_all_rejected:
  "ingest_records clock i rs k db = (Inr (k + length rs), db') \<Longrightarrow> db' = db"
proof (induction rs arbitrary: i k db)
  case (Cons r rs)
  from Cons.prems show ?case
  proof (rule ingest_records_Cons)
    fix a db1
    assume a: "admit (clock i) (VDict r) db = (a, db1)"
      and rest: "ingest_records clock (Suc i) rs (if rejects a then Suc k else k) db1 =
        (Inr (k + length (r # rs)), db')"
    from ingest_records_count [OF rest] have "rejects a" by (auto split: if_splits)
    with rest Cons.IH [of "Suc i" "Suc k" db1] rejects_keeps [OF a] show "db' = db" by simp
  qed simp
qed simp

fun admissions :: "(nat \<Rightarrow> instant) \<Rightarrow> nat \<Rightarrow> pydict list \<Rightarrow> action list" where
  "admissions clock i [] = []"
| "admissions clock i (r # rs) = Admit (clock i) (VDict r) # admissions clock (Suc i) rs"

text \<open>The loop is a run of admissions in the order of the batch, cut short by an exception.\<close>

lemma ingest_records_steps:
  assumes "ingest_records clock i rs k db = (res, db')"
  shows "\<exists>n \<le> length rs. steps db (admissions clock i (take n rs)) db' \<and>
           (\<forall>m. res = Inr m \<longrightarrow> n = length rs)"
  using assms
proof (induction rs arbitrary: i k db)
  case (Cons r rs)
  from Cons.prems show ?case
  proof (rule ingest_records_Cons)
    fix a db1
    assume a: "admit (clock i) (VDict r) db = (a, db1)"
      and "ingest_records clock (Suc i) rs (if rejects a then Suc k else k) db1 = (res, db')"
    from Cons.IH [OF this(2)] obtain n where n: "n \<le> length rs"
      "steps db1 (admissions clock (Suc i) (take n rs)) db'" "\<forall>m. res = Inr m \<longrightarrow> n = length rs" by blast
    with a show ?thesis
      by (intro exI [of _ "Suc n"]) (auto simp: steps_Cons step_admit)
  next
    fix e
    assume "admit (clock i) (VDict r) db = (Inl e, db')" "res = Inl e"
    then show ?thesis
      by (intro exI [of _ 1]) (auto simp: steps_Cons step_admit)
  qed
qed simp

section \<open>Redelivery of a batch\<close>

text \<open>A record the database answers as a duplicate, whenever it is delivered.\<close>

definition known_record :: "pydict \<Rightarrow> db \<Rightarrow> bool" where
  "known_record r db \<longleftrightarrow> (\<exists>rec row. validate_record (VDict r) = Inr rec \<and>
     accepted_row_of rec 0 = Inr row \<and> accepted_constraints row = None \<and>
     retirement_check rec db = None \<and> accepted_digest db (record_source rec) = Some (digest rec))"

lemma accepted_row_of_any:
  assumes "accepted_row_of rec now = Inr row"
  obtains row' where "accepted_row_of rec later = Inr row'" "ar_identity row' = record_source rec"
    "ar_digest row' = digest rec" "accepted_constraints row' = accepted_constraints row"
  using assms accepted_row_of_now [OF assms, of later] accepted_row_of_ok [OF assms]
  by (auto simp: accepted_constraints_def)

lemma known_record_duplicate:
  assumes "known_record r db"
  shows "admit now (VDict r) db = (Inr (admission DUPLICATE [] None), db)"
proof -
  from assms obtain rec row where rec: "validate_record (VDict r) = Inr rec"
    "accepted_row_of rec 0 = Inr row" "accepted_constraints row = None"
    "retirement_check rec db = None" "accepted_digest db (record_source rec) = Some (digest rec)"
    by (auto simp: known_record_def)
  from rec(2) obtain row' where row': "accepted_row_of rec now = Inr row'"
    "ar_identity row' = record_source rec" "ar_digest row' = digest rec"
    "accepted_constraints row' = None"
    using accepted_row_of_any [of rec 0 row now] rec(3) by auto
  from rec(5) obtain old where "row_with ar_identity (record_source rec) (accepted db) = Some old"
    "ar_digest old = digest rec" by (auto simp: accepted_digest_def)
  with rec row' have "claim_identity rec (begin_txn now db) = Inr (DUPLICATE, begin_txn now db)"
    by (simp add: claim_identity_def)
  with rec(1) show ?thesis by (simp add: admit_def admit_with_def admit_body_def)
qed

lemma claim_known_record:
  assumes "validate_record (VDict r) = Inr rec" "claim_identity rec (begin_txn now db) = Inr (disp, tx)"
    and "accepted_digest db' (record_source rec) = Some (digest rec)" "fences db' = fences db"
  shows "known_record r db'"
proof -
  from assms(2) obtain row where row: "accepted_row_of rec now = Inr row"
    "accepted_constraints row = None" "retirement_check rec db = None"
    by (auto simp: claim_identity_def bind_result_Inr_iff)
  from row(1) obtain row' where "accepted_row_of rec 0 = Inr row'" "accepted_constraints row' = None"
    using accepted_row_of_any [of rec now row 0] row(2) by auto
  with assms row(3) show ?thesis by (auto simp: known_record_def intro: retirement_check_stable)
qed

lemma kept_is_known:
  assumes "store_ok db" "admit now (VDict r) db = (Inr res, db')" "\<not> rejects (Inr res)"
  shows "known_record r db'"
proof (cases "disposition res = ACCEPTED")
  case True
  from pg.admit_accepted [OF assms(2) [unfolded admit_pg] True assms(1)] obtain rec tx1 where
    "validate_record (VDict r) = Inr rec" "claim_identity rec (begin_txn now db) = Inr (ACCEPTED, tx1)"
    "accepted_digest db' = (accepted_digest db)(record_source rec \<mapsto> digest rec)" .
  moreover from admit_fences [OF assms(1,2)] have "fences db' = fences db" .
  ultimately show ?thesis by (intro claim_known_record) auto
next
  case False
  with assms(3) have dup: "disposition res = DUPLICATE" by (cases "disposition res") (auto simp: rejects_def)
  with pg.admit_not_accepted [OF assms(2) [unfolded admit_pg]] have db': "db' = db" by simp
  from assms(2) dup obtain rec tx where rec: "validate_record (VDict r) = Inr rec"
    "admit_body claim_identity apply_effects rec (begin_txn now db) = Inr (res, tx)"
    by (auto simp: admit_def admit_with_def caught_def admission_def split: sum.splits prod.splits py_error.splits)
  with dup have c: "claim_identity rec (begin_txn now db) = Inr (DUPLICATE, tx)"
    by (auto simp: admit_body_def bind_result_Inr_iff admission_def split: if_splits)
  from claim_known [OF c] have "accepted_digest db (record_source rec) = Some (digest rec)"
    by (auto split: if_splits)
  with rec(1) c db' show ?thesis by (intro claim_known_record) auto
qed

lemma known_record_stable:
  assumes "store_ok db" "admit now v db = (a, db')" "known_record r db"
  shows "known_record r db'"
proof -
  from admit_fences [OF assms(1,2)] have "fences db' = fences db" .
  moreover from pg.admit_digests_grow [OF assms(1) assms(2) [unfolded admit_pg]]
  have "accepted_digest db \<subseteq>\<^sub>m accepted_digest db'" .
  moreover from assms(3) obtain rec row where rec: "validate_record (VDict r) = Inr rec"
    "accepted_row_of rec 0 = Inr row" "accepted_constraints row = None"
    "retirement_check rec db = None" "accepted_digest db (record_source rec) = Some (digest rec)"
    by (auto simp: known_record_def)
  ultimately have "retirement_check rec db' = None" by (auto intro: retirement_check_stable)
  moreover from \<open>accepted_digest db \<subseteq>\<^sub>m accepted_digest db'\<close> rec(5)
  have "accepted_digest db' (record_source rec) = Some (digest rec)"
    by (metis domI map_le_def)
  ultimately show ?thesis using rec(1-3) by (auto simp: known_record_def)
qed

lemma ingest_records_known:
  assumes "ingest_records clock i rs k db = (Inr k, db')" "store_ok db"
  shows "(\<forall>r \<in> set rs. known_record r db') \<and> (\<forall>r. known_record r db \<longrightarrow> known_record r db')"
  using assms
proof (induction rs arbitrary: i k db)
  case (Cons r rs)
  from Cons.prems(1) show ?case
  proof (rule ingest_records_Cons)
    fix a db1
    assume a: "admit (clock i) (VDict r) db = (a, db1)" "rejects a \<or> (\<exists>x. a = Inr x)"
      and rest: "ingest_records clock (Suc i) rs (if rejects a then Suc k else k) db1 = (Inr k, db')"
    from ingest_records_count [OF rest] have no: "\<not> rejects a" by (auto split: if_splits)
    with a obtain res where "a = Inr res" by auto
    with a(1) no Cons.prems(2) have "known_record r db1" by (auto intro: kept_is_known)
    moreover have "store_ok db1" using pg.admit_inv [OF Cons.prems(2) a(1) [unfolded admit_pg]] .
    moreover note Cons.IH [OF rest [simplified no if_False] this]
      known_record_stable [OF Cons.prems(2) a(1)]
    ultimately show ?thesis by auto
  qed simp
qed simp

lemma ingest_records_again:
  "\<forall>r \<in> set rs. known_record r db \<Longrightarrow> ingest_records clock i rs k db = (Inr k, db)"
  by (induction rs arbitrary: i) (simp_all add: known_record_duplicate admission_def)

section \<open>Outcomes\<close>

lemma ingest_status:
  "ingest names clock sig records db = (Inr out, db') \<Longrightarrow> http_status out \<in> {200, 400}"
  by (auto simp: ingest_def Let_def split: sum.splits bool.splits prod.splits if_splits)

lemma ingest_refused:
  assumes "ingest names clock sig records db = (Inr out, db')" "http_status out \<noteq> 200"
  shows "db' = db"
proof (cases "homogeneous records \<and> within_cardinality_budget names records = Inr True")
  case True
  obtain r db1 where loop: "ingest_records clock 0 records 0 db = (r, db1)" by force
  with True assms have "r = Inr (0 + length records)" "db' = db1"
    by (auto simp: ingest_def Let_def split: sum.splits if_splits)
  with loop ingest_records_all_rejected [of clock 0 records 0 db db1] show ?thesis by simp
next
  case False
  with assms show ?thesis by (auto simp: ingest_def Let_def split: sum.splits bool.splits if_splits)
qed

end
