(* ===== verification/Lifecycle_Properties.thy ===== *)
theory Lifecycle_Properties
  imports Lifecycle
begin

text \<open>
  The properties of the evidence database over its whole life: admission and retention together.
\<close>

section \<open>A concrete database\<close>

lemma sample_db_value:
  "sample_db = \<lparr>
     accepted = [\<lparr>ar_identity = record_source sample_record, ar_digest = digest sample_record,
        ar_profile = ''2.0.0'', ar_family = VStr ''f@1'', ar_logical = VDict sample_event, ar_at = 0\<rparr>],
     effects = [\<lparr>pe_kind = ''factual_contribution'', pe_key = key_json [VStr ''intervention'', VStr ''e''],
        pe_payload = jsonb_of (VDict (effect_payload (hd sample_effects))),
        pe_source = record_source sample_record, pe_at = 0\<rparr>],
     members = [\<lparr>dm_delivery = ''d'', dm_identity = record_source sample_record\<rparr>],
     anchors = [], fences = [], markers = []\<rparr>"
proof -
  have ret: "retirement_check sample_record empty_db = None"
    by (simp add: retirement_check_def record_delivery_def sample_nul_free text_param_def
        has_nul_def ord_of_def is_fenced_def empty_db_def)
  have j: "jsonb_of (VDict sample_event) = VDict sample_event"
    by (simp add: sample_event_def sample_resource_def TASK_SCOPE_def SCOPE_def TASK_PROFILE_VERSION_def
        sample_event_attributes_def)
  have fam: "dget sample_event_attributes ''agentops.family.schema'' = VStr ''f@1''"
    by (simp add: sample_event_attributes_def)
  have nul: "nul_free (VDict (effect_payload (hd sample_effects)))"
    using sample_nul_free(2) by (simp add: sample_effects_def effect_def has_nul_def ord_of_def)
  show ?thesis
    using sample_record_digest ret sample_nul_free nul
    by (simp add: sample_db_def admit_def admit_with_def sample_valid admit_body_def sample_project
        claim_identity_def accepted_row_of_def to_jsonb_def j fam accepted_constraints_def
        record_source_def [of sample_record, unfolded sample_record_simps, simplified]
        empty_db_def claim_new_def record_delivery_def add_membership_def Let_def
        sample_effects_def effect_def apply_effect_def starts_with_code first_write_def
        row_with_Cons del: nul_free.simps jsonb_of.simps)
qed

lemma sample_db_reachable: "reachable sample_db"
proof -
  have "step empty_db (Admit 0 (VDict sample_event)) sample_db"
    using sample_admitted by (simp add: step_admit)
  then have "steps empty_db [Admit 0 (VDict sample_event)] sample_db" by (auto intro: steps.intros)
  then show ?thesis by (auto simp: reachable_def)
qed

text \<open>The sample record, with its Delivery closed by a summary and due for deletion.\<close>

definition closing_db :: db where
  "closing_db = sample_db\<lparr>anchors := [\<lparr>ta_delivery = ''d'', ta_identity = record_source sample_record, ta_at = 0\<rparr>]\<rparr>"

lemma closing_db_ok: "store_ok closing_db" "memberships_ok closing_db" "keys_canonical closing_db"
proof -
  have "reachable sample_db" by (rule sample_db_reachable)
  note ok = reachable_ok [OF this]
  from ok(1) show "store_ok closing_db" by (simp add: store_defs closing_db_def) (simp add: sample_db_value key_unique_def)
  from ok(2) show "memberships_ok closing_db"
    by (simp add: memberships_ok_def membership_row_ok_def closing_db_def delivery_members_def)
  from ok(3) show "keys_canonical closing_db" by (simp add: keys_canonical_def closing_db_def)
qed

definition deletion_sample :: deletion_batch where
  "deletion_sample = \<lparr>db_identity = sha256_hex ''b'', db_policy = ''2.0.0'', db_cutoff = 9,
     db_ttl_seconds = 0, db_delivery_ids = [''d'']\<rparr>"

definition closed_db :: db where
  "closed_db = snd (apply_delivery_deletion deletion_sample 9 closing_db)"

lemma deletion_sample_applied:
  "delete_deliveries deletion_sample 9 [''d''] (0, 0) closing_db = Inr ((1, 0), closed_db)"
  "apply_delivery_deletion deletion_sample 9 closing_db =
     (Inr \<lparr>cr_identity = sha256_hex ''b'', cr_selected = 1, cr_done = 1, cr_already = 0\<rparr>, closed_db)"
proof -
  have "\<forall>d \<in> set [''d'']. \<not> is_fenced d closing_db \<and>
      (\<exists>t \<in> set (anchors closing_db). ta_delivery t = d \<and> ta_at t \<le> db_cutoff deletion_sample)"
    by (simp add: closing_db_def deletion_sample_def is_fenced_def) (simp add: sample_db_value)
  moreover have "distinct [''d'']" by simp
  ultimately obtain db' where
    "delete_deliveries deletion_sample 9 [''d''] (0, 0) closing_db = Inr ((1, 0), db')"
    using delete_deliveries_progress [OF closing_db_ok(1), of "[''d'']" deletion_sample 9 0 0] by auto
  then show "delete_deliveries deletion_sample 9 [''d''] (0, 0) closing_db = Inr ((1, 0), closed_db)"
    "apply_delivery_deletion deletion_sample 9 closing_db =
       (Inr \<lparr>cr_identity = sha256_hex ''b'', cr_selected = 1, cr_done = 1, cr_already = 0\<rparr>, closed_db)"
    by (simp_all add: closed_db_def apply_delivery_deletion_def deletion_sample_def in_transaction_def
        make_count_result_def sha256_hex_wf)
qed

lemma closed_db_deletes: "deletes [''d''] closing_db closed_db"
  using delete_deliveries_ok [OF closing_db_ok(1) deletion_sample_applied(1)] by simp

lemma closed_db_fenced: "is_fenced ''d'' closed_db"
  using closed_db_deletes by (simp add: deletes_def)

lemma closed_db_ok: "evidence_ok closed_db"
  using closed_db_deletes delete_deliveries_memberships [OF closing_db_ok(1,2) deletion_sample_applied(1)]
  by (simp add: evidence_ok_def deletes_def)

lemma d_nul_free: "\<not> has_nul ''d''"
  by (simp add: has_nul_def ord_of_def)

section \<open>Admission and retention together\<close>

text \<open>
  C6: the database refines the ledger.  Every transaction of every run - an admission whatever
  its outcome, an expiry, a deletion - is a step of the ledger: nothing changes, or a valid
  record of an unknown identity and an open Delivery is registered under its digest and its
  Delivery, or the Deliveries of a batch are closed and exactly their records forgotten.
\<close>

theorem database_refines_ledger:
  assumes "steps empty_db as db" "step db a db'"
  shows "ledger_step (ledger_of db) a (ledger_of db')"
proof -
  from assms(1) have "reachable db" by (auto simp: reachable_def)
  from step_ledger [OF reachable_ok(4) [OF this] assms(2)] show ?thesis .
qed

theorem database_refines_ledger_witness:
  "ledger_step (ledger_of empty_db) (Admit 0 (VDict sample_event)) (ledger_of sample_db)"
  using database_refines_ledger [of "[]" empty_db "Admit 0 (VDict sample_event)" sample_db] sample_admitted
  by (simp add: step_admit)

text \<open>
  C7: every reachable database is well formed: primary keys are unique, every effect,
  membership and anchor refers to an accepted record, no retired Delivery has a member, a
  Task membership was written by a record of its Delivery, and the stored keys are canonical.
\<close>

theorem reachable_well_formed:
  assumes "steps empty_db as db"
  shows "keys_ok db \<and> references_ok db \<and> fences_ok db \<and> memberships_ok db \<and> keys_canonical db"
  using reachable_ok [of db] assms by (auto simp: reachable_def store_ok_def)

theorem reachable_well_formed_witness:
  "keys_ok sample_db \<and> references_ok sample_db \<and> fences_ok sample_db \<and> memberships_ok sample_db \<and>
   keys_canonical sample_db"
proof -
  have "steps empty_db [Admit 0 (VDict sample_event)] sample_db"
    using sample_admitted by (auto simp: steps_Cons step_admit)
  then show ?thesis by (rule reachable_well_formed)
qed

text \<open>
  C10: an accepted record is never replaced.  Over any run from a reachable database an identity
  keeps the digest under which it was accepted, through raw expiry and conflicting
  deliveries, unless the Delivery it belongs to is retired.
\<close>

theorem accepted_digest_permanent:
  assumes "reachable db" "steps db as db'" "accepted_digest db src = Some g"
  shows "accepted_digest db' src = Some g \<or> (\<exists>d. src \<in> delivery_members d db \<and> is_fenced d db')"
proof -
  note ok = reachable_ok [OF assms(1)]
  have "remembered src g (owner (ledger_of db) src) (ledger_of db)"
    using assms(3) by (simp add: remembered_def)
  from steps_remembered [OF assms(2) ok(4) this] show ?thesis
    by (auto simp: remembered_def owner_iff [OF ok(1)])
qed

theorem accepted_digest_permanent_witness:
  "accepted_digest sample_db (record_source sample_record) = Some (digest sample_record) \<or>
   (\<exists>d. record_source sample_record \<in> delivery_members d sample_db \<and> is_fenced d sample_db)"
proof -
  have "steps sample_db [Admit 9 VNone] sample_db"
    by (simp add: steps_Cons step_admit admit_def admit_with_def validate_record_def is_dict_def)
  from accepted_digest_permanent [OF sample_db_reachable this, of "record_source sample_record"]
  show ?thesis by (simp add: accepted_digest_def sample_db_value row_with_Cons)
qed

text \<open>
  C11: retirement is final.  Once a Delivery is fenced, it stays fenced and has no accepted
  record, no membership and no anchor in any later database.
\<close>

theorem retirement_final:
  assumes "evidence_ok db" "is_fenced d db" "steps db as db'"
  shows "is_fenced d db' \<and> delivery_members d db' = {} \<and> d \<notin> ta_delivery ` set (anchors db')"
proof -
  have "is_fenced d db'"
    using steps_retired [OF assms(3,1)] assms(2) by (simp add: retired_def)
  moreover have "store_ok db'"
    using steps_evidence_ok [OF assms(3,1)] by (simp add: evidence_ok_def)
  ultimately show ?thesis using fenced_no_members [of db' d] fenced_no_anchor [of db' d] by auto
qed

theorem retirement_final_witness:
  "is_fenced ''d'' closed_db \<and> delivery_members ''d'' closed_db = {} \<and>
   ''d'' \<notin> ta_delivery ` set (anchors closed_db)"
proof -
  have "steps closed_db [Admit 20 VNone] closed_db"
    by (simp add: steps_Cons step_admit admit_def admit_with_def validate_record_def is_dict_def)
  then show ?thesis by (rule retirement_final [OF closed_db_ok closed_db_fenced])
qed

lemma delivery_present:
  assumes "validate_record v = Inr rec" "profile_version rec = ''2.0.0''"
  shows "has_key (attributes rec) ''agentops.delivery.id''"
  using assms(1)
proof (cases rule: validated_cases)
  case (1 r)
  then have "dget r ''profile_version'' = VStr TASK_PROFILE_VERSION"
    using profile_version_cases(2) [of r rec] assms(2) by (simp add: is_span_record_def is_task_profile_def)
  moreover from 1 have "\<forall>c \<in> set (span_attribute_checks r (attributes rec)). c = None"
    by (simp add: is_span_record_def validate_span_None)
  ultimately show ?thesis by (rule task_span_accepted [rotated])
next
  case (2 r)
  then have "is_task_profile r"
    using profile_version_cases(2) [of r rec] assms(2) by (simp add: is_event_record_def)
  with event_closed_set [OF 2(2)] show ?thesis by blast
qed

text \<open>
  A retired Delivery admits nothing more.  A valid record of profile 2.0.0 whose Delivery
  is fenced is rejected with the reason, at any time, and the database does not change.
\<close>

theorem retired_delivery_rejected:
  assumes "validate_record v = Inr rec" "record_delivery rec = Some d" "is_fenced d db" "\<not> has_nul d"
  shows "admit now v db = (Inr (admission REJECTED [] (Some ''Delivery was physically retired'')), db)"
proof -
  have "profile_version rec = ''2.0.0''" using assms(2) by (simp add: record_delivery_def split: if_splits)
  from delivery_present [OF assms(1) this] have
    "retirement_check rec db = Some (Projection_Precondition_Failed ''Delivery was physically retired'')"
    using assms(2-4) by (simp add: retirement_check_def first_error_Cons text_param_def require_def)
  with assms(1) show ?thesis
    by (simp add: admit_def admit_with_def admit_body_def claim_identity_def caught_def)
qed

theorem retired_delivery_rejected_witness:
  "admit 20 (VDict sample_event) closed_db =
     (Inr (admission REJECTED [] (Some ''Delivery was physically retired'')), closed_db)"
proof -
  have "record_delivery sample_record = Some ''d''" by (simp add: record_delivery_def sample_nul_free)
  then show ?thesis by (rule retired_delivery_rejected [OF sample_valid _ closed_db_fenced d_nul_free])
qed

end
