(* ===== verification/Retention_Properties.thy ===== *)
theory Retention_Properties
  imports Lifecycle_Properties
begin

text \<open>
  The properties of retention: expiry of raw records, physical deletion of Deliveries and the
  run of the service over both.
\<close>

section \<open>Raw expiry, row by row\<close>

definition scrubbed :: "accepted_row \<Rightarrow> accepted_row" where
  "scrubbed ar = ar\<lparr>ar_logical := VDict []\<rparr>"

definition raw_key :: "accepted_row \<Rightarrow> string" where
  "raw_key ar = snd (ar_identity ar)"

text \<open>The rows before and after: unchanged, or scrubbed and the record of a listed key.\<close>

definition scrubs :: "string list \<Rightarrow> accepted_row list \<Rightarrow> accepted_row list \<Rightarrow> bool" where
  "scrubs ks = list_all2 (\<lambda>ar ar'. ar' = ar \<or> ar' = scrubbed ar \<and> raw_key ar \<in> set ks)"

lemma scrubs_refl [simp]: "scrubs ks rs rs"
  by (simp add: scrubs_def list.rel_refl)

lemma scrubs_trans:
  assumes "scrubs [k] rs rs1" "scrubs ks rs1 rs2"
  shows "scrubs (k # ks) rs rs2"
  using assms unfolding scrubs_def
proof (rule list_all2_trans [rotated])
  fix a b c
  assume "b = a \<or> b = scrubbed a \<and> raw_key a \<in> set [k]" "c = b \<or> c = scrubbed b \<and> raw_key b \<in> set ks"
  then show "c = a \<or> c = scrubbed a \<and> raw_key a \<in> set (k # ks)"
    by (auto simp: scrubbed_def raw_key_def)
qed

lemma scrubs_keep:
  assumes "scrubs ks rs rs'" "ar \<in> set rs" "ar_logical ar = VDict []"
  shows "\<exists>ar' \<in> set rs'. raw_key ar' = raw_key ar \<and> ar_logical ar' = VDict []"
proof -
  from assms(2) obtain i where i: "i < length rs" "rs ! i = ar" by (auto simp: in_set_conv_nth)
  with assms(1) have "rs' ! i = ar \<or> rs' ! i = scrubbed ar" "i < length rs'"
    by (auto simp: scrubs_def list_all2_conv_all_nth)
  with assms(3) show ?thesis by (intro bexI [of _ "rs' ! i"]) (auto simp: scrubbed_def raw_key_def)
qed

lemma raw_expire_member:
  assumes "eb_class b = RAW_DEBUG" "expire_member b now m db = Inr (was, db')"
  shows "scrubs [key_json (owner_key m)] (accepted db) (accepted db') \<and> effects db' = effects db \<and>
    (\<not> was \<longrightarrow> (\<exists>ar \<in> set (accepted db'). raw_key ar = key_json (owner_key m) \<and> ar_logical ar = VDict []))"
proof (cases "has_marker db ''RAW_DEBUG'' (resource_kind m) (key_json (owner_key m))")
  case True
  with assms show ?thesis by (simp add: expire_member_def)
next
  case False
  with assms obtain ar where
    ar: "row_with (\<lambda>ar. snd (ar_identity ar)) (key_json (owner_key m)) (accepted db) = Some ar"
    and db': "db' = clear_resource b m (ar_identity ar)
      (db\<lparr>markers := markers db @ [marker_of b now m (ar_identity ar, ar_at ar, []) (VList [])]\<rparr>)"
    by (auto simp: expire_member_def raw_record_def bind_result_Inr_iff to_jsonb_def split: option.splits)
  have acc: "accepted db' = map (\<lambda>r. if ar_identity r = ar_identity ar then scrubbed r else r) (accepted db)"
    using assms(1) by (simp add: db' clear_resource_def scrubbed_def)
  from row_with_SomeD [OF ar] have row: "ar \<in> set (accepted db)" "raw_key ar = key_json (owner_key m)"
    by (simp_all add: raw_key_def)
  have "scrubs [key_json (owner_key m)] (accepted db) (accepted db')"
    unfolding scrubs_def acc list_all2_map2
    by (rule list.rel_refl_strong) (use row(2) in \<open>auto simp: raw_key_def\<close>)
  moreover have "scrubbed ar \<in> set (accepted db')" using row(1) by (force simp: acc)
  then have "\<exists>x \<in> set (accepted db'). raw_key x = key_json (owner_key m) \<and> ar_logical x = VDict []"
    by (rule rev_bexI) (use row(2) in \<open>simp add: scrubbed_def raw_key_def\<close>)
  moreover have "effects db' = effects db" using assms(1) by (simp add: db' clear_resource_def)
  ultimately show ?thesis by blast
qed

lemma raw_expire_members:
  assumes "store_ok db" "eb_class b = RAW_DEBUG" "expire_members b now ms (e, a) db = Inr (c, db')"
  shows "scrubs (map (\<lambda>m. key_json (owner_key m)) ms) (accepted db) (accepted db') \<and>
    effects db' = effects db \<and>
    (\<forall>m \<in> set ms. \<not> has_marker db ''RAW_DEBUG'' (resource_kind m) (key_json (owner_key m)) \<longrightarrow>
       (\<exists>ar \<in> set (accepted db'). raw_key ar = key_json (owner_key m) \<and> ar_logical ar = VDict []))"
  using assms(1,3)
proof (induction ms arbitrary: e a db)
  case (Cons m ms)
  let ?key = "\<lambda>m. key_json (owner_key m)"
  from Cons.prems(2) obtain was db1 where one: "expire_member b now m db = Inr (was, db1)"
    and rest: "expire_members b now ms (if was then (e, a + 1) else (e + 1, a)) db1 = Inr (c, db')"
    by (auto simp: bind_result_Inr_iff)
  obtain e1 a1 where counts: "(if was then (e, a + 1) else (e + 1, a)) = (e1, a1)" by force
  note ok = expire_member_ok [OF Cons.prems(1) one]
  note first = raw_expire_member [OF assms(2) one]
  note later = Cons.IH [OF ok(1) rest [unfolded counts]]
  have "scrubs (map ?key (m # ms)) (accepted db) (accepted db')"
    using scrubs_trans [OF conjunct1 [OF first] conjunct1 [OF later]] by simp
  moreover have "\<exists>ar \<in> set (accepted db'). raw_key ar = ?key n \<and> ar_logical ar = VDict []"
    if n: "n \<in> set (m # ms)" "\<not> has_marker db ''RAW_DEBUG'' (resource_kind n) (?key n)" for n
  proof (cases "?key n = ?key m \<and> resource_kind n = resource_kind m")
    case True
    with ok(4) n(2) assms(2) have "\<not> was" by simp
    with first obtain ar where ar: "ar \<in> set (accepted db1)" "raw_key ar = ?key m" "ar_logical ar = VDict []"
      by blast
    from scrubs_keep [OF conjunct1 [OF later] ar(1,3)] ar(2) True show ?thesis by auto
  next
    case False
    with n(1) have "n \<in> set ms" by auto
    moreover have "\<not> has_marker db1 ''RAW_DEBUG'' (resource_kind n) (?key n)"
      using n(2) False assms(2) by (auto simp: expire_member_marks [OF one])
    ultimately show ?thesis using later by blast
  qed
  ultimately show ?case using first later by (intro conjI ballI impI) simp_all
qed simp

text \<open>
  The exact effect of a raw batch on the database.  \<open>raw_marker\<close> is the marker that a member
  leaves: it names the record of its key, as that was before, and the batch.
\<close>

definition raw_marker :: "expiry_batch \<Rightarrow> instant \<Rightarrow> db \<Rightarrow> marker_row \<Rightarrow> bool" where
  "raw_marker b now db em \<longleftrightarrow> em_class em = ''RAW_DEBUG'' \<and>
     (\<exists>ar \<in> set (accepted db). raw_key ar = em_key em \<and> em_source em = ar_identity ar \<and>
        em_recorded_at em = ar_at ar \<and> em_expires_at em = ar_at ar + seconds (eb_ttl_seconds b)) \<and>
     em_compatibility em = VList [] \<and> em_policy em = eb_policy b \<and> em_expired_at em = now \<and>
     em_batch em = eb_identity b"

definition scrub_row :: "source set \<Rightarrow> accepted_row \<Rightarrow> accepted_row" where
  "scrub_row srcs ar = (if ar_identity ar \<in> srcs then scrubbed ar else ar)"

lemma scrub_row_simps [simp]:
  "ar_identity (scrub_row S ar) = ar_identity ar" "ar_at (scrub_row S ar) = ar_at ar"
  "scrub_row S (scrub_row R ar) = scrub_row (R \<union> S) ar" "scrub_row {} ar = ar"
  by (auto simp: scrub_row_def scrubbed_def)

abbreviation scrub_sources :: "source set \<Rightarrow> accepted_row list \<Rightarrow> accepted_row list" where
  "scrub_sources srcs \<equiv> map (scrub_row srcs)"

lemma raw_marker_scrubbed:
  "raw_marker b now (db\<lparr>accepted := scrub_sources S (accepted db), markers := ms\<rparr>) em \<longleftrightarrow> raw_marker b now db em"
  by (simp add: raw_marker_def raw_key_def)

lemma raw_member_exact:
  assumes "eb_class b = RAW_DEBUG" "expire_member b now m db = Inr (was, db')"
  obtains "was" "has_marker db ''RAW_DEBUG'' (resource_kind m) (key_json (owner_key m))" "db' = db"
  | em where "\<not> was" "\<not> has_marker db ''RAW_DEBUG'' (resource_kind m) (key_json (owner_key m))"
      "em_id em = (''RAW_DEBUG'', resource_kind m, key_json (owner_key m))" "raw_marker b now db em"
      "db' = db\<lparr>accepted := scrub_sources {em_source em} (accepted db), markers := markers db @ [em]\<rparr>"
proof (cases "has_marker db ''RAW_DEBUG'' (resource_kind m) (key_json (owner_key m))")
  case True
  with assms have "was" "db' = db" by (simp_all add: expire_member_def)
  then show thesis using that(1) True by blast
next
  case False
  with assms obtain ar where
    ar: "row_with (\<lambda>ar. snd (ar_identity ar)) (key_json (owner_key m)) (accepted db) = Some ar" and was: "\<not> was"
    and db': "db' = clear_resource b m (ar_identity ar)
      (db\<lparr>markers := markers db @ [marker_of b now m (ar_identity ar, ar_at ar, []) (VList [])]\<rparr>)"
    by (auto simp: expire_member_def raw_record_def bind_result_Inr_iff to_jsonb_def split: option.splits)
  let ?em = "marker_of b now m (ar_identity ar, ar_at ar, []) (VList [])"
  from row_with_SomeD [OF ar] assms(1) have "raw_marker b now db ?em"
    by (auto simp: raw_marker_def marker_of_def raw_key_def)
  moreover have "em_id ?em = (''RAW_DEBUG'', resource_kind m, key_json (owner_key m))"
    using assms(1) by (simp add: em_id_def marker_of_def)
  moreover have "db' = db\<lparr>accepted := scrub_sources {em_source ?em} (accepted db), markers := markers db @ [?em]\<rparr>"
    using assms(1) by (simp add: db' clear_resource_def scrub_row_def scrubbed_def marker_of_def)
  ultimately show thesis using that(2) was False by blast
qed

definition raw_ids :: "expiry_owner list \<Rightarrow> (string \<times> string \<times> string) set" where
  "raw_ids ms = (\<lambda>m. (''RAW_DEBUG'', resource_kind m, key_json (owner_key m))) ` set ms"

lemma raw_expire_exact:
  assumes "eb_class b = RAW_DEBUG" "expire_members b now ms (e, a) db = Inr ((e', a'), db')"
  shows "\<exists>new. db' = db\<lparr>accepted := scrub_sources (em_source ` set new) (accepted db), markers := markers db @ new\<rparr> \<and>
    e' = e + int (length new) \<and> em_id ` set new = raw_ids ms - em_id ` set (markers db) \<and>
    distinct (map em_id new) \<and> (\<forall>em \<in> set new. raw_marker b now db em)"
  using assms(2)
proof (induction ms arbitrary: e a db)
  case Nil
  then show ?case by (intro exI [of _ "[]"]) (simp add: raw_ids_def)
next
  case (Cons m ms)
  from Cons.prems obtain was db1 where one: "expire_member b now m db = Inr (was, db1)"
    and rest: "expire_members b now ms (if was then (e, a + 1) else (e + 1, a)) db1 = Inr ((e', a'), db')"
    by (auto simp: bind_result_Inr_iff)
  from assms(1) one show ?case
  proof (cases rule: raw_member_exact)
    case 1
    with rest Cons.IH [of e "a + 1" db] have "\<exists>new. db' = db\<lparr>accepted := scrub_sources (em_source ` set new) (accepted db),
        markers := markers db @ new\<rparr> \<and> e' = e + int (length new) \<and>
      em_id ` set new = raw_ids ms - em_id ` set (markers db) \<and> distinct (map em_id new) \<and>
      (\<forall>em \<in> set new. raw_marker b now db em)" by simp
    moreover have "raw_ids (m # ms) - em_id ` set (markers db) = raw_ids ms - em_id ` set (markers db)"
      using 1(2) by (auto simp: raw_ids_def has_marker_iff)
    ultimately show ?thesis by simp
  next
    case (2 em)
    from rest 2(1) Cons.IH [of "e + 1" a db1] obtain new where
      db': "db' = db1\<lparr>accepted := scrub_sources (em_source ` set new) (accepted db1), markers := markers db1 @ new\<rparr>"
      and e': "e' = e + 1 + int (length new)" and ids: "em_id ` set new = raw_ids ms - em_id ` set (markers db1)"
      and new: "distinct (map em_id new)" "\<forall>em \<in> set new. raw_marker b now db1 em" by auto
    have "db' = db\<lparr>accepted := scrub_sources (em_source ` set (em # new)) (accepted db), markers := markers db @ em # new\<rparr>"
      by (simp add: db' 2(5) o_def)
    moreover have "em_id ` set (em # new) = raw_ids (m # ms) - em_id ` set (markers db)"
      using 2(2,3) ids by (auto simp: 2(5) raw_ids_def has_marker_iff)
    moreover have "distinct (map em_id (em # new))" using new(1) ids by (auto simp: 2(5))
    moreover have "\<forall>x \<in> set (em # new). raw_marker b now db x"
      using new(2) 2(4) by (simp add: 2(5) raw_marker_scrubbed)
    ultimately show ?thesis using e' by (intro exI [of _ "em # new"]) simp
  qed
qed

section \<open>A concrete batch\<close>

definition sample_owner :: expiry_owner where
  "sample_owner = \<lparr>resource_kind = ''RAW_DEBUG'', owner_key = [VStr ''event'', VStr ''e'']\<rparr>"

definition sample_batch :: expiry_batch where
  "sample_batch = \<lparr>eb_identity = sha256_hex (canonical_batch_bytes RAW_DEBUG ''2.0.0'' (iso_utc 5) 0 [sample_owner]),
     eb_class = RAW_DEBUG, eb_policy = ''2.0.0'', eb_cutoff = 5, eb_ttl_seconds = 0, eb_members = [sample_owner]\<rparr>"

definition scrubbed_db :: db where
  "scrubbed_db = snd (apply_expiry sample_batch 9 sample_db)"

lemma sample_source: "record_source sample_record = (''event'', key_json [VStr ''event'', VStr ''e''])"
  by (simp add: record_source_def)

lemma sample_plan: "plan_expiry RAW_DEBUG ''2.0.0'' 5 0 10 sample_db = Inr sample_batch"
proof -
  have due: "raw_due sample_db 5 = accepted sample_db"
    by (simp add: raw_due_def sample_db_value has_marker_def)
  have key: "list_all key_scalar [VStr ''event'', VStr ''e'']" by simp
  have owner: "owner_of_row (''RAW_DEBUG'', key_json [VStr ''event'', VStr ''e'']) = Inr sample_owner"
    by (simp add: owner_of_row_def json_loads_key_json [OF dict_hook_keeps key] make_owner_def
        validate_owner_key_def owner_value_checks_def sample_owner_def ord_of_def first_error_Cons)
  have shape: "raw_key_shape [VStr ''event'', VStr ''e'']"
    by (simp add: raw_key_shape_def shape_def nonempty_str_def str_such_def)
  show ?thesis
    unfolding plan_expiry_def due_rows_def due
    by (simp add: sample_db_value sample_source owner create_expiry_batch_def validate_expiry_owner_def
        sample_owner_def kinds_of_def owner_key_valid_def shape sample_batch_def Let_def)
qed

lemma sample_expiry:
  "apply_expiry sample_batch 9 sample_db =
     (Inr \<lparr>cr_identity = eb_identity sample_batch, cr_selected = 1, cr_done = 1, cr_already = 0\<rparr>, scrubbed_db)"
proof -
  from planned_raw_applies [OF reachable_ok(3) [OF sample_db_reachable] sample_plan, of 9] obtain db' where
    "expire_members sample_batch 9 (eb_members sample_batch) (0, 0) sample_db =
       Inr ((int (length (eb_members sample_batch)), 0), db')" by blast
  then have "expire_members sample_batch 9 (eb_members sample_batch) (0, 0) sample_db = Inr ((1, 0), db')"
    by (simp add: sample_batch_def)
  then show ?thesis
    by (simp add: scrubbed_db_def apply_expiry_def in_transaction_def make_count_result_def sha256_hex_wf)
      (simp add: sample_batch_def sha256_hex_wf)
qed

section \<open>Properties of retention\<close>

text \<open>
  C12: what raw expiry changes.  When a raw batch is applied, exactly two tables change.  One
  marker is appended for every member that had none, with the identity, recording instant and
  expiry of the record it names, the policy and the identity of the batch and the instant of the
  run, and no marker of before is touched.  The records that the new markers name have their
  logical record emptied, and nothing else in the accepted records changes.  The counts say how
  many markers are new and partition the members.  All other tables and all digests stay.
\<close>

theorem raw_expiry_scrubs:
  assumes "store_ok db" "eb_class b = RAW_DEBUG" "apply_expiry b now db = (Inr r, db')"
  shows "cr_selected r = int (length (eb_members b)) \<and> cr_done r + cr_already r = cr_selected r \<and>
    (\<exists>new. db' = db\<lparr>accepted := map (\<lambda>ar. if ar_identity ar \<in> em_source ` set new
            then ar\<lparr>ar_logical := VDict []\<rparr> else ar) (accepted db), markers := markers db @ new\<rparr> \<and>
       cr_done r = int (length new) \<and> distinct (map em_id (markers db @ new)) \<and>
       em_id ` set new = {(''RAW_DEBUG'', resource_kind m, key_json (owner_key m)) | m.
          m \<in> set (eb_members b) \<and> \<not> has_marker db ''RAW_DEBUG'' (resource_kind m) (key_json (owner_key m))} \<and>
       (\<forall>em \<in> set new. \<exists>ar \<in> set (accepted db). raw_key ar = em_key em \<and> em_source em = ar_identity ar \<and>
          em_recorded_at em = ar_at ar \<and> em_expires_at em = ar_at ar + seconds (eb_ttl_seconds b) \<and>
          em_compatibility em = VList [] \<and> em_policy em = eb_policy b \<and> em_expired_at em = now \<and>
          em_batch em = eb_identity b)) \<and>
    accepted_digest db' = accepted_digest db"
proof -
  from assms(2,3) obtain x y where
    ms: "expire_members b now (eb_members b) (0, 0) db = Inr ((x, y), db')"
    and r: "make_count_result (eb_identity b) (int (length (eb_members b))) x y = Inr r"
    by (rule_tac apply_expiry_cases) auto
  from expire_members_ok [OF assms(1) ms] have ok: "store_ok db'" "skeleton db' = skeleton db" by blast+
  from raw_expire_exact [OF assms(2) ms] obtain new where
    db': "db' = db\<lparr>accepted := scrub_sources (em_source ` set new) (accepted db), markers := markers db @ new\<rparr>"
    and new: "x = int (length new)" "em_id ` set new = raw_ids (eb_members b) - em_id ` set (markers db)"
      "\<forall>em \<in> set new. raw_marker b now db em" by auto
  have "em_id ` set new = {(''RAW_DEBUG'', resource_kind m, key_json (owner_key m)) | m.
      m \<in> set (eb_members b) \<and> \<not> has_marker db ''RAW_DEBUG'' (resource_kind m) (key_json (owner_key m))}"
    unfolding new(2) by (auto simp: raw_ids_def has_marker_iff)
  moreover have "distinct (map em_id (markers db @ new))" using ok(1) by (simp add: db' store_ok_map)
  moreover have "scrub_sources (em_source ` set new) (accepted db) = map (\<lambda>ar. if ar_identity ar \<in> em_source ` set new
      then ar\<lparr>ar_logical := VDict []\<rparr> else ar) (accepted db)" by (simp add: scrub_row_def scrubbed_def)
  ultimately show ?thesis
    using db' new(1,3) skeleton_digests [OF ok(2)] r
    by (intro conjI exI [of _ new]) (auto simp: make_count_result_Inr raw_marker_def)
qed

theorem raw_expiry_scrubs_witness:
  "\<exists>em. markers scrubbed_db = [em] \<and> em_id em = (''RAW_DEBUG'', ''RAW_DEBUG'', key_json [VStr ''event'', VStr ''e'']) \<and>
     em_expired_at em = 9 \<and> (\<forall>ar \<in> set (accepted scrubbed_db). ar_logical ar = VDict [])"
proof -
  have "eb_class sample_batch = RAW_DEBUG" by (simp add: sample_batch_def)
  from raw_expiry_scrubs [OF sample_db_ok this sample_expiry] obtain new where
    db: "scrubbed_db = sample_db\<lparr>accepted := map (\<lambda>ar. if ar_identity ar \<in> em_source ` set new
        then ar\<lparr>ar_logical := VDict []\<rparr> else ar) (accepted sample_db), markers := markers sample_db @ new\<rparr>"
    and new: "int (length new) = 1" "em_id ` set new = {(''RAW_DEBUG'', ''RAW_DEBUG'', key_json [VStr ''event'', VStr ''e''])}"
      "\<forall>em \<in> set new. \<exists>ar \<in> set (accepted sample_db). em_source em = ar_identity ar \<and> em_expired_at em = 9"
    by (auto simp: sample_batch_def sample_owner_def has_marker_def sample_db_value)
  from new(1) obtain em where "new = [em]" by (cases new) auto
  have "markers scrubbed_db = [em]" unfolding db using \<open>new = [em]\<close> by (simp add: sample_db_value)
  moreover have em: "em_expired_at em = 9" "em_source em = record_source sample_record"
    using new(3) \<open>new = [em]\<close> by (simp_all add: sample_db_value)
  moreover have "\<forall>ar \<in> set (accepted scrubbed_db). ar_logical ar = VDict []"
    unfolding db using em(2) \<open>new = [em]\<close> by (simp add: sample_db_value)
  ultimately show ?thesis using new(2) \<open>new = [em]\<close> by (intro exI [of _ em]) simp
qed

text \<open>
  Expiry is idempotent.  After a batch was applied, applying it again at any later time
  reports every member as already expired and leaves the database as it is.
\<close>

theorem expiry_idempotent:
  assumes "store_ok db" "apply_expiry b now db = (Inr r, db')"
  shows "apply_expiry b later db' = (Inr (r\<lparr>cr_done := 0, cr_already := cr_selected r\<rparr>), db')"
proof -
  from assms(2) have cls: "eb_class b \<noteq> ACCEPTED_PROVENANCE" by (auto simp: apply_expiry_def)
  from assms(2) obtain x y where
    ms: "expire_members b now (eb_members b) (0, 0) db = Inr ((x, y), db')"
    and r: "make_count_result (eb_identity b) (int (length (eb_members b))) x y = Inr r"
    by (rule_tac apply_expiry_cases) auto
  from expire_members_ok [OF assms(1) ms] have "\<forall>m \<in> set (eb_members b).
      has_marker db' (class_value (eb_class b)) (resource_kind m) (key_json (owner_key m))" by blast
  from expire_members_again [OF this] cls r show ?thesis
    by (auto simp: apply_expiry_def in_transaction_def make_count_result_def)
qed

theorem expiry_idempotent_witness:
  "apply_expiry sample_batch 20 scrubbed_db =
     (Inr \<lparr>cr_identity = eb_identity sample_batch, cr_selected = 1, cr_done = 0, cr_already = 1\<rparr>, scrubbed_db)"
  using expiry_idempotent [OF sample_db_ok sample_expiry] by simp

text \<open>
  A planned raw expiry applies in full.  On a database with canonical keys, a batch that
  was planned and is applied at once expires each of its members: none is found expired, none
  has disappeared, and the application does not fail.
\<close>

theorem planned_raw_expiry_applies:
  assumes "keys_canonical db" "plan_expiry RAW_DEBUG policy cutoff ttl limit db = Inr b"
  shows "fst (apply_expiry b now db) = Inr \<lparr>cr_identity = eb_identity b,
     cr_selected = int (length (eb_members b)), cr_done = int (length (eb_members b)), cr_already = 0\<rparr>"
proof -
  from assms(2) obtain owners where
    b: "create_expiry_batch RAW_DEBUG policy cutoff ttl owners = Inr b" by (rule plan_expiry_Inr)
  from planned_raw_applies [OF assms, of now] batch_members_valid(6,7) [OF b] show ?thesis
    by (auto simp: apply_expiry_def in_transaction_def make_count_result_def)
qed

theorem planned_raw_expiry_applies_witness:
  "fst (apply_expiry sample_batch 7 sample_db) =
     Inr \<lparr>cr_identity = eb_identity sample_batch, cr_selected = 1, cr_done = 1, cr_already = 0\<rparr>"
  using planned_raw_expiry_applies [OF reachable_ok(3) [OF sample_db_reachable] sample_plan, of 7]
  by (simp add: sample_batch_def)

text \<open>
  A planned deletion applies in full.  On a well-formed database every Delivery of a
  planned batch is deleted when the batch is applied at once: a terminal anchor older than the
  cutoff is still there, no foreign key stops a deletion, and none counts as deleted before.
\<close>

theorem planned_deletion_applies:
  assumes "store_ok db" "plan_delivery_deletion policy cutoff ttl limit db = Inr b"
  shows "\<exists>db'. apply_delivery_deletion b now db = (Inr \<lparr>cr_identity = db_identity b,
     cr_selected = int (length (db_delivery_ids b)), cr_done = int (length (db_delivery_ids b)),
     cr_already = 0\<rparr>, db') \<and> deletes (db_delivery_ids b) db db'"
proof -
  note plan = plan_deletion_Inr [OF assms(2,1)]
  from delete_deliveries_progress [OF assms(1) plan(1,4), of now 0 0] obtain db' where
    run: "delete_deliveries b now (db_delivery_ids b) (0, 0) db = Inr ((int (length (db_delivery_ids b)), 0), db')"
    by auto
  from delete_deliveries_ok [OF assms(1) run] run plan(3) show ?thesis
    by (simp add: apply_delivery_deletion_def in_transaction_def make_count_result_def)
qed

lemma closing_plan:
  "\<exists>b. plan_delivery_deletion ''2.0.0'' 5 0 10 closing_db = Inr b \<and> db_delivery_ids b = [''d'']"
  by (simp add: plan_delivery_deletion_def closing_db_def is_fenced_def)
    (simp add: sample_db_value create_deletion_batch_def Let_def)

theorem planned_deletion_applies_witness:
  "\<exists>b db'. db_delivery_ids b = [''d''] \<and> apply_delivery_deletion b 7 closing_db =
     (Inr \<lparr>cr_identity = db_identity b, cr_selected = 1, cr_done = 1, cr_already = 0\<rparr>, db') \<and>
     deletes [''d''] closing_db db'"
proof -
  from closing_plan obtain b where b: "plan_delivery_deletion ''2.0.0'' 5 0 10 closing_db = Inr b"
    "db_delivery_ids b = [''d'']" by blast
  from planned_deletion_applies [OF closing_db_ok(1) b(1), of 7] b(2) show ?thesis by auto
qed








text \<open>
  Deletion is idempotent.  Applying a deletion batch again reports every Delivery as
  deleted before and changes nothing.
\<close>

theorem deletion_idempotent:
  assumes "store_ok db" "apply_delivery_deletion b now db = (Inr r, db')"
  shows "apply_delivery_deletion b later db' = (Inr (r\<lparr>cr_done := 0, cr_already := cr_selected r\<rparr>), db')"
proof -
  from assms(2) obtain x y where run: "delete_deliveries b now (db_delivery_ids b) (0, 0) db = Inr ((x, y), db')"
    and r: "make_count_result (db_identity b) (int (length (db_delivery_ids b))) x y = Inr r"
    by (rule_tac apply_deletion_cases) auto
  from delete_deliveries_ok [OF assms(1) run] have "\<forall>d \<in> set (db_delivery_ids b). is_fenced d db'"
    by (simp add: deletes_def)
  from delete_deliveries_again [OF this] r show ?thesis
    by (auto simp: apply_delivery_deletion_def in_transaction_def make_count_result_def)
qed

theorem deletion_idempotent_witness:
  "apply_delivery_deletion deletion_sample 20 closed_db =
     (Inr \<lparr>cr_identity = sha256_hex ''b'', cr_selected = 1, cr_done = 0, cr_already = 1\<rparr>, closed_db)"
  using deletion_idempotent [OF closing_db_ok(1) deletion_sample_applied(2)] by simp

section \<open>Shared Tasks\<close>

text \<open>Two Deliveries \<open>d\<close> and \<open>x\<close> of the Task \<open>t\<close>, declared by a record of \<open>d\<close>.\<close>

definition keyed_row :: "string \<Rightarrow> accepted_row" where
  "keyed_row s = \<lparr>ar_identity = (''event'', s), ar_digest = sha256_hex s, ar_profile = ''2.0.0'',
     ar_family = VNone, ar_logical = VDict [], ar_at = 0\<rparr>"

definition fact_of :: "string \<Rightarrow> pyval list \<Rightarrow> pydict \<Rightarrow> string \<Rightarrow> effect_row" where
  "fact_of kind key payload s = \<lparr>pe_kind = kind, pe_key = key_json key, pe_payload = VDict payload,
     pe_source = (''event'', s), pe_at = 0\<rparr>"

definition shared_db :: db where
  "shared_db = \<lparr>accepted = [keyed_row ''1'', keyed_row ''2''],
     effects = [fact_of ''task_declaration'' [VStr ''t''] [] ''1'',
       fact_of ''delivery_task_membership'' [VStr ''t'', VStr ''d''] [] ''1'',
       fact_of ''delivery_task_guard'' [VStr ''d''] [(''task_id'', VStr ''t'')] ''1'',
       fact_of ''delivery_task_membership'' [VStr ''t'', VStr ''x''] [] ''2''],
     members = [\<lparr>dm_delivery = ''d'', dm_identity = (''event'', ''1'')\<rparr>,
       \<lparr>dm_delivery = ''x'', dm_identity = (''event'', ''2'')\<rparr>],
     anchors = [\<lparr>ta_delivery = ''d'', ta_identity = (''event'', ''1''), ta_at = 0\<rparr>],
     fences = [], markers = []\<rparr>"

lemma shared_db_ok: "store_ok shared_db" "memberships_ok shared_db"
proof -
  have "key_json [VStr ''t'', VStr ''d''] \<noteq> key_json [VStr ''t'', VStr ''x'']"
    by (subst key_json_inject) simp_all
  then show "store_ok shared_db"
    by (simp add: store_defs shared_db_def keyed_row_def fact_of_def pe_id_def key_unique_def)
  have mem: "delivery_members ''d'' shared_db = {(''event'', ''1'')}"
    "delivery_members ''x'' shared_db = {(''event'', ''2'')}"
    by (auto simp: delivery_members_def shared_db_def image_iff)
  have row: "membership_row_ok shared_db (fact_of ''delivery_task_membership'' [VStr t, VStr d] p s)"
    if "(''event'', s) \<in> delivery_members d shared_db" for t d p s
    unfolding membership_row_ok_def
    by (intro impI exI [of _ t] exI [of _ d]) (use that in \<open>simp add: fact_of_def\<close>)
  moreover have "membership_row_ok shared_db (fact_of k key p s)" if "k \<noteq> ''delivery_task_membership''" for k key p s
    using that by (simp add: membership_row_ok_def fact_of_def)
  ultimately show "memberships_ok shared_db"
    unfolding memberships_ok_def by (subst shared_db_def) (simp add: row mem)
qed

text \<open>
  C17: deleting a Delivery never loses a Task that another Delivery still refers to.  When the
  deleted Delivery is bound to a Task and another Delivery has a membership of that Task, the
  declaration and the display name of the Task are still there afterwards, with the same
  payload, handed over to a record that was not deleted.
\<close>

theorem shared_task_survives:
  assumes "store_ok db" "memberships_ok db" "delete_delivery b now d db = Inr (was, db')"
    and "row_with pe_id (''delivery_task_guard'', key_json [VStr d]) (effects db) = Some g"
    and "dget (the_dict (pe_payload g)) ''task_id'' = VStr t"
    and "mb \<in> set (effects db)" "pe_id mb = (''delivery_task_membership'', key_json [VStr t, VStr d'])" "d' \<noteq> d"
    and "dec \<in> set (effects db)" "pe_id dec = (k, key_json [VStr t])"
    and "k = ''task_declaration'' \<or> k = ''task_display_name''"
  shows "\<exists>r \<in> set (effects db'). pe_id r = pe_id dec \<and> pe_payload r = pe_payload dec \<and>
    pe_source r \<in> ar_identity ` set (accepted db')"
proof -
  from shared_task_kept [OF assms] obtain r where
    r: "r \<in> set (effects db')" "pe_id r = pe_id dec" "pe_payload r = pe_payload dec" by blast
  from delete_delivery_ok(1) [OF assms(1,3)] r(1) have "pe_source r \<in> ar_identity ` set (accepted db')"
    by (auto simp: store_defs)
  with r show ?thesis by blast
qed

theorem shared_task_survives_witness:
  "\<exists>db'. delete_delivery deletion_sample 9 ''d'' shared_db = Inr (False, db') \<and>
     (\<exists>r \<in> set (effects db'). pe_id r = (''task_declaration'', key_json [VStr ''t'']))"
proof -
  have "\<not> is_fenced ''d'' shared_db" by (simp add: is_fenced_def shared_db_def)
  from delete_delivery_Inr [OF shared_db_ok(1) this, of "hd (anchors shared_db)" deletion_sample 9] obtain db' where
    del: "delete_delivery deletion_sample 9 ''d'' shared_db = Inr (False, db')"
    by (auto simp: shared_db_def deletion_sample_def)
  have "\<exists>r \<in> set (effects db'). pe_id r = pe_id (fact_of ''task_declaration'' [VStr ''t''] [] ''1'') \<and>
      pe_payload r = pe_payload (fact_of ''task_declaration'' [VStr ''t''] [] ''1'') \<and>
      pe_source r \<in> ar_identity ` set (accepted db')"
    by (rule shared_task_survives [OF shared_db_ok del,
        of "fact_of ''delivery_task_guard'' [VStr ''d''] [(''task_id'', VStr ''t'')] ''1''" "''t''"
          "fact_of ''delivery_task_membership'' [VStr ''t'', VStr ''x''] [] ''2''" "''x''" _ "''task_declaration''"])
      (simp_all add: shared_db_def row_with_Cons pe_id_def fact_of_def)
  with del show ?thesis by (auto simp: pe_id_def fact_of_def)
qed

section \<open>The service\<close>

text \<open>
  A run of the retention service is safe.  Whatever the policy and the instant, a run keeps
  the database well formed and every retired Delivery retired, also when it fails half-way;
  each result it reports splits the selected resources into those handled now and before.
\<close>

theorem retention_run_safe:
  assumes "evidence_ok db" "run_once policy now db = (r, db')"
  shows "evidence_ok db' \<and> (\<forall>d. is_fenced d db \<longrightarrow> is_fenced d db') \<and>
    (\<forall>rs. r = Inr rs \<longrightarrow> (\<forall>x \<in> set rs. cr_done x + cr_already x = cr_selected x))"
  using pg_retention.run_once_inv [OF assms(1) assms(2) [unfolded run_once_def]] by (simp add: retired_def)

theorem retention_run_safe_witness:
  "evidence_ok (snd (run_once default_policy 0 closed_db)) \<and>
   is_fenced ''d'' (snd (run_once default_policy 0 closed_db))"
  using retention_run_safe [OF closed_db_ok prod.collapse [symmetric]] closed_db_fenced by blast

text \<open>
  So is the loop.  However often and whenever the scheduler runs the service, the database
  stays well formed and retired Deliveries stay retired.
\<close>

theorem retention_loop_safe:
  assumes "evidence_ok db"
  shows "evidence_ok (retention_loop pg_port policy instants db) \<and>
    (\<forall>d. is_fenced d db \<longrightarrow> is_fenced d (retention_loop pg_port policy instants db))"
  using pg_retention.loop_inv [OF assms] by (simp add: retired_def)

theorem retention_loop_safe_witness:
  "is_fenced ''d'' (retention_loop pg_port default_policy [0, 60000000] closed_db)"
  using retention_loop_safe [OF closed_db_ok] closed_db_fenced by blast

text \<open>
  C18: the name of a batch determines the batch.  The bytes that are hashed into the identity
  of an expiry batch are an injective encoding: two batches of valid members with the same
  bytes have the same class, policy, cutoff text, lifetime and members.
\<close>

theorem batch_bytes_injective:
  assumes "canonical_batch_bytes c p t n ms = canonical_batch_bytes c' p' t' n' ms'"
    and "\<forall>m \<in> set ms. validate_expiry_owner c m = None" "\<forall>m \<in> set ms'. validate_expiry_owner c' m = None"
  shows "c = c' \<and> p = p' \<and> t = t' \<and> n = n' \<and> ms = ms'"
proof -
  have exact: "list_all (\<lambda>m. list_all exact_scalar (owner_key m)) xs"
    if "\<forall>m \<in> set xs. validate_expiry_owner k m = None" for k xs
    using that valid_key_exact by (fastforce simp: validate_expiry_owner_def list_all_iff)
  from assms(1) have "encode_str (class_value c) @ encode_str p @ encode_str t @ encode_scalar (VInt n) @
      array_header (length ms) @ concat (map canonical_member ms) =
    encode_str (class_value c') @ encode_str p' @ encode_str t' @ encode_scalar (VInt n') @
      array_header (length ms') @ concat (map canonical_member ms')"
    by (simp add: canonical_batch_bytes_def)
  from encode_str_append_eq [OF this] have cls: "class_value c = class_value c'"
    and 1: "encode_str p @ encode_str t @ encode_scalar (VInt n) @ array_header (length ms) @ concat (map canonical_member ms) =
      encode_str p' @ encode_str t' @ encode_scalar (VInt n') @ array_header (length ms') @ concat (map canonical_member ms')"
    by simp_all
  from encode_str_append_eq [OF 1] have p: "p = p'"
    and 2: "encode_str t @ encode_scalar (VInt n) @ array_header (length ms) @ concat (map canonical_member ms) =
      encode_str t' @ encode_scalar (VInt n') @ array_header (length ms') @ concat (map canonical_member ms')"
    by simp_all
  from encode_str_append_eq [OF 2] have t: "t = t'"
    and 3: "encode_scalar (VInt n) @ array_header (length ms) @ concat (map canonical_member ms) =
      encode_scalar (VInt n') @ array_header (length ms') @ concat (map canonical_member ms')"
    by simp_all
  have "exact_scalar (VInt n)" "exact_scalar (VInt n')" by (simp_all add: exact_scalar_def)
  from encode_scalar_append_eq [OF this 3] have n: "n = n'"
    and 4: "array_header (length ms) @ concat (map canonical_member ms) =
      array_header (length ms') @ concat (map canonical_member ms')" by simp_all
  from array_header_append_eq [OF 4] canonical_members_append_eq [OF _ exact [OF assms(2)] exact [OF assms(3)]]
  have "ms = ms'" by blast
  moreover have "c = c'" using cls by (cases c; cases c') simp_all
  ultimately show ?thesis using p t n by simp
qed

theorem batch_bytes_injective_witness:
  "canonical_batch_bytes RAW_DEBUG ''2.0.0'' ''a'' 0 [sample_owner] \<noteq>
   canonical_batch_bytes RAW_DEBUG ''2.0.0'' ''a'' 1 [sample_owner]"
proof
  have "validate_expiry_owner RAW_DEBUG sample_owner = None"
    by (simp add: validate_expiry_owner_def sample_owner_def kinds_of_def owner_key_valid_def
        raw_key_shape_def shape_def nonempty_str_def)
  moreover assume "canonical_batch_bytes RAW_DEBUG ''2.0.0'' ''a'' 0 [sample_owner] =
   canonical_batch_bytes RAW_DEBUG ''2.0.0'' ''a'' 1 [sample_owner]"
  ultimately have "(0::int) = 1"
    using batch_bytes_injective [of RAW_DEBUG "''2.0.0''" "''a''" 0 "[sample_owner]" RAW_DEBUG "''2.0.0''" "''a''" 1
        "[sample_owner]"] by simp
  then show False by simp
qed

section \<open>Identities retention cannot name\<close>

text \<open>
  An event identity may have 128 characters, up to 512 bytes of UTF-8, but an owner key holds
  strings of at most 256 bytes.
\<close>

lemma map_results_error: "x \<in> set xs \<Longrightarrow> f x = Inl e \<Longrightarrow> \<exists>e'. map_results f xs = Inl e'"
proof (induction xs)
  case (Cons y ys)
  then show ?case by (cases "f y"; cases "map_results f ys") auto
qed simp

lemma oversized_owner:
  assumes "256 < length s"
  shows "\<exists>e. owner_of_row (''RAW_DEBUG'', key_json [VStr ''event'', VStr s]) = Inl e"
proof -
  have "list_all key_scalar [VStr ''event'', VStr s]" by simp
  moreover have "validate_owner_key [VStr ''event'', VStr s] \<noteq> None"
    using assms by (simp add: validate_owner_key_def owner_value_checks_def)
  ultimately show ?thesis
    by (auto simp: owner_of_row_def json_loads_key_json [OF dict_hook_keeps] make_owner_def
        check_then_def first_error_Cons split: option.splits)
qed

definition due_at :: "accepted_row \<Rightarrow> db \<Rightarrow> instant \<Rightarrow> bool" where
  "due_at ar db cutoff \<longleftrightarrow> ar \<in> set (raw_due db cutoff)"

text \<open>Fewer than \<open>n\<close> elements with a smaller key: the key is among the first \<open>n\<close>.\<close>

lemma key_in_take:
  assumes "x \<in> set xs" "length (filter (\<lambda>y. k y < k x) xs) < n"
  shows "\<exists>y \<in> set (take n (sort_key k xs)). k y = k x"
proof -
  let ?P = "\<lambda>y. k y < k x" and ?ys = "sort_key k xs"
  have "length (takeWhile ?P zs) \<le> length (filter ?P zs)" for zs by (induction zs) auto
  moreover have "length (filter ?P ?ys) = length (filter ?P xs)"
    by (simp only: filter_sort length_sort)
  ultimately have n: "length (takeWhile ?P ?ys) < n" using assms(2) by (metis le_less_trans)
  have x: "x \<in> set (dropWhile ?P ?ys)"
    using assms(1) set_takeWhileD [of x ?P ?ys] by (metis Un_iff less_irrefl set_append set_sort takeWhile_dropWhile_id)
  then obtain z zs where z: "dropWhile ?P ?ys = z # zs" by (cases "dropWhile ?P ?ys") auto
  then have "\<not> k z < k x" using hd_dropWhile [of ?P ?ys] by simp
  moreover have "sorted (map k (takeWhile ?P ?ys @ z # zs))"
    using sorted_sort_key [of k xs] by (metis takeWhile_dropWhile_id z)
  with x z have "k z \<le> k x" by (auto simp: sorted_append)
  moreover have "z \<in> set (take n (takeWhile ?P ?ys @ z # zs))" using n by (simp add: take_Cons')
  then have "z \<in> set (take n ?ys)" by (metis takeWhile_dropWhile_id z)
  ultimately show ?thesis by force
qed

lemma oversized_plan_fails:
  assumes "due_at ar db cutoff" "raw_key ar = key_json [VStr ''event'', VStr s]" "256 < length s"
    and "length (filter (\<lambda>row. raw_key row < raw_key ar) (raw_due db cutoff)) < nat limit"
  shows "\<exists>e. plan_expiry RAW_DEBUG policy cutoff ttl limit db = Inl e"
proof -
  have "ar \<in> set (raw_due db cutoff)" using assms(1) by (simp only: due_at_def)
  from key_in_take [where k = raw_key, OF this assms(4)] obtain row where
    row: "row \<in> set (take (nat limit) (sort_key raw_key (raw_due db cutoff)))" "raw_key row = raw_key ar" by blast
  have "due_rows db RAW_DEBUG cutoff (nat limit) =
      map (\<lambda>row. (''RAW_DEBUG'', raw_key row)) (take (nat limit) (sort_key raw_key (raw_due db cutoff)))"
    by (simp add: due_rows_def take_map raw_key_def [abs_def])
  with row have here: "(''RAW_DEBUG'', raw_key ar) \<in> set (due_rows db RAW_DEBUG cutoff (nat limit))"
    by (metis (no_types, lifting) image_eqI list.set_map)
  obtain e where err: "owner_of_row (''RAW_DEBUG'', raw_key ar) = Inl e"
    using oversized_owner [OF assms(3)] unfolding assms(2) by blast
  from map_results_error [where f = owner_of_row, OF here err] obtain e' where
    "map_results owner_of_row (due_rows db RAW_DEBUG cutoff (nat limit)) = Inl e'" ..
  then show ?thesis
    by (auto simp: plan_expiry_def check_then_def split: option.splits)
qed

text \<open>
  C19: one valid record can stop retention.  Suppose a stored event has an identity of more than
  256 bytes and its raw record is due, and at every instant of a list fewer due raw records have
  a smaller key than the size of a batch, so that the plan reaches it.  Then every run at these
  instants fails before it expires or deletes anything, and the loop leaves the database as it
  is: neither raw records nor Deliveries past their lifetime go away any more.
\<close>

theorem oversized_identity_stops_retention:
  assumes "raw_key ar = key_json [VStr ''event'', VStr s]" "256 < length s"
    and "\<forall>now \<in> set instants. due_at ar db (now - raw_debug_ttl policy) \<and>
      length (filter (\<lambda>row. raw_key row < raw_key ar) (raw_due db (now - raw_debug_ttl policy))) < nat (batch_size policy)"
  shows "(\<forall>now \<in> set instants. \<exists>e. run_once policy now db = (Inl e, db)) \<and>
    retention_loop pg_port policy instants db = db"
proof -
  have run: "\<exists>e. run_once policy now db = (Inl e, db)" if "now \<in> set instants" for now
  proof -
    from assms(3) that have due: "due_at ar db (now - raw_debug_ttl policy)"
      and reached: "length (filter (\<lambda>row. raw_key row < raw_key ar) (raw_due db (now - raw_debug_ttl policy)))
        < nat (batch_size policy)" by blast+
    from oversized_plan_fails [OF due assms(1,2) reached] obtain e where
      "plan_expiry RAW_DEBUG DELIVERY_RETENTION_POLICY_REVISION (now - raw_debug_ttl policy)
         (whole_seconds (raw_debug_ttl policy)) (batch_size policy) db = Inl e" by blast
    then show ?thesis by (simp add: run_once_def run_once_with_def expiry_pass_def pg_port_def)
  qed
  then have "retention_loop pg_port policy instants db = db"
  proof (induction instants)
    case (Cons now later)
    from Cons.prems have "snd (run_once policy now db) = db"
      by (metis list.set_intros(1) snd_conv)
    then have "snd (run_once_with pg_port policy now db) = db" by (auto simp: run_once_def)
    with Cons show ?case by simp
  qed simp
  with run show ?thesis by blast
qed

text \<open>The Euro sign 128 times: a valid event identity of 384 bytes.\<close>

definition wide_id :: string where
  "wide_id = concat (replicate 128 [CHR 0xE2, CHR 0x82, CHR 0xAC])"

definition wide_attributes :: pydict where
  "wide_attributes = dset sample_event_attributes ''agentops.event.id'' (VStr wide_id)"

definition wide_db :: db where
  "wide_db = empty_db\<lparr>accepted := [(keyed_row (key_json [VStr ''event'', VStr wide_id]))],
     effects := [fact_of ''factual_contribution'' [VStr ''intervention'', VStr wide_id] []
       (key_json [VStr ''event'', VStr wide_id])]\<rparr>"

lemma wide_id_length: "length wide_id = 384" "py_len wide_id = 128" "wide_id \<noteq> []"
proof -
  have "length (concat (replicate n [CHR 0xE2, CHR 0x82, CHR 0xAC])) = 3 * n \<and>
      py_len (concat (replicate n [CHR 0xE2, CHR 0x82, CHR 0xAC])) = n" for n
    by (induction n) (simp_all add: is_continuation_def ord_of_def)
  then show "length wide_id = 384" "py_len wide_id = 128" by (simp_all add: wide_id_def)
  then show "wide_id \<noteq> []" by auto
qed

lemma wide_attributes_valid: "validate_attributes wide_attributes = None"
  using wide_id_length(2)
  by (simp add: validate_attributes_def wide_attributes_def sample_event_attributes_def attribute_checks_def
      field_type_of_def FIELD_TYPES_def STANDARD_TYPES_def NUMBER_FIELDS_def INTEGER_FIELDS_def
      COMMON_STRING_FIELDS_def type_checks_def string_checks_def Let_def string_maximum_def
      ENUMS_def digest_names_def IDENTIFIER_def alnum_def ident_class_def in_class_def between_def
      ord_of_def is_continuation_def ends_with_code)

theorem oversized_identity_stops_retention_witness:
  "validate_attributes wide_attributes = None \<and>
   retention_loop pg_port default_policy [0, 60000000, 120000000] wide_db = wide_db"
proof -
  let ?ar = "keyed_row (key_json [VStr ''event'', VStr wide_id])"
  have "\<forall>now \<in> set [0, 60000000, 120000000]. due_at ?ar wide_db (now - raw_debug_ttl default_policy) \<and>
      length (filter (\<lambda>row. raw_key row < raw_key ?ar) (raw_due wide_db (now - raw_debug_ttl default_policy)))
        < nat (batch_size default_policy)"
    by (simp add: due_at_def raw_due_def wide_db_def empty_db_def keyed_row_def fact_of_def has_marker_def
        default_policy_def)
  moreover have "raw_key ?ar = key_json [VStr ''event'', VStr wide_id]" by (simp add: raw_key_def keyed_row_def)
  moreover have "256 < length wide_id" by (simp add: wide_id_length)
  ultimately have "retention_loop pg_port default_policy [0, 60000000, 120000000] wide_db = wide_db"
    using oversized_identity_stops_retention by blast
  with wide_attributes_valid show ?thesis by blast
qed

text \<open>
  Role lineages of profile 2.0.0 cannot expire.  Their key has three components, which the
  closed shape of a role lineage owner refuses.
\<close>

theorem task_lineage_cannot_expire:
  assumes "project_lineage rec = Inr es" "profile_version rec = ''2.0.0''" "e \<in> set es"
  shows "validate_expiry_owner FACTUAL_PROJECTION
    \<lparr>resource_kind = public_kind (effect_kind e), owner_key = effect_key e\<rparr> \<noteq> None"
  using assms
  by (auto simp: project_lineage_def lineage_names_def public_kind_def PUBLIC_KINDS_def
      validate_expiry_owner_def owner_key_valid_def factual_key_shape_def shape_def)

definition lineage_record :: validated_record where
  "lineage_record = sample_record\<lparr>event_name := Some ''role.lineage'',
     attributes := attributes sample_record @ [(''agentops.role.id'', VStr ''r'')]\<rparr>"

theorem task_lineage_cannot_expire_witness:
  "\<exists>e. project_lineage lineage_record = Inr [e] \<and> validate_expiry_owner FACTUAL_PROJECTION
    \<lparr>resource_kind = public_kind (effect_kind e), owner_key = effect_key e\<rparr> \<noteq> None"
proof -
  have "need (lineage_names lineage_record) (attributes lineage_record) = None"
    by (simp add: lineage_record_def lineage_names_def need_def sample_event_attributes_def)
  then obtain e where e: "project_lineage lineage_record = Inr [e]" by (simp add: project_lineage_def)
  moreover have "profile_version lineage_record = ''2.0.0''" by (simp add: lineage_record_def)
  ultimately show ?thesis using task_lineage_cannot_expire by (metis list.set_intros(1))
qed

end
