(* ===== verification/Otlp_Properties.thy ===== *)
theory Otlp_Properties
  imports Otlp_Facts Retention_Properties
begin

unbundle bit_operations_syntax

text \<open>
  The properties of OTLP ingestion: what an admitted record says of the message it was decoded
  from, batches as runs of admissions, retries, refusals, and the status messages.
\<close>

section \<open>A sample message\<close>

definition sample_log :: log_record where
  "sample_log =
     \<lparr>log_attributes =
        [\<lparr>kv_key = ''agentops.delivery.id'', kv_value = String_Value ''d''\<rparr>,
         \<lparr>kv_key = ''agentops.event.id'', kv_value = String_Value ''e''\<rparr>,
         \<lparr>kv_key = ''agentops.workflow.family'', kv_value = String_Value ''f''\<rparr>,
         \<lparr>kv_key = ''agentops.family.schema'', kv_value = String_Value ''f@1''\<rparr>,
         \<lparr>kv_key = ''agentops.intervention.kind'', kv_value = String_Value ''USER_REDIRECT''\<rparr>],
      log_dropped = 0, log_body = Value_Not_Set, log_event_name = ''intervention'',
      log_trace_id = [], log_span_id = []\<rparr>"

definition sample_otlp_resource :: otlp_resource where
  "sample_otlp_resource =
     \<lparr>res_attributes = [\<lparr>kv_key = ''service.name'', kv_value = String_Value ''s''\<rparr>,
                      \<lparr>kv_key = ''service.version'', kv_value = String_Value ''1''\<rparr>],
      res_dropped = 0\<rparr>"

definition sample_scope :: "string \<Rightarrow> otlp_scope" where
  "sample_scope v = \<lparr>scope_name = ''io.agentops.dsh.observation'', scope_version = v,
     scope_attributes = [], scope_dropped = 0\<rparr>"

definition sample_schema :: string where
  "sample_schema = ''https://opentelemetry.io/schemas/1.41.0''"

definition decoded_sample :: pydict where
  "decoded_sample =
     [(''profile_version'', VStr ''2.0.0''), (''resource'', sample_resource),
      (''scope'', VDict TASK_SCOPE), (''record_type'', VStr ''event''),
      (''event_name'', VStr ''intervention''), (''attributes'', VDict sample_event_attributes)]"

lemma decode_sample:
  "decode_log (envelope sample_otlp_resource (sample_scope ''2.0.0'') sample_schema) sample_log = decoded_sample"
  by (simp add: decode_log_def envelope_def sample_otlp_resource_def sample_scope_def
      sample_schema_def sample_log_def tried_attributes_def attributes_of_def scalar_def
      decoded_attributes_def noted_def optional_field_def mark_carrier_errors_def
      decoded_sample_def sample_resource_def TASK_SCOPE_def SCOPE_def TASK_PROFILE_VERSION_def
      sample_event_attributes_def)

lemma decoded_fields [simp]:
  "dget decoded_sample ''attributes'' = VDict sample_event_attributes"
  "dget decoded_sample ''record_type'' = VStr ''event''"
  by (simp_all add: decoded_sample_def)

lemma decoded_envelope: "validate_envelope decoded_sample = None"
  by (simp add: validate_envelope_def decoded_sample_def sample_resource_def keys_are_def
      RECORD_KEYS_def RESOURCE_FIELDS_def TASK_SCOPE_def SCOPE_def PROFILE_VERSION_def
      TASK_PROFILE_VERSION_def require_in_def Let_def first_error_Cons require_def
      is_continuation_def ord_of_def is_dict_def)

lemma decoded_event: "validate_event decoded_sample sample_event_attributes = None"
  by (simp add: validate_event_def event_envelope_checks_def closed_set_checks_def
      decoded_sample_def sample_event_attributes_def is_task_profile_def TASK_PROFILE_VERSION_def
      EVENT_NAMES_def has_none_def event_span_fields_def starts_with_code EVENT_RULES_def
      allowed_intervention_def required_intervention_def family_checks_def review_checks_def
      numeric_checks_def Let_def first_error_Cons require_def require_in_def)

lemma decoded_valid: "\<exists>rec. validate_record (VDict decoded_sample) = Inr rec"
proof -
  have "\<exists>t. canonical_digest (VDict decoded_sample) = Inr (sha256_hex t)"
    by (simp add: canonical_digest_def canonical_bytes_def decoded_sample_def sample_resource_def
        sample_event_attributes_def TASK_SCOPE_def SCOPE_def TASK_PROFILE_VERSION_def
        json_string_def escape_byte_def ord_of_def insort_key_def) (rule exI, rule refl)
  then show ?thesis
    by (auto simp: validate_record_def validated_def decoded_envelope sample_attributes
        decoded_event is_dict_def)
qed

section \<open>Decoding loses nothing of an admitted record\<close>

text \<open>
  C20: only complete log records are admitted.  When the logical record decoded from a log record
  passes validation, its attributes are exactly the attributes of the message, in order, all of
  them scalars under distinct names; nothing was dropped by the sender, the body is empty, the
  Resource is complete and the InstrumentationScope carries no attributes.
\<close>

theorem log_admission_lossless:
  assumes "validate_record (VDict (decode_log (envelope res scope url) r)) = Inr rec"
  shows "lossless (log_attributes r) (log_dropped r) (attributes rec) \<and> log_body r = Value_Not_Set \<and>
         lossless (res_attributes res) (res_dropped res)
           (the_dict (dget (decode_log (envelope res scope url) r) ''resource'')) \<and>
         scope_attributes scope = [] \<and> scope_dropped scope = 0"
proof -
  obtain env ge where env: "envelope res scope url = (env, ge)" by force
  obtain a ae where a: "decoded_attributes (log_attributes r) (log_dropped r) = (a, ae)" by force
  from assms have clean: "ge = []" "ae = []" "log_body r = Value_Not_Set"
    using validated_unmarked [of "ge @ ae @ noted (log_body r \<noteq> Value_Not_Set) _"]
    by (simp_all add: decode_log_def env a) blast+
  have "keys env = [''profile_version'', ''resource'', ''scope'']"
    using envelope_keys [of res scope url] env by simp
  then have keys: "has_key env ''resource''" "\<not> has_key env ''attributes''" by (simp_all add: has_key_iff)
  then have attrs: "record_attributes (decode_log (envelope res scope url) r) = a"
    and res: "dget (decode_log (envelope res scope url) r) ''resource'' = dget env ''resource''"
    by (simp_all add: decode_log_def env a clean noted_def record_attributes_def dget_append)
  from validated_attributes [OF assms] attrs have "attributes rec = a" by simp
  with decoded_attributes_clean [of "log_attributes r" "log_dropped r" a] a clean res
    envelope_clean [of res scope url env] env
  show ?thesis by simp
qed

theorem log_admission_lossless_witness:
  "\<exists>rec. validate_record (VDict decoded_sample) = Inr rec \<and>
     lossless (log_attributes sample_log) 0 (attributes rec)"
proof -
  from decoded_valid obtain rec where "validate_record (VDict decoded_sample) = Inr rec" ..
  with log_admission_lossless [of sample_otlp_resource "sample_scope ''2.0.0''" sample_schema sample_log rec]
  show ?thesis by (simp only: decode_sample) (auto simp: sample_log_def)
qed

lemma length_hex_of [simp]: "length (hex_of b) = 2 * length b"
  by (induction b) (simp_all add: hex_of_def)

lemma tried_name_clean: "tried_name x = (n, []) \<Longrightarrow> x = Inr n"
  by (auto simp: tried_name_def split: sum.splits)

lemma decode_links_clean:
  "decode_links ls = (links, []) \<Longrightarrow> list_all plain_link ls \<and> links = map decode_link ls"
  by (induction ls arbitrary: links) (auto simp: Let_def split: prod.splits if_splits)

lemma validated_span_fields:
  assumes "validate_record (VDict r) = Inr rec" "dget r ''record_type'' = VStr ''span''"
  shows "hex_text 32 (the_str (dget r ''trace_id''))" "hex_text 16 (the_str (dget r ''span_id''))"
    "digits_val (the_str (dget r ''start_time_unix_nano'')) \<le> digits_val (the_str (dget r ''end_time_unix_nano''))"
proof -
  from assms have "validate_span r (the_dict (dget r ''attributes'')) = None"
    by (auto simp: validate_record_def Let_def)
  then have "list_all (\<lambda>c. c = None) (span_field_checks r)"
    by (auto simp: validate_span_None list_all_iff)
  then show "hex_text 32 (the_str (dget r ''trace_id''))" "hex_text 16 (the_str (dget r ''span_id''))"
    "digits_val (the_str (dget r ''start_time_unix_nano'')) \<le> digits_val (the_str (dget r ''end_time_unix_nano''))"
    by (auto simp: span_field_checks_def str_such_iff)
qed

text \<open>
  C21: only complete Spans are admitted.  When the logical record decoded from a Span passes
  validation, its attributes are exactly those of the message; nothing was dropped, there are no
  Span Events, no status message and no link attributes; the kind and the status are known enum
  numbers, the identifiers have 16 and 8 bytes, and the Span does not end before it starts.
\<close>

theorem span_admission_lossless:
  assumes "validate_record (VDict (decode_span kind_name status_name (envelope res scope url) r)) = Inr rec"
  shows "lossless (span_attributes r) (span_dropped r) (attributes rec) \<and>
         span_events r = 0 \<and> span_dropped_events r = 0 \<and> span_dropped_links r = 0 \<and>
         span_message r = [] \<and> list_all plain_link (span_link_list r) \<and>
         kind_name (span_kind_number r) \<noteq> None \<and> status_name (span_code r) \<noteq> None \<and>
         length (span_trace_id r) = 16 \<and> length (span_span_id r) = 8 \<and>
         span_start r \<le> span_end r"
proof -
  let ?l = "decode_span kind_name status_name (envelope res scope url) r"
  let ?kind = "native_enum_name kind_name (span_kind_number r) ''Span kind'' ''SPAN_KIND_''"
  let ?status = "native_enum_name status_name (span_code r) ''Span status'' ''STATUS_CODE_''"
  obtain env ge where env: "envelope res scope url = (env, ge)" by force
  obtain a ae where a: "decoded_attributes (span_attributes r) (span_dropped r) = (a, ae)" by force
  obtain links le where links: "decode_links (span_link_list r) = (links, le)" by force
  obtain kn ke where kind: "tried_name ?kind = (kn, ke)" by force
  obtain sn se where status: "tried_name ?status = (sn, se)" by force
  note parts = env a links kind status
  from assms have "ge @ ae @ noted (span_events r \<noteq> 0 \<or> span_dropped_events r \<noteq> 0)
                ''Span Events are outside Profile 1.0.0''
            @ noted (span_dropped_links r \<noteq> 0) ''dropped Span Links''
            @ noted (span_message r \<noteq> []) ''Span Status message is prohibited content''
            @ le @ ke @ se = []"
    by (intro validated_unmarked) (simp add: decode_span_def parts)
  then have clean: "ge = []" "ae = []" "le = []" "ke = []" "se = []" "span_events r = 0"
    "span_dropped_events r = 0" "span_dropped_links r = 0" "span_message r = []" by simp_all
  have "keys env = [''profile_version'', ''resource'', ''scope'']"
    using envelope_keys [of res scope url] env by simp
  then have "\<not> has_key env ''attributes''" "\<not> has_key env ''record_type''" "\<not> has_key env ''trace_id''"
    "\<not> has_key env ''span_id''" "\<not> has_key env ''start_time_unix_nano''"
    "\<not> has_key env ''end_time_unix_nano''" by (simp_all add: has_key_iff)
  then have fields: "record_attributes ?l = a" "dget ?l ''record_type'' = VStr ''span''"
    "dget ?l ''trace_id'' = VStr (hex_of (span_trace_id r))"
    "dget ?l ''span_id'' = VStr (hex_of (span_span_id r))"
    "dget ?l ''start_time_unix_nano'' = VStr (nat_str (span_start r))"
    "dget ?l ''end_time_unix_nano'' = VStr (nat_str (span_end r))"
    by (simp_all add: decode_span_def parts clean noted_def record_attributes_def dget_append)
  from validated_attributes [OF assms] fields(1) have "attributes rec = a" by simp
  with decoded_attributes_clean a clean(2)
  have "lossless (span_attributes r) (span_dropped r) (attributes rec)" by simp
  moreover from links clean(3) decode_links_clean have "list_all plain_link (span_link_list r)" by blast
  moreover from kind status clean(4,5) have "?kind = Inr kn" "?status = Inr sn"
    using tried_name_clean by blast+
  then have "kind_name (span_kind_number r) \<noteq> None" "status_name (span_code r) \<noteq> None"
    by (auto simp: native_enum_name_def split: option.splits)
  moreover from validated_span_fields [OF assms fields(2)] fields
  have "length (span_trace_id r) = 16" "length (span_span_id r) = 8" "span_start r \<le> span_end r"
    by (simp_all add: hex_text_def)
  ultimately show ?thesis using clean by simp
qed

definition sample_span :: otlp_span where
  "sample_span =
     \<lparr>span_attributes = [], span_dropped = 0, span_events = 0, span_dropped_events = 0,
      span_dropped_links = 0, span_message = [], span_code = 1, span_link_list = [],
      span_kind_number = 1, span_title = ''step'', span_trace_id = ''tttttttttttttttt'',
      span_span_id = ''ssssssss'', span_parent_id = [], span_start = 3, span_end = 5,
      span_flag_bits = 1, span_state = []\<rparr>"

definition sample_kinds :: "int \<Rightarrow> string option" where
  "sample_kinds n = (if n = 1 then Some ''SPAN_KIND_INTERNAL'' else None)"

definition sample_statuses :: "int \<Rightarrow> string option" where
  "sample_statuses n = (if n = 1 then Some ''STATUS_CODE_OK'' else None)"

definition decoded_span :: pydict where
  "decoded_span =
     [(''profile_version'', VStr ''1.0.0''), (''resource'', sample_resource), (''scope'', VDict SCOPE),
      (''record_type'', VStr ''span''), (''span_name'', VStr ''step''),
      (''trace_id'', VStr ''74747474747474747474747474747474''), (''span_id'', VStr ''7373737373737373''),
      (''span_kind'', VStr ''INTERNAL''), (''start_time_unix_nano'', VStr ''3''),
      (''end_time_unix_nano'', VStr ''5''), (''span_flags'', VInt 1), (''span_links'', VList []),
      (''span_status'', VStr ''OK''), (''attributes'', VDict [])]"

lemma decode_sample_span:
  "decode_span sample_kinds sample_statuses
     (envelope sample_otlp_resource (sample_scope ''1.0.0'') sample_schema) sample_span = decoded_span"
  by (simp add: decode_span_def envelope_def sample_otlp_resource_def sample_scope_def sample_schema_def
      sample_span_def sample_kinds_def sample_statuses_def tried_attributes_def attributes_of_def
      scalar_def decoded_attributes_def noted_def optional_field_def mark_carrier_errors_def
      decoded_span_def sample_resource_def SCOPE_def tried_name_def native_enum_name_def
      remove_prefix_def starts_with_code hex_of_def hex_digit_def ord_of_def nat_str.simps
      digit_char_def char_of_def bit_0)

lemma decoded_span_valid: "\<exists>rec. validate_record (VDict decoded_span) = Inr rec"
proof -
  have "validate_envelope decoded_span = None"
    by (simp add: validate_envelope_def decoded_span_def sample_resource_def keys_are_def
        RECORD_KEYS_def RESOURCE_FIELDS_def TASK_SCOPE_def SCOPE_def PROFILE_VERSION_def
        TASK_PROFILE_VERSION_def require_in_def Let_def first_error_Cons require_def
        is_continuation_def ord_of_def is_dict_def)
  moreover have "validate_span decoded_span [] = None"
    by (simp add: validate_span_def span_field_checks_def span_attribute_checks_def operation_checks_def
        decoded_span_def span_required_def first_error_Cons require_def require_in_def when_key_def
        hex_text_def is_lower_hex_def is_digit_def ord_of_def uint32_def short_text_def Let_def
        NANOSECONDS_def lits_def in_class_def between_def agentops_names_def standard_names_def
        starts_with_code is_continuation_def is_list_def root_fields_def root_only_def
        has_none_def TASK_PROFILE_VERSION_def is_model_call_def digits_val_def permitted_standard_def)
  moreover have "\<exists>t. canonical_digest (VDict decoded_span) = Inr (sha256_hex t)"
    by (simp add: canonical_digest_def canonical_bytes_def decoded_span_def sample_resource_def
        SCOPE_def json_string_def escape_byte_def ord_of_def insort_key_def int_text_def int_str_def
        nat_str.simps digit_char_def) (rule exI, rule refl)
  moreover have "dget decoded_span ''attributes'' = VDict []"
    "dget decoded_span ''record_type'' = VStr ''span''" by (simp_all add: decoded_span_def)
  ultimately show ?thesis
    by (auto simp: validate_record_def validated_def validate_attributes_def is_dict_def)
qed

theorem span_admission_lossless_witness:
  "\<exists>rec. validate_record (VDict decoded_span) = Inr rec \<and>
     lossless (span_attributes sample_span) 0 (attributes rec) \<and> length (span_trace_id sample_span) = 16"
proof -
  from decoded_span_valid obtain rec where "validate_record (VDict decoded_span) = Inr rec" ..
  with span_admission_lossless [of sample_kinds sample_statuses sample_otlp_resource
      "sample_scope ''1.0.0''" sample_schema sample_span rec]
  show ?thesis by (simp only: decode_sample_span) (auto simp: sample_span_def)
qed

section \<open>Status messages\<close>

text \<open>A reader of protobuf varints, the reference the writer is measured against.\<close>

fun read_varint :: "string \<Rightarrow> (nat \<times> string) option" where
  "read_varint [] = None"
| "read_varint (c # cs) =
     (if ord_of c < 128 then Some (ord_of c, cs)
      else (case read_varint cs of
          None \<Rightarrow> None
        | Some (n, rest) \<Rightarrow> Some (ord_of c - 128 + 128 * n, rest)))"

text \<open>A google.rpc.Status with the fields code (1) and message (2).\<close>

definition read_status :: "string \<Rightarrow> (nat \<times> string) option" where
  "read_status bytes = (case bytes of
       c1 # code # c2 # rest \<Rightarrow>
         (if c1 = CHR 0x08 \<and> c2 = CHR 0x12 \<and> ord_of code < 128
          then (case read_varint rest of
              None \<Rightarrow> None
            | Some (n, text) \<Rightarrow> if length text = n then Some (ord_of code, text) else None)
          else None)
     | _ \<Rightarrow> None)"

lemma group_of_seven: "((n :: nat) AND 0x7F) OR 0x80 = n mod 128 + 128"
proof -
  have "n AND 0x7F = take_bit 7 n"
    by (simp add: take_bit_eq_mask mask_eq_exp_minus_1)
  moreover have "take_bit 7 n OR 2 ^ 7 = take_bit 7 n + 2 ^ 7"
  proof -
    have "take_bit 7 n AND 2 ^ 7 = 0" by (rule bit_eqI) (auto simp only: bit_simps bit_0_eq bot_apply bot_bool_def)
    then show ?thesis by (simp only: disjunctive_add_eq_or)
  qed
  then have "take_bit 7 n OR 128 = take_bit 7 n + 128" by simp
  ultimately show ?thesis by (simp add: take_bit_eq_mod)
qed

lemma read_varint_varint: "read_varint (varint n @ rest) = Some (n, rest)"
proof (induction n rule: varint.induct)
  case (1 n)
  show ?case
  proof (cases "0x7F < n")
    case True
    have small: "n mod 128 + 128 < 256" by simp
    have "ord_of (char_of ((n AND 0x7F) OR 0x80)) = n mod 128 + 128"
      using small by (simp add: group_of_seven ord_of_def)
    with True 1 show ?thesis
      by (subst varint.simps) (simp add: drop_bit_eq_div)
  next
    case False
    then have "ord_of (char_of n) = n" by (simp add: ord_of_def)
    with False show ?thesis by (subst varint.simps) simp
  qed
qed

lemma length_varint: "n < 128 ^ Suc k \<Longrightarrow> length (varint n) \<le> Suc k"
proof (induction k arbitrary: n)
  case 0
  then show ?case by (subst varint.simps) simp
next
  case (Suc k)
  then have "n div 128 < 128 ^ Suc k" by (simp add: less_mult_imp_div_less mult.commute)
  from Suc.IH [OF this] show ?case by (subst varint.simps) (simp add: drop_bit_eq_div)
qed

text \<open>
  The hand-written status message is well-formed protobuf.  Reading it back gives code 3
  (INVALID_ARGUMENT) and the message cut to 256 bytes, and it never exceeds 261 bytes.
\<close>

theorem status_payload_roundtrip:
  "read_status (status_payload m) = Some (3, take 256 m) \<and> length (status_payload m) \<le> 261"
proof -
  have "length (take 256 m) < 128 ^ Suc 1" by simp
  then have "length (varint (length (take 256 m))) \<le> 2" using length_varint by fastforce
  moreover have "ord_of CHR 0x03 = 3" by (simp add: ord_of_def)
  ultimately show ?thesis
    by (simp add: status_payload_def read_status_def read_varint_varint Let_def)
qed

section \<open>Batches\<close>

text \<open>
  Ingesting a batch is a run of admissions in the order of its records.  Either nothing
  was admitted because a batch-wide check failed, or the records were admitted one after the
  other, all of them unless an exception cut the loop short.  Hence a well-formed database
  stays well formed.
\<close>

theorem ingest_runs_admissions:
  assumes "ingest names clock sig records db = (res, db')"
  shows "(\<exists>n \<le> length records. steps db (admissions clock 0 (take n records)) db' \<and>
            ((\<exists>out. res = Inr out \<and> http_status out = 200) \<longrightarrow> n = length records)) \<and>
         (evidence_ok db \<longrightarrow> evidence_ok db')"
proof -
  have "\<exists>n \<le> length records. steps db (admissions clock 0 (take n records)) db' \<and>
            ((\<exists>out. res = Inr out \<and> http_status out = 200) \<longrightarrow> n = length records)"
  proof (cases "homogeneous records \<and> within_cardinality_budget names records = Inr True")
    case True
    obtain r db1 where loop: "ingest_records clock 0 records 0 db = (r, db1)" by force
    from ingest_records_steps [OF loop] loop True assms show ?thesis
      by (auto simp: ingest_def Let_def split: sum.splits)
  next
    case False
    with assms have "db' = db" "\<not> (\<exists>out. res = Inr out \<and> http_status out = 200)"
      by (auto simp: ingest_def Let_def split: sum.splits bool.splits if_splits)
    then show ?thesis by (intro exI [of _ 0]) auto
  qed
  with steps_evidence_ok show ?thesis by blast
qed

lemma sample_batch_checks:
  "homogeneous [sample_event]"
  "within_cardinality_budget BOUNDED_CARDINALITY_FIELDS [sample_event] = Inr True"
  by (simp_all add: homogeneous_def at_most_one_def record_attributes_def sample_event_def
      sample_event_attributes_def BOUNDED_CARDINALITY_FIELDS_def field_values_def)

lemma sample_ingest:
  "ingest BOUNDED_CARDINALITY_FIELDS (\<lambda>_. 0) Logs [sample_event] empty_db =
     (Inr \<lparr>signal = Logs, http_status = 200, rejected_items = 0\<rparr>, sample_db)"
  by (simp add: ingest_def sample_batch_checks sample_admitted admission_def)

theorem ingest_runs_admissions_witness:
  "(\<exists>n \<le> length [sample_event]. steps empty_db (admissions (\<lambda>_. 0) 0 (take n [sample_event])) sample_db) \<and>
   evidence_ok sample_db"
  using ingest_runs_admissions [OF sample_ingest] by auto

text \<open>
  C22: retrying a batch is safe.  When no record of a batch was rejected, delivering the same
  batch again, at any times, is answered in the same way and changes nothing.
\<close>

theorem ingest_retry:
  assumes "store_ok db" "ingest names clock sig records db = (Inr out, db')" "rejected_items out = 0"
  shows "ingest names later sig records db' = (Inr out, db')"
proof (cases "records = [] \<or> \<not> homogeneous records \<or> within_cardinality_budget names records \<noteq> Inr True")
  case True
  with assms(2,3) show ?thesis
    by (auto simp: ingest_def Let_def split: sum.splits bool.splits prod.splits if_splits)
next
  case False
  with assms(2,3) have loop: "ingest_records clock 0 records 0 db = (Inr 0, db')"
    by (auto simp: ingest_def Let_def split: sum.splits prod.splits)
  from ingest_records_known [OF this assms(1)] ingest_records_again
  have "ingest_records later 0 records 0 db' = (Inr 0, db')" by blast
  with loop False assms(2) show ?thesis by (auto simp: ingest_def Let_def)
qed

theorem ingest_retry_witness:
  "ingest BOUNDED_CARDINALITY_FIELDS (\<lambda>i. 7 + int i) Logs [sample_event] sample_db =
     (Inr \<lparr>signal = Logs, http_status = 200, rejected_items = 0\<rparr>, sample_db)"
  using ingest_retry [OF empty_db_ok sample_ingest] by simp





text \<open>
  C24: one number that is not finite poisons its batch.  Suppose an attribute of bounded
  cardinality of one record is NaN or infinite.  Then no record of the request is admitted,
  whereas validation would have rejected only the one that carries it.  The request is refused
  with 400, as a batch of mixed profiles or families or of too many values is, or the canonical
  encoding of the cardinality check raises and the request ends with an unhandled ValueError;
  the latter always when the batch is of one profile and family and has at most 256 records.
\<close>

theorem bounded_nan_aborts:
  assumes "decode payload = Inr records" "set names = set BOUNDED_CARDINALITY_FIELDS"
    and "name \<in> set BOUNDED_CARDINALITY_FIELDS" "r \<in> set records"
    and "dget (record_attributes r) name = VFloat f" "f \<in> {Float_Nan, Float_Inf True, Float_Inf False}"
    and "handle_ingest serialize names clock sig decode (Some ''application/x-protobuf'') True payload db = (res, db')"
  shows "db' = db \<and> ((\<exists>m. res = Inl (Value_Error m)) \<or> res = Inr (plain_status ''all logical records rejected'' 400)) \<and>
    (homogeneous records \<and> length records \<le> 256 \<longrightarrow> (\<exists>m. res = Inl (Value_Error m)))"
proof -
  from assms(5) have "has_key (record_attributes r) name" by (auto simp: has_key_def dget_def split: option.splits)
  with assms(4,5) have "VFloat f \<in> set (field_values name records)"
    by (force simp: field_values_def)
  moreover have "canonical_bytes (VFloat f) = Inl (Value_Error ''canonical JSON prohibits non-finite numbers'')"
    using assms(6) by (auto simp: canonical_bytes_def canonical_number_def)
  ultimately obtain e where e: "map_results canonical_bytes (field_values name records) = Inl e"
    using map_results_Inr_set by (cases "map_results canonical_bytes (field_values name records)") fastforce+
  then have "\<not> field_ok records name" by (simp add: field_ok_def)
  with assms(2,3) have "within_cardinality_budget names records \<noteq> Inr True" by (auto simp: within_budget_True)
  then consider "within_cardinality_budget names records = Inr False"
    | m where "within_cardinality_budget names records = Inl (Value_Error m)"
    using within_budget_error [of names records] by (cases "within_cardinality_budget names records") force+
  moreover have "\<exists>m. within_cardinality_budget names records = Inl (Value_Error m)" if "length records \<le> 256"
    using within_budget_raises [OF that _ e] assms(2,3) by blast
  ultimately show ?thesis
    using assms(1,7) by cases (auto simp: handle_ingest_def ingest_def Let_def split: if_splits)
qed

definition nan_event :: pydict where
  "nan_event = [(''profile_version'', VStr ''2.0.0''),
     (''attributes'', VDict [(''agentops.test.duration.seconds'', VFloat Float_Nan)])]"

theorem bounded_nan_aborts_witness:
  "\<exists>m. handle_ingest (\<lambda>_. []) BOUNDED_CARDINALITY_FIELDS (\<lambda>_. 0) Logs (\<lambda>_. Inr [sample_event, nan_event])
     (Some ''application/x-protobuf'') True [] sample_db = (Inl (Value_Error m), sample_db)"
proof -
  let ?decode = "\<lambda>_ :: string. Inr [sample_event, nan_event] :: pydict list result"
  obtain res db' where run: "handle_ingest (\<lambda>_. []) BOUNDED_CARDINALITY_FIELDS (\<lambda>_. 0) Logs ?decode
      (Some ''application/x-protobuf'') True [] sample_db = (res, db')" by force
  have "''agentops.test.duration.seconds'' \<in> set BOUNDED_CARDINALITY_FIELDS"
    by (simp add: BOUNDED_CARDINALITY_FIELDS_def)
  moreover have "dget (record_attributes nan_event) ''agentops.test.duration.seconds'' = VFloat Float_Nan"
    by (simp add: record_attributes_def nan_event_def)
  moreover have "homogeneous [sample_event, nan_event]"
    by (simp add: homogeneous_def at_most_one_def sample_event_def nan_event_def record_attributes_def
        sample_event_attributes_def)
  ultimately show ?thesis
    using bounded_nan_aborts [OF refl refl, where payload = "[]", OF _ _ _ _ run] run by auto
qed

end
