(* ===== verification/Snapshot_Properties.thy ===== *)
theory Snapshot_Properties
  imports Snapshot_Facts Otlp_Properties
begin

text \<open>
  The properties of the snapshot adapter: following the cursors reads every selected row once,
  in order, from one snapshot; leases are bounded and leave nothing behind; an expired lease is
  never read.
\<close>

section \<open>Following the cursors\<close>

text \<open>
  A client that reads page after page: the resources of all pages, or \<open>None\<close> when a page is
  refused.  \<open>tokens\<close> and \<open>nows\<close> are the random texts and the clock readings of the calls.
\<close>

fun walk ::
  "nat \<Rightarrow> (string \<Rightarrow> int list) \<Rightarrow> (nat \<Rightarrow> string) \<Rightarrow> (nat \<Rightarrow> instant) \<Rightarrow> snapshot_page \<Rightarrow> query_adapter \<Rightarrow>
   query_effect list option" where
  "walk n coll tokens nows page a = (case sp_next page of
       None \<Rightarrow> Some (sp_resources page)
     | Some c \<Rightarrow> (case n of
           0 \<Rightarrow> None
         | Suc m \<Rightarrow> (case continue_snapshot coll (tokens m) c (nows m) a of
               (Inl e, a') \<Rightarrow> None
             | (Inr page', a') \<Rightarrow> map_option ((@) (sp_resources page)) (walk m coll tokens nows page' a'))))"

declare walk.simps [simp del]

text \<open>The adapter when the first \<open>k\<close> rows of a lease have been delivered.\<close>

definition delivered :: "snapshot_lease \<Rightarrow> snapshot_row list \<Rightarrow> nat \<Rightarrow> query_adapter \<Rightarrow> bool" where
  "delivered l rows k a \<longleftrightarrow> adapter_ok a \<and> lease_with (sl_id l) a = Some l \<and>
     (\<forall>p t. ((sl_id l, p), t) \<in> set (qa_tokens a) \<longrightarrow> p \<in> sr_sort ` set (take k rows))"

definition leads_on :: "snapshot_lease \<Rightarrow> snapshot_row list \<Rightarrow> nat \<Rightarrow> snapshot_page \<Rightarrow> query_adapter \<Rightarrow> bool" where
  "leads_on l rows k page a \<longleftrightarrow>
     (if k < length rows
      then \<exists>c. sp_next page = Some c \<and> map_of (qa_cursors a) c = Some (sl_id l, sr_sort (rows ! (k - 1)))
      else sp_next page = None)"

lemma snapshot_rows_at:
  assumes "inj coll" "store_ok (sl_db l)" "sources_ok (sl_db l)" "lease_filters l = Inr fs"
    and "sl_query l = TRACES \<longrightarrow> enforce_trace_delivery_bound l = None"
    and "k \<le> length (ordered_rows coll l fs)"
  shows "snapshot_rows coll l (start_at (ordered_rows coll l fs) k) =
    Inr (take (nat (sl_limit l) + 1) (drop k (ordered_rows coll l fs)))"
  using assms(4,5) beyond_start [OF ordered_rows_strict [OF assms(1-3)] assms(6)]
  by (simp add: snapshot_rows_def)

lemma sr_sort_distinct:
  assumes "distinct (map (row_place coll l) rows)"
  shows "distinct (map sr_sort rows)"
proof -
  have "row_place coll l = place coll (sl_query l) \<circ> sr_sort" by (simp add: fun_eq_iff row_place_def)
  with assms show ?thesis by (metis distinct_map map_map)
qed

definition good_revision :: "snapshot_lease \<Rightarrow> bool" where
  "good_revision l \<longleftrightarrow> sl_id l \<noteq> [] \<and> 1 \<le> sl_limit l"

text \<open>One page: the next rows, and a cursor behind the last of them when there are more.\<close>

lemma read_page_step:
  assumes rows: "snapshot_rows coll l (start_at rows k) = Inr (take (nat (sl_limit l) + 1) (drop k rows))"
    and "map_results query_effect_of rows = Inr effs" "distinct (map sr_sort rows)" "good_revision l"
    and "k \<le> length rows" "delivered l rows k a" "token \<notin> fst ` set (qa_cursors a)"
  shows "\<exists>page a'. read_snapshot_page coll token l (start_at rows k) a = (Inr page, a') \<and>
    sp_resources page = take (nat (sl_limit l)) (drop k effs) \<and>
    delivered l rows (k + nat (sl_limit l)) a' \<and> fst ` set (qa_cursors a') \<subseteq> insert token (fst ` set (qa_cursors a)) \<and>
    leads_on l rows (k + nat (sl_limit l)) page a'"
proof -
  define n where "n = nat (sl_limit l)"
  have n: "0 < n" using assms(4) by (simp add: n_def good_revision_def)
  have res: "map_results query_effect_of (take n (drop k rows)) = Inr (take n (drop k effs))"
    by (intro map_results_take map_results_drop assms(2))
  have take: "take n (take (n + 1) (drop k rows)) = take n (drop k rows)" by (simp add: min_def)
  have sub: "set (take k rows) \<subseteq> set (take (k + n) rows)" by (intro set_take_subset_set_take) simp
  then have more: "delivered l rows (k + n) a" 
    using assms(6) image_mono [OF sub, of sr_sort] unfolding delivered_def by blast
  from assms(6) have live: "l \<in> set (qa_leases a)"
    by (auto simp: delivered_def lease_with_def dest: row_with_SomeD)
  have revision: "check_snapshot_page ''1.0.0'' ''2.0.0'' (sl_id l) = None"
    "check_snapshot_page ''0.1.0'' ''1.0.0'' (sl_id l) = None"
    using assms(4) by (simp_all add: check_snapshot_page_def page_revisions_def good_revision_def)
  show ?thesis
  proof (cases "k + n < length rows")
    case False
    then have "length (take (n + 1) (drop k rows)) \<le> n" by simp
    with rows res take revision more False show ?thesis
      by (auto simp: read_snapshot_page_def Let_def n_def [symmetric] leads_on_def)
  next
    case True
    let ?last = "rows ! (k + n - 1)"
    from True n have last: "last (take n (drop k rows)) = ?last"
      by (subst last_conv_nth) (auto simp: add.commute)
    have new: "sr_sort ?last \<notin> sr_sort ` set (take k rows)"
    proof
      assume "sr_sort ?last \<in> sr_sort ` set (take k rows)"
      then obtain j where "j < k" "sr_sort ?last = sr_sort (rows ! j)"
        using True by (auto simp: in_set_conv_nth)
      moreover from this True n have "map sr_sort rows ! (k + n - 1) = map sr_sort rows ! j" by simp
      ultimately show False using nth_eq_iff_index_eq [OF assms(3), of "k + n - 1" j] True n by simp
    qed
    have none: "map_of (qa_tokens a) (sl_id l, sr_sort ?last) = None"
      using new assms(6) by (force simp: delivered_def map_of_eq_None_iff)
    let ?a = "a\<lparr>qa_tokens := ((sl_id l, sr_sort ?last), token) # qa_tokens a,
                qa_cursors := (token, (sl_id l, sr_sort ?last)) # qa_cursors a\<rparr>"
    have pos: "sr_sort ?last \<in> sr_sort ` set (take (k + n) rows)"
      using True n by (intro imageI) (auto simp: in_set_conv_nth intro!: exI [of _ "k + n - 1"])
    have page: "read_snapshot_page coll token l (start_at rows k) a =
        (Inr \<lparr>sp_contract = (if sl_query l = TASKS then ''1.0.0'' else ''0.1.0''),
              sp_revision = (if sl_query l = TASKS then ''2.0.0'' else ''1.0.0''),
              sp_snapshot = sl_id l, sp_resources = take n (drop k effs), sp_next = Some token\<rparr>, ?a)"
      using rows res take last none revision True
      by (simp add: read_snapshot_page_def Let_def n_def [symmetric])
    from assms(6) have ok: "adapter_ok a" by (simp add: delivered_def)
    from read_page_ok [OF ok live assms(7) page] have "adapter_ok ?a" .
    with more pos have "delivered l rows (k + n) ?a"
      by (auto simp: delivered_def lease_with_def simp del: split_paired_All)
    with page True show ?thesis by (auto simp: n_def [symmetric] leads_on_def)
  qed
qed

lemma evict_delivered:
  assumes "delivered l rows k a" "now < sl_expires l"
  shows "delivered l rows k (evict_expired now a)"
    and "map_of (qa_cursors a) c = Some (sl_id l, p) \<Longrightarrow>
      map_of (qa_cursors (evict_expired now a)) c = Some (sl_id l, p)"
    and "fst ` set (qa_cursors (evict_expired now a)) \<subseteq> fst ` set (qa_cursors a)"
proof -
  from assms(1) have ok: "adapter_ok a" and l: "row_with sl_id (sl_id l) (qa_leases a) = Some l"
    by (simp_all add: delivered_def lease_with_def)
  have ids: "sl_id l \<notin> set (map sl_id (filter (\<lambda>l. sl_expires l \<le> now) (qa_leases a)))"
    using ok row_with_SomeD [OF l] assms(2)
    by (auto simp: adapter_ok_def key_unique_def distinct_map inj_on_def)
  then show "map_of (qa_cursors a) c = Some (sl_id l, p) \<Longrightarrow>
      map_of (qa_cursors (evict_expired now a)) c = Some (sl_id l, p)"
    unfolding evict_expired_def by (intro fold_release_cursor [OF ok])
  show "fst ` set (qa_cursors (evict_expired now a)) \<subseteq> fst ` set (qa_cursors a)"
    unfolding evict_expired_def by (intro image_mono fold_release_cursors_subset [OF ok])
  have "l \<in> set (qa_leases (evict_expired now a))"
    using row_with_SomeD [OF l] assms(2) by (simp add: evicted_leases [OF ok])
  then have "lease_with (sl_id l) (evict_expired now a) = Some l"
    using evict_ok [OF ok, of now] row_with_key_unique by (auto simp: lease_with_def adapter_ok_def)
  moreover have "set (qa_tokens (evict_expired now a)) \<subseteq> set (qa_tokens a)"
    unfolding evict_expired_def by (rule fold_release_tokens [OF ok])
  ultimately show "delivered l rows k (evict_expired now a)"
    using assms(1) evict_ok [OF ok, of now] unfolding delivered_def by blast
qed

text \<open>A lease that was just added has delivered nothing.\<close>

lemma new_lease_delivered:
  assumes "adapter_ok a" "sl_id l \<notin> sl_id ` set (qa_leases a)"
    and "int (length (qa_leases (evict_expired now a))) < qa_lease_limit (evict_expired now a)"
  shows "delivered l rows 0 (evict_expired now a\<lparr>qa_leases := qa_leases (evict_expired now a) @ [l]\<rparr>)"
proof -
  let ?e = "evict_expired now a"
  let ?a = "?e\<lparr>qa_leases := qa_leases ?e @ [l]\<rparr>"
  have ok: "adapter_ok ?a"
    using evict_ok [OF assms(1)] evict_fresh(1) [OF assms(1,2), of now] assms(3) by (intro add_lease_ok) simp_all
  have "lease_with (sl_id l) ?a = Some l"
    using ok by (auto simp: lease_with_def adapter_ok_def intro: row_with_key_unique)
  moreover have "((sl_id l, p), t) \<notin> set (qa_tokens ?a)" for p t
    using evict_fresh(1) [OF assms(1,2), of now] token_live [OF evict_ok [OF assms(1), of now], of "sl_id l" p t]
    by auto
  ultimately show ?thesis using ok by (simp add: delivered_def)
qed

text \<open>From any point on, the walk reads the rows that are left.\<close>

lemma walk_rest:
  assumes "inj coll" "store_ok (sl_db l)" "sources_ok (sl_db l)" "lease_filters l = Inr fs"
    and "sl_query l = TRACES \<longrightarrow> enforce_trace_delivery_bound l = None"
    and rows: "rows = ordered_rows coll l fs" "map_results query_effect_of rows = Inr effs"
    and "good_revision l" "inj tokens" "\<And>i. nows i < sl_expires l"
  shows "0 < k \<Longrightarrow> length rows \<le> k + n \<Longrightarrow> delivered l rows (min k (length rows)) a \<Longrightarrow> leads_on l rows k page a \<Longrightarrow>
    (\<And>i. i < n \<Longrightarrow> tokens i \<notin> fst ` set (qa_cursors a)) \<Longrightarrow>
    walk n coll tokens nows page a = Some (sp_resources page @ drop k effs)"
proof (induction n arbitrary: k a page)
  case 0
  then have "length effs \<le> k" using map_results_Inr_length [OF rows(2)] by simp
  with 0 show ?case by (subst walk.simps) (simp add: leads_on_def)
next
  case (Suc n)
  show ?case
  proof (cases "k < length rows")
    case False
    then have "length effs \<le> k" using map_results_Inr_length [OF rows(2)] by simp
    with False Suc.prems(4) show ?thesis by (subst walk.simps) (simp add: leads_on_def)
  next
    case True
    let ?e = "evict_expired (nows n) a"
    from True Suc.prems(4) obtain c where c: "sp_next page = Some c"
      "map_of (qa_cursors a) c = Some (sl_id l, sr_sort (rows ! (k - 1)))" by (auto simp: leads_on_def)
    from True Suc.prems(3) have "delivered l rows k a" by (simp add: min_def)
    note e = evict_delivered [OF this assms(10) [of n]]
    have start: "start_at rows k = Some (sr_sort (rows ! (k - 1)))" using Suc.prems(1) by (simp add: start_at_def)
    have "tokens n \<notin> fst ` set (qa_cursors ?e)" using Suc.prems(5) [of n] e(3) by auto
    from read_page_step [OF _ rows(2) _ assms(8) _ e(1) this, of coll] True
      snapshot_rows_at [OF assms(1-5), of k] sr_sort_distinct [OF ordered_rows_strict(2) [OF assms(1-3)]]
    obtain page' a' where page': "read_snapshot_page coll (tokens n) l (start_at rows k) ?e = (Inr page', a')"
      "sp_resources page' = take (nat (sl_limit l)) (drop k effs)"
      "delivered l rows (k + nat (sl_limit l)) a'" "leads_on l rows (k + nat (sl_limit l)) page' a'"
      "fst ` set (qa_cursors a') \<subseteq> insert (tokens n) (fst ` set (qa_cursors ?e))"
      by (auto simp: rows(1))
    have lease: "lease_with (sl_id l) ?e = Some l" using e(1) by (simp add: delivered_def)
    have continue: "continue_snapshot coll (tokens n) c (nows n) a = (Inr page', a')"
      using e(2) [OF c(2)] lease page'(1) start by (simp add: continue_snapshot_def)
    have "walk n coll tokens nows page' a' = Some (sp_resources page' @ drop (k + nat (sl_limit l)) effs)"
    proof (rule Suc.IH)
      show "length rows \<le> k + nat (sl_limit l) + n"
        using Suc.prems(2) assms(8) by (simp add: good_revision_def nat_le_iff le_nat_iff) linarith
      show "delivered l rows (min (k + nat (sl_limit l)) (length rows)) a'"
        using page'(3) by (cases "k + nat (sl_limit l) \<le> length rows") (simp_all add: delivered_def min_def)
      show "tokens i \<notin> fst ` set (qa_cursors a')" if "i < n" for i
      proof
        assume "tokens i \<in> fst ` set (qa_cursors a')"
        with page'(5) e(3) have "tokens i = tokens n \<or> tokens i \<in> fst ` set (qa_cursors a)" by blast
        with Suc.prems(5) [of i] that assms(9) show False by (auto dest: injD)
      qed
    qed (use Suc.prems(1) page'(4) in simp_all)
    moreover have "take (nat (sl_limit l)) (drop k effs) @ drop (k + nat (sl_limit l)) effs = drop k effs"
      by (metis add.commute append_take_drop_id drop_drop)
    ultimately show ?thesis using c(1) continue page'(2) by (subst walk.simps) simp
  qed
qed

lemma pages_of_snapshot:
  assumes "store_ok db" "sources_ok db" "keys_canonical db" "inj coll" "adapter_ok a"
    and "sid \<notin> sl_id ` set (qa_leases a)" "sid \<noteq> []"
    and acquired: "acquire_snapshot coll sid token connected db query filters limit now a = (Inr page, a')"
    and "token \<notin> fst ` set (qa_cursors a)" "inj tokens" "\<And>i. tokens i \<notin> fst ` set (qa_cursors a')"
    and "\<And>i. nows i < now + qa_ttl a"
  shows "\<exists>l fs effs. sl_db l = db \<and> sl_query l = query \<and> sl_filters l = filters \<and> lease_filters l = Inr fs \<and>
    map_results query_effect_of (ordered_rows coll l fs) = Inr effs \<and>
    walk (length (effects db)) coll tokens nows page a' = Some effs \<and>
    distinct (map (\<lambda>q. (se_kind q, key_json (se_key q))) effs)"
proof -
  define l where "l = \<lparr>sl_db = db, sl_id = sid, sl_query = query, sl_filters = filters,
     sl_limit = limit, sl_expires = now + qa_ttl a\<rparr>"
  let ?e = "evict_expired now a"
  let ?a = "?e\<lparr>qa_leases := qa_leases ?e @ [l]\<rparr>"
  have ttl: "qa_ttl ?e = qa_ttl a" by (simp add: evict_simps)
  from acquired have bounds: "1 \<le> limit" "int (length (qa_leases ?e)) < qa_lease_limit ?e"
    and page: "read_snapshot_page coll token l None ?a = (Inr page, a')"
    by (auto simp: acquire_snapshot_def Let_def ttl l_def split: if_splits sum.splits prod.splits)
  from page obtain fs where fs: "lease_filters l = Inr fs"
    "sl_query l = TRACES \<longrightarrow> enforce_trace_delivery_bound l = None"
    by (auto simp: read_snapshot_page_def snapshot_rows_def bind_result_Inr_iff split: sum.splits if_splits)
  define rows where "rows = ordered_rows coll l fs"
  have db: "sl_db l = db" by (simp add: l_def)
  have store: "store_ok (sl_db l)" "sources_ok (sl_db l)" using assms(1,2) db by simp_all
  obtain effs where effs: "map_results query_effect_of rows = Inr effs"
    and ids: "map (\<lambda>q. (se_kind q, key_json (se_key q))) effs = map (\<lambda>r. (sr_kind r, sr_key r)) rows"
    using rows_convert [of l coll fs] assms(3) db unfolding rows_def by auto
  have few: "length rows \<le> length (effects db)"
    using length_ordered_rows [of coll l fs] db by (simp add: rows_def)
  have start: "delivered l rows 0 ?a"
    using new_lease_delivered [OF assms(5), of l now] assms(6) bounds(2) by (simp add: l_def)
  have rev: "good_revision l" using assms(7) bounds(1) by (simp add: good_revision_def l_def)
  have "token \<notin> fst ` set (qa_cursors ?a)" using evict_fresh(2) [OF assms(5,9), of now] by simp
  from read_page_step [OF _ effs _ rev _ start this, of coll] page rows_def
    snapshot_rows_at [OF assms(4) store fs, of 0] sr_sort_distinct [OF ordered_rows_strict(2) [OF assms(4) store]]
  have first: "sp_resources page = take (nat limit) effs" "delivered l rows (nat limit) a'"
    "leads_on l rows (nat limit) page a'"
    by (simp_all add: start_at_def l_def)
  have "walk (length (effects db)) coll tokens nows page a' = Some (sp_resources page @ drop (nat limit) effs)"
  proof (rule walk_rest [OF assms(4) store fs rows_def effs rev assms(10)])
    show "nows i < sl_expires l" for i using assms(12) by (simp add: l_def)
    show "delivered l rows (min (nat limit) (length rows)) a'"
      using first(2) by (cases "nat limit \<le> length rows") (simp_all add: delivered_def min_def)
  qed (use bounds(1) few first(3) assms(11) in simp_all)
  then have "walk (length (effects db)) coll tokens nows page a' = Some effs" using first(1) by simp
  moreover have "distinct (map (\<lambda>q. (se_kind q, key_json (se_key q))) effs)"
    unfolding ids rows_def by (rule ordered_rows_ids_distinct [OF store(1)])
  ultimately show ?thesis using fs(1) effs rows_def by (intro exI [of _ l]) (auto simp: l_def)
qed

text \<open>
  C25: the pages of a query partition its snapshot.  From the first page, a client that follows
  the cursors before the lease expires gets every page, whatever happens to the database
  meanwhile, and the resources of the pages together are the selected rows of the database at
  the time of the first page: all of them, in order, each exactly once.
\<close>

theorem pages_partition_snapshot:
  assumes "store_ok db" "sources_ok db" "keys_canonical db" "inj coll" "adapter_ok a"
    and "sid \<notin> sl_id ` set (qa_leases a)" "sid \<noteq> []"
    and acquired: "acquire_snapshot coll sid token connected db query filters limit now a = (Inr page, a')"
    and "token \<notin> fst ` set (qa_cursors a)" "inj tokens" "\<And>i. tokens i \<notin> fst ` set (qa_cursors a')"
    and "\<And>i. nows i < now + qa_ttl a"
  shows "\<exists>l fs effs. sl_db l = db \<and> sl_query l = query \<and> sl_filters l = filters \<and> lease_filters l = Inr fs \<and>
    map_results query_effect_of (ordered_rows coll l fs) = Inr effs \<and>
    walk (length (effects db)) coll tokens nows page a' = Some effs \<and>
    distinct (map (\<lambda>q. (se_kind q, key_json (se_key q))) effs)"
  using pages_of_snapshot [OF assms] .

definition fresh_adapter :: query_adapter where
  "fresh_adapter = \<lparr>qa_ttl = seconds 60, qa_lease_limit = 4, qa_leases = [], qa_cursors = [], qa_tokens = []\<rparr>"

lemma make_fresh_adapter: "make_adapter (seconds 60) 4 = Inr fresh_adapter"
  by (simp add: make_adapter_def fresh_adapter_def seconds_def)

lemma fresh_adapter_ok: "adapter_ok fresh_adapter"
  by (simp add: adapter_ok_def fresh_adapter_def)

lemma inj_bytes_rank: "inj bytes_rank"
  by (rule injI) (auto simp: bytes_rank_def list_eq_iff_nth_eq)

text \<open>A query of all facts is answered whenever a lease and a connection are free.\<close>

lemma facts_acquired:
  assumes "store_ok db" "sources_ok db" "keys_canonical db" "inj coll" "adapter_ok a"
    and "sid \<notin> sl_id ` set (qa_leases a)" "sid \<noteq> []" "token \<notin> fst ` set (qa_cursors a)"
    and "int (length (qa_leases a)) < qa_lease_limit a" "1 \<le> limit" "limit \<le> 200"
  shows "\<exists>page a'. acquire_snapshot coll sid token True db FACTS [] limit now a = (Inr page, a') \<and>
    fst ` set (qa_cursors a') \<subseteq> insert token (fst ` set (qa_cursors a))"
proof -
  let ?e = "evict_expired now a"
  define l where "l = \<lparr>sl_db = db, sl_id = sid, sl_query = FACTS, sl_filters = [],
     sl_limit = limit, sl_expires = now + qa_ttl ?e\<rparr>"
  let ?a = "?e\<lparr>qa_leases := qa_leases ?e @ [l]\<rparr>"
  have l: "sl_db l = db" "sl_id l = sid" "sl_limit l = limit" "sl_query l = FACTS" by (simp_all add: l_def)
  have fs: "lease_filters l = Inr []" by (simp add: lease_filters_def l_def)
  have "length (qa_leases ?e) \<le> length (qa_leases a)" by (simp add: evicted_leases [OF assms(5)])
  moreover have "qa_lease_limit ?e = qa_lease_limit a" by (simp add: evict_simps)
  ultimately have free: "int (length (qa_leases ?e)) < qa_lease_limit ?e" using assms(9) by linarith
  obtain effs where effs: "map_results query_effect_of (ordered_rows coll l []) = Inr effs"
    using rows_convert [of l coll "[]"] assms(3) l(1) by auto
  have rows: "snapshot_rows coll l (start_at (ordered_rows coll l []) 0) =
      Inr (take (nat (sl_limit l) + 1) (drop 0 (ordered_rows coll l [])))"
    using snapshot_rows_at [OF assms(4) _ _ fs, of 0] assms(1,2) l by simp
  have distinct: "distinct (map sr_sort (ordered_rows coll l []))"
    using ordered_rows_strict(2) [OF assms(4), of l] assms(1,2) l(1) sr_sort_distinct by blast
  have start: "delivered l (ordered_rows coll l []) 0 ?a"
    using new_lease_delivered [OF assms(5) _ free, of l] assms(6) l(2) by simp
  have "good_revision l" using assms(7,10) l by (simp add: good_revision_def)
  moreover have "token \<notin> fst ` set (qa_cursors ?a)" using evict_fresh(2) [OF assms(5,8), of now] by simp
  ultimately obtain page a' where page: "read_snapshot_page coll token l None ?a = (Inr page, a')"
    and cursors: "fst ` set (qa_cursors a') \<subseteq> insert token (fst ` set (qa_cursors ?a))"
    using read_page_step [OF rows effs distinct _ _ start, of token] by (auto simp: start_at_def)
  have "fst ` set (qa_cursors ?a) \<subseteq> fst ` set (qa_cursors a)"
    using fold_release_cursors_subset [OF assms(5)] by (auto simp: evict_expired_def)
  with cursors have "fst ` set (qa_cursors a') \<subseteq> insert token (fst ` set (qa_cursors a))" by blast
  moreover have "acquire_snapshot coll sid token True db FACTS [] limit now a = (Inr page, a')"
    using free assms(10,11) page by (simp add: acquire_snapshot_def Let_def l_def)
  ultimately show ?thesis by blast
qed

theorem pages_partition_snapshot_witness:
  "\<exists>page a' l fs effs. acquire_snapshot bytes_rank ''s'' ''t'' True sample_db FACTS [] 1 0 fresh_adapter = (Inr page, a') \<and>
     lease_filters l = Inr fs \<and> map_results query_effect_of (ordered_rows bytes_rank l fs) = Inr effs \<and>
     walk (length (effects sample_db)) bytes_rank (\<lambda>i. replicate (Suc i) CHR ''u'') (\<lambda>i. 7) page a' = Some effs"
proof -
  note ok = reachable_ok(1,3) [OF sample_db_reachable] reachable_sources [OF sample_db_reachable]
  obtain page a' where acquired: "acquire_snapshot bytes_rank ''s'' ''t'' True sample_db FACTS [] 1 0 fresh_adapter =
      (Inr page, a')" and cursors: "fst ` set (qa_cursors a') \<subseteq> {''t''}"
    using facts_acquired [OF ok(1,3,2) inj_bytes_rank fresh_adapter_ok, of "''s''" "''t''" 1 0]
    by (auto simp: fresh_adapter_def)
  have "inj (\<lambda>i. replicate (Suc i) CHR ''u'')" by (rule injI) (metis Suc_inject length_replicate)
  moreover have "replicate (Suc i) CHR ''u'' \<notin> fst ` set (qa_cursors a')" for i
    using cursors by (cases i) auto
  moreover have "7 < 0 + qa_ttl fresh_adapter" by (simp add: fresh_adapter_def seconds_def)
  ultimately show ?thesis
    using pages_partition_snapshot [OF ok(1,3,2) inj_bytes_rank fresh_adapter_ok _ _ acquired,
        of "\<lambda>i. replicate (Suc i) CHR ''u''" "\<lambda>i. 7"] acquired
    by (simp add: fresh_adapter_def) blast
qed

section \<open>Leases over time\<close>

text \<open>
  C26: leases are bounded and leave nothing behind.  Over any sequence of operations an adapter
  never holds more leases than its limit, which is at most 8, no two of them under the same id,
  and every cursor it still answers belongs to a lease it still holds.
\<close>

theorem leases_bounded:
  assumes "make_adapter ttl n = Inr a0" "adapter_step\<^sup>*\<^sup>* a0 a"
  shows "int (length (qa_leases a)) \<le> qa_lease_limit a0 \<and> qa_lease_limit a0 \<le> 8 \<and>
    distinct (map sl_id (qa_leases a)) \<and>
    (\<lambda>(t, sid, p). sid) ` set (qa_cursors a) \<subseteq> sl_id ` set (qa_leases a)"
proof -
  from assms(1) have a0: "adapter_ok a0" "qa_lease_limit a0 \<le> 8"
    by (auto simp: make_adapter_def adapter_ok_def)
  from assms(2) a0(1) have "adapter_ok a \<and> qa_lease_limit a = qa_lease_limit a0"
  proof (induction rule: rtranclp_induct)
    case (step y z)
    then show ?case using adapter_step_ok adapter_step_limit by metis
  qed simp
  with a0(2) show ?thesis by (auto simp: adapter_ok_def key_unique_def)
qed

theorem leases_bounded_witness:
  "int (length (qa_leases (close_adapter fresh_adapter))) \<le> 4 \<and>
   distinct (map sl_id (qa_leases (close_adapter fresh_adapter)))"
  using leases_bounded [OF make_fresh_adapter, of "close_adapter fresh_adapter"]
    adapter_step.close [of fresh_adapter]
  by (auto simp: fresh_adapter_def)

text \<open>
  C27: an expired lease is never read.  From the instant a lease expires its cursors are refused
  as expired, and the adapter no longer holds the lease.
\<close>

theorem expired_lease_refused:
  assumes "adapter_ok a" "map_of (qa_cursors a) cursor = Some (sid, p)" "lease_with sid a = Some l"
    and "sl_expires l \<le> now"
  shows "\<exists>a'. continue_snapshot coll token cursor now a =
      (Inl (Snapshot_Error Fault_Expired ''snapshot cursor is unavailable''), a') \<and>
    lease_with sid a' = None"
proof -
  let ?e = "evict_expired now a"
  from assms(3) have l: "l \<in> set (qa_leases a)" "sl_id l = sid"
    using row_with_SomeD by (force simp: lease_with_def)+
  have unique: "key_unique sl_id (qa_leases a)" using assms(1) by (simp add: adapter_ok_def)
  have gone: "sid \<notin> sl_id ` set (qa_leases ?e)"
  proof
    assume "sid \<in> sl_id ` set (qa_leases ?e)"
    then obtain l' where "l' \<in> set (qa_leases a)" "sl_id l' = sid" "now < sl_expires l'"
      by (auto simp: evicted_leases [OF assms(1)])
    with row_with_key_unique [OF unique, of l'] assms(3,4) show False by (simp add: lease_with_def)
  qed
  have "map_of (qa_cursors ?e) cursor = None"
  proof (rule ccontr)
    assume "map_of (qa_cursors ?e) cursor \<noteq> None"
    then obtain sid' p' where e: "(cursor, sid', p') \<in> set (qa_cursors ?e)" by (auto dest: map_of_SomeD)
    with fold_release_cursors_subset [OF assms(1)] have "(cursor, sid', p') \<in> set (qa_cursors a)"
      by (auto simp: evict_expired_def)
    with assms(1,2) have "sid' = sid" by (simp add: adapter_ok_def map_of_is_SomeI)
    with e evict_ok [OF assms(1), of now] gone show False by (force simp: adapter_ok_def)
  qed
  with gone show ?thesis by (simp add: continue_snapshot_def lease_with_def row_with_None_iff)
qed

definition leased_adapter :: query_adapter where
  "leased_adapter = fresh_adapter\<lparr>
     qa_leases := [\<lparr>sl_db = empty_db, sl_id = ''s'', sl_query = FACTS, sl_filters = [], sl_limit = 1,
                     sl_expires = 5\<rparr>],
     qa_cursors := [(''c'', ''s'', (Sort_Int 1, Sort_Int 2, Sort_Int 3))]\<rparr>"

theorem expired_lease_refused_witness:
  "\<exists>a'. continue_snapshot bytes_rank ''t'' ''c'' 5 leased_adapter =
      (Inl (Snapshot_Error Fault_Expired ''snapshot cursor is unavailable''), a') \<and> lease_with ''s'' a' = None"
  by (rule expired_lease_refused [where p = "(Sort_Int 1, Sort_Int 2, Sort_Int 3)" and l = "hd (qa_leases leased_adapter)"])
     (simp_all add: leased_adapter_def fresh_adapter_def adapter_ok_def key_unique_def lease_with_def row_with_Cons)

end
