(* ===== verification/Query_Properties.thy ===== *)
theory Query_Properties
  imports Query_Facts Calendar Snapshot_Properties "HOL-Library.Multiset"
begin

text \<open>
  The properties of the query side: parameters have one normal form, timestamps survive being
  written and read, no query leaves a snapshot behind that the client cannot reach or the
  service cannot justify, and what expiry, completeness and digests withhold is withheld.
\<close>

section \<open>Parameters\<close>

text \<open>
  C30: timestamps survive writing and reading.  Every instant of the years 1 to 9999, written as
  the service writes it, is read back as the same instant: the written text has the shape the
  query parameters require, its day is a day of the calendar, and nothing below the microsecond
  is lost.
\<close>

theorem timestamp_round_trip:
  assumes "FIRST_INSTANT \<le> t" "t \<le> LAST_INSTANT"
  shows "parse_utc (timestamp t) = Inr t"
  using assms by (rule parse_timestamp)

theorem timestamp_round_trip_witness: "parse_utc (timestamp (- 1)) = Inr (- 1)"
  by (rule timestamp_round_trip) (simp_all add: FIRST_INSTANT_def LAST_INSTANT_def LAST_DAY_def days_def
      days_of_civil_def)

lemma map_results_mset:
  assumes "map_results f xs = Inr ys" "mset xs' = mset xs"
  obtains ys' where "map_results f xs' = Inr ys'" "mset ys' = mset ys"
  using list_all2_reorder_left_invariance [of "\<lambda>x y. f x = Inr y" xs ys xs'] assms
  unfolding map_results_list_all2 by blast

lemma normal_form_mset:
  assumes "mset ps' = mset ps" "distinct (map fst ps)"
  shows "distinct (map fst ps')" "map_of ps' = map_of ps" "set ps' = set ps"
proof -
  from assms(1) have "mset (map fst ps') = mset (map fst ps)" by simp
  with assms(2) show d: "distinct (map fst ps')" using mset_eq_imp_distinct_iff by blast
  show s: "set ps' = set ps" using assms(1) by (rule mset_eq_setD)
  from d assms(2) s show "map_of ps' = map_of ps" by (simp add: map_of_inject_set)
qed

lemma sort_by_name_unique:
  assumes "mset xs = mset ys" "distinct (map fst xs)"
  shows "sort_key fst xs = sort_key fst (ys :: params)"
  by (rule sort_key_inj_key_eq) (use assms in \<open>simp_all add: distinct_map\<close>)

text \<open>
  C29: the order of the parameters does not matter.  Two requests with the same parameters in any
  order have the same normal form, so they ask for the same first page and share its cursors.
\<close>

theorem parameter_order_irrelevant:
  assumes "normalize ps route = Inr nq" "mset ps' = mset ps"
  shows "normalize ps' route = Inr nq"
proof -
  obtain filters cursor limit where nq: "nq = (filters, cursor, limit)" by (cases nq)
  from assms(1) [unfolded nq] obtain vs where shape: "first_error (shape_checks ps route) = None"
    and limit: "page_limit ps = Inr limit" and valid: "validate_filter_values ps route = None"
    and cursor: "cursor = map_of ps ''cursor''"
    and vs: "map_results normal_value (filter (\<lambda>p. fst p \<notin> {''cursor'', ''limit''}) ps
       @ [(''limit'', int_str limit)]) = Inr vs" and filters: "filters = sort_key fst vs"
    by (rule normalize_Inr)
  from shape have distinct: "distinct (map fst ps)" by (auto simp: shape_checks_def)
  note same = normal_form_mset [OF assms(2) distinct]
  have "first_error (shape_checks ps' route) = None"
    using shape same(1,3) distinct by (simp add: shape_checks_def list_all_iff list_ex_iff)
  moreover have "page_limit ps' = Inr limit" using limit by (simp add: page_limit_def same(2))
  moreover have "validate_filter_values ps' route = None" using valid
    by (simp only: validate_filter_values_def fact_checks_def when_param_def interval_check_def
        parsed_bound_def same(2))
  moreover obtain vs' where vs': "map_results normal_value (filter (\<lambda>p. fst p \<notin> {''cursor'', ''limit''}) ps'
       @ [(''limit'', int_str limit)]) = Inr vs'" "mset vs' = mset vs"
    by (rule map_results_mset [OF vs, of "filter (\<lambda>p. fst p \<notin> {''cursor'', ''limit''}) ps' @ [(''limit'', int_str limit)]"])
       (simp_all add: assms(2))
  moreover have "sort_key fst vs' = sort_key fst vs"
  proof (rule sort_by_name_unique [OF vs'(2)])
    have "distinct (map fst (filter (\<lambda>p. fst p \<notin> {''cursor'', ''limit''}) ps' @ [(''limit'', int_str limit)]))"
      using same(1) by (auto simp: distinct_map_filter)
    with normal_values_keys [OF vs'(1)] show "distinct (map fst vs')" by simp
  qed
  ultimately show ?thesis by (simp add: normalize_def nq cursor filters same(2))
qed

theorem parameter_order_irrelevant_witness:
  "\<exists>nq. normalize [(''limit'', ''7''), (''kind'', ''ROLE_LINEAGE'')] FACTS = Inr nq \<and>
        normalize [(''kind'', ''ROLE_LINEAGE''), (''limit'', ''7'')] FACTS = Inr nq"
proof -
  have "normalize [(''limit'', ''7''), (''kind'', ''ROLE_LINEAGE'')] FACTS =
      Inr ([(''kind'', ''ROLE_LINEAGE''), (''limit'', ''7'')], None, 7)"
    by code_simp
  with parameter_order_irrelevant [OF this, of "[(''kind'', ''ROLE_LINEAGE''), (''limit'', ''7'')]"]
  show ?thesis by auto
qed

definition time_filters :: "string list" where
  "time_filters = [''recorded_from'', ''recorded_to'', ''as_of'']"

lemma normal_value_time:
  "normal_value p = Inr q \<Longrightarrow> fst q \<in> set time_filters \<Longrightarrow> \<exists>t. snd q = timestamp t \<and> parse_utc (snd q) = Inr t"
  by (auto simp: normal_value_def time_filters_def bind_result_Inr_iff parse_utc_canonical split: if_splits)

lemma normal_form_facts:
  assumes "normalize ps route = Inr (filters, cursor, limit)"
  shows "1 \<le> limit \<and> limit \<le> 200" "sorted (map fst filters) \<and> distinct (map fst filters)"
    and "fst ` set filters \<subseteq> set (allowed_names route) - {''cursor''}"
    and "map_of filters ''limit'' = Some (int_str limit)" "cursor = map_of ps ''cursor''"
    and "n \<in> set time_filters \<Longrightarrow> map_of filters n = Some v \<Longrightarrow> \<exists>t. v = timestamp t \<and> parse_utc v = Inr t"
proof -
  let ?own = "filter (\<lambda>p. fst p \<notin> {''cursor'', ''limit''}) ps @ [(''limit'', int_str limit)]"
  from assms obtain vs where shape: "first_error (shape_checks ps route) = None"
    and limit: "page_limit ps = Inr limit" and cursor: "cursor = map_of ps ''cursor''"
    and vs: "map_results normal_value ?own = Inr vs" and filters: "filters = sort_key fst vs"
    by (rule normalize_Inr)
  from shape have distinct: "distinct (map fst ps)" and names: "fst ` set ps \<subseteq> set (allowed_names route)"
    by (auto simp: shape_checks_def list_all_iff)
  have keys: "map fst vs = map fst ?own" using vs by (rule normal_values_keys)
  have d: "distinct (map fst vs)" unfolding keys using distinct by (auto simp: distinct_map_filter)
  have mset: "mset filters = mset vs" by (simp add: filters)
  note same = normal_form_mset [OF mset d]
  have "fst ` set filters = fst ` set ?own" using arg_cong [OF keys, of set] same(3) by simp
  moreover have "''limit'' \<in> set (allowed_names route)" by (simp add: allowed_names_def)
  ultimately have "fst ` set filters \<subseteq> set (allowed_names route) - {''cursor''}" using names by auto
  moreover have "map_of filters ''limit'' = Some (int_str limit)"
  proof -
    have "length vs = length ?own" using vs by (rule map_results_Inr_length)
    then have "vs \<noteq> []" by auto
    with map_results_Inr_nth [OF vs, of "length ?own - 1"] \<open>length vs = length ?own\<close>
    have "last vs = (''limit'', int_str limit)" by (simp add: last_conv_nth nth_append normal_value_def)
    with \<open>vs \<noteq> []\<close> last_in_set have "(''limit'', int_str limit) \<in> set vs" by force
    with d show ?thesis by (simp add: same(2))
  qed
  moreover have "\<exists>t. v = timestamp t \<and> parse_utc v = Inr t"
    if "n \<in> set time_filters" "map_of filters n = Some v" for n v
  proof -
    from that(2) same(2) have "(n, v) \<in> set vs" by (auto dest: map_of_SomeD)
    then obtain i where "i < length ?own" "vs ! i = (n, v)"
      using map_results_Inr_length [OF vs] by (auto simp: in_set_conv_nth)
    with map_results_Inr_nth [OF vs] obtain p where "normal_value p = Inr (n, v)" by metis
    from normal_value_time [OF this] that(1) show ?thesis by simp
  qed
  ultimately show "1 \<le> limit \<and> limit \<le> 200" "sorted (map fst filters) \<and> distinct (map fst filters)"
    "fst ` set filters \<subseteq> set (allowed_names route) - {''cursor''}"
    "map_of filters ''limit'' = Some (int_str limit)" "cursor = map_of ps ''cursor''"
    "n \<in> set time_filters \<Longrightarrow> map_of filters n = Some v \<Longrightarrow> \<exists>t. v = timestamp t \<and> parse_utc v = Inr t"
    using page_limit_Inr [OF limit] same(1) cursor by (simp_all add: filters)
qed

text \<open>
  What the read model is asked is in normal form.  Once a request is normalised its page
  limit lies between 1 and 200, its filters are sorted by name without duplicates, every name is
  one the route allows, the limit is among them and the cursor is not, and every time filter is
  the canonical text of an instant.
\<close>

theorem query_normal_form:
  assumes "normalize ps route = Inr (filters, cursor, limit)"
  shows "1 \<le> limit \<and> limit \<le> 200 \<and> sorted (map fst filters) \<and> distinct (map fst filters) \<and>
    fst ` set filters \<subseteq> set (allowed_names route) - {''cursor''} \<and>
    map_of filters ''limit'' = Some (int_str limit) \<and> cursor = map_of ps ''cursor'' \<and>
    (\<forall>n \<in> set time_filters. \<forall>v. map_of filters n = Some v \<longrightarrow> (\<exists>t. v = timestamp t \<and> parse_utc v = Inr t))"
  using normal_form_facts [OF assms] by blast

theorem query_normal_form_witness:
  "\<exists>limit. 1 \<le> limit \<and> limit \<le> 200 \<and>
     normalize [(''limit'', '' +7''), (''kind'', ''ROLE_LINEAGE'')] FACTS =
       Inr ([(''kind'', ''ROLE_LINEAGE''), (''limit'', ''7'')], None, limit)"
proof -
  have n: "normalize [(''limit'', '' +7''), (''kind'', ''ROLE_LINEAGE'')] FACTS =
      Inr ([(''kind'', ''ROLE_LINEAGE''), (''limit'', ''7'')], None, 7)"
    by code_simp
  from query_normal_form [OF this] n show ?thesis by blast
qed

section \<open>Snapshots\<close>

text \<open>The three routes that read snapshots.\<close>

definition query_call ::
  "'m read_model \<Rightarrow> retention_policy \<Rightarrow> instant \<Rightarrow> query_route \<Rightarrow> params \<Rightarrow> 'm query_state \<Rightarrow>
   pydict result \<times> 'm query_state" where
  "query_call rm policy now route ps s = (case route of
       FACTS \<Rightarrow> facts rm policy now ps s
     | TRACES \<Rightarrow> traces rm policy now ps s
     | TASKS \<Rightarrow> tasks rm now ps s)"

definition names_page :: "pydict \<Rightarrow> snapshot_page \<Rightarrow> bool" where
  "names_page response page \<longleftrightarrow> dget response ''snapshot'' = VStr (sp_snapshot page) \<and>
     dget response ''next_cursor'' = text_value (sp_next page)"

lemma facts_page_names: "facts_page rm ttl m page = Inr response \<Longrightarrow> names_page response page"
  by (auto simp: facts_page_def bind_result_Inr_iff names_page_def query_envelope_def page_envelope_def dget_def)

lemma tasks_page_names: "tasks_page b m page = Inr response \<Longrightarrow> names_page response page"
  by (auto simp: tasks_page_def bind_result_Inr_iff names_page_def task_envelope_def page_envelope_def dget_def)

text \<open>A query is refused before it reaches the read model, or answered from a page.\<close>

lemma query_call_cases:
  assumes "query_call rm policy now route ps s = (r, s')"
  obtains (refused) e where "s' = s" "r = Inl e"
    | (named) nq shape_page where "answer rm now route nq shape_page s = (r, s')"
        "\<And>m page response. shape_page m page = Inr response \<Longrightarrow> names_page response page"
    | (traced) filters cursor limit ttl where "route = TRACES"
        "answer rm now TRACES (filters, cursor, limit) (traces_page rm ttl) s = (r, s')"
        "normalize ps TRACES = Inr (filters, cursor, limit)"
        "''trace_id'' \<in> fst ` set filters \<or> ''delivery_id'' \<in> fst ` set filters"
proof (cases "normalize ps route")
  case (Inl e)
  with assms show thesis
    by (intro refused [of e]) (auto simp: query_call_def facts_def traces_def tasks_def split: query_route.splits)
next
  case (Inr nq)
  obtain filters cursor limit where nq: "nq = (filters, cursor, limit)" by (cases nq)
  show thesis
  proof (cases route)
    case FACTS
    with assms Inr show thesis
      by (intro named [of nq "facts_page rm (rp_factual_projection_ttl policy)"])
         (auto simp: query_call_def facts_def intro: facts_page_names)
  next
    case TRACES
    show thesis
    proof (cases "(''trace_id'' \<in> fst ` set filters) = (''delivery_id'' \<in> fst ` set filters)")
      case True
      with TRACES assms Inr show thesis
        by (intro refused [of "bad_filter ''exactly one trace_id or delivery_id is required''"])
           (simp_all add: nq query_call_def traces_def)
    next
      case False
      with TRACES assms Inr show thesis
        by (intro traced [of filters cursor limit "rp_trace_detail_ttl policy"])
           (auto simp: nq query_call_def traces_def)
    qed
  next
    case TASKS
    with assms Inr refused named [of nq "tasks_page (''task_id'' \<in> fst ` set filters \<or> ''as_of'' \<in> fst ` set filters)"]
    show thesis
      by (auto simp: nq query_call_def tasks_def Let_def intro: tasks_page_names split: if_splits)
  qed
qed

lemma trace_filter_names:
  assumes "normalize ps TRACES = Inr (filters, cursor, limit)"
  shows "fst ` set filters \<subseteq> {''limit'', ''trace_id'', ''delivery_id''}"
  using normal_form_facts(3) [OF assms] by (auto simp: allowed_names_def)

text \<open>
  C28: a query leaves no snapshot behind that the client cannot reach.  Whatever the parameters,
  the state of the database and of the leases, and whichever step fails, after a query of facts,
  Traces or Tasks the adapter holds no lease it did not hold before, unless the query was
  answered, and the response names that snapshot and a cursor for its next page.  In particular
  a Trace response that hides its cursor because all detail has expired never keeps a lease.
\<close>

theorem no_snapshot_leak:
  assumes "\<And>a. sid a \<notin> held_leases a" "\<And>a. token a \<notin> fst ` set (qa_cursors a)"
    and "adapter_ok (qs_model s)"
    and "query_call (pg_model coll sid token connected db) policy now route ps s = (r, s')"
  shows "adapter_ok (qs_model s') \<and>
    (held_leases (qs_model s') \<subseteq> held_leases (qs_model s) \<or>
     (\<exists>response id cursor. r = Inr response \<and> dget response ''snapshot'' = VStr id \<and>
        dget response ''next_cursor'' = VStr cursor \<and>
        held_leases (qs_model s') \<subseteq> insert id (held_leases (qs_model s))))"
proof -
  have texts: "random_texts sid token" by (rule random_texts.intro) (use assms(1,2) in auto)
  note held = random_texts.pg_answer_held [OF texts assms(3)]
  from assms(4) show ?thesis
  proof (cases rule: query_call_cases)
    case refused
    with assms(3) show ?thesis by simp
  next
    case (named nq shape_page)
    from held [OF named(1)] named(2) show ?thesis unfolding names_page_def text_value_def by fastforce
  next
    case (traced filters cursor limit ttl)
    note names = trace_filter_names [OF traced(3)]
    from held [OF traced(2)] random_texts.pg_traces_state [OF texts assms(3) _ _ names traced(4)]
    show ?thesis unfolding text_value_def by fastforce
  qed
qed

definition class_policy :: retention_policy where
  "class_policy = \<lparr>rp_raw_debug_ttl = 0, rp_trace_detail_ttl = Some (days 30),
     rp_factual_projection_ttl = None, rp_batch_size = 500, rp_interval = seconds 60\<rparr>"

definition fresh_state :: "query_adapter query_state" where
  "fresh_state = \<lparr>qs_model = fresh_adapter, qs_bindings = []\<rparr>"

theorem no_snapshot_leak_witness:
  "\<exists>r s'. query_call (pg_model bytes_rank next_sid next_token True sample_db) class_policy 0 FACTS [] fresh_state
       = (r, s') \<and> adapter_ok (qs_model s') \<and>
     (\<forall>e. r \<noteq> Inl e \<or> held_leases (qs_model s') = {})"
proof -
  obtain r s' where call: "query_call (pg_model bytes_rank next_sid next_token True sample_db) class_policy 0
      FACTS [] fresh_state = (r, s')" by force
  have "adapter_ok (qs_model fresh_state)" "held_leases (qs_model fresh_state) = {}"
    using fresh_adapter_ok by (simp_all add: fresh_state_def fresh_adapter_def held_leases_def)
  with no_snapshot_leak [OF pg.fresh_sid pg.fresh_token _ call] call show ?thesis by blast
qed

definition last_page :: snapshot_page where
  "last_page = \<lparr>sp_contract = ''0.1.0'', sp_revision = ''1.0.0'', sp_snapshot = ''s'', sp_resources = [],
     sp_next = Some ''c''\<rparr>"

text \<open>
  How a query of one of the three routes goes on from its normal form: it is refused for the
  combination of its filters, or answered from a page whose cursor the response names or hides.
\<close>

definition may_name :: "pydict \<Rightarrow> snapshot_page \<Rightarrow> bool" where
  "may_name response page \<longleftrightarrow> dget response ''next_cursor'' \<in> {text_value (sp_next page), VNone}"

lemma names_may_name: "names_page response page \<Longrightarrow> may_name response page"
  by (simp add: names_page_def may_name_def)

lemma traces_page_may_name: "traces_page rm ttl m page = Inr response \<Longrightarrow> may_name response page"
  by (auto simp: traces_page_def bind_result_Inr_iff Let_def may_name_def dget_dset split: if_splits)
    (simp_all add: query_envelope_def page_envelope_def)

lemma query_call_normal:
  assumes "normalize ps route = Inr nq" "query_call rm policy now route ps s = (r, s')"
  obtains (refused) m where "s' = s" "r = Inl (bad_filter m)"
    | (answered) shape_page where "answer rm now route nq shape_page s = (r, s')"
        "\<And>m page response. shape_page m page = Inr response \<Longrightarrow> may_name response page"
proof (cases route)
  case FACTS
  with assms show thesis
    by (intro answered [of "facts_page rm (rp_factual_projection_ttl policy)"])
      (auto simp: query_call_def facts_def intro: names_may_name facts_page_names)
next
  case TRACES
  obtain filters cursor limit where nq: "nq = (filters, cursor, limit)" by (cases nq)
  show thesis
  proof (cases "(''trace_id'' \<in> fst ` set filters) = (''delivery_id'' \<in> fst ` set filters)")
    case True
    with TRACES assms nq show thesis
      by (intro refused [of "''exactly one trace_id or delivery_id is required''"]) (simp_all add: query_call_def traces_def)
  next
    case False
    with TRACES assms nq show thesis
      by (intro answered [of "traces_page rm (rp_trace_detail_ttl policy)"])
        (auto simp: query_call_def traces_def intro: traces_page_may_name)
  qed
next
  case TASKS
  obtain filters cursor limit where nq: "nq = (filters, cursor, limit)" by (cases nq)
  let ?membership = "''task_id'' \<in> fst ` set filters \<or> ''as_of'' \<in> fst ` set filters"
  show thesis
  proof (cases "?membership \<and> \<not> {''task_id'', ''as_of''} \<subseteq> fst ` set filters")
    case True
    with TASKS assms nq show thesis
      by (intro refused [of "''task_id and as_of are required together''"]) (simp_all add: query_call_def tasks_def Let_def)
  next
    case False
    from TASKS assms nq have "answer rm now route nq (tasks_page ?membership) s = (r, s')"
      by (simp add: query_call_def tasks_def Let_def split: if_splits) (use False in auto)
    then show thesis by (intro answered [of "tasks_page ?membership"]) (auto intro: names_may_name tasks_page_names)
  qed
qed

text \<open>The cursor that the read model gives for the page of a query, and the further life of a service.\<close>

definition handed :: "'m read_model \<Rightarrow> instant \<Rightarrow> query_route \<Rightarrow> params \<Rightarrow> 'm query_state \<Rightarrow> string option" where
  "handed rm now route ps s = (case normalize ps route of
       Inl _ \<Rightarrow> None
     | Inr (filters, cursor, limit) \<Rightarrow> (case fst (query_page rm now route filters cursor limit s) of
           Inl _ \<Rightarrow> None
         | Inr page \<Rightarrow> sp_next page))"

inductive serves :: "'m read_model \<Rightarrow> string \<Rightarrow> 'm query_state \<Rightarrow> 'm query_state \<Rightarrow> bool" for rm c where
  serves_none: "serves rm c s s"
| serves_query: "serves rm c s s1 \<Longrightarrow> query_call rm policy now route ps s1 = (r, s2) \<Longrightarrow>
    handed rm now route ps s1 \<noteq> Some c \<Longrightarrow> serves rm c s s2"

lemma query_page_binding:
  assumes "query_page rm now q fs cursor n s = (r, s')"
  shows "map_of (qs_bindings s') c = (case r of
      Inr page \<Rightarrow> if sp_next page = Some c then Some (q, fs, n) else map_of (qs_bindings s) c
    | Inl e \<Rightarrow> map_of (qs_bindings s) c)"
  using assms by (auto simp: query_page_def Let_def split: prod.splits sum.splits option.splits)

lemma answer_binding:
  assumes "answer rm now q (fs, cursor, n) shape_page s = (r, s')"
  shows "map_of (qs_bindings s') c = (case fst (query_page rm now q fs cursor n s) of
      Inr page \<Rightarrow> if sp_next page = Some c then Some (q, fs, n) else map_of (qs_bindings s) c
    | Inl e \<Rightarrow> map_of (qs_bindings s) c)"
proof -
  obtain x s1 where page: "query_page rm now q fs cursor n s = (x, s1)" by force
  with assms have "qs_bindings s' = qs_bindings s1"
    by (auto simp: answer_def release_def split: sum.splits if_splits)
  with query_page_binding [OF page, of c] page show ?thesis by simp
qed

lemma query_call_binding:
  assumes "query_call rm policy now route ps s = (r, s')" "handed rm now route ps s \<noteq> Some c"
  shows "map_of (qs_bindings s') c = map_of (qs_bindings s) c"
proof (cases "normalize ps route")
  case (Inl e)
  with assms(1) show ?thesis
    by (auto simp: query_call_def facts_def traces_def tasks_def split: query_route.splits)
next
  case (Inr nq)
  obtain fs cursor n where nq: "nq = (fs, cursor, n)" by (cases nq)
  from Inr assms(1) show ?thesis
  proof (cases rule: query_call_normal)
    case (answered shape_page)
    from answer_binding [OF answered(1) [unfolded nq], of c] assms(2) Inr nq show ?thesis
      by (auto simp: handed_def split: sum.splits)
  qed simp
qed

lemma serves_binding: "serves rm c s s' \<Longrightarrow> map_of (qs_bindings s') c = map_of (qs_bindings s) c"
  by (induction rule: serves.induct) (simp_all add: query_call_binding)

text \<open>
  C31: a cursor belongs to the query it came from, for good.  Suppose a response named a cursor,
  and then the service answered any number of further queries on any routes, valid or not, in
  none of which the read model gave the same text again for another page.  If the cursor now
  comes back with another route, other filters or another page limit, the request is refused, with
  CURSOR_MISMATCH unless its filters are already refused for their combination, the read model is
  not asked and the state of the service does not change.
\<close>

theorem cursor_bound_to_query:
  assumes "query_call rm policy now q ps s = (Inr response, s1)" "normalize ps q = Inr (fs, cursor, n)"
    and "dget response ''next_cursor'' = VStr c" "serves rm c s1 s2" "fullmatch CURSOR_TEXT c"
    and "normalize ps' q' = Inr (fs', Some c, n')" "(q', fs', n') \<noteq> (q, fs, n)"
  shows "query_page rm later q' fs' (Some c) n' s2 =
      (Inl (Query_Error CURSOR_MISMATCH ''cursor parameters do not match the first page''), s2) \<and>
    (\<exists>code m. query_call rm policy' later q' ps' s2 = (Inl (Query_Error code m), s2) \<and>
       code \<in> {CURSOR_MISMATCH, INVALID_FILTER})"
proof -
  from assms(2,1) have "map_of (qs_bindings s1) c = Some (q, fs, n)"
  proof (cases rule: query_call_normal)
    case (answered shape_page)
    from answered(1) obtain page sp where page: "query_page rm now q fs cursor n s = (Inr page, sp)"
      and "shape_page (qs_model sp) page = Inr response"
      by (auto simp: answer_def split: prod.splits sum.splits)
    from answered(2) [OF this(2)] assms(3) have "sp_next page = Some c"
      by (auto simp: may_name_def text_value_def split: option.splits)
    with answer_binding [OF answered(1), of c] page show ?thesis by simp
  qed simp
  with serves_binding [OF assms(4)] have "map_of (qs_bindings s2) c = Some (q, fs, n)" by simp
  then have "cursor_check (qs_bindings s2) (q', fs', n') c =
      Some (Query_Error CURSOR_MISMATCH ''cursor parameters do not match the first page'')"
    using assms(5,7) by (auto simp: cursor_check_def)
  then have mismatch: "query_page rm later q' fs' (Some c) n' s2 =
      (Inl (Query_Error CURSOR_MISMATCH ''cursor parameters do not match the first page''), s2)"
    by (simp add: query_page_def page_error_def)
  obtain r s3 where call: "query_call rm policy' later q' ps' s2 = (r, s3)" by force
  from assms(6) call have "\<exists>code m. r = Inl (Query_Error code m) \<and> s3 = s2 \<and> code \<in> {CURSOR_MISMATCH, INVALID_FILTER}"
  proof (cases rule: query_call_normal)
    case (answered shape_page)
    with mismatch show ?thesis by (auto simp: answer_def)
  qed (simp add: bad_filter_def)
  with call mismatch show ?thesis by auto
qed

definition two_page_model :: "unit read_model" where
  "two_page_model =
     \<lparr>rm_acquire = (\<lambda>q fs n now m. (Inr (last_page\<lparr>sp_next := Some (replicate 43 CHR ''c'')\<rparr>), m)),
      rm_continue = (\<lambda>c now m. (Inr last_page, m)), rm_expiry = (\<lambda>c k key sid m. Inr None),
      rm_summaries = (\<lambda>sid m. Inr []), rm_release = (\<lambda>sid m. m), rm_manifest = (\<lambda>d m. Inr None)\<rparr>"

theorem cursor_bound_to_query_witness:
  "\<exists>s1 s2 code m. serves two_page_model (replicate 43 CHR ''c'') s1 s2 \<and>
     query_call two_page_model class_policy 2 FACTS [(''cursor'', replicate 43 CHR ''c''), (''limit'', ''50'')] s2 =
       (Inl (Query_Error code m), s2) \<and> code \<in> {CURSOR_MISMATCH, INVALID_FILTER}"
proof -
  let ?c = "replicate 43 CHR ''c''" and ?s = "\<lparr>qs_model = (), qs_bindings = []\<rparr>"
  have first: "normalize [] FACTS = Inr ([(''limit'', ''100'')], None, 100)" by code_simp
  have again: "normalize [(''cursor'', ?c)] FACTS = Inr ([(''limit'', ''100'')], Some ?c, 100)" by code_simp
  have other: "normalize [(''cursor'', ?c), (''limit'', ''50'')] FACTS = Inr ([(''limit'', ''50'')], Some ?c, 50)"
    by code_simp
  have shaped: "fullmatch CURSOR_TEXT ?c" by code_simp
  obtain response s1 where one: "query_call two_page_model class_policy 0 FACTS [] ?s = (Inr response, s1)"
    and named: "dget response ''next_cursor'' = VStr ?c"
    by (simp add: query_call_def facts_def first answer_def query_page_def two_page_model_def facts_page_def
        last_page_def query_envelope_def page_envelope_def dget_def text_value_def Let_def)
  obtain r s2 where two: "query_call two_page_model class_policy 1 FACTS [(''cursor'', ?c)] s1 = (r, s2)" by force
  have "''c'' \<noteq> ?c" by (auto dest: arg_cong [where f = length])
  then have "handed two_page_model 1 FACTS [(''cursor'', ?c)] s1 \<noteq> Some ?c"
    by (simp add: handed_def again query_page_def two_page_model_def last_page_def Let_def split: option.splits)
  with two have served: "serves two_page_model ?c s1 s2" by (intro serves_query [OF serves_none])
  from cursor_bound_to_query [OF one first named served shaped other, of 2 class_policy] served show ?thesis by auto
qed

section \<open>What is withheld\<close>

text \<open>
  C32: values that do not apply are withheld.  The fields of a fact are sorted, come from
  attributes its kind owns, and when its summary is not applicable or unavailable no measured
  value is among them.
\<close>

theorem fields_withhold_values:
  assumes "fields_of e = Inr fs" "owned_attributes e = Inr a"
  shows "sorted (map (\<lambda>p. field_sort_key (fst p)) fs) \<and>
    (\<forall>(i, v) \<in> set fs. \<exists>n. (n, v) \<in> set a \<and> field_id n = Some i) \<and>
    (completeness_of e = Inr (Some NOT_APPLICABLE) \<or> completeness_of e = Inr (Some C_UNAVAILABLE)
      \<longrightarrow> fst ` set fs \<inter> set VALUE_FIELDS = {})"
proof -
  from assms obtain c where c: "completeness_of e = Inr c" and fs: "fs = published c a"
    by (auto simp: fields_of_def bind_result_Inr_iff)
  have members: "(\<exists>n. (n, v) \<in> set a \<and> field_id n = Some i) \<and> \<not> withheld c i" if "(i, v) \<in> set fs" for i v
    using that unfolding fs published_def
    by (auto simp: List.map_filter_def split: option.splits if_splits)
  have "sorted (map (\<lambda>p. field_sort_key (fst p)) fs)" by (simp add: fs published_def)
  moreover have "\<exists>n. (n, snd p) \<in> set a \<and> field_id n = Some (fst p)" "\<not> withheld c (fst p)" if "p \<in> set fs" for p
    using members [of "fst p" "snd p"] that by simp_all
  ultimately show ?thesis using c by (auto simp: withheld_def)
qed

definition withheld_effect :: query_effect where
  "withheld_effect =
     \<lparr>se_kind = ''factual_contribution'', se_key = [VStr ''review.summary'', VStr ''e''],
      se_payload = VDict [(''attributes'', VDict [(''agentops.review.total'', VInt 3),
        (''agentops.summary.state'', VStr ''UNAVAILABLE''), (''agentops.review.id'', VStr ''r'')])],
      se_source = (''event'', ''[\"event\",\"e\"]''), se_at = 0, qe_digest = ''digest'', qe_profile = ''1.0.0'',
      qe_family = VNone\<rparr>"

theorem fields_withhold_values_witness:
  "\<exists>fs. fields_of withheld_effect = Inr fs \<and> fst ` set fs \<inter> set VALUE_FIELDS = {}"
proof -
  have f: "fields_of withheld_effect = Inr [(''C11'', VStr ''UNAVAILABLE''), (''C12'', VStr ''r'')]" by code_simp
  have a: "owned_attributes withheld_effect = Inr [(''agentops.review.total'', VInt 3),
        (''agentops.summary.state'', VStr ''UNAVAILABLE''), (''agentops.review.id'', VStr ''r'')]" by code_simp
  have c: "completeness_of withheld_effect = Inr (Some C_UNAVAILABLE)" by code_simp
  from fields_withhold_values [OF f a] c f show ?thesis by blast
qed

text \<open>
  C33: an expired fact discloses nothing but its identity.  The response for a fact whose detail
  has expired is the same whatever payload is still stored, and it carries no field and no
  relationship.
\<close>

theorem expired_fact_discloses_nothing:
  assumes "fact_resource e (Some x) ttl = Inr r"
  shows "fact_resource (e\<lparr>se_payload := v\<rparr>) (Some x) ttl = Inr r \<and>
    dget r ''fields'' = VList [] \<and> dget r ''relationships'' = VList []"
proof
  have "source_of (e\<lparr>se_payload := v\<rparr>) = source_of e" by (simp add: source_of_def)
  moreover have "truth_of (e\<lparr>se_payload := v\<rparr>) ttl False (Some x) = truth_of e ttl False (Some x)"
    by (simp add: truth_of_def)
  moreover have "resource_id (e\<lparr>se_payload := v\<rparr>) k = resource_id e k" for k by (simp add: resource_id_def)
  ultimately have "fact_resource (e\<lparr>se_payload := v\<rparr>) (Some x) ttl = fact_resource e (Some x) ttl"
    by (cases "map_of FACT_KINDS (se_kind e)") (simp_all add: fact_resource_def)
  with assms show "fact_resource (e\<lparr>se_payload := v\<rparr>) (Some x) ttl = Inr r" by simp
  from assms show "dget r ''fields'' = VList [] \<and> dget r ''relationships'' = VList []"
    by (auto simp: fact_resource_def bind_result_Inr_iff field_entries_def dget_def split: option.splits)
qed

definition withheld_expiry :: expiry_record where
  "withheld_expiry =
     \<lparr>er_class = FACTUAL_PROJECTION, er_owner_key = [VStr ''review.summary'', VStr ''e''],
      er_source = (''event'', ''[\"event\",\"e\"]''), er_resource_kind = ''EVENT_CONTRIBUTION'', er_recorded_at = 0,
      er_compatibility = [(''family_schema'', VNone), (''event_name'', VStr ''review.summary''),
        (''completeness'', VStr ''FINAL'')],
      er_policy_revision = ''1.0.0'', er_expires_at = 5, er_expired_at = 7\<rparr>"

theorem expired_fact_discloses_nothing_witness:
  "\<exists>r. fact_resource withheld_effect (Some withheld_expiry) None = Inr r \<and> dget r ''fields'' = VList [] \<and>
     fact_resource (withheld_effect\<lparr>se_payload := VNone\<rparr>) (Some withheld_expiry) None = Inr r"
proof -
  have "\<not> isl (fact_resource withheld_effect (Some withheld_expiry) None)" by code_simp
  then obtain r where r: "fact_resource withheld_effect (Some withheld_expiry) None = Inr r"
    by (metis sum.collapse(2))
  from expired_fact_discloses_nothing [OF r, of VNone] r show ?thesis by blast
qed

lemma stored_projection_text:
  assumes "stored_projection d e = Inr (projection, pd)"
    and "item (payload_of e) ''canonical_projection'' = Inr (VStr t)"
  shows "\<exists>v. json_loads dict_hook t = Inr v \<and> se_key e = [VStr d] \<and> pd = VStr (sha256_hex t) \<and>
    json_dumps (json_sorted v) = t \<and> is_dict v \<and> dget (the_dict v) ''manifest_digest'' = VStr d \<and>
    projection = the_dict v"
proof (cases "json_loads dict_hook t")
  case (Inr v)
  with assms show ?thesis by (auto simp: stored_projection_def bind_result_Inr_iff split: if_splits)
qed (use assms in \<open>simp add: stored_projection_def bind_result_Inr_iff\<close>)

text \<open>
  C34: a Manifest is answered only with its integrity intact.  When the query for a Manifest
  succeeds, its one parameter is a lower-case digest, the stored projection is the canonical
  JSON text of the object in the response, the digest in the response is the SHA-256 of that
  text, and the object names the digest that was asked for.
\<close>

theorem manifest_integrity:
  assumes "manifest rm ps s = Inr response"
  shows "\<exists>d e t projection. ps = [(''manifest_digest'', d)] \<and> fullmatch DIGEST d \<and>
    rm_manifest rm d (qs_model s) = Inr (Some e) \<and> se_key e = [VStr d] \<and>
    dget (payload_of e) ''canonical_projection'' = VStr t \<and>
    json_loads dict_hook t = Inr (VDict projection) \<and>
    t = json_dumps (json_sorted (VDict projection)) \<and>
    dget projection ''manifest_digest'' = VStr d \<and>
    dget response ''manifest'' = VDict projection \<and>
    dget response ''manifest_projection_digest'' = VStr (sha256_hex t)"
proof -
  from assms obtain d e projection pd prov where name: "manifest_name ps = Some d"
    and e: "rm_manifest rm d (qs_model s) = Inr (Some e)" and p: "stored_projection d e = Inr (projection, pd)"
    and r: "response = [(''contract'', VDict [(''name'', VStr ''evidence.query''), (''revision'', VStr ''1.0.0'')]),
                  (''observation_profile'', VStr ''2.0.0''), (''read_model_revision'', VStr ''2.0.0''),
                  (''manifest'', VDict projection), (''manifest_projection_digest'', pd),
                  (''provenance'', VDict prov)]"
    by (auto simp: manifest_def bind_result_Inr_iff split: option.splits sum.splits)
  from name have ps: "ps = [(''manifest_digest'', d)]" "fullmatch DIGEST d"
    by (auto simp: manifest_name_def split: list.splits prod.splits if_splits)
  from p obtain c where c: "item (payload_of e) ''canonical_projection'' = Inr c"
    by (auto simp: stored_projection_def bind_result_Inr_iff)
  have "\<exists>t. c = VStr t"
    by (cases c) (use p c in \<open>auto simp: stored_projection_def bind_result_Inr_iff\<close>)
  with c obtain t where item: "item (payload_of e) ''canonical_projection'' = Inr (VStr t)" by blast
  from stored_projection_text [OF p item] obtain v where
    t: "json_loads dict_hook t = Inr v" "se_key e = [VStr d]" "pd = VStr (sha256_hex t)"
    "json_dumps (json_sorted v) = t" "is_dict v" "dget (the_dict v) ''manifest_digest'' = VStr d"
    "projection = the_dict v" by blast
  from t(5,7) have "v = VDict projection" by (cases v) (simp_all add: is_dict_def)
  moreover have "dget (payload_of e) ''canonical_projection'' = VStr t"
    using item by (simp add: dget_def item_def split: option.splits)
  moreover have "dget response ''manifest'' = VDict projection"
    "dget response ''manifest_projection_digest'' = pd" by (simp_all add: r dget_def)
  ultimately show ?thesis using ps e t(1-4,6) by (intro exI [of _ d] exI [of _ e] exI [of _ t] exI [of _ projection]) simp
qed

definition stored_text :: string where
  "stored_text = ''{\"manifest_digest\":\"'' @ replicate 64 CHR ''0'' @ ''\"}''"

definition stored_manifest :: query_effect where
  "stored_manifest =
     \<lparr>se_kind = ''delivery_manifest'', se_key = [VStr (replicate 64 CHR ''0'')],
      se_payload = VDict [(''canonical_projection'', VStr stored_text),
        (''projection_digest'', VStr (sha256_hex stored_text))],
      se_source = (''event'', ''[\"event\",\"e\"]''), se_at = 0, qe_digest = ''digest'', qe_profile = ''2.0.0'',
      qe_family = VNone\<rparr>"

theorem manifest_integrity_witness:
  "\<exists>response. manifest (two_page_model\<lparr>rm_manifest := \<lambda>d m. Inr (Some stored_manifest)\<rparr>)
       [(''manifest_digest'', replicate 64 CHR ''0'')] \<lparr>qs_model = (), qs_bindings = []\<rparr> = Inr response \<and>
     dget response ''manifest'' = VDict [(''manifest_digest'', VStr (replicate 64 CHR ''0''))]"
proof -
  let ?rm = "two_page_model\<lparr>rm_manifest := \<lambda>d m. Inr (Some stored_manifest)\<rparr>"
  let ?ps = "[(''manifest_digest'', replicate 64 CHR ''0'')]"
  have loads: "json_loads dict_hook stored_text = Inr (VDict [(''manifest_digest'', VStr (replicate 64 CHR ''0''))])"
    by code_simp
  have dumps: "json_dumps (json_sorted (VDict [(''manifest_digest'', VStr (replicate 64 CHR ''0''))])) = stored_text"
    by code_simp
  have name: "manifest_name ?ps = Some (replicate 64 CHR ''0'')" by code_simp
  have plain: "\<not> has_surrogate stored_text" by code_simp
  have "\<not> isl (task_provenance stored_manifest)"
    by (simp add: task_provenance_def source_of_def stored_manifest_def) code_simp
  then obtain prov where prov: "task_provenance stored_manifest = Inr prov" by (metis sum.collapse(2))
  have "stored_projection (replicate 64 CHR ''0'') stored_manifest =
      Inr ([(''manifest_digest'', VStr (replicate 64 CHR ''0''))], VStr (sha256_hex stored_text))"
    using loads dumps plain
    by (simp add: stored_projection_def stored_manifest_def payload_of_def item_def is_dict_def dget_def)
  then have ok: "\<not> isl (manifest ?rm ?ps \<lparr>qs_model = (), qs_bindings = []\<rparr>)"
    by (simp add: manifest_def name prov)
  then obtain r where r: "manifest ?rm ?ps \<lparr>qs_model = (), qs_bindings = []\<rparr> = Inr r" by (metis sum.collapse(2))
  from manifest_integrity [OF r] obtain e t projection where "e = stored_manifest"
    "dget (payload_of e) ''canonical_projection'' = VStr t" "json_loads dict_hook t = Inr (VDict projection)"
    "dget r ''manifest'' = VDict projection" by auto
  moreover from this have "t = stored_text" by (simp add: stored_manifest_def payload_of_def dget_def)
  ultimately show ?thesis using r loads by auto
qed

end
