(* ===== verification/Pipeline.thy ===== *)
theory Pipeline
  imports Query_Properties
begin

text \<open>
  Admission and query together: what a record's acceptance projects is what a client that
  follows the pages of a query gets to see.
\<close>

section \<open>From an effect row to the resource of a page\<close>

lemma facts_row:
  assumes "store_ok db" "pe \<in> set (effects db)" "pe_kind pe \<in> set FACT_EFFECT_KINDS"
    and "sl_db l = db" "sl_query l = FACTS"
  obtains r ar where "r \<in> set (ordered_rows coll l [])" "sr_kind r = pe_kind pe" "sr_key r = pe_key pe"
    "sr_payload r = pe_payload pe" "sr_source r = pe_source pe" "sr_digest r = ar_digest ar"
    "ar \<in> set (accepted db)" "ar_identity ar = pe_source pe"
proof -
  from assms(1,2) have "pe_source pe \<in> ar_identity ` set (accepted db)"
    by (auto simp: store_ok_def references_ok_def)
  then obtain ar where ar: "row_with ar_identity (pe_source pe) (accepted db) = Some ar"
    by (cases "row_with ar_identity (pe_source pe) (accepted db)") (auto simp: row_with_None_iff)
  have "display_of l pe = None" using assms(5) by (simp add: display_of_def task_list_def)
  moreover have "selects l [] pe ar" using assms(3-5) by (simp add: selects_def lease_kinds_def)
  ultimately have "row_of l [] pe = Some \<lparr>sr_kind = pe_kind pe, sr_key = pe_key pe, sr_payload = pe_payload pe,
      sr_source = pe_source pe, sr_at = pe_at pe, sr_digest = ar_digest ar, sr_profile = ar_profile ar,
      sr_family = ar_family ar, sr_sort = sort_columns l pe\<rparr>"
    using ar assms(4) by (simp add: row_of_def row_payload_def row_source_def row_instant_def)
  moreover from this assms(2,4) have "\<lparr>sr_kind = pe_kind pe, sr_key = pe_key pe, sr_payload = pe_payload pe,
      sr_source = pe_source pe, sr_at = pe_at pe, sr_digest = ar_digest ar, sr_profile = ar_profile ar,
      sr_family = ar_family ar, sr_sort = sort_columns l pe\<rparr> \<in> set (ordered_rows coll l [])"
    by (force simp: ordered_rows_def map_filter_set)
  ultimately show thesis using that row_with_SomeD [OF ar] by force
qed

lemma effect_of_row:
  assumes "map_results query_effect_of rows = Inr effs" "r \<in> set rows" "sr_key r = key_json k"
    and "list_all key_scalar k"
  obtains q where "q \<in> set effs" "se_kind q = sr_kind r" "se_key q = k" "se_payload q = sr_payload r"
    "se_source q = sr_source r" "qe_digest q = sr_digest r"
proof -
  from map_results_hit [OF assms(1,2)] obtain q where q: "q \<in> set effs" "query_effect_of r = Inr q" by blast
  from q(2) assms(3,4) show thesis
    by (intro that [OF q(1)]) (auto simp: query_effect_of_def json_loads_key_json [OF dict_hook_keeps])
qed

section \<open>Accepted facts can be queried\<close>

text \<open>
  C5: what is accepted can be queried.  After a record has been accepted into a reachable
  database, a client that asks for all facts, with any page limit, and follows the cursors
  before the lease expires is answered, and among the resources it gets is one for every fact
  the record projects: with the fact's kind and key, with a payload equal to the projected one
  (or the projected one itself, from this very record), and with the digest of the accepted
  record it comes from.
\<close>

theorem accepted_facts_queryable:
  assumes "reachable db" "admit at v db = (Inr res, db')" "disposition res = ACCEPTED"
    and "e \<in> set (result_effects res)" "effect_kind e \<in> set FACT_EFFECT_KINDS"
    and "inj coll" "adapter_ok a" "int (length (qa_leases a)) < qa_lease_limit a"
    and "sid \<notin> sl_id ` set (qa_leases a)" "sid \<noteq> []" "1 \<le> limit" "limit \<le> 200"
    and "token \<notin> fst ` set (qa_cursors a)" "inj tokens"
    and "\<And>i. tokens i \<notin> insert token (fst ` set (qa_cursors a))" "\<And>i. nows i < now + qa_ttl a"
  shows "\<exists>page a' resources q ar rec. validate_record v = Inr rec \<and>
    acquire_snapshot coll sid token True db' FACTS [] limit now a = (Inr page, a') \<and>
    walk (length (effects db')) coll tokens nows page a' = Some resources \<and>
    q \<in> set resources \<and> se_kind q = effect_kind e \<and> key_json (se_key q) = key_json (effect_key e) \<and>
    (py_eq (se_payload q) (VDict (effect_payload e)) \<or>
     se_payload q = jsonb_of (VDict (effect_payload e)) \<and> se_source q = record_source rec) \<and>
    ar \<in> set (accepted db') \<and> ar_identity ar = se_source q \<and> qe_digest q = ar_digest ar"
proof -
  have reach: "reachable db'" using reachable_steps [OF assms(1), of "[Admit at v]"] assms(2) by (simp add: steps_Cons step_admit)
  note ok = reachable_ok(1,3) [OF reach] reachable_sources [OF reach]
  from admit_established_rows [OF reachable_ok(1) [OF assms(1)] assms(2,3)] assms(4) obtain rec
    where rec: "validate_record v = Inr rec" "established (Some (record_source rec)) e (effects db')" by blast
  have "\<not> starts_with (effect_kind e) ''require_''"
    using assms(5) by (auto simp: FACT_EFFECT_KINDS_def starts_with_def)
  with rec(2) obtain pe where pe: "pe \<in> set (effects db')" "pe_id pe = (effect_kind e, key_json (effect_key e))"
    and payload: "py_eq (pe_payload pe) (VDict (effect_payload e)) \<or>
      pe_payload pe = jsonb_of (VDict (effect_payload e)) \<and> pe_source pe = record_source rec"
    by (auto simp: established_def)
  from pe(1) ok(2) obtain k where k: "list_all key_scalar k" "pe_key pe = key_json k"
    by (auto simp: keys_canonical_def)
  obtain page a' where page: "acquire_snapshot coll sid token True db' FACTS [] limit now a = (Inr page, a')"
    and cursors: "fst ` set (qa_cursors a') \<subseteq> insert token (fst ` set (qa_cursors a))"
    using facts_acquired [OF ok(1,3,2) assms(6,7,9,10,13,8,11,12)] by blast
  have "tokens i \<notin> fst ` set (qa_cursors a')" for i using cursors assms(15) [of i] by blast
  from pages_of_snapshot [where nows = nows, OF ok(1,3,2) assms(6,7,9,10) page assms(13,14) this assms(16)]
  obtain l fs effs where l: "sl_db l = db'" "sl_query l = FACTS" "sl_filters l = []" "lease_filters l = Inr fs"
    and effs: "map_results query_effect_of (ordered_rows coll l fs) = Inr effs"
    and walk: "walk (length (effects db')) coll tokens nows page a' = Some effs" by blast
  from l(3,4) have "fs = []" by (simp add: lease_filters_def)
  from pe(2) assms(5) have "pe_kind pe \<in> set FACT_EFFECT_KINDS" by (simp add: pe_id_def)
  from facts_row [OF ok(1) pe(1) this l(1,2)] obtain r ar where
    r: "r \<in> set (ordered_rows coll l [])" "sr_kind r = pe_kind pe" "sr_key r = pe_key pe"
      "sr_payload r = pe_payload pe" "sr_source r = pe_source pe" "sr_digest r = ar_digest ar"
    and ar: "ar \<in> set (accepted db')" "ar_identity ar = pe_source pe" by blast
  from effect_of_row [OF effs [unfolded \<open>fs = []\<close>] r(1) _ k(1)] r(3) k(2) obtain q where
    "q \<in> set effs" "se_kind q = sr_kind r" "se_key q = k" "se_payload q = sr_payload r"
    "se_source q = sr_source r" "qe_digest q = sr_digest r" by metis
  with rec(1) page walk r ar payload pe(2) k(2) show ?thesis
    by (intro exI [of _ page] exI [of _ a'] exI [of _ effs] exI [of _ q] exI [of _ ar] exI [of _ rec])
       (simp add: pe_id_def)
qed

theorem accepted_facts_queryable_witness:
  "\<exists>page a' resources q.
     acquire_snapshot bytes_rank ''s'' ''t'' True sample_db FACTS [] 1 9 fresh_adapter = (Inr page, a') \<and>
     walk (length (effects sample_db)) bytes_rank (\<lambda>i. replicate (Suc i) CHR ''u'') (\<lambda>i. 12) page a' = Some resources \<and>
     q \<in> set resources \<and> se_kind q = ''factual_contribution''"
proof -
  obtain e where e: "e \<in> set sample_effects" "effect_kind e = ''factual_contribution''"
    by (auto simp: sample_effects_def effect_def)
  have "inj (\<lambda>i. replicate (Suc i) CHR ''u'')" by (rule injI) (metis Suc_inject length_replicate)
  then show ?thesis
    using accepted_facts_queryable [OF empty_reachable sample_admitted, of e bytes_rank fresh_adapter "''s''" 1 "''t''"
        "\<lambda>i. replicate (Suc i) CHR ''u''" "\<lambda>i. 12" 9] e inj_bytes_rank fresh_adapter_ok
    by (simp add: admission_def FACT_EFFECT_KINDS_def fresh_adapter_def seconds_def) blast
qed

end
