(* ===== verification/Migrations.thy ===== *)
theory Migrations
  imports Storage Read_Model
begin

text \<open>
  The migrations of the database (\<open>migrations/versions\<close>) and the part of PostgreSQL they use: a
  schema holds its tables, with their rows, and its indexes; a DDL statement changes a schema or
  fails.  \<open>alembic\<close> runs the statements of a revision in one transaction, in the order of
  \<open>down_revision\<close>.  Shown are that every downgrade undoes its upgrade, whatever the tables hold,
  and that a schema stays consistent under every statement.
\<close>

section \<open>Schemas\<close>

datatype sql_type = Sql_Text | Sql_Varchar nat | Sql_Jsonb | Sql_Timestamptz

datatype cell = Null_Cell | Text_Cell string | Json_Cell pyval | Time_Cell instant

type_synonym row = "cell list"

record column =
  col_name :: string
  col_type :: sql_type
  col_nullable :: bool
  col_default_now :: bool

datatype table_check = In_List string "string list" | Matches string re

datatype delete_action = Restrict | Cascade

record foreign_key =
  fk_columns :: "string list"
  fk_table :: string
  fk_target :: "string list"
  fk_action :: delete_action

record table =
  tb_columns :: "column list"
  tb_key :: "string list"
  tb_checks :: "table_check list"
  tb_references :: "foreign_key list"
  tb_rows :: "row list"

record schema =
  sc_tables :: "(string \<times> table) list"
  sc_indexes :: "(string \<times> string \<times> string list) list"

definition empty_schema :: schema where
  "empty_schema = \<lparr>sc_tables = [], sc_indexes = []\<rparr>"

definition column_names :: "table \<Rightarrow> string list" where
  "column_names t = map col_name (tb_columns t)"

fun check_column :: "table_check \<Rightarrow> string" where
  "check_column (In_List c vs) = c"
| "check_column (Matches c r) = c"

text \<open>The columns on which a key, a check or a reference of the table depends.\<close>

definition used_columns :: "table \<Rightarrow> string list" where
  "used_columns t = tb_key t @ map check_column (tb_checks t) @ concat (map fk_columns (tb_references t))"

section \<open>Statements\<close>

datatype ddl =
  Create_Table string table
| Drop_Table string
| Create_Index string string "string list"
| Drop_Index string
| Add_Column string column
| Drop_Column string string
| Set_Column string string string
| Set_Not_Null string string

definition relation_names :: "schema \<Rightarrow> string list" where
  "relation_names s = map fst (sc_tables s) @ map fst (sc_indexes s)"

definition put_table :: "string \<Rightarrow> table \<Rightarrow> schema \<Rightarrow> schema" where
  "put_table n t s = s\<lparr>sc_tables := map (\<lambda>(k, u). if k = n then (k, t) else (k, u)) (sc_tables s)\<rparr>"

definition on_table :: "string \<Rightarrow> schema \<Rightarrow> (table \<Rightarrow> schema result) \<Rightarrow> schema result" where
  "on_table n s f = (case map_of (sc_tables s) n of
       None \<Rightarrow> Inl (Database_Error ''relation does not exist'')
     | Some t \<Rightarrow> f t)"

definition column_at :: "string \<Rightarrow> table \<Rightarrow> (nat \<Rightarrow> schema result) \<Rightarrow> schema result" where
  "column_at c t f = (case index_of (column_names t) c of
       None \<Rightarrow> Inl (Database_Error ''column does not exist'')
     | Some i \<Rightarrow> f i)"

definition remove_at :: "nat \<Rightarrow> 'a list \<Rightarrow> 'a list" where
  "remove_at i xs = take i xs @ drop (Suc i) xs"

text \<open>A reference names an existing table and its key.\<close>

definition reference_known :: "schema \<Rightarrow> foreign_key \<Rightarrow> bool" where
  "reference_known s fk =
     (case map_of (sc_tables s) (fk_table fk) of None \<Rightarrow> False | Some u \<Rightarrow> fk_target fk = tb_key u)"

definition index_uses :: "string \<Rightarrow> string \<Rightarrow> string \<times> string \<times> string list \<Rightarrow> bool" where
  "index_uses n c ix = (case ix of (i, m, cs) \<Rightarrow> m = n \<and> c \<in> set cs)"

text \<open>
  \<open>now\<close> is the start of the transaction.  A dropped column takes no part in a key, a check, a
  reference or an index here; statements that drop others are not used and count as errors.
\<close>

fun run_ddl :: "instant \<Rightarrow> ddl \<Rightarrow> schema \<Rightarrow> schema result" where
  "run_ddl now (Create_Table n t) s = check_then (first_error
     [require (n \<notin> set (relation_names s)) (Database_Error ''relation already exists''),
      require (distinct (column_names t) \<and> set (used_columns t) \<subseteq> set (column_names t))
        (Database_Error ''bad columns''),
      require (list_all (reference_known s) (tb_references t)) (Database_Error ''bad reference'')])
     (Inr (s\<lparr>sc_tables := sc_tables s @ [(n, t\<lparr>tb_rows := []\<rparr>)]\<rparr>))"
| "run_ddl now (Drop_Table n) s = on_table n s (\<lambda>t. check_then
     (require (list_all (\<lambda>(k, u). k = n \<or> list_all (\<lambda>fk. fk_table fk \<noteq> n) (tb_references u)) (sc_tables s))
        (Database_Error ''other objects depend on it''))
     (Inr (s\<lparr>sc_tables := filter (\<lambda>(k, u). k \<noteq> n) (sc_tables s),
            sc_indexes := filter (\<lambda>(i, m, cs). m \<noteq> n) (sc_indexes s)\<rparr>)))"
| "run_ddl now (Create_Index i n cs) s = on_table n s (\<lambda>t. check_then (first_error
     [require (i \<notin> set (relation_names s)) (Database_Error ''relation already exists''),
      require (set cs \<subseteq> set (column_names t)) (Database_Error ''column does not exist'')])
     (Inr (s\<lparr>sc_indexes := sc_indexes s @ [(i, n, cs)]\<rparr>)))"
| "run_ddl now (Drop_Index i) s = check_then
     (require (i \<in> set (map fst (sc_indexes s))) (Database_Error ''index does not exist''))
     (Inr (s\<lparr>sc_indexes := filter (\<lambda>ix. fst ix \<noteq> i) (sc_indexes s)\<rparr>))"
| "run_ddl now (Add_Column n c) s = on_table n s (\<lambda>t. check_then (first_error
     [require (col_name c \<notin> set (column_names t)) (Database_Error ''column already exists''),
      require (col_nullable c \<or> col_default_now c \<or> tb_rows t = []) (Integrity_Error n)])
     (Inr (put_table n (t\<lparr>tb_columns := tb_columns t @ [c],
        tb_rows := map (\<lambda>r. r @ [if col_default_now c then Time_Cell now else Null_Cell]) (tb_rows t)\<rparr>) s)))"
| "run_ddl now (Drop_Column n c) s = on_table n s (\<lambda>t. column_at c t (\<lambda>i. check_then
     (require (c \<notin> set (used_columns t) \<and> \<not> list_ex (index_uses n c) (sc_indexes s))
        (Database_Error ''the column is in use''))
     (Inr (put_table n (t\<lparr>tb_columns := remove_at i (tb_columns t),
        tb_rows := map (remove_at i) (tb_rows t)\<rparr>) s))))"
| "run_ddl now (Set_Column n c d) s = on_table n s (\<lambda>t. column_at c t (\<lambda>i. column_at d t (\<lambda>j.
     Inr (put_table n (t\<lparr>tb_rows := map (\<lambda>r. r[i := r ! j]) (tb_rows t)\<rparr>) s))))"
| "run_ddl now (Set_Not_Null n c) s = on_table n s (\<lambda>t. column_at c t (\<lambda>i. check_then
     (require (list_all (\<lambda>r. r ! i \<noteq> Null_Cell) (tb_rows t)) (Integrity_Error n))
     (Inr (put_table n (t\<lparr>tb_columns := (tb_columns t)
        [i := (tb_columns t ! i)\<lparr>col_nullable := False\<rparr>]\<rparr>) s))))"

fun run_all :: "instant \<Rightarrow> ddl list \<Rightarrow> schema \<Rightarrow> schema result" where
  "run_all now [] s = Inr s"
| "run_all now (op # ops) s = bind_result (run_ddl now op s) (run_all now ops)"

section \<open>The revisions\<close>

definition col :: "string \<Rightarrow> sql_type \<Rightarrow> column" where
  "col n ty = \<lparr>col_name = n, col_type = ty, col_nullable = False, col_default_now = False\<rparr>"

definition reference :: "string list \<Rightarrow> delete_action \<Rightarrow> foreign_key" where
  "reference cs act = \<lparr>fk_columns = cs, fk_table = ''accepted_records'',
     fk_target = [''identity_kind'', ''identity_key''], fk_action = act\<rparr>"

record migration =
  mg_revision :: string
  mg_down :: "string option"
  mg_upgrade :: "ddl list"
  mg_downgrade :: "ddl list"

definition accepted_records :: table where
  "accepted_records = \<lparr>tb_columns =
       [col ''identity_kind'' Sql_Text, col ''identity_key'' Sql_Text,
        col ''canonical_digest'' (Sql_Varchar 64), col ''profile_version'' Sql_Text,
        (col ''family_schema'' Sql_Text)\<lparr>col_nullable := True\<rparr>, col ''logical_record'' Sql_Jsonb,
        (col ''accepted_at'' Sql_Timestamptz)\<lparr>col_default_now := True\<rparr>],
     tb_key = [''identity_kind'', ''identity_key''],
     tb_checks = [In_List ''identity_kind'' [''event'', ''span''], Matches ''canonical_digest'' DIGEST],
     tb_references = [], tb_rows = []\<rparr>"

definition projection_effects :: table where
  "projection_effects = \<lparr>tb_columns =
       [col ''effect_kind'' Sql_Text, col ''effect_key'' Sql_Text, col ''payload'' Sql_Jsonb,
        col ''source_identity_kind'' Sql_Text, col ''source_identity_key'' Sql_Text,
        (col ''recorded_at'' Sql_Timestamptz)\<lparr>col_default_now := True\<rparr>],
     tb_key = [''effect_kind'', ''effect_key''], tb_checks = [],
     tb_references = [reference [''source_identity_kind'', ''source_identity_key''] Restrict],
     tb_rows = []\<rparr>"

definition atomic_core :: migration where
  "atomic_core = \<lparr>mg_revision = ''20260825_0001'', mg_down = None,
     mg_upgrade =
       [Create_Table ''accepted_records'' accepted_records,
        Create_Table ''projection_effects'' projection_effects,
        Create_Index ''ix_projection_effects_kind_recorded'' ''projection_effects''
          [''effect_kind'', ''recorded_at'']],
     mg_downgrade =
       [Drop_Index ''ix_projection_effects_kind_recorded'',
        Drop_Table ''projection_effects'', Drop_Table ''accepted_records'']\<rparr>"

definition retention_expiry_markers :: table where
  "retention_expiry_markers = \<lparr>tb_columns =
       [col ''resource_class'' Sql_Text, col ''owner_key'' Sql_Text,
        col ''source_identity_kind'' Sql_Text, col ''source_identity_key'' Sql_Text,
        col ''resource_kind'' Sql_Text, col ''recorded_at'' Sql_Timestamptz,
        col ''compatibility'' Sql_Jsonb, col ''policy_revision'' Sql_Text,
        col ''expired_at'' Sql_Timestamptz, col ''batch_identity'' (Sql_Varchar 64)],
     tb_key = [''resource_class'', ''resource_kind'', ''owner_key''],
     tb_checks = [In_List ''resource_class'' [''RAW_DEBUG'', ''TRACE_DETAIL'', ''FACTUAL_PROJECTION''],
       Matches ''batch_identity'' DIGEST],
     tb_references = [], tb_rows = []\<rparr>"

definition retention_markers :: migration where
  "retention_markers = \<lparr>mg_revision = ''20260826_0002'', mg_down = Some ''20260825_0001'',
     mg_upgrade =
       [Create_Table ''retention_expiry_markers'' retention_expiry_markers,
        Create_Index ''ix_retention_expiry_markers_batch'' ''retention_expiry_markers'' [''batch_identity'']],
     mg_downgrade =
       [Drop_Index ''ix_retention_expiry_markers_batch'', Drop_Table ''retention_expiry_markers'']\<rparr>"

definition retention_eligibility :: migration where
  "retention_eligibility = \<lparr>mg_revision = ''20260826_0003'', mg_down = Some ''20260826_0002'',
     mg_upgrade =
       [Add_Column ''retention_expiry_markers'' ((col ''expires_at'' Sql_Timestamptz)\<lparr>col_nullable := True\<rparr>),
        Set_Column ''retention_expiry_markers'' ''expires_at'' ''expired_at'',
        Set_Not_Null ''retention_expiry_markers'' ''expires_at''],
     mg_downgrade = [Drop_Column ''retention_expiry_markers'' ''expires_at'']\<rparr>"

definition delivery_record_memberships :: table where
  "delivery_record_memberships = \<lparr>tb_columns =
       [col ''delivery_id'' Sql_Text, col ''identity_kind'' Sql_Text, col ''identity_key'' Sql_Text],
     tb_key = [''identity_kind'', ''identity_key''], tb_checks = [],
     tb_references = [reference [''identity_kind'', ''identity_key''] Cascade], tb_rows = []\<rparr>"

definition delivery_terminal_anchors :: table where
  "delivery_terminal_anchors = \<lparr>tb_columns =
       [col ''delivery_id'' Sql_Text, col ''identity_kind'' Sql_Text, col ''identity_key'' Sql_Text,
        col ''recorded_at'' Sql_Timestamptz],
     tb_key = [''delivery_id''], tb_checks = [],
     tb_references = [reference [''identity_kind'', ''identity_key''] Cascade], tb_rows = []\<rparr>"

definition delivery_retirement_fences :: table where
  "delivery_retirement_fences = \<lparr>tb_columns =
       [col ''delivery_id'' Sql_Text, col ''retired_at'' Sql_Timestamptz, col ''policy_revision'' Sql_Text],
     tb_key = [''delivery_id''], tb_checks = [], tb_references = [], tb_rows = []\<rparr>"

definition delivery_retention :: migration where
  "delivery_retention = \<lparr>mg_revision = ''20260828_0004'', mg_down = Some ''20260826_0003'',
     mg_upgrade =
       [Create_Table ''delivery_record_memberships'' delivery_record_memberships,
        Create_Index ''ix_delivery_record_memberships_delivery'' ''delivery_record_memberships'' [''delivery_id''],
        Create_Table ''delivery_terminal_anchors'' delivery_terminal_anchors,
        Create_Index ''ix_delivery_terminal_anchors_recorded'' ''delivery_terminal_anchors''
          [''recorded_at'', ''delivery_id''],
        Create_Table ''delivery_retirement_fences'' delivery_retirement_fences],
     mg_downgrade =
       [Drop_Table ''delivery_retirement_fences'', Drop_Index ''ix_delivery_terminal_anchors_recorded'',
        Drop_Table ''delivery_terminal_anchors'', Drop_Index ''ix_delivery_record_memberships_delivery'',
        Drop_Table ''delivery_record_memberships'']\<rparr>"

definition migrations :: "migration list" where
  "migrations = [atomic_core, retention_markers, retention_eligibility, delivery_retention]"

definition upgrade_all :: "instant \<Rightarrow> schema \<Rightarrow> schema result" where
  "upgrade_all now = run_all now (concat (map mg_upgrade migrations))"

text \<open>\<open>env.py\<close>: the address of the database names the driver.\<close>

fun replace_first :: "string \<Rightarrow> string \<Rightarrow> string \<Rightarrow> string" where
  "replace_first old new [] = (if old = [] then new else [])"
| "replace_first old new (c # cs) =
     (if starts_with (c # cs) old then new @ drop (length old) (c # cs) else c # replace_first old new cs)"

definition sqlalchemy_url :: "(string \<Rightarrow> string option) \<Rightarrow> string \<Rightarrow> string" where
  "sqlalchemy_url environ configured =
     (case environ ''WSR_EVIDENCE_DATABASE_URL'' of
        None \<Rightarrow> configured
      | Some url \<Rightarrow> if url = [] then configured
          else replace_first ''postgresql://'' ''postgresql+psycopg://'' url)"

section \<open>Consistent schemas\<close>

definition table_ok :: "table \<Rightarrow> bool" where
  "table_ok t \<longleftrightarrow> distinct (column_names t) \<and> set (used_columns t) \<subseteq> set (column_names t) \<and>
     (\<forall>r \<in> set (tb_rows t). length r = length (tb_columns t))"

definition index_ok :: "schema \<Rightarrow> string \<times> string \<times> string list \<Rightarrow> bool" where
  "index_ok s ix = (case ix of (i, n, cs) \<Rightarrow>
     \<exists>t. map_of (sc_tables s) n = Some t \<and> set cs \<subseteq> set (column_names t))"

definition schema_ok :: "schema \<Rightarrow> bool" where
  "schema_ok s \<longleftrightarrow> distinct (relation_names s) \<and>
     (\<forall>(n, t) \<in> set (sc_tables s). table_ok t \<and> list_all (reference_known s) (tb_references t)) \<and>
     list_all (index_ok s) (sc_indexes s)"

lemma schema_ok_tables:
  assumes "schema_ok s"
  shows "distinct (map fst (sc_tables s))" "distinct (map fst (sc_indexes s))"
    "map_of (sc_tables s) n = Some t \<Longrightarrow> table_ok t \<and> list_all (reference_known s) (tb_references t)"
    "(i, n, cs) \<in> set (sc_indexes s) \<Longrightarrow> \<exists>t. map_of (sc_tables s) n = Some t \<and> set cs \<subseteq> set (column_names t)"
  using assms by (auto simp: schema_ok_def relation_names_def index_ok_def list_all_iff dest!: map_of_SomeD)

lemma filter_fst_fresh: "n \<notin> fst ` set xs \<Longrightarrow> filter (\<lambda>(k, u). k \<noteq> n) xs = xs"
  by (force simp: filter_id_conv)

lemma on_table_Inr:
  "on_table n s f = Inr s' \<longleftrightarrow> (\<exists>t. map_of (sc_tables s) n = Some t \<and> f t = Inr s')"
  by (simp add: on_table_def split: option.split)

text \<open>Creating a table or an index is undone by dropping it.\<close>

fun undo :: "ddl \<Rightarrow> ddl option" where
  "undo (Create_Table n t) = Some (Drop_Table n)"
| "undo (Create_Index i n cs) = Some (Drop_Index i)"
| "undo op = None"

lemma reference_known_more:
  "reference_known s fk \<Longrightarrow> n \<notin> fst ` set (sc_tables s) \<Longrightarrow>
     reference_known (s\<lparr>sc_tables := sc_tables s @ [(n, t)]\<rparr>) fk"
  by (auto simp: reference_known_def map_add_def map_of_append split: option.splits)

lemma create_table_undone:
  assumes "schema_ok s" "run_ddl now (Create_Table n t) s = Inr s'"
  shows "run_ddl later (Drop_Table n) s' = Inr s" "schema_ok s'"
proof -
  let ?t = "t\<lparr>tb_rows := []\<rparr>"
  from assms(2) have fresh: "n \<notin> fst ` set (sc_tables s)" "n \<notin> fst ` set (sc_indexes s)"
    and cols: "distinct (column_names t)" "set (used_columns t) \<subseteq> set (column_names t)"
    and refs: "list_all (reference_known s) (tb_references t)"
    and s': "s' = s\<lparr>sc_tables := sc_tables s @ [(n, ?t)]\<rparr>"
    by (auto simp: relation_names_def)
  have none: "map_of (sc_tables s) n = None" using fresh(1) by (simp add: map_of_eq_None_iff)
  have lookup: "map_of (sc_tables s') m = (if m = n then Some ?t else map_of (sc_tables s) m)" for m
    using none by (auto simp: s' map_add_def split: option.split)
  have known: "fk_table fk \<noteq> n" if "reference_known s fk" for fk
    using that none by (auto simp: reference_known_def split: option.splits)
  have later: "reference_known s' fk" if "reference_known s fk" for fk
    using that fresh(1) reference_known_more s' by blast
  have tables: "\<forall>(k, u) \<in> set (sc_tables s). table_ok u \<and> list_all (reference_known s) (tb_references u)"
    using assms(1) by (simp add: schema_ok_def)
  have others: "list_all (\<lambda>(k, u). k = n \<or> list_all (\<lambda>fk. fk_table fk \<noteq> n) (tb_references u)) (sc_tables s')"
    using tables known by (fastforce simp: s' list_all_iff)
  have "\<forall>(i, m, cs) \<in> set (sc_indexes s). m \<noteq> n"
    using schema_ok_tables(4) [OF assms(1)] fresh(1) by (force dest: map_of_SomeD)
  then have ix: "filter (\<lambda>(i, m, cs). m \<noteq> n) (sc_indexes s) = sc_indexes s"
    by (auto simp: filter_id_conv)
  have "on_table n s' f = f ?t" for f by (simp add: on_table_def lookup)
  with others ix show "run_ddl later (Drop_Table n) s' = Inr s"
    by (simp add: s' filter_fst_fresh [OF fresh(1)])
  have "table_ok ?t" using cols by (simp add: table_ok_def column_names_def used_columns_def)
  moreover have "index_ok s' ix" if "index_ok s ix" for ix
    using that none by (auto simp: index_ok_def lookup split: prod.splits)
  moreover have "distinct (relation_names s')"
    using assms(1) fresh by (auto simp: schema_ok_def relation_names_def s')
  ultimately show "schema_ok s'"
    using assms(1) tables refs later by (auto simp: schema_ok_def s' list_all_iff)
qed

lemma create_index_undone:
  assumes "schema_ok s" "run_ddl now (Create_Index i n cs) s = Inr s'"
  shows "run_ddl later (Drop_Index i) s' = Inr s" "schema_ok s'"
proof -
  from assms(2) obtain t where t: "map_of (sc_tables s) n = Some t" "set cs \<subseteq> set (column_names t)"
    and fresh: "i \<notin> fst ` set (sc_tables s)" "i \<notin> fst ` set (sc_indexes s)"
    and s': "s' = s\<lparr>sc_indexes := sc_indexes s @ [(i, n, cs)]\<rparr>"
    by (auto simp: on_table_Inr relation_names_def)
  have "filter (\<lambda>ix. fst ix \<noteq> i) (sc_indexes s) = sc_indexes s"
    using fresh(2) by (force simp: filter_id_conv)
  then show "run_ddl later (Drop_Index i) s' = Inr s" by (simp add: s')
  have "reference_known s' = reference_known s" by (simp add: s' reference_known_def fun_eq_iff)
  moreover have "index_ok s' = index_ok s" by (simp add: s' index_ok_def fun_eq_iff)
  moreover have "index_ok s (i, n, cs)" using t by (simp add: index_ok_def)
  moreover have "distinct (relation_names s')"
    using assms(1) fresh by (auto simp: schema_ok_def relation_names_def s')
  ultimately show "schema_ok s'" using assms(1) by (simp add: schema_ok_def s')
qed

lemma run_all_append: "run_all now (xs @ ys) s = bind_result (run_all now xs s) (run_all now ys)"
  by (induction xs arbitrary: s) (simp, case_tac "run_ddl now a s", simp_all)

lemma created_undone:
  assumes "schema_ok s" "run_all now ops s = Inr s'" "map Some drops = map undo (rev ops)"
  shows "run_all later drops s' = Inr s"
  using assms
proof (induction ops arbitrary: s drops)
  case (Cons op ops)
  from Cons.prems(2) obtain s1 where one: "run_ddl now op s = Inr s1" and rest: "run_all now ops s1 = Inr s'"
    by (auto simp: bind_result_Inr_iff)
  from Cons.prems(3) obtain ds d where ds: "drops = ds @ [d]" "map Some ds = map undo (rev ops)" "undo op = Some d"
    by (auto simp: map_eq_append_conv)
  have "run_ddl later d s1 = Inr s \<and> schema_ok s1"
  proof (cases op)
    case (Create_Table n t)
    with one ds(3) create_table_undone [OF Cons.prems(1), of now n t s1] show ?thesis by auto
  next
    case (Create_Index i n cs)
    with one ds(3) create_index_undone [OF Cons.prems(1), of now i n cs s1] show ?thesis by auto
  qed (use ds(3) in simp_all)
  with Cons.IH [OF _ rest ds(2)] show ?case by (simp add: ds(1) run_all_append)
qed simp

text \<open>Adding a column, filling it and forbidding NULL in it is undone by dropping it.\<close>

lemma index_of_new: "c \<notin> set xs \<Longrightarrow> index_of (xs @ [c]) c = Some (length xs)"
  by (induction xs) auto

lemma index_of_bound: "index_of xs c = Some i \<Longrightarrow> i < length xs"
  by (induction xs arbitrary: i) (auto split: if_splits)

lemma remove_at_snoc [simp]: "remove_at (length xs) (xs @ [x]) = xs"
  by (simp add: remove_at_def)

lemma put_table_lookup:
  assumes "map_of (sc_tables s) n = Some u"
  shows "map_of (sc_tables (put_table n t s)) n = Some t"
proof -
  have "map_of xs n = Some u \<Longrightarrow> map_of (map (\<lambda>(k, v). if k = n then (k, t) else (k, v)) xs) n = Some t" for xs
    by (induction xs) (auto split: if_splits)
  with assms show ?thesis by (simp add: put_table_def)
qed

lemma put_table_put [simp]: "put_table n t (put_table n u s) = put_table n t s"
  by (simp add: put_table_def) (auto simp: o_def split: prod.split)

lemma put_table_same: "distinct (map fst (sc_tables s)) \<Longrightarrow> map_of (sc_tables s) n = Some t \<Longrightarrow> put_table n t s = s"
  unfolding put_table_def by (rule schema.equality) (auto intro!: map_idI dest: map_of_SomeD eq_key_imp_eq_value)

lemma put_table_indexes [simp]: "sc_indexes (put_table n t s) = sc_indexes s"
  by (simp add: put_table_def)

lemma column_undone:
  assumes "schema_ok s"
    and "run_all now [Add_Column n c, Set_Column n (col_name c) d, Set_Not_Null n (col_name c)] s = Inr s'"
  shows "run_ddl later (Drop_Column n (col_name c)) s' = Inr s"
proof -
  let ?new = "\<lambda>r. r @ [if col_default_now c then Time_Cell now else Null_Cell]"
  from assms(2) obtain s1 s2 where add: "run_ddl now (Add_Column n c) s = Inr s1"
    and fill: "run_ddl now (Set_Column n (col_name c) d) s1 = Inr s2"
    and forbid: "run_ddl now (Set_Not_Null n (col_name c)) s2 = Inr s'"
    by (auto simp only: run_all.simps bind_result_Inr_iff)
  from add obtain t where t: "map_of (sc_tables s) n = Some t" and new: "col_name c \<notin> set (column_names t)"
    and s1: "s1 = put_table n (t\<lparr>tb_columns := tb_columns t @ [c], tb_rows := map ?new (tb_rows t)\<rparr>) s"
    by (auto simp: on_table_Inr)
  let ?m = "length (tb_columns t)"
  have ok: "table_ok t" using schema_ok_tables(3) [OF assms(1) t] by blast
  have pos: "index_of (column_names t @ [col_name c]) (col_name c) = Some ?m"
    using index_of_new [OF new] by (simp add: column_names_def)
  have names: "column_names (t\<lparr>tb_columns := tb_columns t @ [c], tb_rows := rs\<rparr>) = column_names t @ [col_name c]"
    for rs by (simp add: column_names_def)
  have rows: "(?new r)[?m := ?new r ! j] = r @ [?new r ! j]" "remove_at ?m (r @ [x]) = r"
    if "r \<in> set (tb_rows t)" for r j x
  proof -
    have "length r = ?m" using ok that by (simp add: table_ok_def)
    then show "(?new r)[?m := ?new r ! j] = r @ [?new r ! j]" "remove_at ?m (r @ [x]) = r"
      by (simp_all add: list_update_append flip: \<open>length r = ?m\<close>)
  qed
  note lookup = put_table_lookup [OF t]
  from fill obtain j where
    s2: "s2 = put_table n (t\<lparr>tb_columns := tb_columns t @ [c], tb_rows := map (\<lambda>r. r @ [?new r ! j]) (tb_rows t)\<rparr>) s"
    unfolding s1 by (auto simp: on_table_Inr lookup column_at_def names pos rows o_def cong: map_cong split: option.splits)
  let ?t = "t\<lparr>tb_rows := map (\<lambda>r. r @ [?new r ! j]) (tb_rows t),
    tb_columns := tb_columns t @ [c\<lparr>col_nullable := False\<rparr>]\<rparr>"
  from forbid have s': "s' = put_table n ?t s"
    unfolding s2 by (auto simp: on_table_Inr lookup column_at_def names pos list_update_append split: option.splits)
  have unused: "col_name c \<notin> set (used_columns t)" using ok new by (auto simp: table_ok_def)
  have "\<not> index_uses n (col_name c) ix" if "ix \<in> set (sc_indexes s)" for ix
    using schema_ok_tables(4) [OF assms(1)] that new t by (cases ix) (force simp: index_uses_def)
  then have no_index: "\<not> list_ex (index_uses n (col_name c)) (sc_indexes s)" by (simp add: list_ex_iff)
  have "map (remove_at ?m) (map (\<lambda>r. r @ [?new r ! j]) (tb_rows t)) = tb_rows t"
    using rows(2) by (simp add: o_def map_idI)
  then have "?t\<lparr>tb_columns := remove_at ?m (tb_columns ?t), tb_rows := map (remove_at ?m) (tb_rows ?t)\<rparr> = t"
    by simp
  moreover have "column_names ?t = column_names t @ [col_name c]" "used_columns ?t = used_columns t"
    by (simp_all add: column_names_def used_columns_def)
  ultimately show ?thesis
    using unused no_index put_table_same [OF schema_ok_tables(1) [OF assms(1)] t]
    by (simp add: s' on_table_def lookup column_at_def pos)
qed

section \<open>Every downgrade undoes its upgrade\<close>

lemma downgrade_shapes:
  assumes "m \<in> set migrations"
  obtains "map Some (mg_downgrade m) = map undo (rev (mg_upgrade m))"
  | n c d where "mg_upgrade m = [Add_Column n c, Set_Column n (col_name c) d, Set_Not_Null n (col_name c)]"
      "mg_downgrade m = [Drop_Column n (col_name c)]"
proof -
  from assms consider "m \<in> {atomic_core, retention_markers, delivery_retention}" | "m = retention_eligibility"
    by (auto simp: migrations_def)
  then show thesis
  proof cases
    case 1
    then show thesis
      by (intro that(1)) (auto simp: atomic_core_def retention_markers_def delivery_retention_def)
  next
    case 2
    then show thesis
      by (intro that(2) [of "''retention_expiry_markers''" "(col ''expires_at'' Sql_Timestamptz)\<lparr>col_nullable := True\<rparr>"])
        (simp_all add: retention_eligibility_def col_def)
  qed
qed

text \<open>The list of revisions is the order in which they build on each other.\<close>

lemma migrations_chain: "map mg_down migrations = None # map (Some \<circ> mg_revision) (butlast migrations)"
  by (simp add: migrations_def atomic_core_def retention_markers_def retention_eligibility_def
      delivery_retention_def)

text \<open>
  C38: every downgrade undoes its upgrade, with the data.  When the upgrade of a revision succeeds
  on a consistent schema, whatever rows its tables hold, the downgrade succeeds on the result,
  at any later time, and gives back the schema that was upgraded, with all its rows.
\<close>

theorem downgrade_undoes_upgrade:
  assumes "m \<in> set migrations" "schema_ok s" "run_all now (mg_upgrade m) s = Inr s'"
  shows "run_all later (mg_downgrade m) s' = Inr s"
  using assms(1)
proof (cases rule: downgrade_shapes)
  case 1
  from created_undone [OF assms(2,3) 1] show ?thesis .
next
  case (2 n c d)
  from column_undone [OF assms(2) assms(3) [unfolded 2(1)], of later] 2(2) show ?thesis by simp
qed

definition marked_schema :: schema where
  "marked_schema = \<lparr>sc_tables = [(''retention_expiry_markers'', retention_expiry_markers\<lparr>tb_rows :=
     [[Text_Cell ''RAW_DEBUG'', Text_Cell ''k'', Text_Cell ''event'', Text_Cell ''k'', Text_Cell ''RAW_DEBUG'',
       Time_Cell 1, Json_Cell (VList []), Text_Cell ''2.0.0'', Time_Cell 7, Text_Cell (sha256_hex ''b'')]]\<rparr>)],
     sc_indexes = []\<rparr>"

theorem downgrade_undoes_upgrade_witness:
  "\<exists>s'. run_all 20 (mg_upgrade retention_eligibility) marked_schema = Inr s' \<and>
     run_all 30 (mg_downgrade retention_eligibility) s' = Inr marked_schema"
proof -
  have ok: "schema_ok marked_schema"
    by (simp add: schema_ok_def relation_names_def marked_schema_def retention_expiry_markers_def table_ok_def
        column_names_def used_columns_def col_def)
  have "\<exists>s'. run_all 20 (mg_upgrade retention_eligibility) marked_schema = Inr s'"
    by (simp add: retention_eligibility_def on_table_def column_at_def put_table_def marked_schema_def
        retention_expiry_markers_def column_names_def col_def)
  then obtain s' where up: "run_all 20 (mg_upgrade retention_eligibility) marked_schema = Inr s'" ..
  have "retention_eligibility \<in> set migrations" by (simp add: migrations_def)
  from downgrade_undoes_upgrade [OF this ok up, of 30] up show ?thesis by blast
qed

end
