(* ===== verification/Retention_Progress.thy ===== *)
theory Retention_Progress
  imports Retention_Properties Snapshot_Facts
begin

text \<open>
  Retention drains: how many runs of the service it takes until nothing that is due is left.
  The bound is a property of any pass that works off a backlog in batches (the locale
  \<open>draining\<close>); PostgreSQL gives two instances of it, the raw records without an expiry marker
  and the terminal anchors, under an invariant of the reachable databases.
\<close>

section \<open>Working off a backlog\<close>

locale draining =
  fixes run :: "'t::linorder \<Rightarrow> 'db \<Rightarrow> 'db" and inv :: "'db \<Rightarrow> bool"
    and due :: "'t \<Rightarrow> 'db \<Rightarrow> 'x set" and backlog :: "'db \<Rightarrow> nat" and batch :: nat
  assumes run_inv: "inv db \<Longrightarrow> inv (run now db)"
    and run_due: "inv db \<Longrightarrow> due t (run now db) \<subseteq> due t db"
    and due_earlier: "t \<le> now \<Longrightarrow> due t db \<subseteq> due now db"
    and progress: "inv db \<Longrightarrow> due now (run now db) = {} \<or> backlog (run now db) + batch \<le> backlog db"
    and no_backlog: "inv db \<Longrightarrow> backlog db = 0 \<Longrightarrow> due t db = {}"
begin

lemma fold_inv: "inv db \<Longrightarrow> inv (fold run instants db)"
  by (induction instants arbitrary: db) (simp_all add: run_inv)

lemma fold_due: "inv db \<Longrightarrow> due t (fold run instants db) \<subseteq> due t db"
  by (induction instants arbitrary: db) (use run_inv run_due in \<open>fastforce simp: subset_eq\<close>)+

lemma drained:
  assumes "inv db" "\<forall>now \<in> set instants. t \<le> now" "backlog db \<le> batch * length instants"
  shows "due t (fold run instants db) = {}"
  using assms
proof (induction instants arbitrary: db)
  case Nil
  then show ?case by (simp add: no_backlog)
next
  case (Cons now later)
  note inv' = run_inv [OF Cons.prems(1), of now]
  from progress [OF Cons.prems(1), of now] show ?case
  proof
    assume "due now (run now db) = {}"
    with due_earlier [of t now "run now db"] Cons.prems(2) have "due t (run now db) = {}" by simp
    with fold_due [OF inv', of t later] show ?case by simp
  next
    assume "backlog (run now db) + batch \<le> backlog db"
    with Cons.IH [OF inv'] Cons.prems(2,3) show ?case by simp
  qed
qed

end

section \<open>What the tables of a reachable database hold\<close>

text \<open>An identity as validation admits it: a non-empty event id, or two hexadecimal ids.\<close>

definition source_named :: "source \<Rightarrow> bool" where
  "source_named src \<longleftrightarrow>
     (\<exists>e. src = (''event'', key_json [VStr ''event'', VStr e]) \<and> e \<noteq> []) \<or>
     (\<exists>t s. src = (''span'', key_json [VStr ''span'', VStr t, VStr s]) \<and> hex_text 32 t \<and> hex_text 16 s)"

definition raw_marker_ok :: "marker_row \<Rightarrow> bool" where
  "raw_marker_ok em \<longleftrightarrow>
     (em_class em = ''RAW_DEBUG'' \<longrightarrow> source_named (em_source em) \<and> snd (em_source em) = em_key em)"

definition retainable :: "db \<Rightarrow> bool" where
  "retainable db \<longleftrightarrow> (\<forall>src \<in> ar_identity ` set (accepted db). source_named src) \<and>
     [] \<notin> dm_delivery ` set (members db) \<and> (\<forall>em \<in> set (markers db). raw_marker_ok em)"

lemma validated_named:
  assumes "validate_record v = Inr rec"
  shows "source_named (record_source rec)"
  using assms
proof (cases rule: validated_cases)
  case (1 r)
  then have "\<forall>c \<in> set (span_field_checks r). c = None"
    by (simp add: is_span_record_def validate_span_None)
  then have "hex_text 32 (the_str (dget r ''trace_id''))" "hex_text 16 (the_str (dget r ''span_id''))"
    by (auto simp: span_field_checks_def str_such_iff)
  with 1 show ?thesis by (auto simp: is_span_record_def record_source_def source_named_def)
next
  case (2 r)
  have valid: "validate_attributes (attributes rec) = None"
    using 2(2) unfolding is_event_record_def passed_common_def by blast
  have "has_key (attributes rec) ''agentops.event.id''"
    by (rule event_keys_present [OF 2(2)]) (use event_rules_required(1) in blast)
  from valid_string [OF valid this key_field_types(4)] obtain s where
    "dget (attributes rec) ''agentops.event.id'' = VStr s" "0 < py_len s" by blast
  with 2(2) show ?thesis by (auto simp: is_event_record_def record_source_def source_named_def)
qed

lemma record_delivery_nonempty:
  assumes "validate_record v = Inr rec" "record_delivery rec = Some d"
  shows "d \<noteq> []"
proof -
  from assms(2) have p: "profile_version rec = ''2.0.0''"
    and d: "d = the_str (dget (attributes rec) ''agentops.delivery.id'')"
    by (auto simp: record_delivery_def split: if_splits)
  have valid: "validate_attributes (attributes rec) = None"
    using assms(1) by (rule validated_cases)
      (auto simp: is_event_record_def is_span_record_def passed_common_def)
  from valid_string [OF valid delivery_present [OF assms(1) p] key_field_types(1)] obtain s where
    "dget (attributes rec) ''agentops.delivery.id'' = VStr s" "0 < py_len s" by blast
  with d show ?thesis by auto
qed

text \<open>An admission that changes the database adds one validated record and its membership.\<close>

lemma admit_adds:
  assumes "store_ok db" "admit now v db = (r, db')"
  obtains "db' = db" | rec row ms where "validate_record v = Inr rec" "accepted_row_of rec now = Inr row"
    "accepted db' = accepted db @ [row]" "members db' = members db @ ms" "markers db' = markers db"
    "\<forall>m \<in> set ms. record_delivery rec = Some (dm_delivery m)"
proof (cases "\<exists>res. r = Inr res \<and> disposition res = ACCEPTED")
  case False
  with pg.admit_not_accepted [OF assms(2) [unfolded admit_pg]] that(1) show thesis by blast
next
  case True
  then obtain res where "r = Inr res" and acc: "disposition res = ACCEPTED" by blast
  with assms(2) have a: "pg.admit_at now v db = (Inr res, db')" by (simp add: admit_pg)
  from pg.admit_accepted [OF a acc assms(1)] obtain rec tx1 tx2 where
    v: "validate_record v = Inr rec"
    and c: "claim_identity rec (begin_txn now db) = Inr (ACCEPTED, tx1)"
    and e: "apply_effects (result_effects res) tx1 = Inr tx2" and db': "db' = txn_db tx2" .
  from claim_identity_Inr [OF c] claim_accepted [OF c] obtain row where
    row: "accepted_row_of rec now = Inr row" and new: "claim_new rec row (begin_txn now db) = Inr (ACCEPTED, tx1)"
    by auto
  from claim_new_Inr [OF new] obtain ms where ms: "accepted (txn_db tx1) = accepted db @ [row]"
    "members (txn_db tx1) = members db @ ms" "markers (txn_db tx1) = markers db"
    "\<forall>m \<in> set ms. record_delivery rec = Some (dm_delivery m)"
    by (auto split: option.splits)
  have "store_ok (txn_db (begin_txn now db))" using assms(1) by simp
  from claim_ok [OF this c] apply_effects_ok [OF _ e] have ext: "extends tx1 tx2" by blast
  show thesis
    by (rule that(2) [OF v row]) (use ms in \<open>simp_all add: db' extends_tables [OF ext]\<close>)
qed

lemma expire_member_markers:
  assumes "expire_member b now m db = Inr (was, db')" "\<forall>src \<in> ar_identity ` set (accepted db). source_named src"
    and "\<forall>em \<in> set (markers db). raw_marker_ok em"
  shows "\<forall>em \<in> set (markers db'). raw_marker_ok em"
proof (cases "has_marker db (class_value (eb_class b)) (resource_kind m) (key_json (owner_key m))")
  case True
  with assms(1,3) show ?thesis by (simp add: expire_member_def Let_def)
next
  case False
  with assms(1) obtain rec cj where
    found: "(if eb_class b = RAW_DEBUG then Inr (raw_record db (key_json (owner_key m)))
         else projection_record db (eb_class b) (resource_kind m) (key_json (owner_key m))) = Inr (Some rec)"
    and db': "db' = clear_resource b m (fst rec) (db\<lparr>markers := markers db @ [marker_of b now m rec cj]\<rparr>)"
    by (auto simp: expire_member_def Let_def bind_result_Inr_iff split: option.splits)
  have "raw_marker_ok (marker_of b now m rec cj)"
  proof (cases "eb_class b = RAW_DEBUG")
    case True
    with found obtain ar where ar: "row_with (\<lambda>ar. snd (ar_identity ar)) (key_json (owner_key m)) (accepted db) = Some ar"
      and rec: "rec = (ar_identity ar, ar_at ar, [])" by (auto simp: raw_record_def)
    from row_with_SomeD [OF ar] assms(2) show ?thesis
      by (auto simp: raw_marker_ok_def marker_of_def rec)
  next
    case False
    then have "em_class (marker_of b now m rec cj) \<noteq> ''RAW_DEBUG''"
      by (cases "eb_class b") (simp_all add: marker_of_def split: prod.splits)
    then show ?thesis by (simp add: raw_marker_ok_def)
  qed
  with assms(3) show ?thesis by (auto simp: db')
qed

lemma retainable_tables:
  assumes "skeleton db' = skeleton db" "retainable db" "\<forall>em \<in> set (markers db'). raw_marker_ok em"
  shows "retainable db'"
proof -
  from assms(1) have "members db' = members db" by (simp only: skeleton_def prod.inject)
  with assms(2,3) skeleton_sets(1) [OF assms(1)] show ?thesis by (simp add: retainable_def)
qed

lemma expire_members_retainable:
  assumes "store_ok db" "retainable db" "expire_members b now ms (e, a) db = Inr (c, db')"
  shows "retainable db'"
  using assms
proof (induction ms arbitrary: e a db)
  case (Cons m ms)
  from Cons.prems(3) obtain was db1 where one: "expire_member b now m db = Inr (was, db1)"
    and rest: "expire_members b now ms (if was then (e, a + 1) else (e + 1, a)) db1 = Inr (c, db')"
    by (auto simp: bind_result_Inr_iff)
  note ok = expire_member_ok [OF Cons.prems(1) one]
  have "\<forall>em \<in> set (markers db1). raw_marker_ok em"
    using Cons.prems(2) by (intro expire_member_markers [OF one]) (simp_all add: retainable_def)
  from retainable_tables [OF ok(2) Cons.prems(2) this] Cons.IH [OF ok(1)] rest show ?case
    by (cases was) simp_all
qed simp

lemma apply_expiry_retainable:
  "store_ok db \<Longrightarrow> retainable db \<Longrightarrow> apply_expiry b now db = (r, db') \<Longrightarrow> retainable db'"
  by (erule apply_expiry_cases) (auto intro: expire_members_retainable)

lemma deletes_retainable: "retainable db \<Longrightarrow> deletes ds db db' \<Longrightarrow> retainable db'"
  by (auto simp: retainable_def deletes_def)

lemma apply_deletion_deletes:
  assumes "store_ok db" "apply_delivery_deletion b now db = (r, db')"
  shows "db' = db \<or> deletes (db_delivery_ids b) db db'"
  using assms(2) delete_deliveries_ok [OF assms(1)] by (rule_tac apply_deletion_cases) auto

lemma step_retainable:
  assumes "step db a db'" "evidence_ok db" "retainable db"
  shows "retainable db'"
proof -
  have ok: "store_ok db" using assms(2) by (simp add: evidence_ok_def)
  from assms(1) show ?thesis
  proof (cases rule: step_cases [consumes 1])
    case (1 now v r)
    from ok 1(2) show ?thesis
    proof (rule admit_adds)
      fix rec row ms
      assume new: "validate_record v = Inr rec" and row: "accepted_row_of rec now = Inr row"
        and tables:
        "accepted db' = accepted db @ [row]" "members db' = members db @ ms" "markers db' = markers db"
        and ms: "\<forall>m \<in> set ms. record_delivery rec = Some (dm_delivery m)"
      have "[] \<notin> dm_delivery ` set ms"
        using ms record_delivery_nonempty [OF new] by auto
      with tables assms(3) validated_named [OF new] accepted_row_of_ok(1) [OF row] show ?thesis
        by (simp add: retainable_def image_Un)
    qed (use assms(3) in simp)
  next
    case (2 b now r)
    with ok assms(3) show ?thesis by (auto intro: apply_expiry_retainable)
  next
    case (3 b now r)
    from apply_deletion_deletes [OF ok 3(2)] assms(3) deletes_retainable show ?thesis by blast
  qed
qed

lemma empty_retainable [simp]: "retainable empty_db"
  by (simp add: retainable_def empty_db_def)

lemma reachable_retainable: "reachable db \<Longrightarrow> retainable db"
proof -
  assume "reachable db"
  then obtain as where "steps empty_db as db" by (auto simp: reachable_def)
  then have "evidence_ok db \<and> retainable db"
    by (rule steps_invariant) (auto intro: step_evidence_ok step_retainable)
  then show ?thesis ..
qed

section \<open>A raw plan never fails\<close>

text \<open>
  What the owner keys of retention can express: an event id of at most 256 bytes without lone
  surrogates.
\<close>

definition nameable :: "source \<Rightarrow> bool" where
  "nameable src \<longleftrightarrow> (\<forall>e. snd src = key_json [VStr ''event'', VStr e] \<longrightarrow> length e \<le> 256 \<and> \<not> has_surrogate e)"

lemma hex_no_surrogate: "list_all is_lower_hex s \<Longrightarrow> \<not> has_surrogate s"
  by (induction s rule: has_surrogate.induct) (auto simp: is_lower_hex_def is_digit_def)

lemma source_named_inject:
  assumes "source_named a" "source_named b" "snd a = snd b"
  shows "a = b"
  using assms by (auto simp: source_named_def key_json_inject)

lemma named_owner:
  assumes "source_named src" "nameable src"
  shows "\<exists>m. owner_of_row (''RAW_DEBUG'', snd src) = Inr m \<and> key_json (owner_key m) = snd src \<and>
    validate_expiry_owner RAW_DEBUG m = None"
proof -
  from assms obtain k where k: "snd src = key_json k" "list_all key_scalar k" "raw_key_shape k"
    "\<forall>v \<in> set k. \<exists>s. v = VStr s \<and> 1 \<le> length s \<and> length s \<le> 256 \<and> \<not> has_surrogate s"
    "1 \<le> length k \<and> length k \<le> 16"
    unfolding source_named_def
  proof (elim disjE exE conjE)
    fix e
    assume src: "src = (''event'', key_json [VStr ''event'', VStr e])" "e \<noteq> []"
    with assms(2) have "length e \<le> 256 \<and> \<not> has_surrogate e" by (simp add: nameable_def)
    with src show thesis
      by (intro that [of "[VStr ''event'', VStr e]"])
        (auto simp: raw_key_shape_def shape_def nonempty_str_def ord_of_def Suc_le_eq)
  next
    fix t s
    assume src: "src = (''span'', key_json [VStr ''span'', VStr t, VStr s])" "hex_text 32 t" "hex_text 16 s"
    then show thesis
      by (intro that [of "[VStr ''span'', VStr t, VStr s]"])
        (auto simp: raw_key_shape_def shape_def is_hex_def hex_text_def ord_of_def hex_no_surrogate)
  qed
  have "concat (map owner_value_checks k) = concat (map (\<lambda>v. [None, None]) k)"
    using k(4) by (intro arg_cong [of _ _ concat] map_cong) (auto simp: owner_value_checks_def)
  then have "validate_owner_key k = None" using k(5) by (simp add: validate_owner_key_def)
  with k show ?thesis
    by (simp add: owner_of_row_def json_loads_key_json [OF dict_hook_keeps] make_owner_def
        validate_expiry_owner_def owner_key_valid_def kinds_of_def)
qed

lemma map_results_all:
  assumes "\<forall>x \<in> set xs. \<exists>y. f x = Inr y \<and> P x y"
  shows "\<exists>ys. map_results f xs = Inr ys \<and> list_all2 P xs ys"
  using assms by (induction xs) fastforce+

text \<open>
  Everything the raw and the deletion pass need: what is reachable, and identities that owner
  keys can express.
\<close>

definition drainable :: "db \<Rightarrow> bool" where
  "drainable db \<longleftrightarrow> evidence_ok db \<and> keys_canonical db \<and> retainable db \<and>
     (\<forall>src \<in> ar_identity ` set (accepted db). nameable src)"

definition raw_keys :: "expiry_batch \<Rightarrow> string set" where
  "raw_keys b = (\<lambda>m. key_json (owner_key m)) ` set (eb_members b)"

lemma raw_due_distinct:
  assumes "drainable db"
  shows "distinct (map (\<lambda>ar. snd (ar_identity ar)) (raw_due db cutoff))"
proof -
  have "inj_on snd (ar_identity ` set (accepted db))"
    using assms unfolding drainable_def retainable_def by (blast intro!: inj_onI source_named_inject)
  moreover have "distinct (map ar_identity (accepted db))"
    using assms by (simp add: drainable_def evidence_ok_def store_defs key_unique_def)
  ultimately have "distinct (map snd (map ar_identity (accepted db)))"
    by (simp only: distinct_map set_map)
  then have "distinct (map (\<lambda>ar. snd (ar_identity ar)) (accepted db))" by (simp add: o_def)
  then show ?thesis by (simp add: raw_due_def distinct_map_filter)
qed

lemma due_rows_raw_keys:
  "map snd (due_rows db RAW_DEBUG cutoff n) = take n (map (\<lambda>ar. snd (ar_identity ar))
     (sort_key (\<lambda>ar. snd (ar_identity ar)) (raw_due db cutoff)))"
  by (simp add: due_rows_def take_map o_def)

lemma raw_plan:
  assumes "drainable db" "1 \<le> limit" "limit \<le> 1000" "0 \<le> ttl" "policy \<noteq> []"
  shows "\<exists>b. plan_expiry RAW_DEBUG policy cutoff ttl limit db = Inr b \<and>
    raw_keys b \<subseteq> (\<lambda>ar. snd (ar_identity ar)) ` set (raw_due db cutoff) \<and>
    card (raw_keys b) = min (nat limit) (length (raw_due db cutoff))"
proof -
  let ?key = "\<lambda>ar. snd (ar_identity ar)" and ?rows = "due_rows db RAW_DEBUG cutoff (nat limit)"
  let ?name = "\<lambda>m. key_json (owner_key m)"
  have "\<forall>row \<in> set ?rows. \<exists>m. owner_of_row row = Inr m \<and>
    (?name m = snd row \<and> validate_expiry_owner RAW_DEBUG m = None)"
  proof
    fix row
    assume "row \<in> set ?rows"
    from due_rows_raw [OF this] obtain ar where
      ar: "ar \<in> set (raw_due db cutoff)" "row = (''RAW_DEBUG'', ?key ar)" by blast
    then have "ar_identity ar \<in> ar_identity ` set (accepted db)" by (simp add: raw_due_def)
    with assms(1) have "source_named (ar_identity ar)" "nameable (ar_identity ar)"
      unfolding drainable_def retainable_def by blast+
    from named_owner [OF this] ar(2) show "\<exists>m. owner_of_row row = Inr m \<and>
      (?name m = snd row \<and> validate_expiry_owner RAW_DEBUG m = None)" by auto
  qed
  from map_results_all [OF this] obtain owners where owners: "map_results owner_of_row ?rows = Inr owners"
    and each: "list_all2 (\<lambda>row m. ?name m = snd row \<and> validate_expiry_owner RAW_DEBUG m = None) ?rows owners"
    by blast
  have names: "map ?name owners = map snd ?rows"
    using each by (induction rule: list_all2_induct) simp_all
  have valid: "\<forall>m \<in> set owners. validate_expiry_owner RAW_DEBUG m = None"
    using each by (induction rule: list_all2_induct) simp_all
  have len: "length owners \<le> 1000"
    using arg_cong [OF names, of length] assms(2,3) by (simp add: due_rows_raw_keys)
  have "distinct (map ?key (sort_key ?key (raw_due db cutoff)))"
    using raw_due_distinct [OF assms(1), of cutoff] by (simp add: distinct_map)
  then have distinct: "distinct (map ?name owners)"
    by (simp add: names due_rows_raw_keys)
  have "inj_on canonical_member (set owners)"
  proof (rule inj_onI)
    fix m n
    assume mn: "m \<in> set owners" "n \<in> set owners" "canonical_member m = canonical_member n"
    with valid have "list_all exact_scalar (owner_key m)" "list_all exact_scalar (owner_key n)"
      by (auto simp: validate_expiry_owner_def dest!: valid_key_exact)
    from canonical_member_append_eq [OF this, of "[]" "[]"] mn(3) show "m = n" by simp
  qed
  moreover have "distinct owners" using distinct by (simp add: distinct_map)
  ultimately have "distinct (map canonical_member (sort_key canonical_member owners))"
    by (simp add: distinct_map)
  then have "adjacent_distinct (map canonical_member (sort_key canonical_member owners))"
    by (simp add: adjacent_distinct_iff)
  with valid len assms(4,5) obtain b where
    b: "create_expiry_batch RAW_DEBUG policy cutoff ttl owners = Inr b"
    by (simp add: create_expiry_batch_def Let_def)
  with owners assms(2,3) have plan: "plan_expiry RAW_DEBUG policy cutoff ttl limit db = Inr b"
    by (simp add: plan_expiry_def)
  have keys: "raw_keys b = set (map ?name owners)"
    by (simp add: raw_keys_def batch_members_valid(1) [OF b])
  then have "card (raw_keys b) = length (map ?name owners)"
    by (simp only: distinct_card [OF distinct])
  moreover have "length (map ?name owners) = min (nat limit) (length (raw_due db cutoff))"
    unfolding names due_rows_raw_keys by simp
  moreover have "raw_keys b \<subseteq> ?key ` set (raw_due db cutoff)"
    unfolding keys names due_rows_raw_keys take_map set_map
    by (rule image_mono) (rule sort_take_subset)
  ultimately show ?thesis using plan by auto
qed

section \<open>A raw pass works off a batch\<close>

lemma policy_bounds:
  assumes "check_delivery_policy policy = None"
  shows "1 \<le> batch_size policy" "batch_size policy \<le> 1000" "0 \<le> whole_seconds (raw_debug_ttl policy)"
    and "delivery_ttl policy = Some ttl \<Longrightarrow> 0 \<le> whole_seconds ttl"
  using assms
  by (auto simp: check_delivery_policy_def batch_and_interval_def bounded_ttl_def whole_seconds_def days_def
      pos_imp_zdiv_nonneg_iff)

definition raw_ids :: "instant \<Rightarrow> db \<Rightarrow> source set" where
  "raw_ids cutoff db = ar_identity ` set (raw_due db cutoff)"

definition raw_left :: "db \<Rightarrow> source set" where
  "raw_left db = {src \<in> ar_identity ` set (accepted db). \<not> has_marker db ''RAW_DEBUG'' ''RAW_DEBUG'' (snd src)}"

lemma raw_ids_iff:
  "src \<in> raw_ids cutoff db \<longleftrightarrow> (\<exists>ar \<in> set (accepted db). ar_identity ar = src \<and> ar_at ar \<le> cutoff) \<and>
     \<not> has_marker db ''RAW_DEBUG'' ''RAW_DEBUG'' (snd src) \<and> src \<in> pe_source ` set (effects db)"
proof
  assume "src \<in> raw_ids cutoff db"
  then obtain ar where "ar \<in> set (raw_due db cutoff)" "src = ar_identity ar" by (auto simp: raw_ids_def)
  then show "(\<exists>ar \<in> set (accepted db). ar_identity ar = src \<and> ar_at ar \<le> cutoff) \<and>
     \<not> has_marker db ''RAW_DEBUG'' ''RAW_DEBUG'' (snd src) \<and> src \<in> pe_source ` set (effects db)"
    by (auto simp: raw_due_def list_ex_iff image_iff eq_commute)
next
  assume src: "(\<exists>ar \<in> set (accepted db). ar_identity ar = src \<and> ar_at ar \<le> cutoff) \<and>
     \<not> has_marker db ''RAW_DEBUG'' ''RAW_DEBUG'' (snd src) \<and> src \<in> pe_source ` set (effects db)"
  then obtain ar where ar: "ar \<in> set (accepted db)" "ar_identity ar = src" "ar_at ar \<le> cutoff" by blast
  with src have "ar \<in> set (raw_due db cutoff)" by (auto simp: raw_due_def list_ex_iff)
  with ar(2) show "src \<in> raw_ids cutoff db" by (auto simp: raw_ids_def)
qed

lemma raw_ids_left: "raw_ids cutoff db \<subseteq> raw_left db"
  unfolding raw_ids_def raw_due_def raw_left_def by auto

lemma raw_ids_earlier: "c \<le> c' \<Longrightarrow> raw_ids c db \<subseteq> raw_ids c' db"
  unfolding raw_ids_def raw_due_def by (intro image_mono) auto

lemma raw_left_finite [simp]: "finite (raw_left db)"
  by (simp add: raw_left_def)

lemma expire_members_marks:
  assumes "eb_class b = RAW_DEBUG" "\<forall>m \<in> set ms. resource_kind m = ''RAW_DEBUG''"
    and "expire_members b now ms (e, a) db = Inr (c, db')"
  shows "has_marker db' ''RAW_DEBUG'' ''RAW_DEBUG'' k \<longleftrightarrow>
    has_marker db ''RAW_DEBUG'' ''RAW_DEBUG'' k \<or> k \<in> (\<lambda>m. key_json (owner_key m)) ` set ms"
  using assms(2,3)
proof (induction ms arbitrary: e a db)
  case (Cons m ms)
  from Cons.prems(2) obtain was db1 where one: "expire_member b now m db = Inr (was, db1)"
    and rest: "expire_members b now ms (if was then (e, a + 1) else (e + 1, a)) db1 = Inr (c, db')"
    by (auto simp: bind_result_Inr_iff)
  obtain e1 a1 where counts: "(if was then (e, a + 1) else (e + 1, a)) = (e1, a1)" by force
  from Cons.prems(1) have "\<forall>m \<in> set ms. resource_kind m = ''RAW_DEBUG''" by simp
  from Cons.IH [OF this rest [unfolded counts]] expire_member_marks [OF one] assms(1) Cons.prems(1)
  show ?case by auto
qed simp

lemma scrubs_rows:
  assumes "scrubs ks rs rs'"
  shows "(\<lambda>ar. (ar_identity ar, ar_at ar)) ` set rs' = (\<lambda>ar. (ar_identity ar, ar_at ar)) ` set rs"
proof -
  have "map (\<lambda>ar. (ar_identity ar, ar_at ar)) rs' = map (\<lambda>ar. (ar_identity ar, ar_at ar)) rs"
    using assms unfolding scrubs_def by (induction rule: list_all2_induct) (auto simp: scrubbed_def)
  then show ?thesis by (metis set_map)
qed

text \<open>
  What a raw batch with the keys \<open>ks\<close> did: the rows keep their identities and instants, and
  exactly the records with those keys got markers.
\<close>

definition marks :: "string set \<Rightarrow> db \<Rightarrow> db \<Rightarrow> bool" where
  "marks ks db db' \<longleftrightarrow> drainable db' \<and> anchors db' = anchors db \<and>
     (\<forall>cutoff. raw_ids cutoff db' = {src \<in> raw_ids cutoff db. snd src \<notin> ks}) \<and>
     raw_left db' = {src \<in> raw_left db. snd src \<notin> ks}"

lemma raw_batch_marks:
  assumes "drainable db" "plan_expiry RAW_DEBUG policy cutoff ttl limit db = Inr b"
  shows "\<exists>r db'. apply_expiry b now db = (Inr r, db') \<and> cr_done r = cr_selected r \<and> marks (raw_keys b) db db'"
proof -
  have ok: "evidence_ok db" "store_ok db" "keys_canonical db" "retainable db"
    using assms(1) by (simp_all add: drainable_def evidence_ok_def)
  from planned_raw_applies [OF ok(3) assms(2), of now] obtain db' where
    run: "expire_members b now (eb_members b) (0, 0) db = Inr ((int (length (eb_members b)), 0), db')" ..
  from assms(2) obtain owners where
    "create_expiry_batch RAW_DEBUG policy cutoff ttl owners = Inr b" by (rule plan_expiry_Inr)
  note b = batch_members_valid(2,6,7) [OF this]
  from b run obtain r where res: "apply_expiry b now db = (Inr r, db')" and all: "cr_done r = cr_selected r"
    by (simp add: apply_expiry_def in_transaction_def make_count_result_def)
  from pg_retention.expiry_inv [OF ok(1), of b now "Inr r" db'] res have ev: "evidence_ok db'"
    by (simp add: pg_port_def)
  from apply_expiry_skeleton [OF ok(2) res] have sk: "skeleton db' = skeleton db" ..
  note same = skeleton_sets [OF sk]
  have drain: "drainable db'"
    using assms(1) ev skeleton_keys_canonical [OF sk ok(3)] apply_expiry_retainable [OF ok(2,4) res] same(1)
    by (simp add: drainable_def)
  have "\<forall>m \<in> set (eb_members b). resource_kind m = ''RAW_DEBUG''" using b(1) by (simp add: kinds_of_def)
  from expire_members_marks [OF b(3) this run] have
    mark: "has_marker db' ''RAW_DEBUG'' ''RAW_DEBUG'' k \<longleftrightarrow>
      has_marker db ''RAW_DEBUG'' ''RAW_DEBUG'' k \<or> k \<in> raw_keys b" for k by (simp add: raw_keys_def)
  from raw_expire_members [OF ok(2) b(3) run] have "scrubs (map (\<lambda>m. key_json (owner_key m)) (eb_members b))
      (accepted db) (accepted db')" by blast
  note at = scrubs_rows [OF this]
  have pairs: "(\<exists>ar \<in> set rs. ar_identity ar = src \<and> ar_at ar \<le> t) \<longleftrightarrow>
      (\<exists>p \<in> (\<lambda>ar. (ar_identity ar, ar_at ar)) ` set rs. fst p = src \<and> snd p \<le> t)" for src t rs by simp
  have rows: "(\<exists>ar \<in> set (accepted db'). ar_identity ar = src \<and> ar_at ar \<le> t) \<longleftrightarrow>
      (\<exists>ar \<in> set (accepted db). ar_identity ar = src \<and> ar_at ar \<le> t)" for src t
    unfolding pairs at ..
  have "raw_ids t db' = {src \<in> raw_ids t db. snd src \<notin> raw_keys b}" for t
    unfolding set_eq_iff mem_Collect_eq raw_ids_iff rows mark same(2) by blast
  moreover have "raw_left db' = {src \<in> raw_left db. snd src \<notin> raw_keys b}"
    unfolding raw_left_def same(1) mark by blast
  moreover have "anchors db' = anchors db" using sk by (simp only: skeleton_def prod.inject)
  ultimately show ?thesis using drain res all by (auto simp: marks_def)
qed

lemma marks_progress:
  assumes "drainable db" "marks ks db db'" "ks \<subseteq> (\<lambda>ar. snd (ar_identity ar)) ` set (raw_due db cutoff)"
    and "card ks = min n (length (raw_due db cutoff))"
  shows "raw_ids cutoff db' = {} \<or> card (raw_left db') + n \<le> card (raw_left db)"
proof (cases "n \<le> length (raw_due db cutoff)")
  case False
  let ?key = "\<lambda>ar. snd (ar_identity ar)"
  have "card (?key ` set (raw_due db cutoff)) = length (raw_due db cutoff)"
    using distinct_card [OF raw_due_distinct [OF assms(1)]] by (simp only: set_map length_map)
  with False assms(4) have "ks = ?key ` set (raw_due db cutoff)"
    by (intro card_subset_eq [OF _ assms(3)]) simp_all
  then have "\<forall>src \<in> raw_ids cutoff db. snd src \<in> ks" by (simp add: raw_ids_def)
  then have "raw_ids cutoff db' = {}" using assms(2) by (simp add: marks_def)
  then show ?thesis ..
next
  case True
  let ?hit = "{src \<in> raw_left db. snd src \<in> ks}"
  have "ks \<subseteq> snd ` ?hit"
    using assms(3) raw_ids_left [of cutoff db] by (fastforce simp: raw_ids_def)
  then have "card ks \<le> card ?hit"
    by (intro order_trans [OF card_mono [of "snd ` ?hit" ks] card_image_le]) simp_all
  moreover have "card (raw_left db') + card ?hit = card (raw_left db)"
  proof -
    have "raw_left db = raw_left db' \<union> ?hit" "raw_left db' \<inter> ?hit = {}"
      using assms(2) by (auto simp: marks_def)
    then show ?thesis using card_Un_disjoint [of "raw_left db'" ?hit] by simp
  qed
  ultimately show ?thesis using True assms(4) by simp
qed

section \<open>So does a deletion pass\<close>

definition old_anchors :: "instant \<Rightarrow> db \<Rightarrow> anchor_row set" where
  "old_anchors cutoff db = {t \<in> set (anchors db). ta_at t \<le> cutoff}"

lemma delete_deliveries_rows:
  assumes "store_ok db" "delete_deliveries b now ds (e, a) db = Inr (c, db')"
  shows "set (anchors db') = {t \<in> set (anchors db). ta_delivery t \<notin> set ds} \<and>
    pe_source ` set (effects db') \<subseteq> pe_source ` set (effects db)"
  using assms
proof (induction ds arbitrary: e a db)
  case (Cons d ds)
  from Cons.prems(2) obtain was db1 where one: "delete_delivery b now d db = Inr (was, db1)"
    and rest: "delete_deliveries b now ds (if was then (e, a + 1) else (e + 1, a)) db1 = Inr (c, db')"
    by (auto simp: bind_result_Inr_iff)
  obtain e1 a1 where counts: "(if was then (e, a + 1) else (e + 1, a)) = (e1, a1)" by force
  note later = Cons.IH [OF delete_delivery_ok(1) [OF Cons.prems(1) one] rest [unfolded counts]]
  have "pe_source ` set (effects db1) \<subseteq> pe_source ` set (effects db)"
    using delete_delivery_ok(4,5) [OF Cons.prems(1) one] preserve_sources [of d db] by (cases was) auto
  with later have "pe_source ` set (effects db') \<subseteq> pe_source ` set (effects db)" by (blast intro: subset_trans)
  with later delete_delivery_anchors [OF Cons.prems(1) one] show ?case by auto
qed simp

lemma deletes_raw:
  assumes "drainable db" "deletes ds db db'" "pe_source ` set (effects db') \<subseteq> pe_source ` set (effects db)"
  shows "raw_ids cutoff db' \<subseteq> raw_ids cutoff db" "raw_left db' \<subseteq> raw_left db"
proof -
  from assms(2) have rows: "set (accepted db') \<subseteq> set (accepted db)" by (auto simp: deletes_def)
  have kept: "has_marker db' ''RAW_DEBUG'' ''RAW_DEBUG'' (snd src)"
    if src: "src \<in> ar_identity ` set (accepted db')" and "has_marker db ''RAW_DEBUG'' ''RAW_DEBUG'' (snd src)" for src
  proof -
    from that(2) obtain em where em: "em \<in> set (markers db)"
      and id: "em_id em = (''RAW_DEBUG'', ''RAW_DEBUG'', snd src)"
      by (auto simp: has_marker_iff)
    with assms(1) have "source_named (em_source em)" "snd (em_source em) = snd src"
      by (auto simp: drainable_def retainable_def raw_marker_ok_def em_id_def)
    moreover from src rows assms(1) have "source_named src" by (auto simp: drainable_def retainable_def)
    ultimately have "em_source em = src" by (intro source_named_inject)
    with src em assms(2) have "em \<in> set (markers db')" by (auto simp: deletes_def)
    with id show ?thesis by (force simp: has_marker_iff)
  qed
  show "raw_ids cutoff db' \<subseteq> raw_ids cutoff db"
  proof
    fix src
    assume "src \<in> raw_ids cutoff db'"
    with rows kept [of src] assms(3) show "src \<in> raw_ids cutoff db"
      unfolding raw_ids_iff by blast
  qed
  show "raw_left db' \<subseteq> raw_left db"
    using rows kept unfolding raw_left_def by blast
qed

text \<open>What deleting the Deliveries \<open>ds\<close> did.\<close>

definition drops :: "string set \<Rightarrow> db \<Rightarrow> db \<Rightarrow> bool" where
  "drops ds db db' \<longleftrightarrow> drainable db' \<and> set (anchors db') = {t \<in> set (anchors db). ta_delivery t \<notin> ds} \<and>
     (\<forall>cutoff. raw_ids cutoff db' \<subseteq> raw_ids cutoff db) \<and> raw_left db' \<subseteq> raw_left db"

lemma drainable_anchors:
  assumes "drainable db"
  shows "distinct (map ta_delivery (anchors db))" "[] \<notin> ta_delivery ` set (anchors db)"
    "t \<in> set (anchors db) \<Longrightarrow> \<not> is_fenced (ta_delivery t) db"
proof -
  have ok: "store_ok db" using assms by (simp add: drainable_def evidence_ok_def)
  then show "distinct (map ta_delivery (anchors db))" by (simp add: store_defs key_unique_def)
  from ok have "ta_delivery ` set (anchors db) \<subseteq> dm_delivery ` set (members db)"
    by (auto simp: store_defs)
  with assms show "[] \<notin> ta_delivery ` set (anchors db)" by (auto simp: drainable_def retainable_def)
  show "t \<in> set (anchors db) \<Longrightarrow> \<not> is_fenced (ta_delivery t) db"
    using fenced_no_anchor [OF ok] by blast
qed

lemma deletion_plan:
  assumes "drainable db" "1 \<le> limit" "limit \<le> 1000" "0 \<le> ttl" "policy \<noteq> []"
  shows "\<exists>b. plan_delivery_deletion policy cutoff ttl limit db = Inr b \<and>
    set (db_delivery_ids b) \<subseteq> ta_delivery ` old_anchors cutoff db \<and>
    card (set (db_delivery_ids b)) = min (nat limit) (card (old_anchors cutoff db))"
proof -
  let ?old = "filter (\<lambda>t. ta_at t \<le> cutoff) (anchors db)" and ?n = "nat limit"
  note anch = drainable_anchors [OF assms(1)]
  have due: "filter (\<lambda>t. ta_at t \<le> cutoff \<and> \<not> is_fenced (ta_delivery t) db) (anchors db) = ?old"
    using anch(3) by (intro filter_cong) auto
  have old: "set ?old = old_anchors cutoff db" by (auto simp: old_anchors_def)
  have distinct: "distinct (map ta_delivery ?old)" using anch(1) by (rule distinct_map_filter)
  let ?ids = "take ?n (sort (map ta_delivery ?old))"
  have sub: "set ?ids \<subseteq> ta_delivery ` old_anchors cutoff db"
    using set_take_subset [of ?n "sort (map ta_delivery ?old)"] by (simp only: set_sort set_map old)
  with anch(2) have "[] \<notin> set ?ids" by (auto simp: old_anchors_def)
  then have "list_all (\<lambda>d. d \<noteq> []) ?ids" by (auto simp: list_all_iff)
  moreover have dist: "distinct ?ids" using distinct by simp
  then have "adjacent_distinct (sort ?ids)" by (simp add: adjacent_distinct_iff)
  moreover have "length ?ids \<le> 1000" using assms(2,3) by simp
  ultimately obtain b where b: "create_deletion_batch policy cutoff ttl ?ids = Inr b"
    and ids: "db_delivery_ids b = sort ?ids"
    using assms(4,5) by (simp add: create_deletion_batch_def Let_def)
  have "plan_delivery_deletion policy cutoff ttl limit db = Inr b"
    using assms(2,3) b by (simp add: plan_delivery_deletion_def due)
  moreover have "length ?old = card (old_anchors cutoff db)"
    using distinct_card [of ?old] distinct by (simp add: distinct_map old_anchors_def)
  then have "card (set ?ids) = min ?n (card (old_anchors cutoff db))"
    by (simp only: distinct_card [OF dist] length_take length_sort length_map)
  ultimately show ?thesis using sub by (simp add: ids)
qed

lemma deletion_batch_drops:
  assumes "drainable db" "plan_delivery_deletion policy cutoff ttl limit db = Inr b"
  shows "\<exists>r db'. apply_delivery_deletion b now db = (Inr r, db') \<and> cr_done r = cr_selected r \<and>
    drops (set (db_delivery_ids b)) db db'"
proof -
  have ok: "evidence_ok db" "store_ok db" "keys_canonical db" "retainable db"
    using assms(1) by (simp_all add: drainable_def evidence_ok_def)
  note plan = plan_deletion_Inr [OF assms(2) ok(2)]
  from delete_deliveries_progress [OF ok(2) plan(1,4), of now 0 0] obtain db' where
    run: "delete_deliveries b now (db_delivery_ids b) (0, 0) db = Inr ((int (length (db_delivery_ids b)), 0), db')"
    by auto
  with plan(3) obtain r where res: "apply_delivery_deletion b now db = (Inr r, db')"
    and all: "cr_done r = cr_selected r"
    by (simp add: apply_delivery_deletion_def in_transaction_def make_count_result_def)
  note rows = delete_deliveries_rows [OF ok(2) run]
  from delete_deliveries_ok [OF ok(2) run] have del: "deletes (db_delivery_ids b) db db'" by blast
  have step: "step db (Delete b now) db'" using res by (rule delete_step)
  have "set (accepted db') \<subseteq> set (accepted db)" using del by (auto simp: deletes_def)
  with assms(1) have "drainable db'"
    using step_evidence_ok [OF step ok(1)] step_keys_canonical [OF step ok(1,3)] deletes_retainable [OF ok(4) del]
    by (auto simp: drainable_def)
  with res all rows deletes_raw [OF assms(1) del] show ?thesis by (auto simp: drops_def)
qed

lemma drops_progress:
  assumes "drainable db" "drops ds db db'" "ds \<subseteq> ta_delivery ` old_anchors cutoff db"
    and "card ds = min n (card (old_anchors cutoff db))"
  shows "old_anchors cutoff db' = {} \<or> card (set (anchors db')) + n \<le> card (set (anchors db))"
proof (cases "n \<le> card (old_anchors cutoff db)")
  case False
  have fin: "finite (old_anchors cutoff db)" by (simp add: old_anchors_def)
  then have "card (ta_delivery ` old_anchors cutoff db) \<le> card (old_anchors cutoff db)" by (rule card_image_le)
  with False assms(4) have "card (ta_delivery ` old_anchors cutoff db) \<le> card ds" by simp
  with fin assms(3) have "ds = ta_delivery ` old_anchors cutoff db" by (intro card_seteq) simp_all
  then have "old_anchors cutoff db' = {}" using assms(2) by (auto simp: drops_def old_anchors_def)
  then show ?thesis ..
next
  case True
  let ?hit = "{t \<in> set (anchors db). ta_delivery t \<in> ds}"
  have "ds \<subseteq> ta_delivery ` ?hit" using assms(3) by (auto simp: old_anchors_def)
  then have "card ds \<le> card ?hit"
    by (intro order_trans [OF card_mono [of "ta_delivery ` ?hit" ds] card_image_le]) simp_all
  moreover have "card (set (anchors db')) + card ?hit = card (set (anchors db))"
  proof -
    have "set (anchors db) = set (anchors db') \<union> ?hit" "set (anchors db') \<inter> ?hit = {}"
      using assms(2) by (auto simp: drops_def)
    then show ?thesis using card_Un_disjoint [of "set (anchors db')" ?hit] by simp
  qed
  ultimately show ?thesis using True assms(4) by simp
qed

section \<open>A run of the service\<close>

definition after_raw :: "delivery_policy \<Rightarrow> instant \<Rightarrow> db \<Rightarrow> db" where
  "after_raw policy now db = snd (expiry_pass pg_port policy now db)"

definition after_run :: "delivery_policy \<Rightarrow> instant \<Rightarrow> db \<Rightarrow> db" where
  "after_run policy now db = snd (run_once_with pg_port policy now db)"

lemma raw_pass:
  assumes "check_delivery_policy policy = None" "drainable db"
  shows "\<exists>r ks. expiry_pass pg_port policy now db = (Inr r, after_raw policy now db) \<and>
    cr_done r = cr_selected r \<and> marks ks db (after_raw policy now db) \<and>
    (raw_ids (now - raw_debug_ttl policy) (after_raw policy now db) = {} \<or>
     card (raw_left (after_raw policy now db)) + nat (batch_size policy) \<le> card (raw_left db))"
proof -
  have "DELIVERY_RETENTION_POLICY_REVISION \<noteq> []" by (simp add: DELIVERY_RETENTION_POLICY_REVISION_def)
  from raw_plan [OF assms(2) policy_bounds(1-3) [OF assms(1)] this] obtain b where
    plan: "plan_expiry RAW_DEBUG DELIVERY_RETENTION_POLICY_REVISION (now - raw_debug_ttl policy)
      (whole_seconds (raw_debug_ttl policy)) (batch_size policy) db = Inr b"
    and keys: "raw_keys b \<subseteq> (\<lambda>ar. snd (ar_identity ar)) ` set (raw_due db (now - raw_debug_ttl policy))"
      "card (raw_keys b) = min (nat (batch_size policy)) (length (raw_due db (now - raw_debug_ttl policy)))"
    by blast
  from raw_batch_marks [OF assms(2) plan, of now] obtain r db' where
    run: "apply_expiry b now db = (Inr r, db')" and all: "cr_done r = cr_selected r"
    and marked: "marks (raw_keys b) db db'" by blast
  have pass: "expiry_pass pg_port policy now db = (Inr r, db')"
    using plan run by (simp add: expiry_pass_def pg_port_def)
  with marks_progress [OF assms(2) marked keys] marked all show ?thesis by (auto simp: after_raw_def)
qed

lemma deletion_pass_drops:
  assumes "check_delivery_policy policy = None" "drainable db" "delivery_ttl policy = Some ttl"
  shows "\<exists>r db' ds. deletion_pass pg_port policy ttl now db = (Inr r, db') \<and> cr_done r = cr_selected r \<and>
    drops ds db db' \<and>
    (old_anchors (now - ttl) db' = {} \<or>
     card (set (anchors db')) + nat (batch_size policy) \<le> card (set (anchors db)))"
proof -
  have "DELIVERY_RETENTION_POLICY_REVISION \<noteq> []" by (simp add: DELIVERY_RETENTION_POLICY_REVISION_def)
  from deletion_plan [OF assms(2) policy_bounds(1,2,4) [OF assms(1)] this] assms(3) obtain b where
    plan: "plan_delivery_deletion DELIVERY_RETENTION_POLICY_REVISION (now - ttl) (whole_seconds ttl)
      (batch_size policy) db = Inr b"
    and ids: "set (db_delivery_ids b) \<subseteq> ta_delivery ` old_anchors (now - ttl) db"
      "card (set (db_delivery_ids b)) = min (nat (batch_size policy)) (card (old_anchors (now - ttl) db))"
    by blast
  from deletion_batch_drops [OF assms(2) plan, of now] obtain r db' where
    run: "apply_delivery_deletion b now db = (Inr r, db')" and all: "cr_done r = cr_selected r"
    and dropped: "drops (set (db_delivery_ids b)) db db'" by blast
  have "deletion_pass pg_port policy ttl now db = (Inr r, db')"
    using plan run by (simp add: deletion_pass_def pg_port_def)
  with drops_progress [OF assms(2) dropped ids] dropped all show ?thesis by blast
qed

text \<open>The second half of a run: nothing, or a deletion pass.\<close>

lemma run_halves:
  assumes "check_delivery_policy policy = None" "drainable db"
  obtains "delivery_ttl policy = None" "after_run policy now db = after_raw policy now db"
  | ttl ds where "delivery_ttl policy = Some ttl" "drops ds (after_raw policy now db) (after_run policy now db)"
      "old_anchors (now - ttl) (after_run policy now db) = {} \<or>
       card (set (anchors (after_run policy now db))) + nat (batch_size policy)
         \<le> card (set (anchors (after_raw policy now db)))"
proof -
  from raw_pass [OF assms, of now] obtain r ks where
    first: "expiry_pass pg_port policy now db = (Inr r, after_raw policy now db)"
    and drain: "drainable (after_raw policy now db)" by (auto simp: marks_def)
  show thesis
  proof (cases "delivery_ttl policy")
    case None
    with first that(1) show thesis by (simp add: after_run_def run_once_with_def)
  next
    case (Some ttl)
    from deletion_pass_drops [OF assms(1) drain Some, of now] obtain r2 db2 ds where
      second: "deletion_pass pg_port policy ttl now (after_raw policy now db) = (Inr r2, db2)"
      and rest: "drops ds (after_raw policy now db) db2"
        "old_anchors (now - ttl) db2 = {} \<or>
         card (set (anchors db2)) + nat (batch_size policy) \<le> card (set (anchors (after_raw policy now db)))"
      by blast
    have "after_run policy now db = db2"
      using Some first second by (simp add: after_run_def run_once_with_def)
    with that(2) [OF Some] rest show thesis by blast
  qed
qed

definition due_deliveries :: "delivery_policy \<Rightarrow> instant \<Rightarrow> db \<Rightarrow> anchor_row set" where
  "due_deliveries policy now db =
     (case delivery_ttl policy of None \<Rightarrow> {} | Some ttl \<Rightarrow> old_anchors (now - ttl) db)"

lemma after_run_facts:
  assumes "check_delivery_policy policy = None" "drainable db"
  shows "drainable (after_run policy now db)"
    and "raw_ids cutoff (after_run policy now db) \<subseteq> raw_ids cutoff db"
    and "raw_ids (now - raw_debug_ttl policy) (after_run policy now db) = {} \<or>
      card (raw_left (after_run policy now db)) + nat (batch_size policy) \<le> card (raw_left db)"
    and "set (anchors (after_run policy now db)) \<subseteq> set (anchors db)"
    and "due_deliveries policy now (after_run policy now db) = {} \<or>
      card (set (anchors (after_run policy now db))) + nat (batch_size policy) \<le> card (set (anchors db))"
proof -
  let ?raw = "after_raw policy now db" and ?run = "after_run policy now db"
  from raw_pass [OF assms, of now] obtain r ks where marked: "marks ks db ?raw"
    and progress: "raw_ids (now - raw_debug_ttl policy) ?raw = {} \<or>
      card (raw_left ?raw) + nat (batch_size policy) \<le> card (raw_left db)" by blast
  have "drainable ?run \<and> (\<forall>t. raw_ids t ?run \<subseteq> raw_ids t ?raw) \<and> raw_left ?run \<subseteq> raw_left ?raw \<and>
    set (anchors ?run) \<subseteq> set (anchors ?raw) \<and> (due_deliveries policy now ?run = {} \<or>
      card (set (anchors ?run)) + nat (batch_size policy) \<le> card (set (anchors ?raw)))"
    by (rule run_halves [OF assms, of now])
      (use marked in \<open>auto simp: due_deliveries_def marks_def drops_def\<close>)
  then have second: "drainable ?run" "\<And>t. raw_ids t ?run \<subseteq> raw_ids t ?raw" "raw_left ?run \<subseteq> raw_left ?raw"
    "set (anchors ?run) \<subseteq> set (anchors ?raw)" "due_deliveries policy now ?run = {} \<or>
      card (set (anchors ?run)) + nat (batch_size policy) \<le> card (set (anchors ?raw))" by blast+
  then have fewer: "card (raw_left ?run) \<le> card (raw_left ?raw)" by (simp add: card_mono)
  have first: "\<And>t. raw_ids t ?raw \<subseteq> raw_ids t db" "anchors ?raw = anchors db"
    using marked by (auto simp: marks_def)
  show "drainable ?run" by (fact second(1))
  show "raw_ids cutoff ?run \<subseteq> raw_ids cutoff db" using second(2) first(1) by (rule subset_trans)
  show "set (anchors ?run) \<subseteq> set (anchors db)" using second(4) first(2) by simp
  show "due_deliveries policy now ?run = {} \<or>
      card (set (anchors ?run)) + nat (batch_size policy) \<le> card (set (anchors db))"
    using second(5) first(2) by simp
  show "raw_ids (now - raw_debug_ttl policy) ?run = {} \<or>
      card (raw_left ?run) + nat (batch_size policy) \<le> card (raw_left db)"
    using progress second(2) [of "now - raw_debug_ttl policy"] fewer by (elim disjE) simp_all
qed

interpretation raw_drain: draining "after_run policy" "\<lambda>db. check_delivery_policy policy = None \<and> drainable db"
    "\<lambda>now. raw_ids (now - raw_debug_ttl policy)" "\<lambda>db. card (raw_left db)" "nat (batch_size policy)" for policy
proof unfold_locales
  show "card (raw_left db) = 0 \<Longrightarrow> raw_ids (t - raw_debug_ttl policy) db = {}" for db t
    using raw_ids_left [of "t - raw_debug_ttl policy" db] by simp
qed (use after_run_facts raw_ids_earlier in auto)

interpretation delivery_drain: draining "after_run policy" "\<lambda>db. check_delivery_policy policy = None \<and> drainable db"
    "due_deliveries policy" "\<lambda>db. card (set (anchors db))" "nat (batch_size policy)" for policy
proof unfold_locales
  show "check_delivery_policy policy = None \<and> drainable db \<Longrightarrow>
    due_deliveries policy t (after_run policy now db) \<subseteq> due_deliveries policy t db" for db t now
    using after_run_facts(4) [of policy db now] by (auto simp: due_deliveries_def old_anchors_def split: option.splits)
qed (use after_run_facts in \<open>auto simp: due_deliveries_def old_anchors_def split: option.splits\<close>)

lemma retention_loop_fold: "retention_loop pg_port policy instants db = fold (after_run policy) instants db"
  by (induction instants arbitrary: db) (simp_all add: after_run_def)

section \<open>Retention succeeds and drains\<close>

lemma reachable_drainable:
  assumes "reachable db" "\<forall>ar \<in> set (accepted db). nameable (ar_identity ar)"
  shows "drainable db"
  using reachable_ok [OF assms(1)] reachable_retainable [OF assms(1)] assms(2) by (simp add: drainable_def)

text \<open>
  C13: retention never fails while identities fit its owner keys.  On a reachable database, with
  a valid policy and event ids of at most 256 bytes without lone surrogates, a run at any
  instant returns a result for each of its passes, and every selected record or Delivery is
  handled by it: nothing has disappeared or was handled before, and no constraint stops it.
\<close>

theorem retention_never_fails:
  assumes "reachable db" "check_delivery_policy policy = None"
    and "\<forall>ar \<in> set (accepted db). nameable (ar_identity ar)"
  shows "\<exists>rs. fst (run_once policy now db) = Inr rs \<and>
    length rs = (if delivery_ttl policy = None then 1 else 2) \<and> (\<forall>r \<in> set rs. cr_done r = cr_selected r)"
proof -
  note drain = reachable_drainable [OF assms(1,3)]
  from raw_pass [OF assms(2) drain, of now] obtain r where
    first: "expiry_pass pg_port policy now db = (Inr r, after_raw policy now db)" "cr_done r = cr_selected r"
    and drain': "drainable (after_raw policy now db)" by (auto simp: marks_def)
  show ?thesis
  proof (cases "delivery_ttl policy")
    case None
    with first show ?thesis by (simp add: run_once_def run_once_with_def)
  next
    case (Some ttl)
    from deletion_pass_drops [OF assms(2) drain' Some, of now] obtain r2 db2 where
      "deletion_pass pg_port policy ttl now (after_raw policy now db) = (Inr r2, db2)"
      "cr_done r2 = cr_selected r2" by blast
    with Some first show ?thesis by (simp add: run_once_def run_once_with_def)
  qed
qed

lemma sample_nameable: "\<forall>ar \<in> set (accepted sample_db). nameable (ar_identity ar)"
proof -
  have "key_json [VStr ''event'', VStr ''e''] = key_json [VStr ''event'', VStr e] \<longleftrightarrow> ''e'' = e" for e
    by (subst key_json_inject) auto
  then show ?thesis by (auto simp: sample_db_value sample_source nameable_def)
qed

lemma default_policy_valid: "check_delivery_policy default_policy = None"
  by (simp add: check_delivery_policy_def default_policy_def batch_and_interval_def bounded_ttl_def
      whole_days_def days_def seconds_def)

theorem retention_never_fails_witness:
  "\<exists>rs. fst (run_once default_policy 9 sample_db) = Inr rs \<and> length rs = 2 \<and>
     (\<forall>r \<in> set rs. cr_done r = cr_selected r)"
  using retention_never_fails [OF sample_db_reachable default_policy_valid sample_nameable, of 9]
  by (simp add: default_policy_def)

text \<open>
  C14: retention drains.  On a reachable database whose identities fit the owner keys, when the
  service runs at instants none of which is before a given one, often enough for its batches to
  cover the accepted records, then nothing that was due at the given instant is left: no raw
  record past its lifetime is without an expiry marker, and no Delivery past its lifetime is
  still there, whatever the database held and however records and Deliveries share the batches.
\<close>

theorem retention_drains:
  assumes "reachable db" "check_delivery_policy policy = None"
    and "\<forall>ar \<in> set (accepted db). nameable (ar_identity ar)"
    and "\<forall>t \<in> set instants. now \<le> t"
    and "int (length (accepted db)) \<le> batch_size policy * int (length instants)"
  shows "raw_due (retention_loop pg_port policy instants db) (now - raw_debug_ttl policy) = [] \<and>
    (\<forall>ttl. delivery_ttl policy = Some ttl \<longrightarrow>
       (\<forall>t \<in> set (anchors (retention_loop pg_port policy instants db)). now - ttl < ta_at t))"
proof -
  note drain = reachable_drainable [OF assms(1,3)]
  with assms(2) have inv: "check_delivery_policy policy = None \<and> drainable db" by simp
  have ok: "store_ok db" using drain by (simp add: drainable_def evidence_ok_def)
  have "0 \<le> batch_size policy" using policy_bounds(1) [OF assms(2)] by simp
  with assms(5) have budget: "length (accepted db) \<le> nat (batch_size policy) * length instants"
    by (metis int_nat_eq of_nat_le_iff of_nat_mult)
  have "raw_left db \<subseteq> set (map ar_identity (accepted db))" by (auto simp: raw_left_def)
  then have "card (raw_left db) \<le> length (map ar_identity (accepted db))"
    by (rule order_trans [OF card_mono [OF finite_set] card_length])
  with budget have raw: "card (raw_left db) \<le> nat (batch_size policy) * length instants" by simp
  have "card (set (anchors db)) \<le> length (accepted db)"
  proof -
    have "inj_on (\<lambda>t. (ta_delivery t, ta_identity t)) (set (anchors db))"
      using drainable_anchors(1) [OF drain] by (auto simp: distinct_map inj_on_def)
    then have "card (set (anchors db)) = card ((\<lambda>t. (ta_delivery t, ta_identity t)) ` set (anchors db))"
      by (rule card_image [symmetric])
    also have "\<dots> \<le> card ((\<lambda>m. (dm_delivery m, dm_identity m)) ` set (members db))"
      using ok by (intro card_mono) (auto simp: store_defs)
    also have "\<dots> \<le> card (set (members db))" by (simp add: card_image_le)
    also have "card (set (members db)) = card (dm_identity ` set (members db))"
      using ok by (simp add: store_defs key_unique_def distinct_map card_image)
    also have "\<dots> \<le> card (ar_identity ` set (accepted db))"
      using ok by (intro card_mono) (auto simp: store_defs)
    also have "\<dots> \<le> length (accepted db)" by (metis card_length length_map set_map)
    finally show ?thesis .
  qed
  with budget have old: "card (set (anchors db)) \<le> nat (batch_size policy) * length instants" by simp
  have "raw_due (retention_loop pg_port policy instants db) (now - raw_debug_ttl policy) = []"
    using raw_drain.drained [OF inv assms(4) raw] by (simp add: retention_loop_fold raw_ids_def)
  moreover have "due_deliveries policy now (retention_loop pg_port policy instants db) = {}"
    using delivery_drain.drained [OF inv assms(4) old] by (simp add: retention_loop_fold)
  ultimately show ?thesis by (auto simp: due_deliveries_def old_anchors_def not_le [symmetric])
qed

theorem retention_drains_witness:
  "raw_due (retention_loop pg_port default_policy [9] sample_db) 9 = [] \<and> raw_due sample_db 9 \<noteq> []"
proof -
  have "raw_due (retention_loop pg_port default_policy [9] sample_db) (9 - raw_debug_ttl default_policy) = []"
    using retention_drains [OF sample_db_reachable default_policy_valid sample_nameable, of "[9]" 9]
    by (simp add: default_policy_def sample_db_value)
  then show ?thesis
    by (simp add: default_policy_def) (simp add: raw_due_def sample_db_value has_marker_def)
qed

end
