(* ===== verification/Schema.thy ===== *)
theory Schema
  imports Migrations Retention_Progress
begin

text \<open>
  The database of the other theories as the tables that the migrations declare: the rows of the
  record \<open>db\<close> laid out in columns, what the declared types, keys, checks and references ask of
  them, and what DELETE does under the declared actions.  Every reachable database satisfies
  the declared schema, and the deletions of retention are what DELETE does in it.
\<close>

section \<open>Rows\<close>

definition family_cell :: "pyval \<Rightarrow> cell" where
  "family_cell v = (case v of VStr s \<Rightarrow> Text_Cell s | VNone \<Rightarrow> Null_Cell | _ \<Rightarrow> Json_Cell v)"

definition accepted_cells :: "accepted_row \<Rightarrow> row" where
  "accepted_cells ar = [Text_Cell (fst (ar_identity ar)), Text_Cell (snd (ar_identity ar)),
     Text_Cell (ar_digest ar), Text_Cell (ar_profile ar), family_cell (ar_family ar),
     Json_Cell (ar_logical ar), Time_Cell (ar_at ar)]"

definition effect_cells :: "effect_row \<Rightarrow> row" where
  "effect_cells pe = [Text_Cell (pe_kind pe), Text_Cell (pe_key pe), Json_Cell (pe_payload pe),
     Text_Cell (fst (pe_source pe)), Text_Cell (snd (pe_source pe)), Time_Cell (pe_at pe)]"

definition marker_cells :: "marker_row \<Rightarrow> row" where
  "marker_cells em = [Text_Cell (em_class em), Text_Cell (em_key em), Text_Cell (fst (em_source em)),
     Text_Cell (snd (em_source em)), Text_Cell (em_kind em), Time_Cell (em_recorded_at em),
     Json_Cell (em_compatibility em), Text_Cell (em_policy em), Time_Cell (em_expired_at em),
     Text_Cell (em_batch em), Time_Cell (em_expires_at em)]"

definition member_cells :: "member_row \<Rightarrow> row" where
  "member_cells m = [Text_Cell (dm_delivery m), Text_Cell (fst (dm_identity m)), Text_Cell (snd (dm_identity m))]"

definition anchor_cells :: "anchor_row \<Rightarrow> row" where
  "anchor_cells t = [Text_Cell (ta_delivery t), Text_Cell (fst (ta_identity t)), Text_Cell (snd (ta_identity t)),
     Time_Cell (ta_at t)]"

definition fence_cells :: "fence_row \<Rightarrow> row" where
  "fence_cells f = [Text_Cell (rf_delivery f), Time_Cell (rf_at f), Text_Cell (rf_policy f)]"

section \<open>The schema after all migrations\<close>

definition head_schema :: schema where
  "head_schema = (case upgrade_all 0 empty_schema of Inr s \<Rightarrow> s | Inl _ \<Rightarrow> empty_schema)"

definition rows_of :: "string \<Rightarrow> db \<Rightarrow> row list" where
  "rows_of n db =
     (if n = ''accepted_records'' then map accepted_cells (accepted db)
      else if n = ''projection_effects'' then map effect_cells (effects db)
      else if n = ''retention_expiry_markers'' then map marker_cells (markers db)
      else if n = ''delivery_record_memberships'' then map member_cells (members db)
      else if n = ''delivery_terminal_anchors'' then map anchor_cells (anchors db)
      else if n = ''delivery_retirement_fences'' then map fence_cells (fences db)
      else [])"

definition store_schema :: "db \<Rightarrow> schema" where
  "store_schema db = head_schema\<lparr>sc_tables :=
     map (\<lambda>(n, t). (n, t\<lparr>tb_rows := rows_of n db\<rparr>)) (sc_tables head_schema)\<rparr>"

definition head_markers :: table where
  "head_markers = retention_expiry_markers\<lparr>tb_columns :=
     tb_columns retention_expiry_markers @ [col ''expires_at'' Sql_Timestamptz]\<rparr>"

lemmas table_defs = accepted_records_def projection_effects_def retention_expiry_markers_def
  delivery_record_memberships_def delivery_terminal_anchors_def delivery_retirement_fences_def

lemma column_names_simps [simp]:
  "column_names (t\<lparr>tb_rows := rs\<rparr>) = column_names t"
  "column_names accepted_records = [''identity_kind'', ''identity_key'', ''canonical_digest'', ''profile_version'',
     ''family_schema'', ''logical_record'', ''accepted_at'']"
  "column_names projection_effects = [''effect_kind'', ''effect_key'', ''payload'', ''source_identity_kind'',
     ''source_identity_key'', ''recorded_at'']"
  "column_names retention_expiry_markers = [''resource_class'', ''owner_key'', ''source_identity_kind'',
     ''source_identity_key'', ''resource_kind'', ''recorded_at'', ''compatibility'', ''policy_revision'',
     ''expired_at'', ''batch_identity'']"
  "column_names head_markers = [''resource_class'', ''owner_key'', ''source_identity_kind'',
     ''source_identity_key'', ''resource_kind'', ''recorded_at'', ''compatibility'', ''policy_revision'',
     ''expired_at'', ''batch_identity'', ''expires_at'']"
  "column_names delivery_record_memberships = [''delivery_id'', ''identity_kind'', ''identity_key'']"
  "column_names delivery_terminal_anchors = [''delivery_id'', ''identity_kind'', ''identity_key'', ''recorded_at'']"
  "column_names delivery_retirement_fences = [''delivery_id'', ''retired_at'', ''policy_revision'']"
  by (simp_all add: column_names_def head_markers_def table_defs col_def)

lemma used_columns_simps [simp]:
  "set (used_columns accepted_records) = {''identity_kind'', ''identity_key'', ''canonical_digest''}"
  "set (used_columns projection_effects) = {''effect_kind'', ''effect_key'', ''source_identity_kind'', ''source_identity_key''}"
  "set (used_columns retention_expiry_markers) = {''resource_class'', ''resource_kind'', ''owner_key'', ''batch_identity''}"
  "set (used_columns delivery_record_memberships) = {''identity_kind'', ''identity_key''}"
  "set (used_columns delivery_terminal_anchors) = {''delivery_id'', ''identity_kind'', ''identity_key''}"
  "set (used_columns delivery_retirement_fences) = {''delivery_id''}"
  by (auto simp: used_columns_def table_defs reference_def)

lemma no_rows [simp]:
  "accepted_records\<lparr>tb_rows := []\<rparr> = accepted_records" "projection_effects\<lparr>tb_rows := []\<rparr> = projection_effects"
  "retention_expiry_markers\<lparr>tb_rows := []\<rparr> = retention_expiry_markers"
  "delivery_record_memberships\<lparr>tb_rows := []\<rparr> = delivery_record_memberships"
  "delivery_terminal_anchors\<lparr>tb_rows := []\<rparr> = delivery_terminal_anchors"
  "delivery_retirement_fences\<lparr>tb_rows := []\<rparr> = delivery_retirement_fences"
  "tb_rows retention_expiry_markers = []" "tb_rows head_markers = []"
  by (simp_all add: table_defs head_markers_def)

lemma references_simps [simp]:
  "tb_references accepted_records = []" "tb_references retention_expiry_markers = []"
  "tb_references delivery_retirement_fences = []" "tb_references head_markers = []"
  "tb_references projection_effects = [reference [''source_identity_kind'', ''source_identity_key''] Restrict]"
  "tb_references delivery_record_memberships = [reference [''identity_kind'', ''identity_key''] Cascade]"
  "tb_references delivery_terminal_anchors = [reference [''identity_kind'', ''identity_key''] Cascade]"
  "tb_key accepted_records = [''identity_kind'', ''identity_key'']"
  "tb_key projection_effects = [''effect_kind'', ''effect_key'']"
  "tb_key head_markers = [''resource_class'', ''resource_kind'', ''owner_key'']"
  "tb_key delivery_record_memberships = [''identity_kind'', ''identity_key'']"
  "tb_key delivery_terminal_anchors = [''delivery_id'']" "tb_key delivery_retirement_fences = [''delivery_id'']"
  "tb_checks accepted_records = [In_List ''identity_kind'' [''event'', ''span''], Matches ''canonical_digest'' DIGEST]"
  "tb_checks head_markers = [In_List ''resource_class'' [''RAW_DEBUG'', ''TRACE_DETAIL'', ''FACTUAL_PROJECTION''],
     Matches ''batch_identity'' DIGEST]"
  "tb_checks projection_effects = []" "tb_checks delivery_record_memberships = []"
  "tb_checks delivery_terminal_anchors = []" "tb_checks delivery_retirement_fences = []"
  by (simp_all add: table_defs head_markers_def)

lemma head_tables:
  "head_schema = \<lparr>sc_tables =
     [(''accepted_records'', accepted_records), (''projection_effects'', projection_effects),
      (''retention_expiry_markers'', head_markers),
      (''delivery_record_memberships'', delivery_record_memberships),
      (''delivery_terminal_anchors'', delivery_terminal_anchors),
      (''delivery_retirement_fences'', delivery_retirement_fences)],
    sc_indexes = [(''ix_projection_effects_kind_recorded'', ''projection_effects'', [''effect_kind'', ''recorded_at'']),
      (''ix_retention_expiry_markers_batch'', ''retention_expiry_markers'', [''batch_identity'']),
      (''ix_delivery_record_memberships_delivery'', ''delivery_record_memberships'', [''delivery_id'']),
      (''ix_delivery_terminal_anchors_recorded'', ''delivery_terminal_anchors'', [''recorded_at'', ''delivery_id''])]\<rparr>"
proof -
  let ?s1 = "\<lparr>sc_tables = [(''accepted_records'', accepted_records), (''projection_effects'', projection_effects)],
    sc_indexes = [(''ix_projection_effects_kind_recorded'', ''projection_effects'', [''effect_kind'', ''recorded_at''])]\<rparr>"
  have 1: "run_all 0 (mg_upgrade atomic_core) empty_schema = Inr ?s1"
    by (simp add: atomic_core_def empty_schema_def relation_names_def on_table_def reference_known_def reference_def)
  let ?s2 = "\<lambda>m. \<lparr>sc_tables = sc_tables ?s1 @ [(''retention_expiry_markers'', m)],
    sc_indexes = sc_indexes ?s1 @ [(''ix_retention_expiry_markers_batch'', ''retention_expiry_markers'', [''batch_identity''])]\<rparr>"
  have 2: "run_all 0 (mg_upgrade retention_markers) ?s1 = Inr (?s2 retention_expiry_markers)"
    by (simp add: retention_markers_def relation_names_def on_table_def)
  have 3: "run_all 0 (mg_upgrade retention_eligibility) (?s2 retention_expiry_markers) = Inr (?s2 head_markers)"
    by (simp add: retention_eligibility_def on_table_def column_at_def put_table_def head_markers_def
        retention_expiry_markers_def column_names_def col_def)
  have 4: "run_all 0 (mg_upgrade delivery_retention) (?s2 head_markers) = Inr \<lparr>sc_tables = sc_tables (?s2 head_markers) @
     [(''delivery_record_memberships'', delivery_record_memberships),
      (''delivery_terminal_anchors'', delivery_terminal_anchors),
      (''delivery_retirement_fences'', delivery_retirement_fences)],
    sc_indexes = sc_indexes (?s2 head_markers) @
     [(''ix_delivery_record_memberships_delivery'', ''delivery_record_memberships'', [''delivery_id'']),
      (''ix_delivery_terminal_anchors_recorded'', ''delivery_terminal_anchors'', [''recorded_at'', ''delivery_id''])]\<rparr>"
    by (simp add: delivery_retention_def relation_names_def on_table_def reference_known_def reference_def)
  show ?thesis
    unfolding head_schema_def upgrade_all_def migrations_def
    by (simp add: run_all_append 1 2 [simplified] 3 [simplified] 4 [simplified] del: run_all.simps(2))
qed

lemma store_tables:
  "sc_tables (store_schema db) =
     [(''accepted_records'', accepted_records\<lparr>tb_rows := map accepted_cells (accepted db)\<rparr>),
      (''projection_effects'', projection_effects\<lparr>tb_rows := map effect_cells (effects db)\<rparr>),
      (''retention_expiry_markers'', head_markers\<lparr>tb_rows := map marker_cells (markers db)\<rparr>),
      (''delivery_record_memberships'', delivery_record_memberships\<lparr>tb_rows := map member_cells (members db)\<rparr>),
      (''delivery_terminal_anchors'', delivery_terminal_anchors\<lparr>tb_rows := map anchor_cells (anchors db)\<rparr>),
      (''delivery_retirement_fences'', delivery_retirement_fences\<lparr>tb_rows := map fence_cells (fences db)\<rparr>)]"
  by (simp add: store_schema_def head_tables rows_of_def)

section \<open>What a schema demands of its rows\<close>

fun cell_fits :: "column \<Rightarrow> cell \<Rightarrow> bool" where
  "cell_fits c Null_Cell = col_nullable c"
| "cell_fits c (Text_Cell s) =
     (case col_type c of Sql_Text \<Rightarrow> True | Sql_Varchar n \<Rightarrow> py_len s \<le> n | _ \<Rightarrow> False)"
| "cell_fits c (Json_Cell v) = (col_type c = Sql_Jsonb)"
| "cell_fits c (Time_Cell t) = (col_type c = Sql_Timestamptz)"

definition cell_at :: "table \<Rightarrow> row \<Rightarrow> string \<Rightarrow> cell" where
  "cell_at t r c = (case index_of (column_names t) c of None \<Rightarrow> Null_Cell | Some i \<Rightarrow> r ! i)"

definition cells_at :: "table \<Rightarrow> string list \<Rightarrow> row \<Rightarrow> cell list" where
  "cells_at t cs r = map (cell_at t r) cs"

text \<open>A check or a reference that meets a NULL holds.\<close>

fun check_holds :: "table \<Rightarrow> row \<Rightarrow> table_check \<Rightarrow> bool" where
  "check_holds t r (In_List c vs) = (case cell_at t r c of Text_Cell s \<Rightarrow> s \<in> set vs | v \<Rightarrow> v = Null_Cell)"
| "check_holds t r (Matches c e) = (case cell_at t r c of Text_Cell s \<Rightarrow> fullmatch e s | v \<Rightarrow> v = Null_Cell)"

definition reference_holds :: "schema \<Rightarrow> table \<Rightarrow> row \<Rightarrow> foreign_key \<Rightarrow> bool" where
  "reference_holds s t r fk =
     (let v = cells_at t (fk_columns fk) r in
      Null_Cell \<in> set v \<or>
      (case map_of (sc_tables s) (fk_table fk) of
         None \<Rightarrow> False
       | Some u \<Rightarrow> v \<in> set (map (cells_at u (fk_target fk)) (tb_rows u))))"

definition table_satisfied :: "schema \<Rightarrow> table \<Rightarrow> bool" where
  "table_satisfied s t \<longleftrightarrow>
     (\<forall>r \<in> set (tb_rows t). list_all2 cell_fits (tb_columns t) r \<and>
        list_all (check_holds t r) (tb_checks t) \<and> list_all (reference_holds s t r) (tb_references t)) \<and>
     key_unique (cells_at t (tb_key t)) (tb_rows t)"

definition satisfied :: "schema \<Rightarrow> bool" where
  "satisfied s \<longleftrightarrow> (\<forall>(n, t) \<in> set (sc_tables s). table_satisfied s t)"

section \<open>Rows fit their columns\<close>

definition accepted_fits :: "accepted_row \<Rightarrow> bool" where
  "accepted_fits ar \<longleftrightarrow> fst (ar_identity ar) \<in> {''event'', ''span''} \<and> hex_text 64 (ar_digest ar) \<and>
     (ar_family ar = VNone \<or> (\<exists>s. ar_family ar = VStr s))"

definition marker_fits :: "marker_row \<Rightarrow> bool" where
  "marker_fits em \<longleftrightarrow> em_class em \<in> {''RAW_DEBUG'', ''TRACE_DETAIL'', ''FACTUAL_PROJECTION''} \<and>
     hex_text 64 (em_batch em)"

definition rows_fit :: "db \<Rightarrow> bool" where
  "rows_fit db \<longleftrightarrow> (\<forall>ar \<in> set (accepted db). accepted_fits ar) \<and> (\<forall>em \<in> set (markers db). marker_fits em)"

lemma accepted_row_fits:
  assumes "validate_record v = Inr rec" "accepted_row_of rec now = Inr row"
  shows "accepted_fits row"
proof -
  from assms(2) have fam: "ar_family row = dget (attributes rec) ''agentops.family.schema''"
    by (auto simp: accepted_row_of_def bind_result_Inr_iff)
  have valid: "validate_attributes (attributes rec) = None" and dig: "hex_text 64 (digest rec)"
    and kind: "hd (identity rec) \<in> {''event'', ''span''}"
    using assms(1) by (auto elim!: validated_cases simp: is_event_record_def is_span_record_def
        passed_common_def dest: canonical_digest_hex)
  have "key_scalar (dget (attributes rec) ''agentops.family.schema'')"
    by (rule string_attribute_key [OF valid key_field_types(5)])
  then have "ar_family row = VNone \<or> (\<exists>s. ar_family row = VStr s)"
    by (simp only: fam key_scalar_def)
  with dig kind accepted_row_of_ok(1,2) [OF assms(2)] show ?thesis
    by (auto simp: accepted_fits_def record_source_def)
qed

lemma expire_member_fits:
  assumes "expire_member b now m db = Inr (was, db')" "rows_fit db" "eb_class b \<noteq> ACCEPTED_PROVENANCE"
  shows "rows_fit db'"
proof (cases "has_marker db (class_value (eb_class b)) (resource_kind m) (key_json (owner_key m))")
  case True
  with assms(1,2) show ?thesis by (simp add: expire_member_def Let_def)
next
  case False
  with assms(1) obtain rec cj where id: "hex_text 64 (eb_identity b)"
    and db': "db' = clear_resource b m (fst rec) (db\<lparr>markers := markers db @ [marker_of b now m rec cj]\<rparr>)"
    by (auto simp: expire_member_def Let_def bind_result_Inr_iff split: option.splits)
  have "marker_fits (marker_of b now m rec cj)"
    using id assms(3) by (cases "eb_class b") (auto simp: marker_fits_def marker_of_def split: prod.split)
  moreover have "accepted_fits (ar\<lparr>ar_logical := v\<rparr>) = accepted_fits ar" for ar v
    by (simp add: accepted_fits_def)
  ultimately show ?thesis using assms(2) by (auto simp: rows_fit_def db' clear_resource_def)
qed

lemma expire_members_fit:
  assumes "expire_members b now ms (e, a) db = Inr (c, db')" "rows_fit db" "eb_class b \<noteq> ACCEPTED_PROVENANCE"
  shows "rows_fit db'"
  using assms(1,2)
proof (induction ms arbitrary: e a db)
  case (Cons m ms)
  from Cons.prems(1) obtain was db1 where one: "expire_member b now m db = Inr (was, db1)"
    and rest: "expire_members b now ms (if was then (e, a + 1) else (e + 1, a)) db1 = Inr (c, db')"
    by (auto simp: bind_result_Inr_iff)
  from expire_member_fits [OF one Cons.prems(2) assms(3)] Cons.IH rest show ?case by (cases was) simp_all
qed simp

lemma step_rows_fit:
  assumes "step db a db'" "evidence_ok db" "rows_fit db"
  shows "rows_fit db'"
proof -
  have ok: "store_ok db" using assms(2) by (simp add: evidence_ok_def)
  from assms(1) show ?thesis
  proof (cases rule: step_cases [consumes 1])
    case (1 now v r)
    from ok 1(2) show ?thesis
      by (rule admit_adds) (use assms(3) accepted_row_fits in \<open>auto simp: rows_fit_def\<close>)
  next
    case (2 b now r)
    from 2(2) show ?thesis
    proof (cases rule: apply_expiry_cases)
      case 1
      with assms(3) show ?thesis by simp
    next
      case run: (2 x y)
      have "eb_class b = ACCEPTED_PROVENANCE \<Longrightarrow> db' = db" using 2(2) by (simp add: apply_expiry_def)
      with run(1) assms(3) expire_members_fit show ?thesis by blast
    qed
  next
    case (3 b now r)
    from apply_deletion_deletes [OF ok 3(2)] assms(3) show ?thesis by (auto simp: rows_fit_def deletes_def)
  qed
qed

lemma reachable_rows_fit: "reachable db \<Longrightarrow> rows_fit db"
proof -
  assume "reachable db"
  then obtain as where "steps empty_db as db" by (auto simp: reachable_def)
  moreover have "rows_fit empty_db" by (simp add: rows_fit_def empty_db_def)
  ultimately have "evidence_ok db \<and> rows_fit db"
    by - (rule steps_invariant, auto intro: step_evidence_ok step_rows_fit)
  then show ?thesis ..
qed

section \<open>Reachable databases satisfy the schema\<close>

definition source_cells :: "source \<Rightarrow> cell list" where
  "source_cells src = [Text_Cell (fst src), Text_Cell (snd src)]"

lemma source_cells_inject [simp]: "source_cells a = source_cells b \<longleftrightarrow> a = b"
  by (auto simp: source_cells_def prod_eq_iff)

lemma key_cells [simp]:
  "cells_at (accepted_records\<lparr>tb_rows := rs\<rparr>) [''identity_kind'', ''identity_key''] (accepted_cells ar) =
     source_cells (ar_identity ar)"
  "cells_at (projection_effects\<lparr>tb_rows := rs\<rparr>) [''effect_kind'', ''effect_key''] (effect_cells pe) =
     source_cells (pe_id pe)"
  "cells_at (projection_effects\<lparr>tb_rows := rs\<rparr>) [''source_identity_kind'', ''source_identity_key''] (effect_cells pe) =
     source_cells (pe_source pe)"
  "cells_at (head_markers\<lparr>tb_rows := rs\<rparr>) [''resource_class'', ''resource_kind'', ''owner_key''] (marker_cells em) =
     [Text_Cell (em_class em), Text_Cell (em_kind em), Text_Cell (em_key em)]"
  "cells_at (delivery_record_memberships\<lparr>tb_rows := rs\<rparr>) [''identity_kind'', ''identity_key''] (member_cells m) =
     source_cells (dm_identity m)"
  "cells_at (delivery_terminal_anchors\<lparr>tb_rows := rs\<rparr>) [''identity_kind'', ''identity_key''] (anchor_cells t) =
     source_cells (ta_identity t)"
  "cells_at (delivery_terminal_anchors\<lparr>tb_rows := rs\<rparr>) [''delivery_id''] (anchor_cells t) = [Text_Cell (ta_delivery t)]"
  "cells_at (delivery_retirement_fences\<lparr>tb_rows := rs\<rparr>) [''delivery_id''] (fence_cells f) = [Text_Cell (rf_delivery f)]"
  by (simp_all add: cells_at_def cell_at_def source_cells_def pe_id_def accepted_cells_def effect_cells_def
      marker_cells_def member_cells_def anchor_cells_def fence_cells_def)

lemma distinct_by: "distinct (map f xs) \<Longrightarrow> (\<And>x y. g x = g y \<Longrightarrow> f x = f y) \<Longrightarrow> distinct (map g xs)"
  unfolding distinct_map inj_on_def by blast

lemma reference_holds_accepted:
  assumes "cells_at t cs r = source_cells src"
  shows "reference_holds (store_schema db) t r (reference cs act) \<longleftrightarrow> src \<in> ar_identity ` set (accepted db)"
proof -
  have "Null_Cell \<notin> set (source_cells src)" by (simp add: source_cells_def)
  then show ?thesis using assms
    by (auto simp: reference_holds_def reference_def store_tables Let_def image_iff)
qed

lemma columns_fit:
  "accepted_fits ar \<Longrightarrow> list_all2 cell_fits (tb_columns accepted_records) (accepted_cells ar)"
  "list_all2 cell_fits (tb_columns projection_effects) (effect_cells pe)"
  "marker_fits em \<Longrightarrow> list_all2 cell_fits (tb_columns head_markers) (marker_cells em)"
  "list_all2 cell_fits (tb_columns delivery_record_memberships) (member_cells m)"
  "list_all2 cell_fits (tb_columns delivery_terminal_anchors) (anchor_cells t)"
  "list_all2 cell_fits (tb_columns delivery_retirement_fences) (fence_cells f)"
proof -
  have len: "hex_text 64 s \<Longrightarrow> py_len s \<le> 64" for s
    using py_len_le_length [of s] by (simp add: hex_text_def)
  show "accepted_fits ar \<Longrightarrow> list_all2 cell_fits (tb_columns accepted_records) (accepted_cells ar)"
    using len by (auto simp: accepted_fits_def accepted_records_def accepted_cells_def col_def family_cell_def)
  show "marker_fits em \<Longrightarrow> list_all2 cell_fits (tb_columns head_markers) (marker_cells em)"
    using len by (auto simp: marker_fits_def head_markers_def retention_expiry_markers_def marker_cells_def col_def)
qed (simp_all add: table_defs effect_cells_def member_cells_def anchor_cells_def fence_cells_def col_def)

lemma checks_fit:
  "accepted_fits ar \<Longrightarrow> list_all (check_holds (accepted_records\<lparr>tb_rows := rs\<rparr>) (accepted_cells ar)) (tb_checks accepted_records)"
  "marker_fits em \<Longrightarrow> list_all (check_holds (head_markers\<lparr>tb_rows := rs\<rparr>) (marker_cells em)) (tb_checks head_markers)"
  by (simp_all add: accepted_fits_def marker_fits_def accepted_cells_def marker_cells_def cell_at_def)

lemma schema_of_reachable:
  assumes "reachable db"
  shows "satisfied (store_schema db)"
proof -
  have ok: "store_ok db" using assms by (rule reachable_ok)
  have fit: "\<And>ar. ar \<in> set (accepted db) \<Longrightarrow> accepted_fits ar" "\<And>em. em \<in> set (markers db) \<Longrightarrow> marker_fits em"
    using reachable_rows_fit [OF assms] by (simp_all add: rows_fit_def)
  have keys: "distinct (map (source_cells \<circ> ar_identity) (accepted db))" "distinct (map (source_cells \<circ> pe_id) (effects db))"
    "distinct (map (\<lambda>em. [Text_Cell (em_class em), Text_Cell (em_kind em), Text_Cell (em_key em)]) (markers db))"
    "distinct (map (source_cells \<circ> dm_identity) (members db))" "distinct (map (\<lambda>t. [Text_Cell (ta_delivery t)]) (anchors db))"
    "distinct (map (\<lambda>f. [Text_Cell (rf_delivery f)]) (fences db))"
    using ok unfolding store_defs key_unique_def by (auto intro: distinct_by simp: em_id_def)
  have members: "dm_identity ` set (members db) \<subseteq> ar_identity ` set (accepted db)"
    "pe_source ` set (effects db) \<subseteq> ar_identity ` set (accepted db)" using ok by (simp_all add: store_defs)
  have anchors: "ta_identity t \<in> ar_identity ` set (accepted db)" if "t \<in> set (anchors db)" for t
  proof -
    from ok that obtain m where "m \<in> set (members db)" "dm_identity m = ta_identity t" by (auto simp: store_defs)
    with members(1) show ?thesis by (metis image_eqI subsetD)
  qed
  show ?thesis
    unfolding satisfied_def store_tables table_satisfied_def key_unique_def
    using keys fit members anchors columns_fit checks_fit
    by (auto simp: o_def reference_holds_accepted)
qed

text \<open>
  C8: every reachable database satisfies the declared schema.  Laid out in the columns that the
  migrations declare, its rows have cells of the declared types, NULL only where it is allowed,
  pass every check, resolve every reference and repeat no primary key.
\<close>

theorem reachable_satisfies_schema:
  assumes "reachable db"
  shows "satisfied (store_schema db)"
  using schema_of_reachable [OF assms] .

theorem reachable_satisfies_schema_witness:
  "satisfied (store_schema sample_db) \<and>
   (\<exists>t. map_of (sc_tables (store_schema sample_db)) ''accepted_records'' = Some t \<and> tb_rows t \<noteq> [])"
  using reachable_satisfies_schema [OF sample_db_reachable] by (simp add: store_tables sample_db_value)

section \<open>DELETE and the declared actions\<close>

text \<open>
  Deleting rows of a table: rows that refer to them stop it (\<open>RESTRICT\<close>) or are deleted with them
  (\<open>CASCADE\<close>), which may go on.  The list holds the deletions that are left, the number bounds them.
\<close>

definition references_to :: "schema \<Rightarrow> string \<Rightarrow> (string \<times> table \<times> foreign_key) list" where
  "references_to s n = concat (map (\<lambda>(m, t). map (\<lambda>fk. (m, t, fk))
     (filter (\<lambda>fk. fk_table fk = n) (tb_references t))) (sc_tables s))"

definition refers :: "table \<Rightarrow> foreign_key \<Rightarrow> cell list list \<Rightarrow> row \<Rightarrow> bool" where
  "refers t fk gone r \<longleftrightarrow> cells_at t (fk_columns fk) r \<in> set gone"

fun delete_where :: "nat \<Rightarrow> (string \<times> (row \<Rightarrow> bool)) list \<Rightarrow> schema \<Rightarrow> schema result" where
  "delete_where k [] s = Inr s"
| "delete_where 0 (p # ps) s = Inl (Runtime_Error ''too many deletions'')"
| "delete_where (Suc k) ((n, P) # ps) s = on_table n s (\<lambda>t.
     let gone = map (cells_at t (tb_key t)) (filter P (tb_rows t));
         s1 = put_table n (t\<lparr>tb_rows := filter (\<lambda>r. \<not> P r) (tb_rows t)\<rparr>) s;
         refs = references_to s1 n in
     if list_ex (\<lambda>(m, u, fk). fk_action fk = Restrict \<and> list_ex (refers u fk gone) (tb_rows u)) refs
     then Inl (Integrity_Error n)
     else delete_where k (map (\<lambda>(m, u, fk). (m, refers u fk gone))
            (filter (\<lambda>(m, u, fk). fk_action fk = Cascade) refs) @ ps) s1)"

definition delivery_rows :: "schema \<Rightarrow> string \<Rightarrow> cell list list" where
  "delivery_rows s d = (case map_of (sc_tables s) ''delivery_record_memberships'' of
       None \<Rightarrow> []
     | Some t \<Rightarrow> map (cells_at t [''identity_kind'', ''identity_key''])
         (filter (\<lambda>r. cell_at t r ''delivery_id'' = Text_Cell d) (tb_rows t)))"

text \<open>\<open>DELETE FROM n USING delivery_record_memberships\<close>, joined over the columns \<open>cs\<close>.\<close>

definition delete_using :: "string \<Rightarrow> string list \<Rightarrow> string \<Rightarrow> schema \<Rightarrow> schema result" where
  "delete_using n cs d s = on_table n s (\<lambda>t.
     delete_where (length (sc_tables s)) [(n, \<lambda>r. cells_at t cs r \<in> set (delivery_rows s d))] s)"

definition delete_statements :: "string \<Rightarrow> schema \<Rightarrow> schema result" where
  "delete_statements d s =
     bind_result (delete_using ''projection_effects'' [''source_identity_kind'', ''source_identity_key''] d s) (\<lambda>s1.
     bind_result (delete_using ''retention_expiry_markers'' [''source_identity_kind'', ''source_identity_key''] d s1) (\<lambda>s2.
     delete_using ''accepted_records'' [''identity_kind'', ''identity_key''] d s2))"

lemma store_put:
  "put_table ''accepted_records'' (accepted_records\<lparr>tb_rows := map accepted_cells rs1\<rparr>) (store_schema db) =
     store_schema (db\<lparr>accepted := rs1\<rparr>)"
  "put_table ''projection_effects'' (projection_effects\<lparr>tb_rows := map effect_cells rs2\<rparr>) (store_schema db) =
     store_schema (db\<lparr>effects := rs2\<rparr>)"
  "put_table ''retention_expiry_markers'' (head_markers\<lparr>tb_rows := map marker_cells rs3\<rparr>) (store_schema db) =
     store_schema (db\<lparr>markers := rs3\<rparr>)"
  "put_table ''delivery_record_memberships'' (delivery_record_memberships\<lparr>tb_rows := map member_cells rs4\<rparr>) (store_schema db) =
     store_schema (db\<lparr>members := rs4\<rparr>)"
  "put_table ''delivery_terminal_anchors'' (delivery_terminal_anchors\<lparr>tb_rows := map anchor_cells rs5\<rparr>) (store_schema db) =
     store_schema (db\<lparr>anchors := rs5\<rparr>)"
  by (rule schema.equality; simp add: put_table_def store_tables; simp add: store_schema_def)+

lemma store_references:
  "references_to (store_schema db) ''projection_effects'' = []"
  "references_to (store_schema db) ''retention_expiry_markers'' = []"
  "references_to (store_schema db) ''delivery_record_memberships'' = []"
  "references_to (store_schema db) ''delivery_terminal_anchors'' = []"
  "references_to (store_schema db) ''accepted_records'' =
     [(''projection_effects'', projection_effects\<lparr>tb_rows := map effect_cells (effects db)\<rparr>,
         reference [''source_identity_kind'', ''source_identity_key''] Restrict),
      (''delivery_record_memberships'', delivery_record_memberships\<lparr>tb_rows := map member_cells (members db)\<rparr>,
         reference [''identity_kind'', ''identity_key''] Cascade),
      (''delivery_terminal_anchors'', delivery_terminal_anchors\<lparr>tb_rows := map anchor_cells (anchors db)\<rparr>,
         reference [''identity_kind'', ''identity_key''] Cascade)]"
  by (simp_all add: references_to_def store_tables reference_def)

lemma store_delivery_rows:
  "set (delivery_rows (store_schema db) d) = source_cells ` delivery_members d db"
proof -
  have "cell_at (delivery_record_memberships\<lparr>tb_rows := rs\<rparr>) (member_cells m) ''delivery_id'' = Text_Cell (dm_delivery m)"
    for rs m by (simp add: cell_at_def member_cells_def)
  then show ?thesis
    by (auto simp: delivery_rows_def store_tables delivery_members_def filter_map o_def image_iff)
qed

lemma in_source_cells [simp]: "source_cells src \<in> source_cells ` A \<longleftrightarrow> src \<in> A"
  by (auto simp: image_iff)

lemma marker_source_cells [simp]:
  "cells_at (head_markers\<lparr>tb_rows := rs\<rparr>) [''source_identity_kind'', ''source_identity_key''] (marker_cells em) =
     source_cells (em_source em)"
  by (simp add: cells_at_def cell_at_def source_cells_def marker_cells_def)

lemma delete_effects:
  "delete_using ''projection_effects'' [''source_identity_kind'', ''source_identity_key''] d (store_schema db) =
     Inr (store_schema (db\<lparr>effects := filter (\<lambda>pe. pe_source pe \<notin> delivery_members d db) (effects db)\<rparr>))"
  by (simp add: delete_using_def on_table_def store_tables store_delivery_rows filter_map o_def store_put
      store_references Let_def)

lemma delete_markers:
  "delete_using ''retention_expiry_markers'' [''source_identity_kind'', ''source_identity_key''] d (store_schema db) =
     Inr (store_schema (db\<lparr>markers := filter (\<lambda>em. em_source em \<notin> delivery_members d db) (markers db)\<rparr>))"
  by (simp add: delete_using_def on_table_def store_tables store_delivery_rows filter_map o_def store_put
      store_references Let_def)

lemma refers_simps [simp]:
  "refers (projection_effects\<lparr>tb_rows := rs\<rparr>) (reference [''source_identity_kind'', ''source_identity_key''] act)
     (map (\<lambda>ar. source_cells (ar_identity ar)) ars) (effect_cells pe) \<longleftrightarrow> pe_source pe \<in> ar_identity ` set ars"
  "refers (delivery_record_memberships\<lparr>tb_rows := rs\<rparr>) (reference [''identity_kind'', ''identity_key''] act)
     (map (\<lambda>ar. source_cells (ar_identity ar)) ars) (member_cells m) \<longleftrightarrow> dm_identity m \<in> ar_identity ` set ars"
  "refers (delivery_terminal_anchors\<lparr>tb_rows := rs\<rparr>) (reference [''identity_kind'', ''identity_key''] act)
     (map (\<lambda>ar. source_cells (ar_identity ar)) ars) (anchor_cells t) \<longleftrightarrow> ta_identity t \<in> ar_identity ` set ars"
  by (auto simp: refers_def reference_def image_iff)

lemma fk_action_reference [simp]: "fk_action (reference cs act) = act"
  by (simp add: reference_def)

lemma delete_accepted:
  assumes "\<forall>pe \<in> set (effects db). pe_source pe \<notin> delivery_members d db"
  shows "delete_using ''accepted_records'' [''identity_kind'', ''identity_key''] d (store_schema db) =
     Inr (store_schema (db\<lparr>accepted := filter (\<lambda>ar. ar_identity ar \<notin> delivery_members d db) (accepted db),
       members := filter (\<lambda>m. dm_identity m \<notin> ar_identity ` set (accepted db) \<inter> delivery_members d db) (members db),
       anchors := filter (\<lambda>t. ta_identity t \<notin> ar_identity ` set (accepted db) \<inter> delivery_members d db) (anchors db)\<rparr>))"
proof -
  let ?gone = "filter (\<lambda>ar. ar_identity ar \<in> delivery_members d db) (accepted db)"
  have gone: "ar_identity ` set ?gone = ar_identity ` set (accepted db) \<inter> delivery_members d db" by auto
  have "\<not> list_ex (\<lambda>pe. pe_source pe \<in> ar_identity ` set ?gone) (effects db)"
    using assms by (auto simp: list_ex_iff)
  then show ?thesis unfolding gone [symmetric]
    by (simp add: delete_using_def on_table_def store_tables store_delivery_rows filter_map o_def store_put
        store_references Let_def list_ex_iff del: set_filter)
qed

text \<open>
  C16: the deletion of a Delivery is what DELETE does in the declared schema.  The three
  statements that remove the effects, the expiry markers and the accepted records of a
  Delivery's members, run on the tables under the declared actions, never fail and give exactly
  the tables of the database that the model of the deletion gives: memberships and anchors
  follow their records, and no effect is left that would forbid the deletion of its record.
\<close>

theorem deletion_follows_schema:
  "\<exists>db'. delete_rows d db = Inr db' \<and> delete_statements d (store_schema db) = Inr (store_schema db')"
proof -
  let ?G = "delivery_members d db"
  let ?db1 = "db\<lparr>effects := filter (\<lambda>pe. pe_source pe \<notin> ?G) (effects db)\<rparr>"
  let ?db2 = "?db1\<lparr>markers := filter (\<lambda>em. em_source em \<notin> ?G) (markers db)\<rparr>"
  have same: "delivery_members d ?db1 = ?G" "delivery_members d ?db2 = ?G" by (simp_all add: delivery_members_def)
  have "\<forall>pe \<in> set (effects ?db2). pe_source pe \<notin> delivery_members d ?db2" unfolding same by simp
  from delete_accepted [OF this, unfolded same] delete_markers [of d ?db1, unfolded same] delete_effects [of d db]
  show ?thesis unfolding delete_statements_def delete_rows_Inr by simp
qed

end
