(* ===== verification/Application.thy ===== *)
theory Application
  imports Runtime Pipeline Schema Otlp_Properties
begin

text \<open>
  The application as a whole: the routes it registers (\<open>transport/http.py\<close>, \<open>transport/otlp.py\<close>,
  \<open>transport/query.py\<close>, in the order of \<open>app.py\<close>), how the framework dispatches on them, the
  state of a running process, and its life: requests of clients and runs of the retention loop
  in any order.  Every database that a process has during its life is reachable in the sense of
  Lifecycle, so that all that is shown of reachable databases holds of it; reads do not write;
  and every answer below \<open>/v1/evidence/\<close> is one of the contract.
\<close>

section \<open>Defaults\<close>

definition default_query_policy :: retention_policy where
  "default_query_policy = \<lparr>rp_raw_debug_ttl = 0, rp_trace_detail_ttl = Some (days 30),
     rp_factual_projection_ttl = Some (days 365), rp_batch_size = 500, rp_interval = seconds 60\<rparr>"

definition default_adapter :: query_adapter where
  "default_adapter = \<lparr>qa_ttl = seconds 60, qa_lease_limit = 4, qa_leases = [], qa_cursors = [], qa_tokens = []\<rparr>"

text \<open>The query service over the adapter, as the application builds it.\<close>

definition new_query_service :: "query_adapter query_state" where
  "new_query_service = \<lparr>qs_model = default_adapter, qs_bindings = []\<rparr>"

section \<open>Routes\<close>

datatype route_target =
  Health
| Ingest signal
| Get_Facts | Get_Traces | Get_Tasks | Get_Manifests
| Refuse_Method
| Refuse_Route

datatype route_path = Exactly string | Below string

type_synonym app_route = "route_path \<times> string list \<times> route_target"

definition health_routes :: "app_route list" where
  "health_routes = [(Exactly ''/healthz'', [''GET''], Health)]"

definition otlp_routes :: "app_route list" where
  "otlp_routes = [(Exactly ''/v1/logs'', [''POST''], Ingest Logs), (Exactly ''/v1/traces'', [''POST''], Ingest Traces)]"

definition QUERY_PATHS :: "(string \<times> route_target) list" where
  "QUERY_PATHS = [(''/v1/evidence/facts'', Get_Facts), (''/v1/evidence/traces'', Get_Traces),
     (''/v1/evidence/tasks'', Get_Tasks), (''/v1/evidence/manifests'', Get_Manifests)]"

definition OTHER_METHODS :: "string list" where
  "OTHER_METHODS = [''POST'', ''PUT'', ''PATCH'', ''DELETE'', ''HEAD'', ''OPTIONS'']"

definition query_routes :: "app_route list" where
  "query_routes = map (\<lambda>(path, target). (Exactly path, [''GET''], target)) QUERY_PATHS @
     map (\<lambda>(path, target). (Exactly path, OTHER_METHODS, Refuse_Method)) QUERY_PATHS @
     [(Below ''/v1/evidence/'', ''GET'' # OTHER_METHODS, Refuse_Route)]"

definition app_routes :: "app_route list" where
  "app_routes = health_routes @ otlp_routes @ query_routes"

section \<open>Dispatch\<close>

text \<open>
  What the framework does with a method and a path: the first route with that path and method
  wins; a path that has routes for other methods only is an HTTP error 405; a path that would
  match with its final slash added or removed is redirected; the rest is an HTTP error 404.
  The documentation pages that the framework adds on its own are left out.
\<close>

fun path_matches :: "route_path \<Rightarrow> string \<Rightarrow> bool" where
  "path_matches (Exactly p) path = (path = p)"
| "path_matches (Below p) path = starts_with path p"

definition toggled_slash :: "string \<Rightarrow> string" where
  "toggled_slash path = (if path \<noteq> [] \<and> last path = CHR ''/''
     then rev (dropWhile (\<lambda>c. c = CHR ''/'') (rev path)) else path @ ''/'')"

datatype dispatched = To route_target | Wrong_Method | Redirect string | Unknown_Path

definition dispatch :: "string \<Rightarrow> string \<Rightarrow> dispatched" where
  "dispatch verb path =
     (case find (\<lambda>(p, ms, t). path_matches p path \<and> verb \<in> set ms) app_routes of
        Some (p, ms, t) \<Rightarrow> To t
      | None \<Rightarrow>
          if list_ex (\<lambda>(p, ms, t). path_matches p path) app_routes then Wrong_Method
          else if path \<noteq> ''/'' \<and> list_ex (\<lambda>(p, ms, t). path_matches p (toggled_slash path)) app_routes
          then Redirect (toggled_slash path)
          else Unknown_Path)"

section \<open>A running process\<close>

text \<open>What is not the program's: protobuf, rendering, the collation, random texts.\<close>

record surroundings =
  su_serialize :: "export_response \<Rightarrow> string"
  su_parse_logs :: "string \<Rightarrow> log_record resource_group list option"
  su_parse_traces :: "string \<Rightarrow> otlp_span resource_group list option"
  su_kind_name :: "int \<Rightarrow> string option"
  su_status_name :: "int \<Rightarrow> string option"
  su_fields :: "string list"
  su_renders :: "pyval \<Rightarrow> bool"
  su_coll :: "string \<Rightarrow> int list"
  su_sid :: "query_adapter \<Rightarrow> string"
  su_token :: "query_adapter \<Rightarrow> string"

record http_request =
  hr_method :: string
  hr_path :: string
  hr_content_type :: "string option"
  hr_accept :: "string option"
  hr_body :: string
  hr_params :: params

record running =
  ru_db :: db
  ru_ingestor :: bool
  ru_query :: "query_adapter query_state option"

datatype answer = Protobuf_Answer http_response | Json_Answer json_response | Redirect_Answer string | Unhandled

definition decoder :: "surroundings \<Rightarrow> signal \<Rightarrow> string \<Rightarrow> pydict list result" where
  "decoder su sig = (case sig of
       Logs \<Rightarrow> decode_logs_request (su_parse_logs su)
     | Traces \<Rightarrow> decode_traces_request (su_parse_traces su) (su_kind_name su) (su_status_name su))"

definition serve_ingest ::
  "surroundings \<Rightarrow> (nat \<Rightarrow> instant) \<Rightarrow> signal \<Rightarrow> http_request \<Rightarrow> running \<Rightarrow> answer \<times> running" where
  "serve_ingest su clock sig r p =
     (case handle_ingest (su_serialize su) (su_fields su) clock sig (decoder su sig) (hr_content_type r)
         (ru_ingestor p) (hr_body r) (ru_db p) of
        (Inl e, db') \<Rightarrow> (Unhandled, p\<lparr>ru_db := db'\<rparr>)
      | (Inr a, db') \<Rightarrow> (Protobuf_Answer a, p\<lparr>ru_db := db'\<rparr>))"

text \<open>The handler of a query route; the others are not of this kind.\<close>

definition query_handler ::
  "surroundings \<Rightarrow> bool \<Rightarrow> instant \<Rightarrow> db \<Rightarrow> route_target \<Rightarrow> query_request \<Rightarrow> query_adapter query_state option \<Rightarrow>
   json_response \<times> query_adapter query_state option" where
  "query_handler su connected now db target =
     (let rm = pg_model (su_coll su) (su_sid su) (su_token su) connected db in
      case target of
        Get_Facts \<Rightarrow> get_facts (su_renders su) rm default_query_policy now
      | Get_Traces \<Rightarrow> get_traces (su_renders su) rm default_query_policy now
      | Get_Tasks \<Rightarrow> get_tasks (su_renders su) rm now
      | _ \<Rightarrow> get_manifests (su_renders su) rm)"

definition serve_query ::
  "surroundings \<Rightarrow> bool \<Rightarrow> instant \<Rightarrow> route_target \<Rightarrow> http_request \<Rightarrow> running \<Rightarrow> answer \<times> running" where
  "serve_query su connected now target r p =
     (case query_handler su connected now (ru_db p) target
         \<lparr>qr_body = hr_body r, qr_accept = hr_accept r, qr_params = hr_params r\<rparr> (ru_query p) of
        (a, q) \<Rightarrow> (Json_Answer a, p\<lparr>ru_query := q\<rparr>))"

definition serve ::
  "surroundings \<Rightarrow> bool \<Rightarrow> (nat \<Rightarrow> instant) \<Rightarrow> http_request \<Rightarrow> running \<Rightarrow> answer \<times> running" where
  "serve su connected clock r p = (case dispatch (hr_method r) (hr_path r) of
       To Health \<Rightarrow> (Json_Answer \<lparr>jr_status = 200, jr_content = VDict health\<rparr>, p)
     | To (Ingest sig) \<Rightarrow> serve_ingest su clock sig r p
     | To Refuse_Method \<Rightarrow> (Json_Answer method_not_allowed, p)
     | To Refuse_Route \<Rightarrow> (Json_Answer route_not_found, p)
     | To target \<Rightarrow> serve_query su connected (clock 0) target r p
     | Wrong_Method \<Rightarrow> (Json_Answer (query_transport_error (hr_path r) 405 (VStr ''Method Not Allowed'')), p)
     | Redirect path \<Rightarrow> (Redirect_Answer path, p)
     | Unknown_Path \<Rightarrow> (Json_Answer (query_transport_error (hr_path r) 404 (VStr ''Not Found'')), p))"

text \<open>The life of a process: requests and runs of the retention loop.\<close>

datatype occurrence = Request http_request bool "nat \<Rightarrow> instant" | Retention_Run instant

fun occur :: "surroundings \<Rightarrow> delivery_policy \<Rightarrow> occurrence \<Rightarrow> running \<Rightarrow> running" where
  "occur su policy (Request r connected clock) p = snd (serve su connected clock r p)"
| "occur su policy (Retention_Run now) p = p\<lparr>ru_db := snd (run_once policy now (ru_db p))\<rparr>"

definition live :: "surroundings \<Rightarrow> delivery_policy \<Rightarrow> occurrence list \<Rightarrow> running \<Rightarrow> running" where
  "live su policy = fold (occur su policy)"

text \<open>A process that the application has just started on an empty database.\<close>

definition started :: running where
  "started = \<lparr>ru_db = empty_db, ru_ingestor = True, ru_query = Some new_query_service\<rparr>"

section \<open>The database of a process is always reachable\<close>

lemma run_once_steps:
  assumes "run_once policy now db = (r, db')"
  shows "\<exists>as. steps db as db'"
proof -
  have expiry: "\<exists>as. steps db as db1" if "expiry_pass pg_port policy now db = (r1, db1)" for db db1 r1
  proof (cases "port_plan_expiry pg_port RAW_DEBUG DELIVERY_RETENTION_POLICY_REVISION (now - raw_debug_ttl policy)
         (whole_seconds (raw_debug_ttl policy)) (batch_size policy) db")
    case (Inl e)
    with that show ?thesis by (intro exI [of _ "[]"]) (simp add: expiry_pass_def)
  next
    case (Inr b)
    with that have "apply_expiry b now db = (r1, db1)" by (simp add: expiry_pass_def) (simp add: pg_port_def)
    then show ?thesis by (intro exI [of _ "[Expire b now]"]) (simp add: steps_Cons step_simps)
  qed
  have deletion: "\<exists>as. steps db as db1" if "deletion_pass pg_port policy ttl now db = (r1, db1)" for db db1 r1 ttl
  proof (cases "port_plan_deletion pg_port DELIVERY_RETENTION_POLICY_REVISION (now - ttl)
         (whole_seconds ttl) (batch_size policy) db")
    case (Inl e)
    with that show ?thesis by (intro exI [of _ "[]"]) (simp add: deletion_pass_def)
  next
    case (Inr b)
    with that have "apply_delivery_deletion b now db = (r1, db1)" by (simp add: deletion_pass_def) (simp add: pg_port_def)
    then show ?thesis by (intro exI [of _ "[Delete b now]"]) (simp add: steps_Cons step_simps)
  qed
  obtain r1 db1 where one: "expiry_pass pg_port policy now db = (r1, db1)" by force
  from assms one consider "db' = db1" | ttl r2 where "deletion_pass pg_port policy ttl now db1 = (r2, db')"
    by (auto simp: run_once_def run_once_with_def split: sum.splits option.splits prod.splits)
  then show ?thesis
  proof cases
    case 1
    with expiry [OF one] show ?thesis by blast
  next
    case (2 ttl r2)
    with expiry [OF one] deletion [OF 2] show ?thesis by (blast intro: steps_append)
  qed
qed

lemma ingest_steps: "ingest names clock sig records db = (res, db') \<Longrightarrow> \<exists>as. steps db as db'"
  using ingest_runs_admissions by blast

lemma handle_ingest_steps:
  assumes "handle_ingest serialize names clock sig decode content_type ready payload db = (res, db')"
  shows "\<exists>as. steps db as db'"
proof -
  from assms consider "db' = db" | records r where "ingest names clock sig records db = (r, db')"
    by (auto simp: handle_ingest_def split: if_splits sum.splits py_error.splits prod.splits)
  then show ?thesis
  proof cases
    case 1
    then show ?thesis by (intro exI [of _ "[]"]) simp
  qed (rule ingest_steps)
qed

lemma query_call_keeps:
  assumes "random_texts sid token" "adapter_ok (qs_model s)"
    and "query_call (pg_model coll sid token connected db) policy now route ps s = (r, s')"
  shows "adapter_ok (qs_model s')"
  using assms(3)
proof (cases rule: query_call_cases)
  case refused
  with assms(2) show ?thesis by simp
next
  case (named nq shape_page)
  from random_texts.pg_answer_held [OF assms(1,2) named(1)] show ?thesis ..
next
  case (traced filters cursor limit ttl)
  from random_texts.pg_answer_held [OF assms(1,2) traced(2)] show ?thesis ..
qed

lemma handle_query_keeps:
  assumes "handle_query renders call r q = (a, q')"
    and "\<And>s x s'. call (qr_params r) s = (x, s') \<Longrightarrow> P s \<Longrightarrow> P s'" "\<forall>s. q = Some s \<longrightarrow> P s"
  shows "\<forall>s. q' = Some s \<longrightarrow> P s"
  using assms by (auto simp: handle_query_def prepare_def check_then_def split: sum.splits prod.splits option.splits)

text \<open>What holds of a process at all times.\<close>

definition running_ok :: "running \<Rightarrow> bool" where
  "running_ok p \<longleftrightarrow> reachable (ru_db p) \<and> (\<forall>s. ru_query p = Some s \<longrightarrow> adapter_ok (qs_model s))"

lemma query_handler_keeps:
  assumes "random_texts (su_sid su) (su_token su)" "\<forall>s. q = Some s \<longrightarrow> adapter_ok (qs_model s)"
    and "query_handler su connected now db target r q = (a, q')"
  shows "\<forall>s. q' = Some s \<longrightarrow> adapter_ok (qs_model s)"
proof -
  note keeps = query_call_keeps [OF assms(1)]
  have facts: "adapter_ok (qs_model s')" if "facts (pg_model (su_coll su) (su_sid su) (su_token su) connected db)
      default_query_policy now ps s = (x, s')" "adapter_ok (qs_model s)" for ps s x s'
    using keeps [OF that(2), of _ _ _ _ _ FACTS] that(1) by (simp add: query_call_def)
  have traces: "adapter_ok (qs_model s')" if "traces (pg_model (su_coll su) (su_sid su) (su_token su) connected db)
      default_query_policy now ps s = (x, s')" "adapter_ok (qs_model s)" for ps s x s'
    using keeps [OF that(2), of _ _ _ _ _ TRACES] that(1) by (simp add: query_call_def)
  have tasks: "adapter_ok (qs_model s')" if "tasks (pg_model (su_coll su) (su_sid su) (su_token su) connected db)
      now ps s = (x, s')" "adapter_ok (qs_model s)" for ps s x s'
    using keeps [OF that(2), of _ _ _ default_query_policy _ TASKS] that(1) by (simp add: query_call_def)
  obtain call where call: "handle_query (su_renders su) call r q = (a, q')"
    and ok: "\<And>ps s x s'. call ps s = (x, s') \<Longrightarrow> adapter_ok (qs_model s) \<Longrightarrow> adapter_ok (qs_model s')"
  proof (cases target)
    case Get_Facts
    with assms(3) facts show thesis
      by (intro that [of "facts (pg_model (su_coll su) (su_sid su) (su_token su) connected db) default_query_policy now"])
        (simp_all add: query_handler_def get_facts_def Let_def)
  next
    case Get_Traces
    with assms(3) traces show thesis
      by (intro that [of "traces (pg_model (su_coll su) (su_sid su) (su_token su) connected db) default_query_policy now"])
        (simp_all add: query_handler_def get_traces_def Let_def)
  next
    case Get_Tasks
    with assms(3) tasks show thesis
      by (intro that [of "tasks (pg_model (su_coll su) (su_sid su) (su_token su) connected db) now"])
        (simp_all add: query_handler_def get_tasks_def Let_def)
  qed (use assms(3) that in \<open>auto simp: query_handler_def get_manifests_def Let_def\<close>)
  from handle_query_keeps [OF call, of "\<lambda>s. adapter_ok (qs_model s)"] ok assms(2) show ?thesis by blast
qed

lemma serve_cases:
  assumes "serve su connected clock r p = (a, p')"
  obtains "p' = p"
  | sig where "dispatch (hr_method r) (hr_path r) = To (Ingest sig)" "serve_ingest su clock sig r p = (a, p')"
  | target where "dispatch (hr_method r) (hr_path r) = To target"
      "target \<in> {Get_Facts, Get_Traces, Get_Tasks, Get_Manifests}"
      "serve_query su connected (clock 0) target r p = (a, p')"
proof (cases "dispatch (hr_method r) (hr_path r)")
  case (To target)
  with assms that show thesis by (cases target) (simp_all add: serve_def)
qed (use assms that(1) in \<open>simp_all add: serve_def\<close>)

lemma serve_ingest_db:
  assumes "serve_ingest su clock sig r p = (a, p')"
  shows "\<exists>as. steps (ru_db p) as (ru_db p')" "ru_query p' = ru_query p" "ru_ingestor p' = ru_ingestor p"
proof -
  from assms obtain res where "handle_ingest (su_serialize su) (su_fields su) clock sig (decoder su sig)
      (hr_content_type r) (ru_ingestor p) (hr_body r) (ru_db p) = (res, ru_db p')"
    and rest: "ru_query p' = ru_query p" "ru_ingestor p' = ru_ingestor p"
    by (auto simp: serve_ingest_def split: prod.splits sum.splits)
  from handle_ingest_steps [OF this(1)] show "\<exists>as. steps (ru_db p) as (ru_db p')" .
  from rest show "ru_query p' = ru_query p" "ru_ingestor p' = ru_ingestor p" .
qed

lemma serve_query_db:
  assumes "serve_query su connected now target r p = (a, p')"
  shows "ru_db p' = ru_db p" "ru_ingestor p' = ru_ingestor p"
  using assms by (auto simp: serve_query_def split: prod.splits)

lemma serve_ok:
  assumes "random_texts (su_sid su) (su_token su)" "running_ok p" "serve su connected clock r p = (a, p')"
  shows "running_ok p'"
  using assms(3)
proof (cases rule: serve_cases)
  case 1
  with assms(2) show ?thesis by simp
next
  case (2 sig)
  with serve_ingest_db [OF 2(2)] assms(2) show ?thesis
    by (auto simp: running_ok_def intro: reachable_steps)
next
  case (3 target)
  then obtain q j where q: "query_handler su connected (clock 0) (ru_db p) target
      \<lparr>qr_body = hr_body r, qr_accept = hr_accept r, qr_params = hr_params r\<rparr> (ru_query p) = (j, q)"
    and p': "p' = p\<lparr>ru_query := q\<rparr>" by (auto simp: serve_query_def split: prod.splits)
  have "\<forall>s. ru_query p = Some s \<longrightarrow> adapter_ok (qs_model s)" using assms(2) by (simp add: running_ok_def)
  from query_handler_keeps [OF assms(1) this q] assms(2) show ?thesis unfolding running_ok_def p' by simp
qed

lemma occur_ok:
  assumes "random_texts (su_sid su) (su_token su)" "running_ok p"
  shows "running_ok (occur su policy e p)"
proof (cases e)
  case (Request r connected clock)
  obtain a p' where "serve su connected clock r p = (a, p')" by force
  with serve_ok [OF assms this] Request show ?thesis by simp
next
  case (Retention_Run now)
  obtain r db' where run: "run_once policy now (ru_db p) = (r, db')" by force
  from run_once_steps [OF run] assms(2) have "reachable db'"
    by (auto simp: running_ok_def intro: reachable_steps)
  with assms(2) Retention_Run run show ?thesis by (simp add: running_ok_def)
qed

lemma live_ok:
  assumes "random_texts (su_sid su) (su_token su)" "running_ok p"
  shows "running_ok (live su policy es p)"
  using assms(2) unfolding live_def
  by (induction es arbitrary: p) (simp_all add: occur_ok [OF assms(1)])

lemma started_ok: "running_ok started"
  by (simp add: running_ok_def started_def new_query_service_def default_adapter_def adapter_ok_def key_unique_def)

text \<open>
  C9: the database of a process is reachable.  When the application starts on an empty database
  and serves any requests, valid or not, while the retention loop runs at any instants in
  between, its database is at all times one that the transactions of admission and retention
  reach; it satisfies the declared schema, and the query service never holds more leases than
  its limit.  The random texts of the framework are assumed to be fresh.
\<close>

theorem process_stays_reachable:
  assumes "\<And>a. su_sid su a \<notin> held_leases a" "\<And>a. su_token su a \<notin> fst ` set (qa_cursors a)"
  shows "reachable (ru_db (live su policy occurrences started)) \<and>
    satisfied (store_schema (ru_db (live su policy occurrences started))) \<and>
    (\<forall>s. ru_query (live su policy occurrences started) = Some s \<longrightarrow>
       int (length (qa_leases (qs_model s))) \<le> qa_lease_limit (qs_model s))"
proof -
  have "random_texts (su_sid su) (su_token su)" using assms by (rule random_texts.intro)
  from live_ok [OF this started_ok] have ok: "running_ok (live su policy occurrences started)" .
  then have "reachable (ru_db (live su policy occurrences started))" by (simp add: running_ok_def)
  with ok schema_of_reachable [OF this] show ?thesis by (simp add: running_ok_def adapter_ok_def)
qed

text \<open>Surroundings in which no request parses and fresh texts are computed; a request without body.\<close>

definition quiet :: surroundings where
  "quiet = \<lparr>su_serialize = (\<lambda>_. []), su_parse_logs = (\<lambda>_. Some []), su_parse_traces = (\<lambda>_. None),
     su_kind_name = (\<lambda>_. None), su_status_name = (\<lambda>_. None), su_fields = BOUNDED_CARDINALITY_FIELDS,
     su_renders = (\<lambda>_. True), su_coll = bytes_rank, su_sid = next_sid, su_token = next_token\<rparr>"

definition bare :: "string \<Rightarrow> string \<Rightarrow> http_request" where
  "bare verb path = \<lparr>hr_method = verb, hr_path = path, hr_content_type = Some ''application/x-protobuf'',
     hr_accept = None, hr_body = [], hr_params = []\<rparr>"

theorem process_stays_reachable_witness:
  "satisfied (store_schema (ru_db (live quiet default_policy
     [Request (bare ''POST'' ''/v1/logs'') True (\<lambda>_. 0), Request (bare ''GET'' ''/v1/evidence/facts'') True (\<lambda>_. 5),
      Retention_Run 9, Request (bare ''GET'' ''/v1/evidence/tasks'') False (\<lambda>_. 10)] started)))"
proof -
  have "su_sid quiet a \<notin> held_leases a" "su_token quiet a \<notin> fst ` set (qa_cursors a)" for a
    using pg.fresh_sid pg.fresh_token by (simp_all add: quiet_def)
  from process_stays_reachable [of quiet, OF this] show ?thesis by blast
qed

section \<open>Reads do not write\<close>

lemma find_member: "find P xs = Some x \<Longrightarrow> x \<in> set xs \<and> P x"
  by (induction xs) (auto split: if_splits)

lemma dispatch_To:
  assumes "dispatch verb path = To t"
  obtains p ms where "(p, ms, t) \<in> set app_routes" "path_matches p path" "verb \<in> set ms"
  using assms
  by (auto simp: dispatch_def split: option.splits if_splits dest!: find_member)

lemmas route_defs = app_routes_def health_routes_def otlp_routes_def query_routes_def QUERY_PATHS_def
  OTHER_METHODS_def

lemma dispatch_ingest:
  "dispatch verb path = To (Ingest sig) \<Longrightarrow>
     verb = ''POST'' \<and> path = (case sig of Logs \<Rightarrow> ''/v1/logs'' | Traces \<Rightarrow> ''/v1/traces'')"
  by (erule dispatch_To) (auto simp: route_defs)

lemma dispatch_query:
  "dispatch verb path = To t \<Longrightarrow> t \<in> {Get_Facts, Get_Traces, Get_Tasks, Get_Manifests} \<Longrightarrow>
     verb = ''GET'' \<and> (path, t) \<in> set QUERY_PATHS"
  by (erule dispatch_To) (auto simp: route_defs)

text \<open>
  C35: reading does not write.  A request that is not a POST to one of the two OTLP routes leaves
  the database as it is, whatever its path, headers, parameters and body and whatever the
  answer; and a request that is not a GET of one of the four query routes leaves the leases and
  cursors of the query service as they are.
\<close>

theorem reading_does_not_write:
  assumes "serve su connected clock r p = (a, p')"
  shows "(\<not> (hr_method r = ''POST'' \<and> hr_path r \<in> {''/v1/logs'', ''/v1/traces''}) \<longrightarrow> ru_db p' = ru_db p) \<and>
    (\<not> (hr_method r = ''GET'' \<and> hr_path r \<in> fst ` set QUERY_PATHS) \<longrightarrow> ru_query p' = ru_query p) \<and>
    ru_ingestor p' = ru_ingestor p"
  using assms
proof (cases rule: serve_cases)
  case (2 sig)
  from dispatch_ingest [OF 2(1)] serve_ingest_db(2,3) [OF 2(2)] show ?thesis by (cases sig) simp_all
next
  case (3 target)
  from dispatch_query [OF 3(1,2)] serve_query_db [OF 3(3)] show ?thesis by force
qed simp

theorem reading_does_not_write_witness:
  "ru_db (snd (serve quiet True (\<lambda>_. 0) (bare ''GET'' ''/v1/evidence/facts'') started)) = empty_db"
proof -
  have "ru_db (snd (serve quiet True (\<lambda>_. 0) (bare ''GET'' ''/v1/evidence/facts'') started)) = ru_db started"
    using reading_does_not_write [of quiet True "\<lambda>_. 0" "bare ''GET'' ''/v1/evidence/facts''" started, OF surjective_pairing]
    by (simp add: bare_def)
  then show ?thesis by (simp add: started_def)
qed

section \<open>Answers below the evidence path\<close>

lemma dispatch_evidence:
  assumes "starts_with path ''/v1/evidence/''"
  shows "dispatch verb path =
    (if verb \<notin> set (''GET'' # OTHER_METHODS) then Wrong_Method
     else case map_of QUERY_PATHS path of
        None \<Rightarrow> To Refuse_Route
      | Some t \<Rightarrow> To (if verb = ''GET'' then t else Refuse_Method))"
proof -
  have "path \<noteq> ''/healthz''" "path \<noteq> ''/v1/logs''" "path \<noteq> ''/v1/traces''"
    using assms by (auto simp: starts_with_code)
  with assms show ?thesis by (auto simp: dispatch_def route_defs)
qed

definition error_content :: "query_code \<Rightarrow> json_response \<Rightarrow> bool" where
  "error_content c a \<longleftrightarrow> jr_status a = ERROR_STATUS c \<and> (\<exists>m. length m \<le> 256 \<and>
     jr_content a = VDict [(''error'', VDict [(''code'', VStr (code_text c)), (''message'', VStr m)])])"

lemma error_response_content: "error_content c (error_response c m)"
  unfolding error_content_def by (intro conjI exI [of _ "take 256 m"]) (simp_all add: error_response_def)

lemma answered_error_content: "\<exists>c. error_content c (answered_error e)"
proof -
  obtain c m where "answered_error e = error_response c m" by (cases e) (auto simp: answered_error_def)
  with error_response_content show ?thesis by metis
qed

lemma query_handler_answers:
  assumes "query_handler su connected now db target r q = (a, q')"
  shows "jr_status a = 200 \<or> (\<exists>c. error_content c a)"
proof -
  from assms obtain call where "handle_query (su_renders su) call r q = (a, q')"
    by (cases target) (auto simp: query_handler_def Let_def get_facts_def get_traces_def get_tasks_def get_manifests_def)
  from handle_query_answers [OF this] answered_error_content show ?thesis by blast
qed

text \<open>
  C36: every answer below the evidence path is one of the contract.  Whatever the method, the
  rest of the path, the headers, the body and the state of the process, the answer is JSON: a
  result with status 200, only for a GET of one of the four routes, or an error object whose
  status belongs to its code.  Other methods of those four routes get METHOD_NOT_ALLOWED, other
  paths ROUTE_NOT_FOUND when the method is a usual one and METHOD_NOT_ALLOWED otherwise.
\<close>

theorem evidence_answers_closed:
  assumes "starts_with (hr_path r) ''/v1/evidence/''" "serve su connected clock r p = (a, p')"
  shows "\<exists>j. a = Json_Answer j \<and>
    (if hr_path r \<in> fst ` set QUERY_PATHS \<and> hr_method r = ''GET''
     then jr_status j = 200 \<or> (\<exists>c. error_content c j)
     else error_content (if hr_path r \<in> fst ` set QUERY_PATHS \<or> hr_method r \<notin> set (''GET'' # OTHER_METHODS)
                         then METHOD_NOT_ALLOWED else ROUTE_NOT_FOUND) j)"
proof -
  note known = dispatch_evidence [OF assms(1), of "hr_method r"]
  have there: "map_of QUERY_PATHS path = None \<longleftrightarrow> path \<notin> fst ` set QUERY_PATHS" for path
    by (rule map_of_eq_None_iff)
  consider "hr_method r \<notin> set (''GET'' # OTHER_METHODS)"
    | "hr_method r \<in> set OTHER_METHODS" "hr_path r \<in> fst ` set QUERY_PATHS"
    | "hr_method r \<in> set (''GET'' # OTHER_METHODS)" "hr_path r \<notin> fst ` set QUERY_PATHS"
    | "hr_method r = ''GET''" "hr_path r \<in> fst ` set QUERY_PATHS" by auto
  then show ?thesis
  proof cases
    case 1
    with known have "dispatch (hr_method r) (hr_path r) = Wrong_Method" by simp
    with assms 1 error_response_content show ?thesis by (auto simp: serve_def query_transport_error_def)
  next
    case 2
    then obtain t where "map_of QUERY_PATHS (hr_path r) = Some t" using there by blast
    moreover have "hr_method r \<noteq> ''GET''" using 2(1) by (auto simp: OTHER_METHODS_def)
    ultimately have "dispatch (hr_method r) (hr_path r) = To Refuse_Method" using known 2(1) by simp
    with assms(2) 2 error_response_content \<open>hr_method r \<noteq> ''GET''\<close> show ?thesis
      by (auto simp: serve_def method_not_allowed_def)
  next
    case 3
    then have "map_of QUERY_PATHS (hr_path r) = None" using there by blast
    with known 3(1) have "dispatch (hr_method r) (hr_path r) = To Refuse_Route" by simp
    with assms(2) 3 error_response_content show ?thesis by (auto simp: serve_def route_not_found_def)
  next
    case 4
    then obtain t where t: "map_of QUERY_PATHS (hr_path r) = Some t" using there by blast
    with known 4(1) have to: "dispatch (hr_method r) (hr_path r) = To t" by simp
    from map_of_SomeD [OF t] have "t \<in> {Get_Facts, Get_Traces, Get_Tasks, Get_Manifests}"
      by (auto simp: QUERY_PATHS_def)
    with to assms(2) obtain target where "serve_query su connected (clock 0) target r p = (a, p')"
      by (cases t) (auto simp: serve_def)
    then show ?thesis using 4 by (auto simp: serve_query_def split: prod.splits dest: query_handler_answers)
  qed
qed

lemma refused_request:
  "serve su connected clock (bare ''DELETE'' ''/v1/evidence/facts'') p = (Json_Answer method_not_allowed, p)"
proof -
  have "dispatch ''DELETE'' ''/v1/evidence/facts'' = To Refuse_Method"
    by (simp add: dispatch_def route_defs)
  then show ?thesis by (simp add: serve_def bare_def)
qed

theorem evidence_answers_closed_witness:
  "error_content METHOD_NOT_ALLOWED method_not_allowed \<and> jr_status method_not_allowed = 405"
proof -
  have path: "starts_with (hr_path (bare ''DELETE'' ''/v1/evidence/facts'')) ''/v1/evidence/''"
    by (simp add: bare_def starts_with_code)
  have "hr_path (bare ''DELETE'' ''/v1/evidence/facts'') \<in> fst ` set QUERY_PATHS"
    by (simp add: bare_def QUERY_PATHS_def)
  with evidence_answers_closed [OF path refused_request [of quiet True "\<lambda>_. 0" started]]
  have "error_content METHOD_NOT_ALLOWED method_not_allowed" by (simp add: bare_def)
  then show ?thesis by (simp add: method_not_allowed_def error_response_def ERROR_STATUS_def)
qed

end
