(* ===== verification/Json_Pretty.thy ===== *)
theory Json_Pretty
  imports Json_Round_Trip
begin

text \<open>
  \<open>json.dumps\<close> as the release adapter calls it (\<open>release/cli/release.py\<close>): ASCII only, with an
  indentation or with compact separators, and that \<open>json.loads\<close> reads back what it writes.  A text
  is its UTF-8 bytes, so the code points to escape are decoded first.
\<close>

section \<open>Code points and their escapes\<close>

definition continuation :: "string \<Rightarrow> nat \<Rightarrow> nat" where
  "continuation s i = (if i < length s then ord_of (s ! i) - 128 else 0)"

fun code_points :: "string \<Rightarrow> nat list" where
  "code_points [] = []"
| "code_points (c # s) =
     (if ord_of c < 128 then ord_of c # code_points s
      else if ord_of c < 224 then ((ord_of c - 192) * 64 + continuation s 0) # code_points (drop 1 s)
      else if ord_of c < 240 then
        ((ord_of c - 224) * 4096 + continuation s 0 * 64 + continuation s 1) # code_points (drop 2 s)
      else ((ord_of c - 240) * 262144 + continuation s 0 * 4096 + continuation s 1 * 64 + continuation s 2)
             # code_points (drop 3 s))"

definition unicode_escape :: "nat \<Rightarrow> string" where
  "unicode_escape n = [CHR 0x5C, CHR ''u'', hex_digit (n div 4096), hex_digit (n div 256 mod 16),
     hex_digit (n div 16 mod 16), hex_digit (n mod 16)]"

definition escape_point :: "nat \<Rightarrow> string" where
  "escape_point n =
     (if n = 34 then [CHR 0x5C, CHR 0x22]
      else if n = 92 then [CHR 0x5C, CHR 0x5C]
      else if n = 10 then [CHR 0x5C, CHR ''n'']
      else if n = 13 then [CHR 0x5C, CHR ''r'']
      else if n = 9 then [CHR 0x5C, CHR ''t'']
      else if n = 12 then [CHR 0x5C, CHR ''f'']
      else if n = 8 then [CHR 0x5C, CHR ''b'']
      else if 32 \<le> n \<and> n \<le> 126 then [char_of n]
      else if n < 65536 then unicode_escape n
      else unicode_escape (55296 + (n - 65536) div 1024) @ unicode_escape (56320 + (n - 65536) mod 1024))"

definition ascii_string :: "string \<Rightarrow> string" where
  "ascii_string s = CHR 0x22 # concat (map escape_point (code_points s)) @ [CHR 0x22]"

text \<open>A well-formed text: the UTF-8 of code points that are no surrogates.\<close>

definition scalar :: "nat \<Rightarrow> bool" where
  "scalar n \<longleftrightarrow> n < 1114112 \<and> \<not> (55296 \<le> n \<and> n < 57344)"

definition utf8_text :: "string \<Rightarrow> bool" where
  "utf8_text s \<longleftrightarrow> list_all scalar (code_points s) \<and> concat (map utf8 (code_points s)) = s"

lemma ascii_text: "list_all (\<lambda>c. ord_of c < 128) s \<Longrightarrow> utf8_text s"
  by (induction s) (auto simp: utf8_text_def scalar_def utf8_def ord_of_def)

lemma code_unit_escape:
  assumes "n < 65536"
  shows "code_unit (hex_digit (n div 4096) # hex_digit (n div 256 mod 16) # hex_digit (n div 16 mod 16) #
    hex_digit (n mod 16) # r) = Some (n, r)"
proof -
  have "n div 4096 < 16" using assms by (simp add: less_mult_imp_div_less)
  moreover have "4096 * (n div 4096) + 256 * (n div 256 mod 16) + 16 * (n div 16 mod 16) + n mod 16 = n"
  proof -
    have "n div 16 div 16 = n div 256" "n div 256 div 16 = n div 4096" by (simp_all add: div_mult2_eq [symmetric])
    then show ?thesis
      using div_mult_mod_eq [of n 16] div_mult_mod_eq [of "n div 16" 16] div_mult_mod_eq [of "n div 256" 16]
      by linarith
  qed
  ultimately show ?thesis by (simp add: code_unit_def hex4_def hex_value_digit)
qed

lemma scan_simple_escape:
  assumes "simple_escape x = Some y" "x \<noteq> CHR ''u''"
  shows "scan_string (CHR 0x5C # x # r) = bind_result (scan_string r) (\<lambda>(t, z). Inr (y # t, z))"
  using assms by simp

lemma char_of_code: "ord_of c = n \<Longrightarrow> char_of n = c"
  by (auto simp: ord_of_def)

lemma short_chars:
  "char_of (34 :: nat) = CHR 0x22" "char_of (92 :: nat) = CHR 0x5C" "char_of (10 :: nat) = CHR 0x0A"
  "char_of (13 :: nat) = CHR 0x0D" "char_of (9 :: nat) = CHR 0x09" "char_of (12 :: nat) = CHR 0x0C"
  "char_of (8 :: nat) = CHR 0x08"
  by (rule char_of_code; simp add: ord_of_def)+

lemma short_escape:
  "n \<in> {34, 92, 10, 13, 9, 12, 8} \<Longrightarrow> \<exists>x y. escape_point n = [CHR 0x5C, x] \<and> simple_escape x = Some y \<and>
     x \<noteq> CHR ''u'' \<and> utf8 n = [y]"
  by (elim insertE emptyE; simp add: escape_point_def simple_escape_def utf8_def short_chars)

lemma scan_unit_pair:
  assumes "code_unit s = Some (hi, s')" "high_surrogate hi" "low_follows s' = Some (lo, r)"
  shows "scan_string (CHR 0x5C # CHR ''u'' # s) =
    bind_result (scan_string r) (\<lambda>(t, z). Inr (utf8 (65536 + (hi - 55296) * 1024 + (lo - 56320)) @ t, z))"
  using assms by simp

lemma scan_unit_alone:
  assumes "code_unit s = Some (n, r)" "\<not> high_surrogate n"
  shows "scan_string (CHR 0x5C # CHR ''u'' # s) = bind_result (scan_string r) (\<lambda>(t, z). Inr (utf8 n @ t, z))"
  using assms by simp

lemma unicode_escape_parts: "unicode_escape n @ r = CHR 0x5C # CHR ''u'' # drop 2 (unicode_escape n) @ r"
  by (simp add: unicode_escape_def)

lemma code_unit_parts: "n < 65536 \<Longrightarrow> code_unit (drop 2 (unicode_escape n) @ r) = Some (n, r)"
  by (simp add: unicode_escape_def code_unit_escape)

lemma scan_escaped_point:
  assumes "scalar n"
  shows "scan_string (escape_point n @ r) = bind_result (scan_string r) (\<lambda>(t, z). Inr (utf8 n @ t, z))"
proof -
  consider (short) "n \<in> {34, 92, 10, 13, 9, 12, 8}"
    | (plain) "n \<notin> {34, 92, 10, 13, 9, 12, 8}" "32 \<le> n" "n \<le> 126"
    | (unit) "n < 65536" "escape_point n = unicode_escape n"
    | (pair) "65536 \<le> n"
    by (cases "n \<in> {34, 92, 10, 13, 9, 12, 8}"; cases "32 \<le> n \<and> n \<le> 126"; cases "n < 65536")
      (auto simp: escape_point_def)
  then show ?thesis
  proof cases
    case short
    then obtain x y where "escape_point n = [CHR 0x5C, x]" "simple_escape x = Some y" "x \<noteq> CHR ''u''"
      "utf8 n = [y]" using short_escape by blast
    then show ?thesis by (simp del: scan_string.simps add: scan_simple_escape)
  next
    case plain
    then have ord: "ord_of (char_of n) = n" by (simp add: ord_of_def)
    moreover have "char_of n \<noteq> CHR 0x22"
    proof
      assume "char_of n = CHR 0x22"
      with ord have "n = 34" by (simp add: ord_of_def)
      with plain show False by simp
    qed
    moreover have "char_of n \<noteq> CHR 0x5C"
    proof
      assume "char_of n = CHR 0x5C"
      with ord have "n = 92" by (simp add: ord_of_def)
      with plain show False by simp
    qed
    ultimately show ?thesis using plain by (simp add: escape_point_def utf8_def)
  next
    case unit
    moreover have "\<not> high_surrogate n" using assms by (auto simp: scalar_def high_surrogate_def)
    ultimately show ?thesis
      using scan_unit_alone [OF code_unit_parts] by (simp only: unicode_escape_parts)
  next
    case pair
    let ?hi = "55296 + (n - 65536) div 1024" and ?lo = "56320 + (n - 65536) mod 1024"
    have n: "n < 1114112" using assms by (simp add: scalar_def)
    then have hi: "?hi < 56320" by (simp add: less_mult_imp_div_less)
    have lo: "?lo < 57344" using mod_less_divisor [of 1024 "n - 65536"] by linarith
    have whole: "65536 + (?hi - 55296) * 1024 + (?lo - 56320) = n"
    proof -
      have "(n - 65536) div 1024 * 1024 + (n - 65536) mod 1024 = n - 65536" by (rule div_mult_mod_eq)
      then show ?thesis using pair by (simp only: diff_add_inverse)
    qed
    have low: "low_follows (unicode_escape ?lo @ r) = Some (?lo, r)"
      using lo code_unit_parts [of ?lo r]
      by (simp add: low_follows_def unicode_escape_parts low_surrogate_def del: drop_append)
    have "high_surrogate ?hi" using hi by (simp add: high_surrogate_def)
    moreover have "code_unit (drop 2 (unicode_escape ?hi) @ unicode_escape ?lo @ r) = Some (?hi, unicode_escape ?lo @ r)"
      using hi by (intro code_unit_parts) simp
    moreover have "escape_point n @ r = unicode_escape ?hi @ unicode_escape ?lo @ r"
      using pair by (simp add: escape_point_def)
    ultimately show ?thesis
      using low whole scan_unit_pair by (simp only: unicode_escape_parts [of ?hi])
  qed
qed

lemma scan_ascii_string:
  assumes "utf8_text s"
  shows "scan_string (concat (map escape_point (code_points s)) @ CHR 0x22 # r) = Inr (s, r)"
proof -
  have "scan_string (concat (map escape_point ns) @ CHR 0x22 # r) = Inr (concat (map utf8 ns), r)"
    if "list_all scalar ns" for ns
    using that by (induction ns) (simp_all add: scan_escaped_point)
  with assms show ?thesis by (simp add: utf8_text_def)
qed

section \<open>The printer\<close>

text \<open>
  \<open>line\<close> is what stands before an element at a level and before a closing bracket, \<open>colon\<close> what
  stands between a key and its value.
\<close>

fun dumps_at :: "(nat \<Rightarrow> string) \<Rightarrow> string \<Rightarrow> nat \<Rightarrow> pyval \<Rightarrow> string result" where
  "dumps_at line colon k VNone = Inr ''null''"
| "dumps_at line colon k (VBool b) = Inr (if b then ''true'' else ''false'')"
| "dumps_at line colon k (VInt i) = int_text i"
| "dumps_at line colon k (VFloat Float_Nan) = Inr ''NaN''"
| "dumps_at line colon k (VFloat (Float_Inf neg)) = Inr (if neg then ''-Infinity'' else ''Infinity'')"
| "dumps_at line colon k (VFloat (Float_Dec neg c e)) = Inr (float_repr neg c e)"
| "dumps_at line colon k (VStr s) = Inr (ascii_string s)"
| "dumps_at line colon k (VList vs) =
     (if vs = [] then Inr ''[]''
      else bind_result (map_results (dumps_at line colon (Suc k)) vs) (\<lambda>ts.
        Inr (''['' @ join (map (\<lambda>t. line (Suc k) @ t) ts) @ line k @ '']'')))"
| "dumps_at line colon k (VTuple vs) =
     (if vs = [] then Inr ''[]''
      else bind_result (map_results (dumps_at line colon (Suc k)) vs) (\<lambda>ts.
        Inr (''['' @ join (map (\<lambda>t. line (Suc k) @ t) ts) @ line k @ '']'')))"
| "dumps_at line colon k (VDict d) =
     (if d = [] then Inr ''{}''
      else bind_result
        (map_results (\<lambda>kv. bind_result (dumps_at line colon (Suc k) (snd kv))
                           (\<lambda>t. Inr (ascii_string (fst kv) @ colon @ t))) d)
        (\<lambda>ts. Inr (''{'' @ join (map (\<lambda>t. line (Suc k) @ t) ts) @ line k @ ''}'')))"

definition new_line :: "nat \<Rightarrow> string" where
  "new_line k = CHR 0x0A # replicate (2 * k) CHR '' ''"

text \<open>\<open>json.dumps(v, indent=2)\<close> and \<open>json.dumps(v, separators=(",", ":"))\<close>.\<close>

definition dumps_indented :: "pyval \<Rightarrow> string result" where
  "dumps_indented = dumps_at new_line '': '' 0"

definition dumps_compact :: "pyval \<Rightarrow> string result" where
  "dumps_compact = dumps_at (\<lambda>_. []) '':'' 0"

section \<open>Reading back\<close>

text \<open>Values whose text denotes them: no floats, no tuples, well-formed texts, distinct keys.\<close>

fun readable :: "pyval \<Rightarrow> bool" where
  "readable (VFloat f) = False"
| "readable (VTuple vs) = False"
| "readable (VStr s) = utf8_text s"
| "readable (VList vs) = list_all readable vs"
| "readable (VDict d) = (distinct (map fst d) \<and> list_all (\<lambda>kv. utf8_text (fst kv) \<and> readable (snd kv)) d)"
| "readable v = True"

text \<open>White space that may follow a number.\<close>

definition white :: "string \<Rightarrow> bool" where
  "white w \<longleftrightarrow> list_all is_space w \<and> (w = [] \<or> hd w = CHR 0x0A)"

lemma white_new_line: "white (new_line k)" "white []"
  by (simp_all add: white_def new_line_def is_space_def list_all_iff)

lemma skip_white: "white w \<Longrightarrow> skip_ws (w @ r) = skip_ws r"
  by (simp add: white_def skip_ws_def list_all_iff dropWhile_append2)

lemma skip_white_value: "white w \<Longrightarrow> starts_value t \<Longrightarrow> skip_ws (w @ t @ r) = t @ r"
  by (simp add: skip_white starts_value_skip)

lemma ends_number_white: "white w \<Longrightarrow> c \<in> {CHR '','', CHR '']'', CHR ''}''} \<Longrightarrow> ends_number (w @ c # r)"
  by (cases w) (auto simp: white_def ends_number_def)

lemma ascii_string_starts: "starts_value (ascii_string s)"
  by (simp add: starts_value_def ascii_string_def is_space_def)

lemma dumps_at_starts: "dumps_at line colon k v = Inr t \<Longrightarrow> readable v \<Longrightarrow> starts_value t"
  using int_str_starts ascii_string_starts
  by (cases v) (auto simp: int_text_def starts_value_def is_space_def bind_result_Inr_iff split: if_splits)

abbreviation placed :: "string \<Rightarrow> string list \<Rightarrow> string" where
  "placed w ts \<equiv> join (map (\<lambda>t. w @ t) ts)"

lemma placed_Cons: "ts \<noteq> [] \<Longrightarrow> placed w (t # ts) = w @ t @ '','' @ placed w ts"
  by (cases ts) simp_all

lemma skip_placed:
  assumes "ts \<noteq> []" "white w" "starts_value (hd ts)"
  obtains r where "placed w ts = w @ hd ts @ r" "skip_ws (placed w ts @ z) = hd ts @ r @ z"
proof (cases "tl ts = []")
  case True
  with assms(1) have "placed w ts = w @ hd ts @ []" by (cases ts) auto
  with skip_white_value [OF assms(2,3), of z] show thesis by (intro that [of "[]"]) simp_all
next
  case False
  with assms(1) have p: "placed w ts = w @ hd ts @ '','' @ placed w (tl ts)"
    using placed_Cons [OF False] by (cases ts) auto
  with skip_white_value [OF assms(2,3), of "'','' @ placed w (tl ts) @ z"] show thesis
    by (intro that [of "'','' @ placed w (tl ts)"]) simp_all
qed

lemma placed_elements_read_back:
  assumes "ts \<noteq> []" "list_all2 (reads_back h) ts vs" "list_all starts_value ts" "white w" "white w'"
    and "2 * length (placed w ts) + 1 \<le> n"
  shows "parse_elements h n acc (skip_ws (placed w ts @ w' @ CHR '']'' # r)) = Some (Inr (VList (acc @ vs), r))"
  using assms
proof (induction ts arbitrary: vs n acc)
  case (Cons t ts)
  from Cons.prems(2) obtain v vs' where vs: "vs = v # vs'" and v: "reads_back h t v"
    and vs': "list_all2 (reads_back h) ts vs'" by (cases vs) auto
  from Cons.prems(6) obtain m where m: "n = Suc m" by (cases n) auto
  have t: "starts_value t" using Cons.prems(3) by simp
  show ?case
  proof (cases "ts = []")
    case True
    with vs' have "vs' = []" by simp
    moreover have "parse_value h m (t @ w' @ CHR '']'' # r) = Some (Inr (v, w' @ CHR '']'' # r))"
      using v Cons.prems(5,6) m True ends_number_white [of w' "CHR '']''" r] by (simp add: reads_back_def)
    moreover have "skip_ws (w' @ CHR '']'' # r) = CHR '']'' # r"
      using Cons.prems(5) by (simp add: skip_white) (simp add: skip_ws_def is_space_def)
    moreover have "skip_ws (w @ t @ w' @ CHR '']'' # r) = t @ w' @ CHR '']'' # r"
      by (rule skip_white_value [OF Cons.prems(4) t])
    ultimately show ?thesis using True vs m by (simp add: starts_with_Cons1 Let_def)
  next
    case False
    let ?rest = "placed w ts @ w' @ CHR '']'' # r"
    note j = placed_Cons [OF False, of w t]
    have "parse_value h m (t @ CHR '','' # ?rest) = Some (Inr (v, CHR '','' # ?rest))"
      using v Cons.prems(6) m j by (simp add: reads_back_def ends_number_def)
    moreover have "skip_ws (w @ t @ CHR '','' # ?rest) = t @ CHR '','' # ?rest"
      by (rule skip_white_value [OF Cons.prems(4) t])
    moreover have "parse_elements h m (acc @ [v]) (skip_ws ?rest) = Some (Inr (VList ((acc @ [v]) @ vs'), r))"
      using Cons.prems m j False by (intro Cons.IH vs') auto
    ultimately show ?thesis using vs m j
      by (simp add: skip_ws_def [of "CHR '','' # _"] is_space_def starts_with_Cons1 Let_def)
  qed
qed simp

abbreviation keyed :: "string \<Rightarrow> string \<times> string \<Rightarrow> string" where
  "keyed colon kt \<equiv> ascii_string (fst kt) @ colon @ snd kt"

lemma skip_colon:
  assumes "colon \<in> {'':'', '': ''}" "starts_value t"
  shows "skip_ws (colon @ t @ r) = colon @ t @ r \<and> starts_with (colon @ t @ r) '':'' \<and>
    skip_ws (drop 1 (colon @ t @ r)) = t @ r"
  using assms starts_value_skip [OF assms(2), of r]
  by (auto simp: skip_ws_def is_space_def starts_with_def)

lemma placed_members_read_back:
  assumes "kts \<noteq> []" "list_all2 (\<lambda>kt kv. fst kt = fst kv \<and> utf8_text (fst kv) \<and> reads_back h (snd kt) (snd kv)) kts kvs"
    and "list_all (\<lambda>kt. starts_value (snd kt)) kts" "keeps_distinct h" "colon \<in> {'':'', '': ''}"
    and "distinct (map fst (acc @ kvs))" "white w" "white w'"
    and "2 * length (placed w (map (keyed colon) kts)) + 1 \<le> n"
  shows "parse_members h n acc (skip_ws (placed w (map (keyed colon) kts) @ w' @ CHR ''}'' # r)) =
           Some (Inr (VDict (acc @ kvs), r))"
  using assms
proof (induction kts arbitrary: kvs n acc)
  case (Cons kt kts)
  obtain k t where kt: "kt = (k, t)" by force
  from Cons.prems(2) kt obtain v kvs' where kvs: "kvs = (k, v) # kvs'" and v: "reads_back h t v" and k: "utf8_text k"
    and kvs': "list_all2 (\<lambda>kt kv. fst kt = fst kv \<and> utf8_text (fst kv) \<and> reads_back h (snd kt) (snd kv)) kts kvs'"
    by (cases kvs) auto
  from Cons.prems(9) obtain m where m: "n = Suc m" by (cases n) auto
  have t: "starts_value t" using Cons.prems(3) kt by simp
  have at: "skip_ws (w @ keyed colon kt @ z) = ascii_string k @ colon @ t @ z" for z
    using skip_white_value [OF Cons.prems(7) ascii_string_starts, of k "colon @ t @ z"] kt by simp
  show ?case
  proof (cases "kts = []")
    case True
    with kvs' have "kvs' = []" by simp
    moreover have "parse_value h m (t @ w' @ CHR ''}'' # r) = Some (Inr (v, w' @ CHR ''}'' # r))"
      using v Cons.prems(8,9) m True kt ends_number_white [of w' "CHR ''}''" r] by (simp add: reads_back_def)
    moreover have "skip_ws (w' @ CHR ''}'' # r) = CHR ''}'' # r"
      using Cons.prems(8) by (simp add: skip_white) (simp add: skip_ws_def is_space_def)
    moreover have "h (acc @ [(k, v)]) = Inr (VDict (acc @ [(k, v)]))"
      using Cons.prems(4,6) kvs \<open>kvs' = []\<close> by (simp add: keeps_distinct_def)
    ultimately show ?thesis
      using True kvs m at [of "w' @ CHR ''}'' # r"] skip_colon [OF Cons.prems(5) t, of "w' @ CHR ''}'' # r"]
      by (simp add: ascii_string_def scan_ascii_string [OF k] starts_with_Cons1 Let_def)
  next
    case False
    let ?rest = "placed w (map (keyed colon) kts) @ w' @ CHR ''}'' # r"
    have j: "placed w (map (keyed colon) (kt # kts)) = w @ keyed colon kt @ '','' @ placed w (map (keyed colon) kts)"
      using placed_Cons [of "map (keyed colon) kts" w "keyed colon kt"] False by simp
    have "parse_value h m (t @ CHR '','' # ?rest) = Some (Inr (v, CHR '','' # ?rest))"
      using v Cons.prems(9) m j kt by (simp add: reads_back_def ends_number_def)
    moreover have "parse_members h m (acc @ [(k, v)]) (skip_ws ?rest) = Some (Inr (VDict ((acc @ [(k, v)]) @ kvs'), r))"
      using Cons.prems m j False kvs by (intro Cons.IH kvs') auto
    ultimately show ?thesis
      using kvs m j at [of "CHR '','' # ?rest"] skip_colon [OF Cons.prems(5) t, of "CHR '','' # ?rest"]
      by (simp add: ascii_string_def scan_ascii_string [OF k] skip_ws_def [of "CHR '','' # _"] is_space_def
          starts_with_Cons1 Let_def)
  qed
qed simp

lemma placed_list_read_back:
  assumes "ts \<noteq> []" "list_all2 (reads_back h) ts vs" "list_all starts_value ts" "white w" "white w'"
  shows "reads_back h (''['' @ placed w ts @ w' @ '']'') (VList vs)"
  unfolding reads_back_def
proof (intro allI impI)
  fix n r
  assume n: "2 * length (''['' @ placed w ts @ w' @ '']'') \<le> n" and r: "ends_number r"
  then obtain m where m: "n = Suc m" by (cases n) auto
  have hd: "starts_value (hd ts)" using assms(1,3) by (cases ts) auto
  obtain q where q: "skip_ws (placed w ts @ w' @ CHR '']'' # r) = hd ts @ q"
    using skip_placed [OF assms(1,4) hd, of "w' @ CHR '']'' # r"] by metis
  from starts_value_opens [OF hd, of q]
  have "\<not> starts_with (skip_ws (placed w ts @ w' @ CHR '']'' # r)) '']''" by (simp add: q)
  with placed_elements_read_back [OF assms, of m "[]" r] n m
  show "parse_value h n ((''['' @ placed w ts @ w' @ '']'') @ r) = Some (Inr (VList vs, r))"
    by (simp add: Let_def)
qed

lemma placed_dict_read_back:
  assumes "kts \<noteq> []" "list_all2 (\<lambda>kt kv. fst kt = fst kv \<and> utf8_text (fst kv) \<and> reads_back h (snd kt) (snd kv)) kts kvs"
    and "list_all (\<lambda>kt. starts_value (snd kt)) kts" "keeps_distinct h" "colon \<in> {'':'', '': ''}"
    and "distinct (map fst kvs)" "white w" "white w'"
  shows "reads_back h (''{'' @ placed w (map (keyed colon) kts) @ w' @ ''}'') (VDict kvs)"
  unfolding reads_back_def
proof (intro allI impI)
  fix n r
  let ?ts = "map (keyed colon) kts"
  assume n: "2 * length (''{'' @ placed w ?ts @ w' @ ''}'') \<le> n" and r: "ends_number r"
  then obtain m where m: "n = Suc m" by (cases n) auto
  have hd: "starts_value (hd ?ts)"
    using assms(1) by (cases kts) (auto simp: starts_value_def ascii_string_def is_space_def)
  obtain q where q: "skip_ws (placed w ?ts @ w' @ CHR ''}'' # r) = hd ?ts @ q"
    using skip_placed [OF _ assms(7) hd, of "w' @ CHR ''}'' # r"] assms(1) by (metis map_is_Nil_conv)
  from starts_value_opens [OF hd, of q]
  have "\<not> starts_with (skip_ws (placed w ?ts @ w' @ CHR ''}'' # r)) ''}''" unfolding q by blast
  with placed_members_read_back [OF assms(1-5) _ assms(7,8), of "[]" m r] assms(6) n m
  show "parse_value h n ((''{'' @ placed w ?ts @ w' @ ''}'') @ r) = Some (Inr (VDict kvs, r))"
    by (simp add: Let_def)
qed

lemma empty_read_back:
  "reads_back h ''[]'' (VList [])" "keeps_distinct h \<Longrightarrow> reads_back h ''{}'' (VDict [])"
  by (rule reads_backI; simp add: skip_ws_def is_space_def starts_with_Cons1 keeps_distinct_def Let_def)+

lemma ascii_string_reads_back: "utf8_text s \<Longrightarrow> reads_back h (ascii_string s) (VStr s)"
  by (rule reads_backI) (simp_all add: ascii_string_def scan_ascii_string)

lemma keyed_results:
  "map_results (\<lambda>kv. bind_result (f (snd kv)) (\<lambda>t. Inr (ascii_string (fst kv) @ colon @ t))) d = Inr ms \<Longrightarrow>
   \<exists>kts. ms = map (keyed colon) kts \<and> list_all2 (\<lambda>kt kv. fst kt = fst kv \<and> f (snd kv) = Inr (snd kt)) kts d"
proof (induction d arbitrary: ms)
  case (Cons kv d)
  then obtain t ms' where t: "f (snd kv) = Inr t" and ms: "ms = (ascii_string (fst kv) @ colon @ t) # ms'"
    and ms': "map_results (\<lambda>kv. bind_result (f (snd kv)) (\<lambda>t. Inr (ascii_string (fst kv) @ colon @ t))) d = Inr ms'"
    by (auto simp: bind_result_Inr_iff)
  from Cons.IH [OF ms'] obtain kts where "ms' = map (keyed colon) kts"
    "list_all2 (\<lambda>kt kv. fst kt = fst kv \<and> f (snd kv) = Inr (snd kt)) kts d" by blast
  with t ms show ?case by (intro exI [of _ "(fst kv, t) # kts"]) simp
qed simp

lemma dumps_at_reads_back:
  assumes "keeps_distinct h" "colon \<in> {'':'', '': ''}" "\<And>k. white (line k)"
    and "readable v" "dumps_at line colon k v = Inr t"
  shows "reads_back h t v"
  using assms(4,5)
proof (induction v arbitrary: k t rule: readable.induct)
  case (4 vs)
  show ?case
  proof (cases "vs = []")
    case True
    with "4.prems" empty_read_back(1) show ?thesis by simp
  next
    case False
    with "4.prems"(2) obtain ts where ts: "map_results (dumps_at line colon (Suc k)) vs = Inr ts"
      and t: "t = ''['' @ placed (line (Suc k)) ts @ line k @ '']''" by (auto simp: bind_result_Inr_iff)
    have "list_all2 (\<lambda>t v. reads_back h t v \<and> starts_value t) (map (\<lambda>t. t) ts) (map (\<lambda>v. v) vs)"
      using ts "4.IH" "4.prems"(1) by (induction vs arbitrary: ts) (auto simp: bind_result_Inr_iff intro: dumps_at_starts)
    then have all: "list_all2 (reads_back h) ts vs" "list_all starts_value ts"
      by (auto simp: list_all2_conv_all_nth list_all_length)
    from False all(1) have "ts \<noteq> []" by auto
    from placed_list_read_back [OF this all assms(3,3)] t show ?thesis by simp
  qed
next
  case (5 d)
  show ?case
  proof (cases "d = []")
    case True
    with "5.prems" empty_read_back(2) [OF assms(1)] show ?thesis by simp
  next
    case False
    with "5.prems"(2) obtain ms where ms: "map_results (\<lambda>kv. bind_result (dumps_at line colon (Suc k) (snd kv))
        (\<lambda>t. Inr (ascii_string (fst kv) @ colon @ t))) d = Inr ms"
      and t: "t = ''{'' @ placed (line (Suc k)) ms @ line k @ ''}''" by (auto simp: bind_result_Inr_iff)
    from keyed_results [OF ms] obtain kts where kts: "ms = map (keyed colon) kts"
      "list_all2 (\<lambda>kt kv. fst kt = fst kv \<and> dumps_at line colon (Suc k) (snd kv) = Inr (snd kt)) kts d" by blast
    have ok: "utf8_text (fst kv)" "readable (snd kv)" if "kv \<in> set d" for kv
      using "5.prems"(1) that by (auto simp: list_all_iff)
    have "list_all2 (\<lambda>kt kv. (fst kt = fst kv \<and> utf8_text (fst kv) \<and> reads_back h (snd kt) (snd kv)) \<and>
        starts_value (snd kt)) kts d"
      using kts(2) by (rule list.rel_mono_strong) (use "5.IH" ok dumps_at_starts in auto)
    then have all: "list_all2 (\<lambda>kt kv. fst kt = fst kv \<and> utf8_text (fst kv) \<and> reads_back h (snd kt) (snd kv)) kts d"
      "list_all (\<lambda>kt. starts_value (snd kt)) kts"
      by (auto simp: list_all2_conv_all_nth list_all_length)
    from False all(1) have "kts \<noteq> []" by auto
    from placed_dict_read_back [OF this all assms(1,2) _ assms(3,3)] "5.prems"(1) t kts(1) show ?thesis by simp
  qed
qed (auto simp: scalar_reads_back ascii_string_reads_back)

text \<open>The whole document, with the white space after it.\<close>

lemma json_loads_dumps:
  assumes "keeps_distinct h" "readable v" "dumps_at line colon k v = Inr t" "colon \<in> {'':'', '': ''}"
    and "\<And>k. white (line k)" "white z"
  shows "json_loads h (t @ z) = Inr v"
proof -
  have "ends_number z" using assms(6) by (auto simp: white_def ends_number_def)
  moreover have "2 * length t \<le> 2 * length (t @ z) + 2" by simp
  ultimately have "parse_value h (2 * length (t @ z) + 2) (t @ z) = Some (Inr (v, z))"
    using dumps_at_reads_back [OF assms(1,4,5,2,3)] unfolding reads_back_def by blast
  moreover have "skip_ws (t @ z) = t @ z"
    by (rule starts_value_skip [OF dumps_at_starts [OF assms(3,2)]])
  moreover have "skip_ws z = []" using skip_white [OF assms(6), of "[]"] by (simp add: skip_ws_def)
  ultimately show ?thesis by (simp add: json_loads_def json_loads_fuel_def)
qed

section \<open>What is written is ASCII\<close>

abbreviation ascii :: "string \<Rightarrow> bool" where
  "ascii s \<equiv> list_all (\<lambda>c. ord_of c < 128) s"

lemma literal_ascii: "ord_of (Char b0 b1 b2 b3 b4 b5 b6 False) < 128"
  by (cases b0; cases b1; cases b2; cases b3; cases b4; cases b5; cases b6) (simp_all add: ord_of_def)

lemma lower_hex_ascii: "is_lower_hex c \<Longrightarrow> ord_of c < 128"
  by (auto simp: is_lower_hex_def is_digit_def)

lemma unicode_escape_ascii: "n < 65536 \<Longrightarrow> ascii (unicode_escape n)"
proof -
  assume "n < 65536"
  then have "n div 4096 < 16" by (simp add: less_mult_imp_div_less)
  moreover have "ord_of CHR 0x5C < 128" "ord_of CHR ''u'' < 128" by (simp_all add: ord_of_def)
  ultimately show ?thesis using is_lower_hex_hex_digit [THEN lower_hex_ascii] by (simp add: unicode_escape_def)
qed

lemma escape_point_ascii:
  assumes "scalar n"
  shows "ascii (escape_point n)"
proof -
  have n: "n < 1114112" using assms by (simp add: scalar_def)
  then have "(n - 65536) div 1024 < 1024" by (simp add: less_mult_imp_div_less)
  moreover have "(n - 65536) mod 1024 < 1024" by simp
  ultimately have "ascii (unicode_escape (55296 + (n - 65536) div 1024))"
    "ascii (unicode_escape (56320 + (n - 65536) mod 1024))"
    by (intro unicode_escape_ascii; linarith)+
  then show ?thesis using unicode_escape_ascii [of n] by (simp add: escape_point_def ord_of_def)
qed

lemma ascii_string_ascii:
  assumes "utf8_text s"
  shows "ascii (ascii_string s)"
proof -
  have "list_all scalar ns \<Longrightarrow> ascii (concat (map escape_point ns))" for ns
    by (induction ns) (simp_all add: escape_point_ascii)
  with assms show ?thesis by (simp add: ascii_string_def utf8_text_def ord_of_def)
qed

lemma join_ascii: "list_all ascii ts \<Longrightarrow> ascii (join ts)"
  by (induction ts rule: join.induct) (simp_all add: ord_of_def)

lemma int_str_ascii: "ascii (int_str i)"
proof -
  have "ascii (nat_str n)" for n
    using nat_str_digits [of n] by (rule list.pred_mono_strong) (simp add: is_digit_def)
  then show ?thesis by (simp add: int_str_def ord_of_def)
qed

lemma dumps_at_ascii:
  assumes "\<And>k. ascii (line k)" "ascii colon" "readable v" "dumps_at line colon k v = Inr t"
  shows "ascii t"
  using assms(3,4)
proof (induction v arbitrary: k t rule: readable.induct)
  case (4 vs)
  show ?case
  proof (cases "vs = []")
    case False
    with "4.prems"(2) obtain ts where ts: "map_results (dumps_at line colon (Suc k)) vs = Inr ts"
      and t: "t = ''['' @ placed (line (Suc k)) ts @ line k @ '']''" by (auto simp: bind_result_Inr_iff)
    have "ascii u" if "u \<in> set ts" for u
      using map_results_origin [OF ts that] "4.IH" "4.prems"(1) by (auto simp: list_all_iff)
    then have "list_all ascii (map (\<lambda>t. line (Suc k) @ t) ts)" using assms(1) by (auto simp: list_all_iff)
    from join_ascii [OF this] assms(1) show ?thesis by (simp add: t ord_of_def)
  qed (use "4.prems" in \<open>auto simp: ord_of_def\<close>)
next
  case (5 d)
  show ?case
  proof (cases "d = []")
    case False
    with "5.prems"(2) obtain ms where ms: "map_results (\<lambda>kv. bind_result (dumps_at line colon (Suc k) (snd kv))
        (\<lambda>t. Inr (ascii_string (fst kv) @ colon @ t))) d = Inr ms"
      and t: "t = ''{'' @ placed (line (Suc k)) ms @ line k @ ''}''" by (auto simp: bind_result_Inr_iff)
    have "ascii u" if "u \<in> set ms" for u
    proof -
      from map_results_origin [OF ms that] obtain kv x where kv: "kv \<in> set d" "dumps_at line colon (Suc k) (snd kv) = Inr x"
        and u: "u = ascii_string (fst kv) @ colon @ x" by (auto simp: bind_result_Inr_iff)
      from "5.prems"(1) kv(1) have "utf8_text (fst kv)" "readable (snd kv)" by (auto simp: list_all_iff)
      with "5.IH" [OF kv(1) _ kv(2)] ascii_string_ascii assms(2) show ?thesis by (simp add: u)
    qed
    then have "list_all ascii (map (\<lambda>t. line (Suc k) @ t) ms)" using assms(1) by (auto simp: list_all_iff)
    from join_ascii [OF this] assms(1) show ?thesis by (simp add: t ord_of_def)
  qed (use "5.prems" in \<open>auto simp: ord_of_def\<close>)
qed (auto simp: ascii_string_ascii int_str_ascii int_text_def literal_ascii split: if_splits)

lemma dumps_indented_text:
  assumes "readable v" "dumps_indented v = Inr t"
  shows "utf8_text (t @ [CHR 0x0A])"
proof -
  have "ascii (new_line k)" for k by (simp add: new_line_def list_all_iff ord_of_def)
  moreover have "ascii '': ''" by (simp add: ord_of_def)
  ultimately have "ascii t" using dumps_at_ascii [OF _ _ assms(1) assms(2) [unfolded dumps_indented_def]] by blast
  then show ?thesis by (intro ascii_text) (simp add: ord_of_def)
qed

end
