(* ===== verification/Release.thy ===== *)
theory Release
  imports Query_Params Json_Pretty
begin

text \<open>
  The release adapter (\<open>release/cli/release.py\<close>) and the image qualification
  (\<open>release/validate_image_qualification.py\<close>): the checks that accept a release configuration,
  a directory of release files and the attestations of an image.  A directory is the list of its
  regular files with their bytes; reading it may fail, so may reading a text.  Building a
  release and the commands are in Release_Build.
\<close>

type_synonym directory = "(string \<times> string) list"

section \<open>Configuration\<close>

definition CONFIG_KEYS :: "string list" where
  "CONFIG_KEYS = [''schemaVersion'', ''repository'', ''releaseBranch'', ''triggerBranch'', ''assetMode'',
     ''acceptanceCommand'', ''buildCommand'', ''verifyCommand'', ''publisherAdapter'',
     ''remoteInstallMode'', ''stablePolicy'', ''capabilities'']"

definition OCI_DIGEST :: re where
  "OCI_DIGEST = Seq (lits ''sha256:'') (Rep (Class hex_class) 64 64)"

definition RELEASE_BRANCH :: re where
  "RELEASE_BRANCH =
     (let c = Class [(CHR ''a'', CHR ''z''), (CHR ''0'', CHR ''9''), (CHR ''.'', CHR ''.''),
        (CHR ''_'', CHR ''_''), (CHR ''-'', CHR ''-'')]
      in Seq (lits ''release/'') (Seq c (Star c)))"

definition release_error :: "string \<Rightarrow> py_error" where
  "release_error m = Runtime_Error m"

text \<open>A pattern is matched against a text only; a set has hashable members only (\<open>hashable\<close>).\<close>

definition match_text :: "re \<Rightarrow> pyval \<Rightarrow> py_error \<Rightarrow> py_error option" where
  "match_text r v e = (case v of
       VStr s \<Rightarrow> require (fullmatch r s) e
     | _ \<Rightarrow> Some (Type_Error ''expected string or bytes-like object''))"

fun all_different :: "pyval list \<Rightarrow> bool" where
  "all_different [] = True"
| "all_different (v # vs) = (\<not> list_ex (\<lambda>w. w = v \<or> py_eq w v) vs \<and> all_different vs)"

definition capability_checks :: "pyval \<Rightarrow> py_error \<Rightarrow> py_error option" where
  "capability_checks v e = (case v of
       VList vs \<Rightarrow> first_error
         [require (vs \<noteq> []) e,
          require (list_all hashable vs) (Type_Error ''unhashable type''),
          require (all_different vs) e]
     | _ \<Rightarrow> Some e)"

definition assert_configuration :: "pydict \<Rightarrow> py_error option" where
  "assert_configuration value =
     (let e = release_error ''RELEASE_CONFIGURATION_INVALID'' in first_error
        [require (set (map fst value) = set CONFIG_KEYS) e,
         require (dget value ''schemaVersion'' = VStr ''wsr.release-component@1.0.0'') e,
         require (dget value ''releaseBranch'' = VStr ''main'') e,
         match_text RELEASE_BRANCH (dget value ''triggerBranch'') e,
         require (dget value ''stablePolicy'' = VStr ''qualified-candidate-exact-assets'') e,
         capability_checks (dget value ''capabilities'') e])"

definition lifecycle_failures :: "(string \<times> string) list" where
  "lifecycle_failures =
     [(''digest-mismatch'', ''RELEASE_ARTIFACT_DIGEST_MISMATCH''), (''tag-collision'', ''RELEASE_TAG_COLLISION''),
      (''permission-denied'', ''RELEASE_PERMISSION_DENIED''),
      (''builtin-token-final-publish'', ''RELEASE_APP_TOKEN_REQUIRED'')]"

definition simulate_lifecycle :: "string \<Rightarrow> string result" where
  "simulate_lifecycle scenario =
     (if scenario \<in> {''happy'', ''candidate-main-divergence''} then Inr ''STABLE''
      else if scenario = ''npm-partial-failure'' then Inr ''UNSUPPORTED_SCENARIO''
      else (case map_of lifecycle_failures scenario of
          Some e \<Rightarrow> Inl (release_error e)
        | None \<Rightarrow> Inl (release_error ''RELEASE_SCENARIO_UNKNOWN'')))"

section \<open>Release files\<close>

definition file_digest :: "string \<Rightarrow> string" where
  "file_digest bytes = ''sha256:'' @ sha256_hex bytes"

definition RELEASE_KEYS :: "string list" where
  "RELEASE_KEYS = [''schemaVersion'', ''version'', ''ociDigest'', ''artifacts'']"

definition metadata_invalid :: py_error where
  "metadata_invalid = release_error ''RELEASE_METADATA_INVALID''"

text \<open>
  \<open>json.loads\<close> of the text of a file: a missing file and a malformed text are the same error; bytes
  that are not UTF-8 raise \<open>UnicodeDecodeError\<close>, a \<open>ValueError\<close> that is not caught.
\<close>

definition read_text :: "string \<Rightarrow> string result" where
  "read_text bytes = check_then (require (utf8_text bytes) (Value_Error ''invalid UTF-8'')) (Inr bytes)"

definition load_json :: "string option \<Rightarrow> py_error \<Rightarrow> pyval result" where
  "load_json file e = (case file of
       None \<Rightarrow> Inl e
     | Some bytes \<Rightarrow> bind_result (read_text bytes) (\<lambda>t. case json_loads dict_hook t of
           Inl Json_Decode_Error \<Rightarrow> Inl e
         | r \<Rightarrow> r))"

text \<open>\<open>set(manifest)\<close> of any JSON value, and the subscript that follows.\<close>

definition manifest_fields :: "pyval \<Rightarrow> pydict result" where
  "manifest_fields v = (case v of
       VDict d \<Rightarrow> if set (map fst d) = set RELEASE_KEYS then Inr d else Inl metadata_invalid
     | VStr s \<Rightarrow> Inl metadata_invalid
     | VList vs \<Rightarrow>
         if \<not> list_all hashable vs then Inl (Type_Error ''unhashable type'')
         else if set vs = VStr ` set RELEASE_KEYS
         then Inl (Type_Error ''list indices must be integers or slices'')
         else Inl metadata_invalid
     | _ \<Rightarrow> Inl (Type_Error ''object is not iterable''))"

definition metadata_checks :: "pydict \<Rightarrow> py_error option list" where
  "metadata_checks d =
     [require (dget d ''schemaVersion'' = VStr ''wsr.evidence-release@1.0.0'') metadata_invalid,
      match_text VERSION (dget d ''version'') metadata_invalid,
      match_text OCI_DIGEST (dget d ''ociDigest'') metadata_invalid,
      require (is_list (dget d ''artifacts'')) metadata_invalid]"

definition expected_names :: "string \<Rightarrow> string list" where
  "expected_names version =
     [''wsr_evidence-'' @ version @ ''-py3-none-any.whl'', ''wsr_evidence-'' @ version @ ''.tar.gz'']"

definition artifact_name :: "pyval \<Rightarrow> pyval result" where
  "artifact_name v = (case v of
       VDict d \<Rightarrow> if hashable (dget d ''name'') then Inr (dget d ''name'')
         else Inl (Type_Error ''unhashable type'')
     | _ \<Rightarrow> Inl (Attribute_Error ''get''))"

text \<open>One artifact: its file exists and has the size and the digest that are stated.\<close>

definition artifact_check :: "directory \<Rightarrow> pyval \<Rightarrow> py_error option" where
  "artifact_check files v =
     (let d = the_dict v in
      case map_of files (the_str (dget d ''name'')) of
        None \<Rightarrow> Some (release_error ''RELEASE_ARTIFACT_DIGEST_MISMATCH'')
      | Some bytes \<Rightarrow>
          require (py_eq (dget d ''bytes'') (VInt (int (length bytes))) \<and>
                   dget d ''sha256'' = VStr (file_digest bytes))
            (release_error ''RELEASE_ARTIFACT_DIGEST_MISMATCH''))"

definition verify_manifest :: "directory \<Rightarrow> string result" where
  "verify_manifest files =
     bind_result (load_json (map_of files ''release-metadata.json'') metadata_invalid) (\<lambda>v.
     bind_result (manifest_fields v) (\<lambda>d.
     check_then (first_error (metadata_checks d))
       (let version = the_str (dget d ''version''); items = the_list (dget d ''artifacts'') in
        bind_result (map_results artifact_name items) (\<lambda>names.
        check_then (require (set names = VStr ` set (expected_names version))
                      (release_error ''RELEASE_ARTIFACT_SET_INVALID''))
        (check_then (first_error (map (artifact_check files) items)) (Inr version))))))"

section \<open>Image qualification\<close>

definition PLATFORMS :: "string list" where
  "PLATFORMS = [''linux/amd64'', ''linux/arm64'']"

definition BUILD_TYPE :: string where
  "BUILD_TYPE = ''https://github.com/moby/buildkit/blob/master/docs/attestations/slsa-definitions.md''"

definition SOURCE :: string where
  "SOURCE = ''https://github.com/firestige/wsr-evidence''"

text \<open>Subscripts along a path of keys.\<close>

fun at_path :: "pyval \<Rightarrow> string list \<Rightarrow> pyval result" where
  "at_path v [] = Inr v"
| "at_path v (k # ks) = (case v of
       VDict d \<Rightarrow> bind_result (item d k) (\<lambda>w. at_path w ks)
     | _ \<Rightarrow> Inl (Type_Error ''object is not subscriptable''))"

definition path_is :: "pyval \<Rightarrow> string list \<Rightarrow> string \<Rightarrow> bool" where
  "path_is v path s \<longleftrightarrow> at_path v path = Inr (VStr s)"

text \<open>A missing key, a value of another type and another text are the same error.\<close>

definition validate_provenance :: "pydict \<Rightarrow> string \<Rightarrow> py_error option" where
  "validate_provenance value product_commit =
     require (set (map fst value) = set PLATFORMS \<and> list_all (\<lambda>p.
        let build = [p, ''SLSA'', ''buildDefinition''];
            arguments = build @ [''externalParameters'', ''request'', ''root'', ''request'', ''args'']
        in path_is (VDict value) (build @ [''buildType'']) BUILD_TYPE \<and>
           path_is (VDict value) (arguments @ [''vcs:source'']) SOURCE \<and>
           path_is (VDict value) (arguments @ [''vcs:revision'']) product_commit \<and>
           path_is (VDict value) (arguments @ [''build-arg:WSR_RELEASE_REVISION'']) product_commit) PLATFORMS)
       (Runtime_Error ''EVIDENCE_IMAGE_PROVENANCE_INVALID'')"

definition validate_image_config :: "pydict \<Rightarrow> string \<Rightarrow> py_error option" where
  "validate_image_config value product_commit =
     require (set (map fst value) = set PLATFORMS \<and> list_all (\<lambda>p.
        let labels = [p, ''config'', ''Labels''] in
           path_is (VDict value) (labels @ [''org.opencontainers.image.source'']) SOURCE \<and>
           path_is (VDict value) (labels @ [''org.opencontainers.image.revision'']) product_commit) PLATFORMS)
       (Runtime_Error ''EVIDENCE_IMAGE_CONFIG_INVALID'')"

definition validate_remote :: "pydict \<Rightarrow> pydict \<Rightarrow> string \<Rightarrow> py_error option" where
  "validate_remote provenance image_config product_commit = first_error
     [validate_provenance provenance product_commit, validate_image_config image_config product_commit]"

definition load_qualification :: "string option \<Rightarrow> pydict result" where
  "load_qualification file =
     (let e = Runtime_Error ''EVIDENCE_IMAGE_QUALIFICATION_INPUT_INVALID'' in
      bind_result (load_json file e) (\<lambda>v.
        check_then (require (is_dict v) e) (Inr (the_dict v))))"

section \<open>What acceptance means\<close>

lemma artifact_check_None:
  "artifact_check files v = None \<longleftrightarrow> (\<exists>bytes. map_of files (the_str (dget (the_dict v) ''name'')) = Some bytes \<and>
     py_eq (dget (the_dict v) ''bytes'') (VInt (int (length bytes))) \<and>
     dget (the_dict v) ''sha256'' = VStr (file_digest bytes))"
  by (auto simp: artifact_check_def Let_def split: option.splits)

lemma artifact_names:
  assumes "map_results artifact_name items = Inr names"
  shows "names = map (\<lambda>v. dget (the_dict v) ''name'') items"
  using assms by (induction items arbitrary: names)
    (auto simp: bind_result_Inr_iff artifact_name_def split: pyval.splits if_splits)

lemma load_json_Inr:
  "load_json file e = Inr v \<longleftrightarrow> (\<exists>t. file = Some t \<and> utf8_text t \<and> json_loads dict_hook t = Inr v)"
  by (auto simp: load_json_def read_text_def bind_result_Inr_iff split: option.splits sum.splits py_error.splits)

lemma match_text_None: "match_text r v e = None \<longleftrightarrow> (\<exists>s. v = VStr s \<and> fullmatch r s)"
  by (cases v) (simp_all add: match_text_def)

lemma metadata_checks_None:
  "first_error (metadata_checks d) = None \<longleftrightarrow> dget d ''schemaVersion'' = VStr ''wsr.evidence-release@1.0.0'' \<and>
     (\<exists>s. dget d ''version'' = VStr s \<and> fullmatch VERSION s) \<and>
     (\<exists>s. dget d ''ociDigest'' = VStr s \<and> fullmatch OCI_DIGEST s) \<and> (\<exists>vs. dget d ''artifacts'' = VList vs)"
  by (simp add: metadata_checks_def match_text_None is_list_def split: pyval.splits)

lemma map_results_names:
  assumes "\<forall>v \<in> set items. \<exists>d. v = VDict d \<and> hashable (dget d ''name'')"
  shows "map_results artifact_name items = Inr (map (\<lambda>v. dget (the_dict v) ''name'') items)"
  using assms by (induction items) (auto simp: artifact_name_def)

lemma accepted_artifact:
  assumes "map_results artifact_name items = Inr names" "v \<in> set items"
    and "dget (the_dict v) ''name'' \<in> range VStr" "artifact_check files v = None"
  shows "\<exists>d name bytes. v = VDict d \<and> dget d ''name'' = VStr name \<and> map_of files name = Some bytes \<and>
     py_eq (dget d ''bytes'') (VInt (int (length bytes))) \<and> dget d ''sha256'' = VStr (file_digest bytes)"
proof -
  from map_results_Inr_set [OF assms(1,2)] obtain d where "v = VDict d"
    by (auto simp: artifact_name_def split: pyval.splits)
  with assms(3,4) show ?thesis by (auto simp: artifact_check_None)
qed

text \<open>
  C40: which release directories are verified.  A directory is verified as a version exactly when
  its metadata file is UTF-8 and JSON with the four keys, the schema, that version of three
  numbers and a SHA-256 of the image; its artifacts are objects, named as the wheel and as the
  source archive of that version and nothing else; and for every artifact the directory has a
  file of that name with the stated size and SHA-256.  Further files are not looked at.
\<close>

theorem verified_release:
  "verify_manifest files = Inr version \<longleftrightarrow> fullmatch VERSION version \<and> (\<exists>t m items oci.
    map_of files ''release-metadata.json'' = Some t \<and> utf8_text t \<and> json_loads dict_hook t = Inr (VDict m) \<and>
    fst ` set m = {''schemaVersion'', ''version'', ''ociDigest'', ''artifacts''} \<and>
    dget m ''schemaVersion'' = VStr ''wsr.evidence-release@1.0.0'' \<and> dget m ''version'' = VStr version \<and>
    dget m ''ociDigest'' = VStr oci \<and> fullmatch OCI_DIGEST oci \<and> dget m ''artifacts'' = VList items \<and>
    (\<lambda>v. dget (the_dict v) ''name'') ` set items = VStr ` set (expected_names version) \<and>
    (\<forall>v \<in> set items. \<exists>d name bytes. v = VDict d \<and> dget d ''name'' = VStr name \<and> map_of files name = Some bytes \<and>
       py_eq (dget d ''bytes'') (VInt (int (length bytes))) \<and> dget d ''sha256'' = VStr (file_digest bytes)))"
  (is "_ = Inr version \<longleftrightarrow> fullmatch VERSION version \<and> (\<exists>t m items oci. ?verified t m items oci)")
proof
  assume "verify_manifest files = Inr version"
  then obtain u d names where u: "load_json (map_of files ''release-metadata.json'') metadata_invalid = Inr u"
    and fields: "manifest_fields u = Inr d"
    and checks: "first_error (metadata_checks d) = None" "version = the_str (dget d ''version'')"
    and items: "map_results artifact_name (the_list (dget d ''artifacts'')) = Inr names"
      "set names = VStr ` set (expected_names version)"
      "first_error (map (artifact_check files) (the_list (dget d ''artifacts''))) = None"
    by (auto simp: verify_manifest_def Let_def bind_result_Inr_iff simp del: first_error_None_iff)
  from u obtain t where t: "map_of files ''release-metadata.json'' = Some t" "utf8_text t" "json_loads dict_hook t = Inr u"
    by (auto simp: load_json_Inr)
  from fields have d: "u = VDict d" "fst ` set d = {''schemaVersion'', ''version'', ''ociDigest'', ''artifacts''}"
    by (auto simp: manifest_fields_def RELEASE_KEYS_def split: pyval.splits if_splits)
  from checks(1) obtain x oci vs where m: "dget d ''schemaVersion'' = VStr ''wsr.evidence-release@1.0.0''"
      "dget d ''ociDigest'' = VStr oci" "fullmatch OCI_DIGEST oci" and l: "dget d ''artifacts'' = VList vs"
    and x: "dget d ''version'' = VStr x" "fullmatch VERSION x"
    unfolding metadata_checks_None by blast
  have "version = x" using checks(2) x(1) by simp
  with x have v: "fullmatch VERSION version" "dget d ''version'' = VStr version" by simp_all
  have vs: "the_list (dget d ''artifacts'') = vs" by (simp add: l)
  note items = items [unfolded vs]
  from items(2) artifact_names [OF items(1)]
  have named: "(\<lambda>v. dget (the_dict v) ''name'') ` set vs = VStr ` set (expected_names version)" by simp
  then have texts: "dget (the_dict v) ''name'' \<in> range VStr" if "v \<in> set vs" for v
    using that by blast
  have each: "\<forall>v \<in> set vs. \<exists>e name bytes. v = VDict e \<and> dget e ''name'' = VStr name \<and> map_of files name = Some bytes \<and>
       py_eq (dget e ''bytes'') (VInt (int (length bytes))) \<and> dget e ''sha256'' = VStr (file_digest bytes)"
    by (intro ballI accepted_artifact [OF items(1)]) (use items(3) in \<open>auto intro: texts\<close>)
  have "?verified t d vs oci"
    by (intro conjI t(1,2) t(3) [unfolded d(1)] d(2) m(1) v(2) m(2,3) l named each)
  then have "\<exists>t m items oci. ?verified t m items oci" by (intro exI)
  with v(1) show "fullmatch VERSION version \<and> (\<exists>t m items oci. ?verified t m items oci)" by (rule conjI)
next
  assume right: "fullmatch VERSION version \<and> (\<exists>t m items oci. ?verified t m items oci)"
  note version = right [THEN conjunct1]
  from right [THEN conjunct2] obtain t m items oci where all: "?verified t m items oci" by (elim exE)
  from all have loaded: "load_json (map_of files ''release-metadata.json'') metadata_invalid = Inr (VDict m)"
    by (simp add: load_json_Inr)
  from all have fields: "manifest_fields (VDict m) = Inr m"
    by (simp add: manifest_fields_def RELEASE_KEYS_def)
  from all version have checks: "first_error (metadata_checks m) = None"
    unfolding metadata_checks_None by simp
  from all have items: "the_list (dget m ''artifacts'') = items" "the_str (dget m ''version'') = version" by simp_all
  from all have each: "\<forall>v \<in> set items. \<exists>d name bytes. v = VDict d \<and> dget d ''name'' = VStr name \<and>
      map_of files name = Some bytes \<and> py_eq (dget d ''bytes'') (VInt (int (length bytes))) \<and>
      dget d ''sha256'' = VStr (file_digest bytes)" by (elim conjE)
  have "map_results artifact_name items = Inr (map (\<lambda>v. dget (the_dict v) ''name'') items)"
    by (rule map_results_names) (use each in force)
  moreover from each have "first_error (map (artifact_check files) items) = None"
    by (fastforce simp: artifact_check_None)
  moreover from all have "set (map (\<lambda>v. dget (the_dict v) ''name'') items) = VStr ` set (expected_names version)" by simp
  ultimately show "verify_manifest files = Inr version"
    using loaded fields checks items
    by (simp add: verify_manifest_def Let_def check_then_def del: first_error_None_iff)
qed

text \<open>A qualified image was built, on every platform, from the commit and by the builder that are expected.\<close>

lemma qualified_image:
  assumes "validate_remote provenance image_config commit = None" "p \<in> set PLATFORMS"
  shows "path_is (VDict provenance) [p, ''SLSA'', ''buildDefinition'', ''externalParameters'', ''request'',
      ''root'', ''request'', ''args'', ''vcs:revision''] commit"
    and "path_is (VDict image_config) [p, ''config'', ''Labels'', ''org.opencontainers.image.revision''] commit"
  using assms by (auto simp: validate_remote_def validate_provenance_def validate_image_config_def Let_def list_all_iff)

section \<open>A release\<close>

definition sample_artifact :: "string \<Rightarrow> pyval" where
  "sample_artifact name =
     VDict [(''name'', VStr name), (''bytes'', VInt 0), (''sha256'', VStr (file_digest []))]"

definition sample_metadata :: pydict where
  "sample_metadata = [(''schemaVersion'', VStr ''wsr.evidence-release@1.0.0''), (''version'', VStr ''1.2.0''),
     (''ociDigest'', VStr (''sha256:'' @ replicate 64 (CHR ''a''))),
     (''artifacts'', VList (map sample_artifact (expected_names ''1.2.0'')))]"

definition sample_directory :: "string \<Rightarrow> directory" where
  "sample_directory t = (''release-metadata.json'', t) # map (\<lambda>n. (n, [])) (expected_names ''1.2.0'')"

lemmas sample_simps = sample_metadata_def sample_artifact_def expected_names_def sample_directory_def

lemma hex_ascii: "hex_text n s \<Longrightarrow> list_all (\<lambda>c. ord_of c < 128) s"
  by (auto simp: hex_text_def list_all_iff is_lower_hex_def is_digit_def)

lemma ascii_append:
  "list_all (\<lambda>c. ord_of c < 128) s \<Longrightarrow> list_all (\<lambda>c. ord_of c < 128) t \<Longrightarrow> utf8_text (s @ t)"
  by (rule ascii_text) simp

lemma file_digest_text: "utf8_text (file_digest b)"
  unfolding file_digest_def using hex_text_sha256 [of b, THEN hex_ascii]
  by (intro ascii_append) (simp_all add: ord_of_def)

lemma key_texts: "utf8_text ''name''" "utf8_text ''bytes''" "utf8_text ''sha256''" "utf8_text ''schemaVersion''"
  "utf8_text ''version''" "utf8_text ''ociDigest''" "utf8_text ''artifacts''"
  "utf8_text ''wsr.evidence-release@1.0.0''"
  by (rule ascii_text; simp add: ord_of_def)+

lemma sample_patterns: "fullmatch VERSION ''1.2.0''" "fullmatch OCI_DIGEST (''sha256:'' @ replicate 64 (CHR ''a''))"
  by code_simp+

lemma sample_metadata_read: "\<exists>t. utf8_text t \<and> json_loads dict_hook t = Inr (VDict sample_metadata)"
proof -
  have "utf8_text ''1.2.0''" "utf8_text ''wsr_evidence-1.2.0-py3-none-any.whl''" "utf8_text ''wsr_evidence-1.2.0.tar.gz''"
    "utf8_text (''sha256:'' @ replicate 64 (CHR ''a''))"
    by (rule ascii_text; simp add: ord_of_def list_all_iff)+
  then have ok: "readable (VDict sample_metadata)"
    by (simp add: sample_simps key_texts file_digest_text)
  have "\<exists>t. dumps_indented (VDict sample_metadata) = Inr t"
    by (simp add: dumps_indented_def sample_simps int_text_def nat_str.simps)
  then obtain t where t: "dumps_indented (VDict sample_metadata) = Inr t" ..
  have "white [CHR 0x0A]" by (simp add: white_def is_space_def)
  from json_loads_dumps [OF dict_hook_keeps ok t [unfolded dumps_indented_def] _ white_new_line(1) this]
    dumps_indented_text [OF ok t] show ?thesis by blast
qed

theorem verified_release_witness:
  "\<exists>t. verify_manifest (sample_directory t) = Inr ''1.2.0'' \<and>
     verify_manifest (sample_directory t @ [(''other.whl'', ''x'')]) = Inr ''1.2.0''"
proof -
  obtain t where t: "utf8_text t" "json_loads dict_hook t = Inr (VDict sample_metadata)"
    using sample_metadata_read by blast
  have "verify_manifest (sample_directory t @ rest) = Inr ''1.2.0''" for rest
    by (rule verified_release [THEN iffD2])
       (use t sample_patterns in \<open>simp add: sample_simps dget_def scalar_eq_refl\<close>)
  from this [of "[]"] this [of "[(''other.whl'', ''x'')]"] show ?thesis by auto
qed

end
