(* ===== verification/Release_Build.thy ===== *)
theory Release_Build
  imports Release
begin

text \<open>
  Building a release (\<open>build_manifest\<close> of \<open>release/cli/release.py\<close>) and the command line (\<open>main\<close>).
  The external build is a parameter: it changes the directory and may fail.  The version of the
  project, which the TOML reader of the standard library finds in \<open>pyproject.toml\<close>, and the
  configuration file are arguments.  What is shown: a build succeeds exactly when the external
  build leaves the wheel and the source archive of the project's version and no other archive.
\<close>

section \<open>\<open>build_manifest\<close>\<close>

text \<open>
  \<open>file.suffix == ".whl"\<close>: the text from the last dot after the leading dots.  That is the rule of
  Python 3.14, which the repository names and releases with; 3.13 passes over one leading dot
  only, so the names of dots before \<open>whl\<close> differ.
\<close>

definition is_archive :: "string \<Rightarrow> bool" where
  "is_archive name \<longleftrightarrow> ends_with (dropWhile (\<lambda>c. c = CHR ''.'') name) ''.whl'' \<or> ends_with name ''.tar.gz''"

definition artifact_entry :: "string \<times> string \<Rightarrow> pyval" where
  "artifact_entry file = VDict [(''name'', VStr (fst file)), (''bytes'', VInt (int (length (snd file)))),
     (''sha256'', VStr (file_digest (snd file)))]"

definition built_artifacts :: "directory \<Rightarrow> pyval list" where
  "built_artifacts files = map artifact_entry (filter (\<lambda>file. is_archive (fst file)) (sort_key fst files))"

definition release_metadata :: "string \<Rightarrow> string \<Rightarrow> directory \<Rightarrow> pyval" where
  "release_metadata version oci_digest files =
     VDict [(''schemaVersion'', VStr ''wsr.evidence-release@1.0.0''), (''version'', VStr version),
       (''ociDigest'', VStr oci_digest), (''artifacts'', VList (built_artifacts files))]"

definition write_text :: "string \<Rightarrow> string \<Rightarrow> directory \<Rightarrow> directory" where
  "write_text name t files = (name, t) # filter (\<lambda>file. fst file \<noteq> name) files"

definition build_manifest ::
  "(directory \<Rightarrow> unit result \<times> directory) \<Rightarrow> string result \<Rightarrow> string \<Rightarrow> directory \<Rightarrow> string result \<times> directory" where
  "build_manifest uv_build project_version oci_digest files =
     (if \<not> fullmatch OCI_DIGEST oci_digest then (Inl (release_error ''RELEASE_OCI_DIGEST_INVALID''), files)
      else case project_version of
        Inl e \<Rightarrow> (Inl e, files)
      | Inr version \<Rightarrow> (case uv_build files of
          (Inl e, built) \<Rightarrow> (Inl e, built)
        | (Inr _, built) \<Rightarrow> (case dumps_indented (release_metadata version oci_digest built) of
            Inl e \<Rightarrow> (Inl e, built)
          | Inr t \<Rightarrow> (let written = write_text ''release-metadata.json'' (t @ [CHR 0x0A]) built
                     in (verify_manifest written, written)))))"

section \<open>The command line\<close>

datatype release_command = Config_Command | Simulate string | Build string | Verify

text \<open>\<open>set(value)\<close> of any JSON value and the method that follows, as \<open>assert_configuration\<close> has them.\<close>

definition configuration_of :: "pyval \<Rightarrow> pydict result" where
  "configuration_of v = (case v of
       VDict d \<Rightarrow> Inr d
     | VStr s \<Rightarrow> Inl (release_error ''RELEASE_CONFIGURATION_INVALID'')
     | VList vs \<Rightarrow>
         if \<not> list_all hashable vs then Inl (Type_Error ''unhashable type'')
         else if set vs = VStr ` set CONFIG_KEYS then Inl (Attribute_Error ''get'')
         else Inl (release_error ''RELEASE_CONFIGURATION_INVALID'')
     | _ \<Rightarrow> Inl (Type_Error ''object is not iterable''))"

definition run_command ::
  "(directory \<Rightarrow> unit result \<times> directory) \<Rightarrow> string result \<Rightarrow> string \<Rightarrow> release_command \<Rightarrow> directory \<Rightarrow>
   pyval result \<times> directory" where
  "run_command uv_build project_version config command files = (case command of
       Config_Command \<Rightarrow>
         (bind_result (read_text config) (\<lambda>t. bind_result (json_loads dict_hook t) (\<lambda>v.
          bind_result (configuration_of v) (\<lambda>d. check_then (assert_configuration d)
            (Inr (VDict [(''repository'', dget d ''repository''), (''status'', VStr ''PASS'')]))))), files)
     | Simulate scenario \<Rightarrow>
         (bind_result (simulate_lifecycle scenario) (\<lambda>state.
            Inr (VDict [(''scenario'', VStr scenario), (''state'', VStr state)])), files)
     | Build oci_digest \<Rightarrow> (case build_manifest uv_build project_version oci_digest files of
         (r, files') \<Rightarrow> (bind_result r (\<lambda>version.
            Inr (VDict [(''version'', VStr version), (''status'', VStr ''PASS'')])), files'))
     | Verify \<Rightarrow>
         (bind_result (verify_manifest files) (\<lambda>version.
            Inr (VDict [(''version'', VStr version), (''status'', VStr ''PASS'')])), files))"

text \<open>What is printed, or the exception, and the directory afterwards.\<close>

definition release_main ::
  "(directory \<Rightarrow> unit result \<times> directory) \<Rightarrow> string result \<Rightarrow> string \<Rightarrow> release_command \<Rightarrow> directory \<Rightarrow>
   string result \<times> directory" where
  "release_main uv_build project_version config command files =
     (case run_command uv_build project_version config command files of
        (r, files') \<Rightarrow> (bind_result r (\<lambda>v. bind_result (dumps_compact v) (\<lambda>t. Inr (t @ [CHR 0x0A]))), files'))"

section \<open>When a build succeeds\<close>

text \<open>What file systems give: distinct names that are texts, and sizes that Python can print.\<close>

definition directory_ok :: "directory \<Rightarrow> bool" where
  "directory_ok files \<longleftrightarrow> distinct (map fst files) \<and>
     list_all (\<lambda>file. utf8_text (fst file) \<and> length (nat_str (length (snd file))) \<le> 4300) files"

lemma oci_digest_text:
  assumes "fullmatch OCI_DIGEST s"
  shows "utf8_text s"
proof -
  from assms obtain h where s: "s = ''sha256:'' @ h" and "h \<in> words (Rep (Class hex_class) 64 64)"
    unfolding OCI_DIGEST_def fullmatch_iff by (auto simp only: words.simps lits_words)
  then have "list_all (\<lambda>c. ord_of c < 128) h" using fullmatch_hex hex_ascii by (metis fullmatch_iff)
  then show ?thesis unfolding s by (intro ascii_append) (simp_all add: ord_of_def)
qed

lemma map_results_total: "(\<And>x. x \<in> set xs \<Longrightarrow> \<exists>y. f x = Inr y) \<Longrightarrow> \<exists>ys. map_results f xs = Inr ys"
  by (induction xs) fastforce+

lemma built_member:
  "v \<in> set (built_artifacts files) \<longleftrightarrow> (\<exists>file \<in> set files. is_archive (fst file) \<and> v = artifact_entry file)"
  by (auto simp: built_artifacts_def)

lemma metadata_readable:
  assumes "directory_ok files" "utf8_text version" "utf8_text oci"
  shows "readable (release_metadata version oci files)"
proof -
  have "readable v" if "v \<in> set (built_artifacts files)" for v
    using that assms(1) by (auto simp: built_member directory_ok_def list_all_iff artifact_entry_def key_texts file_digest_text)
  then show ?thesis using assms(2,3) by (simp add: release_metadata_def key_texts list_all_iff)
qed

lemma metadata_printed:
  assumes "directory_ok files"
  shows "\<exists>t. dumps_indented (release_metadata version oci files) = Inr t"
proof -
  have "\<exists>t. dumps_at new_line '': '' 2 v = Inr t" if v: "v \<in> set (built_artifacts files)" for v
  proof -
    from v obtain f where "f \<in> set files" "v = artifact_entry f" by (auto simp: built_member)
    with assms show ?thesis by (auto simp: artifact_entry_def directory_ok_def list_all_iff int_text_def)
  qed
  from map_results_total [of "built_artifacts files" "dumps_at new_line '': '' 2", OF this] obtain ts
    where "map_results (dumps_at new_line '': '' 2) (built_artifacts files) = Inr ts" by blast
  then show ?thesis by (simp add: dumps_indented_def release_metadata_def numeral_2_eq_2)
qed

definition archive_names :: "directory \<Rightarrow> string list" where
  "archive_names files = filter is_archive (map fst files)"

lemma built_names:
  "map_results artifact_name (built_artifacts files) = Inr (map (\<lambda>file. VStr (fst file))
     (filter (\<lambda>file. is_archive (fst file)) (sort_key fst files)))"
proof -
  have "map_results artifact_name (map artifact_entry xs) = Inr (map (\<lambda>file. VStr (fst file)) xs)" for xs
    by (induction xs) (simp_all add: artifact_name_def artifact_entry_def)
  then show ?thesis by (simp add: built_artifacts_def)
qed

lemma built_name_set: "set (map (\<lambda>file. VStr (fst file)) (filter (\<lambda>file. is_archive (fst file)) (sort_key fst files))) =
    VStr ` set (archive_names files)"
  by (auto simp: archive_names_def)

lemma map_of_write_text: "map_of (write_text name t files) n = (if n = name then Some t else map_of files n)"
proof -
  have "n \<noteq> name \<Longrightarrow> map_of (filter (\<lambda>file. fst file \<noteq> name) files) n = map_of files n"
    by (induction files) auto
  then show ?thesis by (simp add: write_text_def)
qed

lemma built_checked:
  assumes "directory_ok files" "v \<in> set (built_artifacts files)"
  shows "artifact_check (write_text ''release-metadata.json'' t files) v = None"
proof -
  from assms(2) obtain name bytes where f: "(name, bytes) \<in> set files" "is_archive name"
    and v: "v = artifact_entry (name, bytes)" by (auto simp: built_member)
  have "\<not> is_archive ''release-metadata.json''" by (simp add: is_archive_def ends_with_code)
  with f have "name \<noteq> ''release-metadata.json''" by auto
  moreover have "map_of files name = Some bytes" using assms(1) f(1) by (simp add: directory_ok_def)
  ultimately show ?thesis by (simp add: artifact_check_None v artifact_entry_def map_of_write_text scalar_eq_refl)
qed

lemma build_verified:
  assumes "directory_ok built" "utf8_text version" "fullmatch OCI_DIGEST oci"
    and "dumps_indented (release_metadata version oci built) = Inr t"
  shows "verify_manifest (write_text ''release-metadata.json'' (t @ [CHR 0x0A]) built) =
    (if \<not> fullmatch VERSION version then Inl metadata_invalid
     else if set (archive_names built) \<noteq> set (expected_names version)
     then Inl (release_error ''RELEASE_ARTIFACT_SET_INVALID'')
     else Inr version)"
proof -
  have nl: "white [CHR 0x0A]" by (simp add: white_def is_space_def)
  note metadata = metadata_readable [OF assms(1,2) oci_digest_text [OF assms(3)]]
  from json_loads_dumps [OF dict_hook_keeps metadata assms(4) [unfolded dumps_indented_def] _ white_new_line(1) nl]
    dumps_indented_text [OF metadata assms(4)]
  have "load_json (map_of (write_text ''release-metadata.json'' (t @ [CHR 0x0A]) built) ''release-metadata.json'')
      metadata_invalid = Inr (release_metadata version oci built)"
    by (simp add: load_json_Inr map_of_write_text)
  moreover have "VStr ` set (archive_names built) = VStr ` set (expected_names version) \<longleftrightarrow>
      set (archive_names built) = set (expected_names version)"
    by (rule inj_image_eq_iff) (simp add: inj_def)
  moreover have "first_error (map (artifact_check (write_text ''release-metadata.json'' (t @ [CHR 0x0A]) built))
      (built_artifacts built)) = None"
    using built_checked [OF assms(1)] by auto
  ultimately show ?thesis
    using assms(3) built_names [of built] built_name_set [of built]
    by (simp add: verify_manifest_def release_metadata_def manifest_fields_def RELEASE_KEYS_def metadata_checks_def
        match_text_def first_error_Cons is_list_def require_def check_then_def bind_result_def Let_def insert_commute
        del: first_error_None_iff)
qed

text \<open>
  C39: when a build succeeds.  Suppose the external build finishes and leaves a directory.  Then
  the build of a release succeeds, with the project's version, exactly when the digest of the
  image is a SHA-256, the version has three numbers, and the archives in the directory are the
  wheel and the source archive of that version and no others; otherwise it fails with the first
  of the three errors.  Every file but the metadata is as the external build left it.
\<close>

theorem build_outcome:
  assumes "uv_build files = (Inr (), built)" "directory_ok built" "utf8_text version"
    and "build_manifest uv_build (Inr version) oci files = (r, files')"
  shows "r = (if \<not> fullmatch OCI_DIGEST oci then Inl (release_error ''RELEASE_OCI_DIGEST_INVALID'')
      else if \<not> fullmatch VERSION version then Inl metadata_invalid
      else if set (archive_names built) \<noteq> set (expected_names version)
      then Inl (release_error ''RELEASE_ARTIFACT_SET_INVALID'')
      else Inr version) \<and>
    (\<forall>name. name \<noteq> ''release-metadata.json'' \<longrightarrow>
       map_of files' name = map_of (if fullmatch OCI_DIGEST oci then built else files) name)"
proof (cases "fullmatch OCI_DIGEST oci")
  case True
  obtain t where t: "dumps_indented (release_metadata version oci built) = Inr t"
    using metadata_printed [OF assms(2)] by blast
  from assms(1,4) True t have "r = verify_manifest (write_text ''release-metadata.json'' (t @ [CHR 0x0A]) built)"
    and "files' = write_text ''release-metadata.json'' (t @ [CHR 0x0A]) built"
    by (auto simp: build_manifest_def Let_def)
  with build_verified [OF assms(2,3) True t] True show ?thesis by (simp add: map_of_write_text)
next
  case False
  with assms(4) show ?thesis by (simp add: build_manifest_def)
qed

text \<open>A build that leaves empty archives of version 1.2.0.\<close>

definition sample_build :: "directory \<Rightarrow> unit result \<times> directory" where
  "sample_build files = (Inr (), files @ map (\<lambda>name. (name, [])) (expected_names ''1.2.0''))"

theorem build_outcome_witness:
  "fst (build_manifest sample_build (Inr ''1.2.0'') (''sha256:'' @ replicate 64 (CHR ''a'')) []) = Inr ''1.2.0'' \<and>
   fst (build_manifest sample_build (Inr ''1.2.0'') (''sha256:'' @ replicate 64 (CHR ''a''))
     [(''wsr_evidence-1.1.0.tar.gz'', [])]) = Inl (release_error ''RELEASE_ARTIFACT_SET_INVALID'')"
proof -
  have version: "utf8_text ''1.2.0''" by (rule ascii_text) (simp add: ord_of_def)
  have names: "utf8_text ''wsr_evidence-1.2.0-py3-none-any.whl''" "utf8_text ''wsr_evidence-1.2.0.tar.gz''"
    "utf8_text ''wsr_evidence-1.1.0.tar.gz''"
    by (rule ascii_text; simp add: ord_of_def)+
  let ?oci = "''sha256:'' @ replicate 64 (CHR ''a'')"
  have built: "directory_ok (snd (sample_build []))" "directory_ok (snd (sample_build [(''wsr_evidence-1.1.0.tar.gz'', [])]))"
    using names by (simp_all add: directory_ok_def sample_build_def expected_names_def nat_str.simps)
  have ran: "sample_build files = (Inr (), snd (sample_build files))" for files by (simp add: sample_build_def)
  note archives = archive_names_def sample_build_def expected_names_def is_archive_def ends_with_code
  have "''wsr_evidence-1.1.0.tar.gz'' \<in> set (archive_names (snd (sample_build [(''wsr_evidence-1.1.0.tar.gz'', [])])))"
    "''wsr_evidence-1.1.0.tar.gz'' \<notin> set (expected_names ''1.2.0'')" by (simp_all add: archives)
  then have sets: "set (archive_names (snd (sample_build [(''wsr_evidence-1.1.0.tar.gz'', [])]))) \<noteq> set (expected_names ''1.2.0'')"
    "set (archive_names (snd (sample_build []))) = set (expected_names ''1.2.0'')"
    by (metis, simp add: archives)
  have "build_manifest sample_build (Inr ''1.2.0'') ?oci files =
      (fst (build_manifest sample_build (Inr ''1.2.0'') ?oci files),
       snd (build_manifest sample_build (Inr ''1.2.0'') ?oci files))" for files by simp
  note once = build_outcome [OF ran _ version this]
  show ?thesis using once [OF built(1)] once [OF built(2)] sets sample_patterns by auto
qed

end
