(* ===== verification/Spec2Isabelle.thy ===== *)
theory Spec2Isabelle
  imports Application Snapshot_Properties Lifecycle_Properties Release_Build
begin

text \<open>
  A verification development of the WSR evidence system (\<open>src/wsr_evidence\<close>) and its release
  tooling (\<open>release\<close>).

  The program.  Evidence takes OTLP logs and Spans over HTTP, decides which of them become
  accepted records, stores them once under their identity, derives facts and traces from them
  (projection effects), answers queries about the stored state through leased snapshots with
  cursors, and lets raw records and whole Deliveries expire.  The parts call each other in one
  line: \<open>transport/otlp.py\<close> decodes a request and calls \<open>AdmissionService.admit\<close> once per record;
  admission calls \<open>validate_record\<close>, \<open>claim_identity\<close>, \<open>project\<close> and \<open>apply_effects\<close> in one
  transaction of \<open>storage/postgresql.py\<close>; \<open>transport/query.py\<close> calls \<open>QueryService\<close>, which calls
  the snapshot adapter \<open>query/postgresql.py\<close>; the loop of \<open>retention/scheduler.py\<close> calls
  \<open>RetentionService\<close>, which plans and applies batches on \<open>retention/postgresql.py\<close>.  All of them
  meet in the database, here the record \<open>db\<close> of Storage: one list of rows per table.

  Representation.  A Python \<open>str\<close> is the list of its UTF-8 bytes, so that byte limits, digests and
  \<open>COLLATE "C"\<close> are what they are in the code; \<open>py_len\<close> counts code points.  A dynamic value is a
  \<open>pyval\<close> (None, bool, int, float, str, list, tuple, dict in insertion order).  Instants and
  durations are integers in microseconds.  An exception is a value of \<open>py_error\<close>; a function
  that may raise returns \<open>py_error + 'a\<close>, and a body that only checks is a list of optional errors
  of which the first counts (\<open>first_error\<close>, \<open>require\<close>), in the order of the statements.  A
  transaction is a function from the database to a result and a database, and an exception in it
  leaves the database it got.  Every operation is one atomic step.

  Foundations.
    Prelude: errors, checks, results, tables of rows, and the lemmas the other theories share.
    Py_Values: values, equality across number types, decimal numerals, dictionaries.
    Regex: the fragment of \<open>re\<close> that is used, with a matcher proved against its language.
    Sha256: \<open>hashlib.sha256\<close> on 32-bit words.
    Canonical, Json_Loads, Json_Round_Trip: \<open>canonical_bytes\<close>, \<open>json.dumps\<close>, \<open>json.loads\<close>, and
    that the second reads back what the first writes; Json_Pretty: the indented and the compact
    ASCII output of \<open>json.dumps\<close>, and that it is read back too.

  Admission (\<open>admission\<close>, \<open>projection\<close>, \<open>storage/postgresql.py\<close>, \<open>model.py\<close>).
    Profile: the constant tables of the observation profile and its patterns.
    Attributes, Event_Rules, Span_Rules, Manifest, Validation: \<open>validate_record\<close> in its parts.
    Projection, Projection_Facts: \<open>project\<close> and that every validated record has a projection.
    Storage: tables, \<open>claim_identity\<close>, \<open>apply_effects\<close>, membership, fences; \<open>store_ok\<close> is the
    invariant of keys, references and retirement.
    Admission: \<open>admit\<close> over the locale \<open>transaction_manager\<close>, interpreted on Storage.
    Otlp, Otlp_Facts, Otlp_Properties: decoding, batch budgets, the loop of a batch, responses.

  Retention (\<open>retention\<close>, \<open>storage/read_model.py\<close>).
    Read_Model: policies, truth states, expiry owners and their closed shapes, batch identities.
    Retention, Retention_Facts: planning and applying expiry and deletion, what a plan achieves.
    Retention_Service, Retention_Properties: \<open>run_once\<close> and the loop over the locale
    \<open>maintenance_port\<close>, interpreted on Retention.
    Retention_Progress: how many runs it takes until nothing that is due is left, over the locale
    \<open>draining\<close>, which has two interpretations: raw records and terminal anchors.
    Lifecycle, Lifecycle_Properties: admission and retention as an inductive step relation on
    databases, reachability, and a refinement to an abstract ledger that knows, for an
    identity, its digest and its Delivery, and which Deliveries are retired.

  Query (\<open>query\<close>, \<open>transport/query.py\<close>).
    Query_Params, Calendar: the normal form of parameters, timestamps and the civil calendar.
    Snapshot, Snapshot_Facts, Snapshot_Properties: leases, cursors, selection, order and pages;
    the invariant \<open>adapter_ok\<close> under the inductive relation \<open>adapter_step\<close>.
    Query_Shape: the resources of responses, what is withheld, completeness.
    Query_Service, Query_Facts, Query_Properties: the routes over the locale \<open>snapshot_model\<close>.
    The adapter meets it for any source of fresh texts (locale \<open>random_texts\<close>), interpreted on
    a source that computes a text not yet in use.
    Query_Http: headers, handlers and status codes.

  Database (\<open>migrations\<close>).  Migrations has the statements of the four revisions, in both
  directions, on schemas with rows.  Schema lays a \<open>db\<close> out in the tables they declare, says
  what it means that the rows satisfy the types, checks, keys and references of a schema, and
  relates \<open>delete_delivery\<close> to the DELETE statements of \<open>retention/postgresql.py\<close> with the
  declared actions.

  Composition.  Pipeline joins admission and query: what is accepted is found by a client that
  follows the pages.  Settings and Runtime read the environment; Runtime also says which
  services the application opens and closes.  Application has the routes in the order in which
  \<open>create_app\<close> registers them, the dispatch on them, the state \<open>running\<close> of a process (database,
  whether there is an ingestor, query service with its leases) and its life, a list of requests
  and retention runs in any order.  Release has the checks of release files and image
  attestations, Release_Build the build of a release and the commands of the adapter.  Samples
  has the concrete records the witnesses use.

  What is shown.  Of admission: it steps a registry of digests, is all or nothing, repeats
  without effect, keeps the store well formed, and establishes the projection.  Of the life of
  the database: every reachable database is well formed and satisfies the schema of the
  migrations, accepted digests are permanent, retirement is final, downgrades undo upgrades.
  Of retention: exactly what an expiry and a deletion change, that planned batches apply, that a
  run and the loop are safe, that enough runs leave nothing behind that was due, that the
  deletions follow the declared references, and when an oversized identity stops every run.
  Of OTLP: decoding loses nothing of what is admitted, a batch is a run of admissions, retries
  and refusals change nothing, and an exception keeps the records before the one that raised
  it.  Of queries: pages partition the snapshot, leases are bounded and never leak, a cursor
  serves its own query only for as long as the service runs, and expired, unavailable or
  tampered content is not disclosed.  Of the application: the database of a process is always reachable, only
  the two OTLP routes write, and every answer below \<open>/v1/evidence/\<close> is one of the contract.
  Of releases: when a build succeeds, and which directories are verified.

  Bounds and fuel.  \<open>parse_value\<close> of Json_Loads has fuel \<open>2 * length s + 2\<close>, and it never runs
  out (last section there).  \<open>walk\<close>, a client that follows cursors, has one unit of fuel for
  each effect of the database; every page but the last holds at least one row, so it never runs
  out either, which the theorems on pages state as a returned list.  Python's limit of 4300
  digits for the conversion of integers is kept; its limit of nesting is not.

  Parameters (the record \<open>surroundings\<close> of Application).  What protobuf does (\<open>parse\<close>,
  \<open>serialize\<close>, names of enum numbers), the collation of the database as sort keys \<open>coll\<close>, the
  random texts of snapshot ids and cursors, whether the pool gives a connection, whether a
  response can be rendered, and how the storage is opened; for a release, the external build.
  Hypotheses on them: sort keys of different texts differ, random texts are not in use yet.

  Not modelled.  Locks, the connection pool and interleavings inside an operation: PostgreSQL
  and asyncio serialise them, and the development takes that as given.  The web framework's
  own documentation pages, the parsing of command lines, logging.  Alembic, which runs the
  migrations, and \<open>uv\<close>, which builds a release (a parameter of \<open>build_manifest\<close>).
  \<open>errors.py\<close>, whose codes are used nowhere, and \<open>clock.py\<close>, as every operation gets its instant.  Lone surrogates occur only where JSON
  or OTLP brings them in; decimal digits beyond ASCII, which \<open>isdigit\<close>, \<open>int\<close> and the digit
  class of patterns also accept, are not read as digits.  An int and a float are compared by the
  shortest decimal of the float (\<open>py_eq\<close>).  A comparison of rows in SQL with a NULL in a sort
  column (\<open>beyond\<close>) does not arise, as no key of an effect is NULL.  Where Python 3.13 and 3.14
  differ, the model follows 3.14 (\<open>is_archive\<close>).
\<close>

end
